(* ===== verification/Prelude.thy ===== *)
theory Prelude
  imports
    Main
    "HOL-Library.AList"
    "HOL-Library.Char_ord"
    "HOL-Library.List_Lexorder"
    "HOL-Library.Word"
begin

text \<open>
  Shared vocabulary of the development: the result type of the adapters (a pair of a success
  flag and an optional error text, as in \<open>std::tuple<bool, std::optional<std::string>>\<close>),
  fixed-width signed integers, the string helpers the components share, and the collections of
  simplification rules the component theories fill.
\<close>

named_theorems model_defs \<open>definitions of model operations, unfolded when a run is evaluated\<close>

text \<open>Evaluating a run on concrete input: the definitions, and congruence rules that keep the
  simplifier out of the branches until the scrutinee is a value.\<close>

lemmas weak_congs = prod.case_cong_weak option.case_cong_weak list.case_cong_weak
  sum.case_cong_weak let_weak_cong if_weak_cong

section \<open>Results\<close>

type_synonym res = "bool \<times> string option"

abbreviation ok_res :: res where
  "ok_res \<equiv> (True, None)"

abbreviation err_res :: "string \<Rightarrow> res" where
  "err_res e \<equiv> (False, Some e)"

text \<open>\<open>std::optional::value_or\<close>.\<close>

definition value_or :: "'a option \<Rightarrow> 'a \<Rightarrow> 'a" where
  "value_or x d = (case x of None \<Rightarrow> d | Some y \<Rightarrow> y)"

lemma value_or_simps [simp]: "value_or None d = d" "value_or (Some y) d = y"
  by (simp_all add: value_or_def)

section \<open>Fixed-width signed integers\<close>

text \<open>
  \<open>int32_t\<close> and \<open>int64_t\<close> values are integers; an arithmetic result is brought back
  into the range of its type by two's complement wrap-around.
\<close>

definition i32 :: "int \<Rightarrow> int" where
  "i32 x = signed_take_bit 31 x"

definition i64 :: "int \<Rightarrow> int" where
  "i64 x = signed_take_bit 63 x"

definition in_i32 :: "int \<Rightarrow> bool" where
  "in_i32 x \<longleftrightarrow> - (2 ^ 31) \<le> x \<and> x < 2 ^ 31"

definition in_i64 :: "int \<Rightarrow> bool" where
  "in_i64 x \<longleftrightarrow> - (2 ^ 63) \<le> x \<and> x < 2 ^ 63"

lemma i32_id [simp]: "in_i32 x \<Longrightarrow> i32 x = x"
  by (simp add: in_i32_def i32_def signed_take_bit_int_eq_self_iff)

lemma i64_id [simp]: "in_i64 x \<Longrightarrow> i64 x = x"
  by (simp add: in_i64_def i64_def signed_take_bit_int_eq_self_iff)

lemma in_i32_i32 [simp]: "in_i32 (i32 x)"
  using signed_take_bit_int_greater_eq_minus_exp [of 31 x] signed_take_bit_int_less_exp [of 31 x]
  by (simp add: in_i32_def i32_def)

lemma in_i64_i64 [simp]: "in_i64 (i64 x)"
  using signed_take_bit_int_greater_eq_minus_exp [of 63 x] signed_take_bit_int_less_exp [of 63 x]
  by (simp add: in_i64_def i64_def)

lemma in_i64_of_i32: "in_i32 x \<Longrightarrow> in_i64 x"
  by (simp add: in_i32_def in_i64_def)

section \<open>Strings\<close>

text \<open>
  The part of a string behind its last colon (\<open>rfind(':')\<close> and \<open>substr\<close>), None
  when it has no colon.
\<close>

definition after_last_colon :: "string \<Rightarrow> string option" where
  "after_last_colon s =
     (if CHR '':'' \<in> set s then Some (rev (takeWhile (\<lambda>c. c \<noteq> CHR '':'') (rev s))) else None)"

lemma after_last_colon_append:
  "CHR '':'' \<notin> set t \<Longrightarrow> after_last_colon (s @ CHR '':'' # t) = Some t"
proof -
  assume t: "CHR '':'' \<notin> set t"
  then have "takeWhile (\<lambda>c. c \<noteq> CHR '':'') (rev t @ CHR '':'' # rev s) = rev t"
    by (auto simp: takeWhile_append2 intro!: takeWhile_append2 [THEN trans])
  then show ?thesis by (simp add: after_last_colon_def)
qed

lemma after_last_colon_subset: "after_last_colon s = Some t \<Longrightarrow> set t \<subseteq> set s"
  using set_takeWhileD [of _ "\<lambda>c. c \<noteq> CHR '':''" "rev s"]
  by (auto simp: after_last_colon_def split: if_splits)

text \<open>The colon replacement that makes a message key a file name.\<close>

definition safe_key :: "string \<Rightarrow> string" where
  "safe_key k = map (\<lambda>c. if c = CHR '':'' then CHR ''_'' else c) k"

lemma slash_safe_key [simp]: "CHR ''/'' \<in> set (safe_key k) \<longleftrightarrow> CHR ''/'' \<in> set k"
  by (auto simp: safe_key_def image_iff)

definition ends_with :: "string \<Rightarrow> string \<Rightarrow> bool" where
  "ends_with s suf \<longleftrightarrow> drop (length s - length suf) s = suf"

lemma ends_with_append [simp]: "ends_with (s @ suf) suf"
  by (simp add: ends_with_def)

lemma ends_withE: "ends_with s suf \<Longrightarrow> \<exists>p. s = p @ suf"
  by (metis append_take_drop_id ends_with_def)

text \<open>\<open>::tolower\<close> of the C locale.\<close>

definition ascii_lower :: "char \<Rightarrow> char" where
  "ascii_lower c =
     (if 65 \<le> (of_char c :: nat) \<and> (of_char c :: nat) \<le> 90
      then char_of ((of_char c :: nat) + 32) else c)"

text \<open>Decimal text of an integer, as \<open>std::format("{}", n)\<close> prints it.\<close>

fun nat_text :: "nat \<Rightarrow> string" where
  "nat_text n =
     (if n < 10 then [char_of (48 + n)] else nat_text (n div 10) @ [char_of (48 + n mod 10)])"

declare nat_text.simps [simp del]

definition int_text :: "int \<Rightarrow> string" where
  "int_text i = (if i < 0 then CHR ''-'' # nat_text (nat (- i)) else nat_text (nat i))"

section \<open>Association lists used as finite maps\<close>

lemma map_of_update [simp]: "map_of (AList.update k v al) = (map_of al)(k \<mapsto> v)"
  by (rule ext) (simp add: AList.update_conv')

lemma map_of_delete [simp]: "map_of (AList.delete k al) = (map_of al)(k := None)"
  by (rule ext) (simp add: AList.delete_conv')

lemmas prelude_model_defs [model_defs] =
  value_or_def after_last_colon_def safe_key_def ends_with_def nat_text.simps int_text_def

lemma fst_set_map_of: "k \<in> fst ` set al \<longleftrightarrow> map_of al k \<noteq> None"
  by (metis map_of_eq_None_iff)

text \<open>\<open>Converter::to_string\<close> of the bytes of a file: of a leading byte order mark of three bytes only
  the first two are dropped.\<close>

definition bytes_to_string :: "string \<Rightarrow> string" where
  "bytes_to_string s = (if take 3 s = [CHR 0xEF, CHR 0xBB, CHR 0xBF] then drop 2 s else s)"

end
