(* ===== verification/OS_World.thy ===== *)
theory OS_World
  imports Prelude "HOL-Library.Sublist"
begin

text \<open>
  The operating system as the program sees it through \<open>std::filesystem\<close>, \<open>std::fstream\<close>,
  \<open>std::chrono\<close> and the GUID generator: a store of regular files, a set of directories, a clock,
  a source of fresh identifiers and a schedule of faults.

  A path is the list of its components; an absolute path starts with the component
  the name \<open>/\<close>. Paths are compared component by component, links and \<open>..\<close> are not resolved.
  The clock and the identifier source are functions from the number of the call to its result, so
  that theorems quantify over every possible sequence of readings. Every call that can fail for
  a reason outside the model (permissions, a full or broken disk) consults \<open>fault\<close> at the number
  of the call and fails with the text it finds there.
\<close>

type_synonym path = "string list"

record world =
  files :: "(path \<times> string) list"
  dirs :: "path list"
  clock :: "nat \<Rightarrow> int"
  clock_n :: nat
  guids :: "nat \<Rightarrow> string"
  guid_n :: nat
  fault :: "nat \<Rightarrow> string option"
  io_n :: nat

section \<open>Paths\<close>

fun split_slash :: "string \<Rightarrow> string \<Rightarrow> string list" where
  "split_slash acc [] = [rev acc]"
| "split_slash acc (c # s) =
     (if c = CHR ''/'' then rev acc # split_slash [] s else split_slash (c # acc) s)"

text \<open>The components a relative path string contributes; empty ones and \<open>.\<close> add nothing.\<close>

definition components :: "string \<Rightarrow> path" where
  "components s = filter (\<lambda>c. c \<noteq> [] \<and> c \<noteq> ''.'') (split_slash [] s)"

definition is_absolute :: "string \<Rightarrow> bool" where
  "is_absolute s \<longleftrightarrow> take 1 s = ''/''"

definition to_path :: "string \<Rightarrow> path" where
  "to_path s = (if is_absolute s then ''/'' # components s else components s)"

text \<open>\<open>path /= s\<close>: an absolute right operand replaces the path.\<close>

definition path_append :: "path \<Rightarrow> string \<Rightarrow> path" where
  "path_append p s = (if is_absolute s then to_path s else p @ components s)"

text \<open>A string that is one path component: a plain file or directory name.\<close>

definition plain_name :: "string \<Rightarrow> bool" where
  "plain_name s \<longleftrightarrow> s \<noteq> [] \<and> s \<noteq> ''.'' \<and> CHR ''/'' \<notin> set s"

lemma split_slash_plain: "CHR ''/'' \<notin> set s \<Longrightarrow> split_slash acc s = [rev acc @ s]"
  by (induction acc s rule: split_slash.induct) auto

lemma components_plain [simp]: "plain_name s \<Longrightarrow> components s = [s]"
  by (simp add: components_def plain_name_def split_slash_plain)

lemma not_absolute_plain [simp]: "plain_name s \<Longrightarrow> \<not> is_absolute s"
  by (cases s) (auto simp: plain_name_def is_absolute_def)

lemma path_append_plain [simp]: "plain_name s \<Longrightarrow> path_append p s = p @ [s]"
  by (simp add: path_append_def)

text \<open>Text of a path, for error messages.\<close>

fun join_slash :: "path \<Rightarrow> string" where
  "join_slash [] = []"
| "join_slash [c] = c"
| "join_slash (c # cs) = c @ CHR ''/'' # join_slash cs"

definition path_text :: "path \<Rightarrow> string" where
  "path_text p = (case p of [] \<Rightarrow> [] | c # cs \<Rightarrow> if c = ''/'' then CHR ''/'' # join_slash cs else join_slash p)"

text \<open>\<open>path.string() + ".tmp"\<close>: the suffix lands on the last component.\<close>

definition with_suffix :: "path \<Rightarrow> string \<Rightarrow> path" where
  "with_suffix p suf = (if p = [] then [suf] else butlast p @ [last p @ suf])"

lemma with_suffix_snoc [simp]: "with_suffix (p @ [f]) suf = p @ [f @ suf]"
  by (simp add: with_suffix_def)

text \<open>\<open>path.extension() == ".json"\<close>; a name that only consists of the suffix has no extension.\<close>

definition has_json_ext :: "string \<Rightarrow> bool" where
  "has_json_ext f \<longleftrightarrow> ends_with f ''.json'' \<and> f \<noteq> ''.json''"

lemma has_json_ext_append [simp]: "has_json_ext (i @ ''.json'') \<longleftrightarrow> i \<noteq> []"
  by (simp add: has_json_ext_def)

lemma ends_with_snoc: "ends_with s t \<Longrightarrow> t \<noteq> [] \<Longrightarrow> last s = last t"
  by (metis ends_withE last_append)

lemma tmp_not_json [simp]: "\<not> has_json_ext (f @ ''.tmp'')"
  by (auto simp: has_json_ext_def dest: ends_with_snoc)

section \<open>Files\<close>

definition fget :: "'a world_scheme \<Rightarrow> path \<Rightarrow> string option" where
  "fget w p = map_of (files w) p"

definition is_file :: "'a world_scheme \<Rightarrow> path \<Rightarrow> bool" where
  "is_file w p \<longleftrightarrow> fget w p \<noteq> None"

text \<open>The working directory and the root directory always exist.\<close>

definition is_dir :: "'a world_scheme \<Rightarrow> path \<Rightarrow> bool" where
  "is_dir w p \<longleftrightarrow> p = [] \<or> p = [''/''] \<or> p \<in> set (dirs w)"

definition fexists :: "'a world_scheme \<Rightarrow> path \<Rightarrow> bool" where
  "fexists w p \<longleftrightarrow> is_file w p \<or> is_dir w p"

section \<open>System calls\<close>

definition os_io :: "'a world_scheme \<Rightarrow> string option \<times> 'a world_scheme" where
  "os_io w = (fault w (io_n w), w\<lparr>io_n := Suc (io_n w)\<rparr>)"

definition now_ms :: "'a world_scheme \<Rightarrow> int \<times> 'a world_scheme" where
  "now_ms w = (clock w (clock_n w), w\<lparr>clock_n := Suc (clock_n w)\<rparr>)"

definition fresh_guid :: "'a world_scheme \<Rightarrow> string \<times> 'a world_scheme" where
  "fresh_guid w = (guids w (guid_n w), w\<lparr>guid_n := Suc (guid_n w)\<rparr>)"

definition enoent :: string where
  "enoent = ''No such file or directory''"

text \<open>\<open>create_directories\<close>: None when the directory and its ancestors now exist, else the text
  of the error code. A regular file among the ancestors is an error.\<close>

definition os_mkdirs :: "path \<Rightarrow> 'a world_scheme \<Rightarrow> string option \<times> 'a world_scheme" where
  "os_mkdirs p w =
     (let (e, w1) = os_io w in
      case e of Some m \<Rightarrow> (Some m, w1)
      | None \<Rightarrow>
          if list_ex (is_file w1) (prefixes p) then (Some ''Not a directory'', w1)
          else (None, w1\<lparr>dirs := dirs w1 @ prefixes p\<rparr>))"

text \<open>The loop that creates the missing directories of a list, in order.\<close>

fun make_dirs :: "path list \<Rightarrow> 'a world_scheme \<Rightarrow> res \<times> 'a world_scheme" where
  "make_dirs [] w = (ok_res, w)"
| "make_dirs (d # ds) w =
     (if fexists w d then make_dirs ds w
      else
        (case os_mkdirs d w of
           (Some m, w1) \<Rightarrow>
             (err_res (''failed to create directory '' @ path_text d @ '': '' @ m), w1)
         | (None, w1) \<Rightarrow> make_dirs ds w1))"

text \<open>An \<open>ofstream\<close> opened for truncation, written and closed: whether it could be opened.\<close>

definition os_write :: "path \<Rightarrow> string \<Rightarrow> 'a world_scheme \<Rightarrow> bool \<times> 'a world_scheme" where
  "os_write p c w =
     (let (e, w1) = os_io w in
      if e \<noteq> None \<or> p = [] \<or> \<not> is_dir w1 (butlast p) \<or> is_dir w1 p then (False, w1)
      else (True, w1\<lparr>files := AList.update p c (files w1)\<rparr>))"

text \<open>An \<open>ifstream\<close> read to the end; None when it cannot be opened.\<close>

definition os_read :: "path \<Rightarrow> 'a world_scheme \<Rightarrow> string option \<times> 'a world_scheme" where
  "os_read p w =
     (let (e, w1) = os_io w in (if e \<noteq> None then None else fget w1 p, w1))"

text \<open>\<open>rename\<close>: None or the error text. An existing file at the destination is replaced.\<close>

definition os_rename :: "path \<Rightarrow> path \<Rightarrow> 'a world_scheme \<Rightarrow> string option \<times> 'a world_scheme"
where
  "os_rename src dst w =
     (let (e, w1) = os_io w in
      case e of Some m \<Rightarrow> (Some m, w1)
      | None \<Rightarrow>
          (case fget w1 src of
             None \<Rightarrow> (Some enoent, w1)
           | Some c \<Rightarrow>
               if dst = [] \<or> \<not> is_dir w1 (butlast dst) then (Some enoent, w1)
               else if is_dir w1 dst then (Some ''Is a directory'', w1)
               else (None, w1\<lparr>files := AList.update dst c (AList.delete src (files w1))\<rparr>)))"

text \<open>\<open>remove\<close> of a file: a missing file is no error.\<close>

definition os_remove :: "path \<Rightarrow> 'a world_scheme \<Rightarrow> string option \<times> 'a world_scheme" where
  "os_remove p w =
     (let (e, w1) = os_io w in
      case e of Some m \<Rightarrow> (Some m, w1)
      | None \<Rightarrow> (None, w1\<lparr>files := AList.delete p (files w1)\<rparr>))"

text \<open>\<open>directory_iterator\<close>: the regular files, and the directories, directly inside a directory;
  the name of an entry is one component. A directory that cannot be opened is an empty range.\<close>

definition entry_of :: "path \<Rightarrow> path \<Rightarrow> bool" where
  "entry_of d p \<longleftrightarrow> p \<noteq> [] \<and> butlast p = d \<and> plain_name (last p)"

lemma entry_of_iff: "entry_of d p \<longleftrightarrow> (\<exists>f. plain_name f \<and> p = d @ [f])"
  by (auto simp: entry_of_def intro: exI [of _ "last p"] append_butlast_last_id [symmetric])

definition os_list_files :: "path \<Rightarrow> 'a world_scheme \<Rightarrow> path list \<times> 'a world_scheme" where
  "os_list_files d w =
     (let (e, w1) = os_io w in
      (if e \<noteq> None then [] else filter (entry_of d) (map fst (files w1)), w1))"

definition os_list_dirs :: "path \<Rightarrow> 'a world_scheme \<Rightarrow> path list \<times> 'a world_scheme" where
  "os_list_dirs d w =
     (let (e, w1) = os_io w in
      (if e \<noteq> None then [] else remdups (filter (entry_of d) (dirs w1)), w1))"

text \<open>
  \<open>list_json_files\<close> of the adapters and \<open>list_files\<close> of the mailbox: the JSON files directly
  inside a directory, sorted by path.
\<close>

definition list_json_files :: "path \<Rightarrow> 'a world_scheme \<Rightarrow> path list \<times> 'a world_scheme" where
  "list_json_files d w =
     (if \<not> fexists w d then ([], w)
      else let (ps, w1) = os_list_files d w in (sort (filter (\<lambda>p. has_json_ext (last p)) ps), w1))"

text \<open>The write-then-rename of \<open>atomic_write\<close>, the same in every component that has it. The error
  code printed after a failed rename is the one the removal of the temporary file has left there.\<close>

definition atomic_write :: "path \<Rightarrow> string \<Rightarrow> 'a world_scheme \<Rightarrow> res \<times> 'a world_scheme" where
  "atomic_write target content w =
     (let temp = with_suffix target ''.tmp'';
          (opened, w1) = os_write temp content w
      in if \<not> opened then (err_res (''cannot create temp file: '' @ path_text temp), w1)
      else
        (case os_rename temp target w1 of
           (Some _, w2) \<Rightarrow>
             (let (m, w3) = os_remove temp w2
              in (err_res (''rename failed: '' @ value_or m ''Success''), w3))
         | (None, w2) \<Rightarrow> (ok_res, w2)))"

definition move_file :: "path \<Rightarrow> path \<Rightarrow> 'a world_scheme \<Rightarrow> res \<times> 'a world_scheme" where
  "move_file src dst w =
     (case os_rename src dst w of
        (Some m, w1) \<Rightarrow> (err_res (''move failed: '' @ m), w1)
      | (None, w1) \<Rightarrow> (ok_res, w1))"

definition delete_file :: "path \<Rightarrow> 'a world_scheme \<Rightarrow> res \<times> 'a world_scheme" where
  "delete_file p w =
     (case os_remove p w of
        (Some m, w1) \<Rightarrow> (err_res (''delete failed: '' @ m), w1)
      | (None, w1) \<Rightarrow> (ok_res, w1))"

definition read_file ::
  "path \<Rightarrow> 'a world_scheme \<Rightarrow> (string option \<times> string option) \<times> 'a world_scheme" where
  "read_file p w =
     (case os_read p w of
        (None, w1) \<Rightarrow> ((None, Some (''cannot open file: '' @ path_text p)), w1)
      | (Some c, w1) \<Rightarrow> ((Some c, None), w1))"

section \<open>What the calls change\<close>

text \<open>
  \<open>same_env w w'\<close>: everything but the files and the counters is as before, except that
  directories may have been added.
\<close>

definition same_env :: "'a world_scheme \<Rightarrow> 'a world_scheme \<Rightarrow> bool" where
  "same_env w w' \<longleftrightarrow>
     clock w' = clock w \<and> guids w' = guids w \<and> fault w' = fault w \<and>
     world.more w' = world.more w \<and> set (dirs w) \<subseteq> set (dirs w')"

lemma same_env_refl [simp]: "same_env w w"
  by (simp add: same_env_def)

lemma same_env_trans [trans]: "same_env w w' \<Longrightarrow> same_env w' w'' \<Longrightarrow> same_env w w''"
  by (auto simp: same_env_def)

text \<open>The file map after a move and after an attempted atomic write.\<close>

definition fm_move :: "path \<Rightarrow> path \<Rightarrow> (path \<rightharpoonup> string) \<Rightarrow> (path \<rightharpoonup> string)" where
  "fm_move src dst m = (case m src of None \<Rightarrow> m | Some c \<Rightarrow> (m(src := None))(dst \<mapsto> c))"

lemmas os_defs = os_io_def os_mkdirs_def os_write_def os_read_def os_rename_def os_remove_def
  os_list_files_def os_list_dirs_def now_ms_def fresh_guid_def

lemma fget_counters [simp]:
  "fget (w\<lparr>io_n := n\<rparr>) = fget w" "fget (w\<lparr>clock_n := n\<rparr>) = fget w"
  "fget (w\<lparr>guid_n := n\<rparr>) = fget w" "fget (w\<lparr>dirs := ds\<rparr>) = fget w"
  by (simp_all add: fget_def fun_eq_iff)

lemma fget_update_files [simp]:
  "fget (w\<lparr>files := AList.update p c (files v)\<rparr>) = (fget v)(p \<mapsto> c)"
  "fget (w\<lparr>files := AList.delete p (files v)\<rparr>) = (fget v)(p := None)"
  "fget (w\<lparr>files := AList.update p c (AList.delete q (files v))\<rparr>) = ((fget v)(q := None))(p \<mapsto> c)"
  by (simp_all add: fget_def fun_eq_iff)

lemma now_ms_effect: "now_ms w = (t, w') \<Longrightarrow> fget w' = fget w \<and> same_env w w' \<and> dirs w' = dirs w"
  by (auto simp: os_defs same_env_def)

lemma fresh_guid_effect:
  "fresh_guid w = (t, w') \<Longrightarrow> fget w' = fget w \<and> same_env w w' \<and> dirs w' = dirs w"
  by (auto simp: os_defs same_env_def)

lemma os_write_effect:
  "os_write p c w = (b, w') \<Longrightarrow>
     fget w' = (if b then (fget w)(p \<mapsto> c) else fget w) \<and> same_env w w' \<and> dirs w' = dirs w"
  by (auto simp: os_defs Let_def same_env_def split: if_splits)

lemma os_rename_effect:
  "os_rename p q w = (e, w') \<Longrightarrow>
     fget w' = (if e = None then fm_move p q (fget w) else fget w) \<and>
     (e = None \<longrightarrow> fget w p \<noteq> None) \<and> same_env w w' \<and> dirs w' = dirs w"
  by (cases "fault w (io_n w)"; cases "fget w p"; cases e)
    (auto simp: os_defs Let_def same_env_def fm_move_def split: if_splits)

lemma os_remove_effect:
  "os_remove p w = (e, w') \<Longrightarrow>
     fget w' = (if e = None then (fget w)(p := None) else fget w) \<and> same_env w w' \<and> dirs w' = dirs w"
  by (cases "fault w (io_n w)") (auto simp: os_defs Let_def same_env_def)

lemma os_mkdirs_effect:
  "os_mkdirs p w = (e, w') \<Longrightarrow> fget w' = fget w \<and> same_env w w'"
  by (cases "fault w (io_n w)") (auto simp: os_defs Let_def same_env_def split: if_splits)

lemma make_dirs_effect:
  "make_dirs ds w = (r, w') \<Longrightarrow> fget w' = fget w \<and> same_env w w'"
proof (induction ds w arbitrary: r w' rule: make_dirs.induct)
  case (2 d ds w)
  show ?case
  proof (cases "fexists w d")
    case True
    with 2 show ?thesis by simp
  next
    case False
    obtain e w1 where mk: "os_mkdirs d w = (e, w1)" by (cases "os_mkdirs d w")
    note eff = os_mkdirs_effect [OF mk]
    show ?thesis
    proof (cases e)
      case None
      with 2 False mk have "make_dirs ds w1 = (r, w')" by simp
      with 2 False mk None have "fget w' = fget w1 \<and> same_env w1 w'" by simp
      with eff show ?thesis by (auto intro: same_env_trans)
    next
      case (Some m)
      with 2 False mk eff show ?thesis by auto
    qed
  qed
qed simp

lemma read_file_effect:
  "read_file p w = ((c, e), w') \<Longrightarrow>
     fget w' = fget w \<and> same_env w w' \<and> dirs w' = dirs w \<and> (c = None \<or> c = fget w p)"
  by (auto simp: read_file_def os_defs Let_def same_env_def split: prod.splits option.splits if_splits)

lemma os_list_files_effect:
  "os_list_files d w = (ps, w') \<Longrightarrow>
     fget w' = fget w \<and> same_env w w' \<and> dirs w' = dirs w \<and>
     (\<forall>p \<in> set ps. fget w p \<noteq> None \<and> entry_of d p)"
  by (auto simp: os_defs Let_def same_env_def fget_def map_of_eq_None_iff split: if_splits)

lemma os_list_dirs_effect:
  "os_list_dirs d w = (ps, w') \<Longrightarrow>
     fget w' = fget w \<and> same_env w w' \<and> dirs w' = dirs w \<and>
     (\<forall>p \<in> set ps. entry_of d p)"
  by (auto simp: os_defs Let_def same_env_def split: if_splits)

lemma list_json_files_effect:
  "list_json_files d w = (ps, w') \<Longrightarrow>
     fget w' = fget w \<and> same_env w w' \<and> dirs w' = dirs w \<and>
     (\<forall>p \<in> set ps. fget w p \<noteq> None \<and> entry_of d p \<and> has_json_ext (last p))"
  by (auto simp: list_json_files_def split: if_splits prod.splits dest!: os_list_files_effect)

lemma move_file_effect:
  "move_file p q w = (r, w') \<Longrightarrow>
     fget w' = (if fst r then fm_move p q (fget w) else fget w) \<and>
     (fst r \<longrightarrow> fget w p \<noteq> None) \<and> same_env w w' \<and> dirs w' = dirs w"
  by (auto simp: move_file_def split: prod.splits option.splits dest!: os_rename_effect)

lemma delete_file_effect:
  "delete_file p w = (r, w') \<Longrightarrow>
     fget w' = (if fst r then (fget w)(p := None) else fget w) \<and> same_env w w' \<and> dirs w' = dirs w"
  by (auto simp: delete_file_def split: prod.splits option.splits dest!: os_remove_effect)

lemma with_suffix_neq: "suf \<noteq> [] \<Longrightarrow> with_suffix p suf \<noteq> p"
  by (cases p rule: rev_cases) (auto simp: with_suffix_def)

lemma fun_upd_same_value: "f(a := f a) = f"
  by simp

lemma atomic_write_effect:
  assumes "atomic_write p c w = (r, w')"
  obtains x where
    "fget w' = (if fst r then ((fget w)(with_suffix p ''.tmp'' := None))(p \<mapsto> c)
                else (fget w)(with_suffix p ''.tmp'' := x))"
    "x \<in> {None, Some c, fget w (with_suffix p ''.tmp'')}"
    "same_env w w'" "dirs w' = dirs w"
proof -
  let ?t = "with_suffix p ''.tmp''"
  have "\<exists>x \<in> {None, Some c, fget w ?t}.
      fget w' = (if fst r then ((fget w)(?t := None))(p \<mapsto> c) else (fget w)(?t := x))"
    using assms
    by (auto simp: atomic_write_def Let_def fm_move_def fun_upd_same_value
        split: prod.splits if_splits option.splits
        dest!: os_write_effect os_rename_effect os_remove_effect)
  moreover have "same_env w w' \<and> dirs w' = dirs w"
    using assms
    by (auto simp: atomic_write_def Let_def split: prod.splits if_splits option.splits
        dest!: os_write_effect os_rename_effect os_remove_effect intro: same_env_trans)
  ultimately show thesis using that by blast
qed

lemmas os_model_defs [model_defs] =
  components_def is_absolute_def to_path_def path_append_def plain_name_def path_text_def
  with_suffix_def has_json_ext_def fget_def is_file_def is_dir_def fexists_def os_defs
  entry_of_def list_json_files_def atomic_write_def move_file_def delete_file_def read_file_def
  enoent_def

end
