(* ===== verification/Json.thy ===== *)
theory Json
  imports Prelude "HOL-Library.Finite_Map"
begin

text \<open>
  JSON values and the part of the JSON library's interface the program uses. The library itself
  (nlohmann-json) is not part of the repository: its text parser and printer, the texts of its
  exceptions and its conversion of floating-point numbers are the fields of a \<open>json_lib\<close>
  parameter, and what the program relies on is the predicate \<open>json_ok\<close>: a printed value
  parses back to itself, and its text has no zero byte (control characters are escaped). The accessors follow the library's documented behaviour on the value
  type: which values they accept and which exception they throw otherwise.

  The theory ends with a reference codec, an executable printer and parser for which
  \<open>json_ok\<close> is proved; witnesses instantiate the parameter with it.
\<close>

section \<open>Values\<close>

datatype json =
    JNull
  | JBool bool
  | JInt int
  | JFloat rat
  | JStr string
  | JArr "json list"
  | JObj "(string, json) fmap"

datatype json_exc = Parse_Error | Type_Error nat

record json_lib =
  jl_parse :: "string \<Rightarrow> json option"
  jl_dump :: "int \<Rightarrow> json \<Rightarrow> string"
  jl_what :: "json_exc \<Rightarrow> string"
  jl_trunc32 :: "rat \<Rightarrow> int"
  jl_trunc64 :: "rat \<Rightarrow> int"

definition json_ok :: "json_lib \<Rightarrow> bool" where
  "json_ok L \<longleftrightarrow>
     (\<forall>n j. jl_parse L (jl_dump L n j) = Some j \<and> CHR 0x00 \<notin> set (jl_dump L n j))"

lemma json_okD [simp]:
  "json_ok L \<Longrightarrow> jl_parse L (jl_dump L n j) = Some j"
  "json_ok L \<Longrightarrow> CHR 0x00 \<notin> set (jl_dump L n j)"
  by (simp_all add: json_ok_def)

section \<open>Accessors\<close>

definition json_parse :: "json_lib \<Rightarrow> string \<Rightarrow> json_exc + json" where
  "json_parse L s = (case jl_parse L s of None \<Rightarrow> Inl Parse_Error | Some j \<Rightarrow> Inr j)"

lemma json_parse_dump [simp]: "json_ok L \<Longrightarrow> json_parse L (jl_dump L n j) = Inr j"
  by (simp add: json_parse_def)

text \<open>\<open>contains\<close> is false on anything but an object.\<close>

fun jcontains :: "json \<Rightarrow> string \<Rightarrow> bool" where
  "jcontains (JObj m) k = (fmlookup m k \<noteq> None)"
| "jcontains _ k = False"

text \<open>The member found by \<open>operator[]\<close> after a successful \<open>contains\<close>.\<close>

fun jmember :: "json \<Rightarrow> string \<Rightarrow> json option" where
  "jmember (JObj m) k = fmlookup m k"
| "jmember _ k = None"

fun is_string :: "json \<Rightarrow> bool" where
  "is_string (JStr _) = True" | "is_string _ = False"

fun is_number :: "json \<Rightarrow> bool" where
  "is_number (JInt _) = True" | "is_number (JFloat _) = True" | "is_number _ = False"

fun is_boolean :: "json \<Rightarrow> bool" where
  "is_boolean (JBool _) = True" | "is_boolean _ = False"

fun is_array :: "json \<Rightarrow> bool" where
  "is_array (JArr _) = True" | "is_array _ = False"

fun is_object :: "json \<Rightarrow> bool" where
  "is_object (JObj _) = True" | "is_object _ = False"

text \<open>\<open>contains(k) && j[k].is_string()\<close>, and the string it then holds.\<close>

definition string_member :: "json \<Rightarrow> string \<Rightarrow> string option" where
  "string_member j k = (case jmember j k of Some (JStr s) \<Rightarrow> Some s | _ \<Rightarrow> None)"

text \<open>\<open>get<T>()\<close> for the types the program asks for.\<close>

fun get_string :: "json \<Rightarrow> json_exc + string" where
  "get_string (JStr s) = Inr s"
| "get_string _ = Inl (Type_Error 302)"

fun get_bool :: "json \<Rightarrow> json_exc + bool" where
  "get_bool (JBool b) = Inr b"
| "get_bool _ = Inl (Type_Error 302)"

fun get_i32 :: "json_lib \<Rightarrow> json \<Rightarrow> json_exc + int" where
  "get_i32 L (JInt i) = Inr (i32 i)"
| "get_i32 L (JFloat r) = Inr (i32 (jl_trunc32 L r))"
| "get_i32 L (JBool b) = Inr (of_bool b)"
| "get_i32 L _ = Inl (Type_Error 302)"

fun get_i64 :: "json_lib \<Rightarrow> json \<Rightarrow> json_exc + int" where
  "get_i64 L (JInt i) = Inr (i64 i)"
| "get_i64 L (JFloat r) = Inr (i64 (jl_trunc64 L r))"
| "get_i64 L _ = Inl (Type_Error 302)"

lemma in_i32_of_bool [simp]: "in_i32 (of_bool b)"
  by (cases b) (simp_all add: in_i32_def)

lemma get_i32_range: "get_i32 L j = Inr x \<Longrightarrow> in_i32 x"
  by (cases j) auto

lemma get_i64_range: "get_i64 L j = Inr x \<Longrightarrow> in_i64 x"
  by (cases j) auto

text \<open>\<open>value(key, default)\<close>: the default when the key is absent; an exception when the
  receiver is not an object or the member has another type.\<close>

definition jvalue :: "(json \<Rightarrow> json_exc + 'a) \<Rightarrow> json \<Rightarrow> string \<Rightarrow> 'a \<Rightarrow> json_exc + 'a" where
  "jvalue get j k d =
     (case j of
        JObj m \<Rightarrow> (case fmlookup m k of None \<Rightarrow> Inr d | Some v \<Rightarrow> get v)
      | _ \<Rightarrow> Inl (Type_Error 306))"

lemma jvalue_obj [simp]:
  "jvalue get (JObj m) k d = (case fmlookup m k of None \<Rightarrow> Inr d | Some v \<Rightarrow> get v)"
  by (simp add: jvalue_def)

text \<open>\<open>j[key] = v\<close>: null becomes an object, other non-objects throw.\<close>

fun jset :: "string \<Rightarrow> json \<Rightarrow> json \<Rightarrow> json_exc + json" where
  "jset k v (JObj m) = Inr (JObj (fmupd k v m))"
| "jset k v JNull = Inr (JObj (fmupd k v fmempty))"
| "jset k v _ = Inl (Type_Error 305)"

text \<open>\<open>erase(key)\<close>.\<close>

fun jerase :: "string \<Rightarrow> json \<Rightarrow> json_exc + json" where
  "jerase k (JObj m) = Inr (JObj (fmdrop k m))"
| "jerase k _ = Inl (Type_Error 307)"

text \<open>An object literal, filled in the order of the assignments.\<close>

definition jobj :: "(string \<times> json) list \<Rightarrow> json" where
  "jobj kvs = JObj (fold (\<lambda>(k, v) m. fmupd k v m) kvs fmempty)"

text \<open>Sequencing of computations that may throw.\<close>

definition ebind :: "'e + 'a \<Rightarrow> ('a \<Rightarrow> 'e + 'b) \<Rightarrow> 'e + 'b" where
  "ebind x f = (case x of Inl e \<Rightarrow> Inl e | Inr a \<Rightarrow> f a)"

lemma ebind_simps [simp]: "ebind (Inl e) f = Inl e" "ebind (Inr a) f = f a"
  by (simp_all add: ebind_def)

lemma ebind_Inr_conv: "ebind x f = Inr b \<longleftrightarrow> (\<exists>a. x = Inr a \<and> f a = Inr b)"
  by (cases x) simp_all

section \<open>A reference codec\<close>

definition enc_nat :: "nat \<Rightarrow> string" where
  "enc_nat n = replicate n (CHR ''1'') @ [CHR ''.'']"

definition dec_nat :: "string \<Rightarrow> (nat \<times> string) option" where
  "dec_nat s =
     (case dropWhile (\<lambda>c. c = CHR ''1'') s of
        [] \<Rightarrow> None
      | _ # r \<Rightarrow> Some (length (takeWhile (\<lambda>c. c = CHR ''1'') s), r))"

lemma dec_enc_nat [simp]: "dec_nat (enc_nat n @ r) = Some (n, r)"
  by (simp add: dec_nat_def enc_nat_def dropWhile_append3 takeWhile_append)

definition enc_int :: "int \<Rightarrow> string" where
  "enc_int i = (if i < 0 then CHR ''-'' # enc_nat (nat (- i)) else CHR ''+'' # enc_nat (nat i))"

fun dec_int :: "string \<Rightarrow> (int \<times> string) option" where
  "dec_int [] = None"
| "dec_int (c # s) =
     (case dec_nat s of None \<Rightarrow> None
      | Some (n, r) \<Rightarrow> Some (if c = CHR ''-'' then - int n else int n, r))"

lemma dec_enc_int [simp]: "dec_int (enc_int i @ r) = Some (i, r)"
  by (simp add: enc_int_def)

primrec dec_many :: "(string \<Rightarrow> ('a \<times> string) option) \<Rightarrow> nat \<Rightarrow> string \<Rightarrow> ('a list \<times> string) option"
where
  "dec_many d 0 s = Some ([], s)"
| "dec_many d (Suc n) s =
     (case d s of None \<Rightarrow> None
      | Some (x, r) \<Rightarrow>
          (case dec_many d n r of None \<Rightarrow> None | Some (xs, r') \<Rightarrow> Some (x # xs, r')))"

lemma dec_many_map:
  assumes "\<And>x r. x \<in> set xs \<Longrightarrow> d (f x @ r) = Some (g x, r)"
  shows "dec_many d (length xs) (concat (map f xs) @ r) = Some (map g xs, r)"
  using assms by (induction xs) auto

text \<open>A string is its length and the codes of its characters, so that the text has no zero byte.\<close>

definition enc_str :: "string \<Rightarrow> string" where
  "enc_str s = enc_nat (length s) @ concat (map (\<lambda>c. enc_nat (of_char c)) s)"

definition dec_str :: "string \<Rightarrow> (string \<times> string) option" where
  "dec_str s =
     (case dec_nat s of None \<Rightarrow> None
      | Some (n, r) \<Rightarrow> map_option (\<lambda>(ns, r'). (map char_of ns, r')) (dec_many dec_nat n r))"

lemma dec_enc_str [simp]: "dec_str (enc_str s @ r) = Some (s, r)"
  using dec_many_map [of s dec_nat "\<lambda>c. enc_nat (of_char c)" of_char r]
  by (simp add: enc_str_def dec_str_def comp_def)

primrec json_enc :: "json \<Rightarrow> string" where
  "json_enc JNull = ''n''"
| "json_enc (JBool b) = (if b then ''t'' else ''f'')"
| "json_enc (JInt i) = CHR ''i'' # enc_int i"
| "json_enc (JFloat r) =
     CHR ''r'' # enc_int (fst (quotient_of r)) @ enc_int (snd (quotient_of r))"
| "json_enc (JStr s) = CHR ''s'' # enc_str s"
| "json_enc (JArr xs) = CHR ''a'' # enc_nat (length xs) @ concat (map json_enc xs)"
| "json_enc (JObj m) =
     (let kvs = sorted_list_of_fmap (fmmap json_enc m)
      in CHR ''o'' # enc_nat (length kvs) @ concat (map (\<lambda>(k, e). enc_str k @ e) kvs))"

definition dec_pair :: "(string \<Rightarrow> (json \<times> string) option) \<Rightarrow> string \<Rightarrow> ((string \<times> json) \<times> string) option"
where
  "dec_pair d s =
     (case dec_str s of None \<Rightarrow> None
      | Some (k, r) \<Rightarrow> (case d r of None \<Rightarrow> None | Some (v, r') \<Rightarrow> Some ((k, v), r')))"

fun json_dec :: "nat \<Rightarrow> string \<Rightarrow> (json \<times> string) option" where
  "json_dec 0 s = None"
| "json_dec (Suc n) [] = None"
| "json_dec (Suc n) (c # s) =
     (if c = CHR ''n'' then Some (JNull, s)
      else if c = CHR ''t'' then Some (JBool True, s)
      else if c = CHR ''f'' then Some (JBool False, s)
      else if c = CHR ''i'' then map_option (\<lambda>(i, r). (JInt i, r)) (dec_int s)
      else if c = CHR ''r'' then
        (case dec_int s of None \<Rightarrow> None
         | Some (p, r) \<Rightarrow> map_option (\<lambda>(q, r'). (JFloat (Fract p q), r')) (dec_int r))
      else if c = CHR ''s'' then map_option (\<lambda>(x, r). (JStr x, r)) (dec_str s)
      else if c = CHR ''a'' then
        (case dec_nat s of None \<Rightarrow> None
         | Some (k, r) \<Rightarrow> map_option (\<lambda>(xs, r'). (JArr xs, r')) (dec_many (json_dec n) k r))
      else if c = CHR ''o'' then
        (case dec_nat s of None \<Rightarrow> None
         | Some (k, r) \<Rightarrow>
             map_option (\<lambda>(kvs, r'). (JObj (fmap_of_list kvs), r'))
               (dec_many (dec_pair (json_dec n)) k r))
      else None)"


text \<open>Decoding what was printed gives the value back, whatever follows it, as soon as the fuel
  reaches the length of the printed text.\<close>

lemma length_concat_member:
  "x \<in> set xs \<Longrightarrow> length (f x) \<le> length (concat (map f xs))"
  by (induction xs) auto

lemma sorted_list_of_fmap_fmmap:
  "sorted_list_of_fmap (fmmap f m) = map (\<lambda>(k, v). (k, f v)) (sorted_list_of_fmap m)"
proof -
  have "map (\<lambda>k. (k, the (fmlookup (fmmap f m) k))) (sorted_list_of_fset (fmdom m)) =
      map (\<lambda>k. (k, f (the (fmlookup m k)))) (sorted_list_of_fset (fmdom m))"
    by (rule map_cong) (auto simp: fmlookup_dom_iff)
  then show ?thesis by (simp add: sorted_list_of_fmap_def comp_def)
qed

lemma sorted_list_of_fmap_lookup:
  "(k, v) \<in> set (sorted_list_of_fmap m) \<Longrightarrow> fmlookup m k = Some v"
  by (auto simp: sorted_list_of_fmap_def fmlookup_dom_iff)

lemma fmap_of_sorted_list [simp]: "fmap_of_list (sorted_list_of_fmap m) = m"
proof (rule fmap_ext)
  fix k
  have "map_of (map (\<lambda>k. (k, the (fmlookup m k))) (sorted_list_of_fset (fmdom m))) k =
      fmlookup m k"
    by (cases "fmlookup m k")
      (auto simp: map_of_map_restrict restrict_map_def fmlookup_dom_iff)
  then show "fmlookup (fmap_of_list (sorted_list_of_fmap m)) k = fmlookup m k"
    by (simp add: fmlookup_of_list sorted_list_of_fmap_def)
qed

lemma json_dec_enc: "length (json_enc j) \<le> n \<Longrightarrow> json_dec n (json_enc j @ r) = Some (j, r)"
proof (induction j arbitrary: n r)
  case (JFloat x)
  obtain p q where "quotient_of x = (p, q)" by (cases "quotient_of x")
  moreover from this have "Fract p q = x" by (metis quotient_of_inject fst_conv Fract_of_int_quotient quotient_of_div)
  ultimately show ?case using JFloat by (cases n) auto
next
  case (JArr xs)
  then obtain n' where n: "n = Suc n'" by (cases n) auto
  have "dec_many (json_dec n') (length xs) (concat (map json_enc xs) @ r) = Some (map id xs, r)"
  proof (rule dec_many_map)
    fix x r assume x: "x \<in> set xs"
    with JArr.prems n have "length (json_enc x) \<le> n'"
      using length_concat_member [OF x, of json_enc] by simp
    with x show "json_dec n' (json_enc x @ r) = Some (id x, r)"
      using JArr.IH by simp
  qed
  with n show ?case by simp
next
  case (JObj m)
  let ?kvs = "sorted_list_of_fmap m"
  let ?f = "\<lambda>(k, v). enc_str k @ json_enc v"
  have enc: "json_enc (JObj m) = CHR ''o'' # enc_nat (length ?kvs) @ concat (map ?f ?kvs)"
    by (simp add: sorted_list_of_fmap_fmmap comp_def case_prod_unfold)
  then obtain n' where n: "n = Suc n'" using JObj.prems by (cases n) auto
  have "dec_many (dec_pair (json_dec n')) (length ?kvs) (concat (map ?f ?kvs) @ r) =
      Some (map id ?kvs, r)"
  proof (rule dec_many_map)
    fix x r assume x: "x \<in> set ?kvs"
    obtain k v where kv: "x = (k, v)" by (cases x)
    from x kv have v: "v \<in> fmran' m" by (auto intro: fmran'I dest: sorted_list_of_fmap_lookup)
    from JObj.prems enc n have "length (json_enc v) \<le> n'"
      using length_concat_member [OF x, of ?f] by (simp add: kv)
    with v kv show "dec_pair (json_dec n') (?f x @ r) = Some (id x, r)"
      using JObj.IH by (simp add: dec_pair_def)
  qed
  with n enc show ?case by simp
next
  case (JInt x)
  then show ?case by (cases n) auto
next
  case (JStr x)
  then show ?case by (cases n) auto
qed (auto split: if_splits dest!: Suc_le_D)

definition ref_json :: json_lib where
  "ref_json = \<lparr>
     jl_parse = (\<lambda>s. case json_dec (length s) s of Some (j, []) \<Rightarrow> Some j | _ \<Rightarrow> None),
     jl_dump = (\<lambda>n j. json_enc j),
     jl_what = (\<lambda>e. ''json exception''),
     jl_trunc32 = (\<lambda>r. i32 (floor r)),
     jl_trunc64 = (\<lambda>r. i64 (floor r))\<rparr>"

lemma zero_free_enc:
  "CHR 0x00 \<notin> set (enc_nat n)" "CHR 0x00 \<notin> set (enc_int i)" "CHR 0x00 \<notin> set (enc_str s)"
  by (auto simp: enc_nat_def enc_int_def enc_str_def)

lemma zero_free_json_enc: "CHR 0x00 \<notin> set (json_enc j)"
proof (induction j)
  case (JObj m)
  have "CHR 0x00 \<notin> set (enc_str k @ json_enc v)" if "(k, v) \<in> set (sorted_list_of_fmap m)" for k v
    using that JObj.IH fmran'I [OF sorted_list_of_fmap_lookup [OF that]] by (simp add: zero_free_enc)
  then show ?case by (auto simp: sorted_list_of_fmap_fmmap zero_free_enc)
qed (auto simp: zero_free_enc)

lemma json_ok_ref [simp]: "json_ok ref_json"
  using json_dec_enc [of _ _ "[]"] by (simp add: json_ok_def ref_json_def zero_free_json_enc)

end
