(* ===== verification/Backend_Types.thy ===== *)
theory Backend_Types
  imports Prelude
begin

text \<open>
  The data types of \<open>MainMQ/BackendAdapter/BackendAdapter.h\<close> and the abstract class
  \<open>BackendAdapter\<close> itself: a table of operations over a state type, as the virtual
  functions of the class are. \<open>Backend_Contract\<close> states what the clients of that table rely on.
\<close>

section \<open>Enumerations\<close>

datatype backend_type = FileSystem | SQLite | Hybrid

datatype message_state = Ready | Inflight | Delayed | Dlq | Archived

section \<open>Policies and configuration\<close>

record retry_policy =
  rp_limit :: int
  rp_backoff :: string
  rp_initial_delay_sec :: int
  rp_max_delay_sec :: int

record dlq_policy =
  dp_enabled :: bool
  dp_queue :: string
  dp_retention_days :: int

record queue_policy =
  qp_visibility_timeout_sec :: int
  qp_retry :: retry_policy
  qp_dlq :: dlq_policy

text \<open>The values a default-constructed \<open>QueuePolicy\<close> has.\<close>

definition default_policy :: queue_policy where
  "default_policy = \<lparr>
     qp_visibility_timeout_sec = 0,
     qp_retry = \<lparr>rp_limit = 0, rp_backoff = '''', rp_initial_delay_sec = 0, rp_max_delay_sec = 0\<rparr>,
     qp_dlq = \<lparr>dp_enabled = False, dp_queue = '''', dp_retention_days = 0\<rparr>\<rparr>"

record fs_config =
  fc_root :: string
  fc_inbox_dir :: string
  fc_processing_dir :: string
  fc_archive_dir :: string
  fc_dlq_dir :: string
  fc_meta_dir :: string

record sqlite_config =
  sc_db_path :: string
  sc_kv_table :: string
  sc_message_index_table :: string
  sc_busy_timeout_ms :: int
  sc_journal_mode :: string
  sc_synchronous :: string

record backend_config =
  bc_type :: backend_type
  bc_filesystem :: fs_config
  bc_sqlite :: sqlite_config

section \<open>Messages, leases and reports\<close>

record message =
  m_key :: string
  m_message_id :: string
  m_queue :: string
  m_payload_json :: string
  m_attributes_json :: string
  m_priority :: int
  m_attempt :: int
  m_created_at_ms :: int
  m_available_at_ms :: int
  m_target_consumer_id :: string

text \<open>A default-constructed \<open>MessageEnvelope\<close>.\<close>

definition empty_message :: message where
  "empty_message = \<lparr>m_key = '''', m_message_id = '''', m_queue = '''', m_payload_json = '''',
     m_attributes_json = '''', m_priority = 0, m_attempt = 0, m_created_at_ms = 0,
     m_available_at_ms = 0, m_target_consumer_id = ''''\<rparr>"

record lease_token =
  lt_lease_id :: string
  lt_message_key :: string
  lt_consumer_id :: string
  lt_lease_until_ms :: int

record lease_result =
  lr_leased :: bool
  lr_message :: "message option"
  lr_lease :: "lease_token option"
  lr_error :: "string option"

definition no_lease :: lease_result where
  "no_lease = \<lparr>lr_leased = False, lr_message = None, lr_lease = None, lr_error = None\<rparr>"

definition lease_error :: "string option \<Rightarrow> lease_result" where
  "lease_error e = no_lease\<lparr>lr_error := e\<rparr>"

lemma no_lease_simps [simp]:
  "lr_leased no_lease = False" "lr_message no_lease = None" "lr_lease no_lease = None"
  "lr_error no_lease = None" "lr_leased (lease_error e) = False" "lr_error (lease_error e) = e"
  "lr_message (lease_error e) = None" "lr_lease (lease_error e) = None"
  by (simp_all add: no_lease_def lease_error_def)

record queue_metrics =
  qm_ready :: nat
  qm_inflight :: nat
  qm_delayed :: nat
  qm_dlq :: nat

definition zero_metrics :: queue_metrics where
  "zero_metrics = \<lparr>qm_ready = 0, qm_inflight = 0, qm_delayed = 0, qm_dlq = 0\<rparr>"

record expired_lease_info =
  el_message_key :: string
  el_queue :: string
  el_attempt :: int

record dlq_message_info =
  di_message_key :: string
  di_queue :: string
  di_reason :: string
  di_dlq_at_ms :: int
  di_attempt :: int

section \<open>The adapter interface\<close>

text \<open>
  One field per virtual function that the daemon calls on an open adapter. The optional
  consistency operations have no caller in the daemon and are not part of the table.
\<close>

record 's backend =
  be_enqueue :: "message \<Rightarrow> 's \<Rightarrow> res \<times> 's"
  be_lease_next :: "string \<Rightarrow> string \<Rightarrow> int \<Rightarrow> 's \<Rightarrow> lease_result \<times> 's"
  be_ack :: "lease_token \<Rightarrow> 's \<Rightarrow> res \<times> 's"
  be_nack :: "lease_token \<Rightarrow> string \<Rightarrow> bool \<Rightarrow> 's \<Rightarrow> res \<times> 's"
  be_extend_lease :: "lease_token \<Rightarrow> int \<Rightarrow> 's \<Rightarrow> res \<times> 's"
  be_load_policy :: "string \<Rightarrow> 's \<Rightarrow> (queue_policy option \<times> string option) \<times> 's"
  be_save_policy :: "string \<Rightarrow> queue_policy \<Rightarrow> 's \<Rightarrow> res \<times> 's"
  be_metrics :: "string \<Rightarrow> 's \<Rightarrow> (queue_metrics \<times> string option) \<times> 's"
  be_recover_expired_leases :: "'s \<Rightarrow> (int \<times> string option) \<times> 's"
  be_process_delayed_messages :: "'s \<Rightarrow> (int \<times> string option) \<times> 's"
  be_get_expired_inflight_messages ::
    "'s \<Rightarrow> (expired_lease_info list \<times> string option) \<times> 's"
  be_delay_message :: "string \<Rightarrow> int \<Rightarrow> 's \<Rightarrow> res \<times> 's"
  be_move_to_dlq :: "string \<Rightarrow> string \<Rightarrow> 's \<Rightarrow> res \<times> 's"
  be_list_dlq_messages :: "string \<Rightarrow> int \<Rightarrow> 's \<Rightarrow> (dlq_message_info list \<times> string option) \<times> 's"
  be_reprocess_dlq_message :: "string \<Rightarrow> 's \<Rightarrow> res \<times> 's"

end
