(* ===== verification/FileSystem_Adapter.thy ===== *)
theory FileSystem_Adapter
  imports OS_World Json Backend_Types
begin

text \<open>
  \<open>MainMQ/BackendAdapter/FileSystemAdapter.cpp\<close>: the adapter that keeps one JSON file per message
  in a directory per message state, and one JSON file per lease under the meta directory. The
  object's fields extend the operating system state it works on; every method is a function from
  that state to its result and the state afterwards. The mutex of the class makes each method one
  atomic step.
\<close>

record fs_adapter = world +
  fsa_is_open :: bool
  fsa_config :: fs_config
  fsa_policies :: "string \<rightharpoonup> queue_policy"

section \<open>Paths\<close>

definition build_queue_path :: "fs_config \<Rightarrow> string \<Rightarrow> string \<Rightarrow> string \<Rightarrow> path" where
  "build_queue_path cfg queue sub_dir filename =
     (let p = path_append (path_append (to_path (fc_root cfg)) queue) sub_dir
      in if filename = [] then p else path_append p filename)"

definition build_meta_path :: "fs_config \<Rightarrow> string \<Rightarrow> path" where
  "build_meta_path cfg filename =
     (let p = path_append (to_path (fc_root cfg)) (fc_meta_dir cfg)
      in if filename = [] then p else path_append p filename)"

definition ensure_directories :: "fs_adapter \<Rightarrow> res \<times> fs_adapter" where
  "ensure_directories s =
     make_dirs [to_path (fc_root (fsa_config s)), build_meta_path (fsa_config s) []] s"

definition ensure_queue_directories :: "string \<Rightarrow> fs_adapter \<Rightarrow> res \<times> fs_adapter" where
  "ensure_queue_directories queue s =
     (let cfg = fsa_config s in
      make_dirs
        [build_queue_path cfg queue (fc_inbox_dir cfg) [],
         build_queue_path cfg queue (fc_processing_dir cfg) [],
         build_queue_path cfg queue (fc_archive_dir cfg) [],
         build_queue_path cfg queue (fc_dlq_dir cfg) [],
         build_queue_path cfg queue ''delayed'' []] s)"

text \<open>\<open>std::format("{}.json", id)\<close>.\<close>

definition json_name :: "string \<Rightarrow> string" where
  "json_name i = i @ ''.json''"

section \<open>Opening and closing\<close>

definition fs_open :: "backend_config \<Rightarrow> fs_adapter \<Rightarrow> res \<times> fs_adapter" where
  "fs_open config s =
     (if fsa_is_open s then (err_res ''already open'', s)
      else
        let s1 = s\<lparr>fsa_config := bc_filesystem config\<rparr>;
            (r, s2) = ensure_directories s1
        in if \<not> fst r then ((False, snd r), s2) else (ok_res, s2\<lparr>fsa_is_open := True\<rparr>))"

definition fs_close :: "fs_adapter \<Rightarrow> fs_adapter" where
  "fs_close s =
     (if \<not> fsa_is_open s then s else s\<lparr>fsa_is_open := False, fsa_policies := Map.empty\<rparr>)"

section \<open>Message files\<close>

definition envelope_json :: "message \<Rightarrow> json" where
  "envelope_json e = jobj
     [(''key'', JStr (m_key e)),
      (''messageId'', JStr (m_message_id e)),
      (''queue'', JStr (m_queue e)),
      (''payload'', JStr (m_payload_json e)),
      (''attributes'', JStr (m_attributes_json e)),
      (''priority'', JInt (m_priority e)),
      (''attempt'', JInt (m_attempt e)),
      (''createdAt'', JInt (m_created_at_ms e)),
      (''availableAt'', JInt (m_available_at_ms e)),
      (''targetConsumerId'', JStr (m_target_consumer_id e))]"

definition serialize_envelope :: "json_lib \<Rightarrow> message \<Rightarrow> string" where
  "serialize_envelope L e = jl_dump L 2 (envelope_json e)"

definition envelope_of_json :: "json_lib \<Rightarrow> json \<Rightarrow> json_exc + message" where
  "envelope_of_json L j =
     ebind (jvalue get_string j ''key'' '''') (\<lambda>key.
     ebind (jvalue get_string j ''messageId'' '''') (\<lambda>message_id.
     ebind (jvalue get_string j ''queue'' '''') (\<lambda>queue.
     ebind (jvalue get_string j ''payload'' ''{}'') (\<lambda>payload.
     ebind (jvalue get_string j ''attributes'' ''{}'') (\<lambda>attributes.
     ebind (jvalue (get_i32 L) j ''priority'' 0) (\<lambda>priority.
     ebind (jvalue (get_i32 L) j ''attempt'' 0) (\<lambda>attempt.
     ebind (jvalue (get_i64 L) j ''createdAt'' 0) (\<lambda>created.
     ebind (jvalue (get_i64 L) j ''availableAt'' 0) (\<lambda>available.
     ebind (jvalue get_string j ''targetConsumerId'' '''') (\<lambda>target.
       Inr \<lparr>m_key = key, m_message_id = message_id, m_queue = queue, m_payload_json = payload,
            m_attributes_json = attributes, m_priority = priority, m_attempt = attempt,
            m_created_at_ms = created, m_available_at_ms = available,
            m_target_consumer_id = target\<rparr>))))))))))"

definition deserialize_envelope ::
  "json_lib \<Rightarrow> string \<Rightarrow> message option \<times> string option" where
  "deserialize_envelope L content =
     (case ebind (json_parse L content) (envelope_of_json L) of
        Inl e \<Rightarrow> (None, Some (''envelope parse error: '' @ jl_what L e))
      | Inr m \<Rightarrow> (Some m, None))"

section \<open>Lease and delay files\<close>

record lease_meta =
  lm_consumer_id :: string
  lm_lease_id :: string
  lm_lease_until_ms :: int
  lm_attempt :: int
  lm_queue :: string

record delayed_meta =
  dm_message_key :: string
  dm_queue :: string
  dm_available_at_ms :: int
  dm_attempt :: int

definition lease_meta_path :: "fs_config \<Rightarrow> string \<Rightarrow> path" where
  "lease_meta_path cfg key = build_meta_path cfg (''leases/'' @ safe_key key @ ''.json'')"

definition delayed_meta_path :: "fs_config \<Rightarrow> string \<Rightarrow> path" where
  "delayed_meta_path cfg key = build_meta_path cfg (''delayed/'' @ safe_key key @ ''.json'')"

text \<open>The directory of the meta files is created when missing; the error code is not looked at.\<close>

definition ensure_meta_dir :: "path \<Rightarrow> fs_adapter \<Rightarrow> fs_adapter" where
  "ensure_meta_dir d s = (if fexists s d then s else snd (os_mkdirs d s))"

definition write_lease_meta :: "json_lib \<Rightarrow> string \<Rightarrow> lease_meta \<Rightarrow> fs_adapter \<Rightarrow> res \<times> fs_adapter"
where
  "write_lease_meta L key meta s =
     (let cfg = fsa_config s;
          s1 = ensure_meta_dir (build_meta_path cfg ''leases'') s
      in atomic_write (lease_meta_path cfg key)
           (jl_dump L 2 (jobj
              [(''messageKey'', JStr key),
               (''consumerId'', JStr (lm_consumer_id meta)),
               (''leaseId'', JStr (lm_lease_id meta)),
               (''leaseUntil'', JInt (lm_lease_until_ms meta)),
               (''attempt'', JInt (lm_attempt meta)),
               (''queue'', JStr (lm_queue meta))])) s1)"

definition lease_meta_of_json :: "json_lib \<Rightarrow> json \<Rightarrow> json_exc + lease_meta" where
  "lease_meta_of_json L j =
     ebind (jvalue get_string j ''consumerId'' '''') (\<lambda>consumer.
     ebind (jvalue get_string j ''leaseId'' '''') (\<lambda>lease_id.
     ebind (jvalue (get_i64 L) j ''leaseUntil'' 0) (\<lambda>until.
     ebind (jvalue (get_i32 L) j ''attempt'' 0) (\<lambda>attempt.
     ebind (jvalue get_string j ''queue'' '''') (\<lambda>queue.
       Inr \<lparr>lm_consumer_id = consumer, lm_lease_id = lease_id, lm_lease_until_ms = until,
            lm_attempt = attempt, lm_queue = queue\<rparr>)))))"

definition read_lease_meta ::
  "json_lib \<Rightarrow> string \<Rightarrow> fs_adapter \<Rightarrow> (lease_meta option \<times> string option) \<times> fs_adapter" where
  "read_lease_meta L key s =
     (case read_file (lease_meta_path (fsa_config s) key) s of
        ((None, e), s1) \<Rightarrow> ((None, e), s1)
      | ((Some content, _), s1) \<Rightarrow>
          (case ebind (json_parse L content) (lease_meta_of_json L) of
             Inl e \<Rightarrow> ((None, Some (''lease meta parse error: '' @ jl_what L e)), s1)
           | Inr m \<Rightarrow> ((Some m, None), s1)))"

definition delete_lease_meta :: "string \<Rightarrow> fs_adapter \<Rightarrow> res \<times> fs_adapter" where
  "delete_lease_meta key s = delete_file (lease_meta_path (fsa_config s) key) s"

definition write_delayed_meta ::
  "json_lib \<Rightarrow> string \<Rightarrow> delayed_meta \<Rightarrow> fs_adapter \<Rightarrow> res \<times> fs_adapter" where
  "write_delayed_meta L key meta s =
     (let cfg = fsa_config s;
          s1 = ensure_meta_dir (build_meta_path cfg ''delayed'') s
      in atomic_write (delayed_meta_path cfg key)
           (jl_dump L 2 (jobj
              [(''messageKey'', JStr key),
               (''queue'', JStr (dm_queue meta)),
               (''availableAt'', JInt (dm_available_at_ms meta)),
               (''attempt'', JInt (dm_attempt meta))])) s1)"

definition delete_delayed_meta :: "string \<Rightarrow> fs_adapter \<Rightarrow> res \<times> fs_adapter" where
  "delete_delayed_meta key s = delete_file (delayed_meta_path (fsa_config s) key) s"

text \<open>The queue between the first two colons of a key, empty when there are not two.\<close>

definition extract_queue_from_key :: "string \<Rightarrow> string" where
  "extract_queue_from_key key =
     (case dropWhile (\<lambda>c. c \<noteq> CHR '':'') key of
        [] \<Rightarrow> []
      | _ # rest \<Rightarrow>
          if CHR '':'' \<in> set rest then takeWhile (\<lambda>c. c \<noteq> CHR '':'') rest else [])"

section \<open>Enqueue\<close>

definition fs_enqueue :: "json_lib \<Rightarrow> message \<Rightarrow> fs_adapter \<Rightarrow> res \<times> fs_adapter" where
  "fs_enqueue L message s =
     (if \<not> fsa_is_open s then (err_res ''adapter not open'', s)
      else
        case ensure_queue_directories (m_queue message) s of (dirs_ok, s1) \<Rightarrow>
        if \<not> fst dirs_ok then ((False, snd dirs_ok), s1)
        else
          let (now, s2) = now_ms s1;
              filename = json_name (m_message_id message);
              cfg = fsa_config s2
          in if m_available_at_ms message > now then
               let (_, s3) = write_delayed_meta L (m_key message)
                     \<lparr>dm_message_key = m_key message, dm_queue = m_queue message,
                      dm_available_at_ms = m_available_at_ms message,
                      dm_attempt = m_attempt message\<rparr> s2
               in atomic_write (build_queue_path cfg (m_queue message) ''delayed'' filename)
                    (serialize_envelope L message) s3
             else
               atomic_write (build_queue_path cfg (m_queue message) (fc_inbox_dir cfg) filename)
                 (serialize_envelope L message) s2)"

section \<open>Leasing\<close>

text \<open>The scan of the inbox: the first file that reads and parses and whose target is empty or the
  asking consumer.\<close>

fun find_match ::
  "json_lib \<Rightarrow> string \<Rightarrow> path list \<Rightarrow> fs_adapter \<Rightarrow> (path \<times> message) option \<times> fs_adapter"
where
  "find_match L consumer [] s = (None, s)"
| "find_match L consumer (f # fs) s =
     (case read_file f s of
        ((None, _), s1) \<Rightarrow> find_match L consumer fs s1
      | ((Some content, _), s1) \<Rightarrow>
          (case deserialize_envelope L content of
             (None, _) \<Rightarrow> find_match L consumer fs s1
           | (Some envelope, _) \<Rightarrow>
               if m_target_consumer_id envelope = [] \<or> m_target_consumer_id envelope = consumer
               then (Some (f, envelope), s1)
               else find_match L consumer fs s1))"

definition fs_lease_next ::
  "json_lib \<Rightarrow> string \<Rightarrow> string \<Rightarrow> int \<Rightarrow> fs_adapter \<Rightarrow> lease_result \<times> fs_adapter" where
  "fs_lease_next L queue consumer_id visibility_timeout_sec s =
     (if \<not> fsa_is_open s then (lease_error (Some ''adapter not open''), s)
      else
        let cfg = fsa_config s;
            (fs, s1) = list_json_files (build_queue_path cfg queue (fc_inbox_dir cfg) []) s
        in case find_match L consumer_id fs s1 of
             (None, s2) \<Rightarrow> (no_lease, s2)
           | (Some (matched, envelope), s2) \<Rightarrow>
               let processing = build_queue_path cfg queue (fc_processing_dir cfg) (last matched);
                   (moved, s3) = move_file matched processing s2
               in if \<not> fst moved then (lease_error (snd moved), s3)
                  else
                    let (lease_id, s4) = fresh_guid s3;
                        (now, s5) = now_ms s4;
                        until = i64 (now + visibility_timeout_sec * 1000);
                        lease = \<lparr>lt_lease_id = lease_id, lt_message_key = m_key envelope,
                                 lt_consumer_id = consumer_id, lt_lease_until_ms = until\<rparr>;
                        meta = \<lparr>lm_consumer_id = consumer_id, lm_lease_id = lease_id,
                                lm_lease_until_ms = until, lm_attempt = i32 (m_attempt envelope + 1),
                                lm_queue = queue\<rparr>;
                        (meta_ok, s6) = write_lease_meta L (m_key envelope) meta s5
                    in if \<not> fst meta_ok then
                         let (_, s7) = move_file processing matched s6
                         in (lease_error (snd meta_ok), s7)
                       else
                         let envelope' = envelope\<lparr>m_attempt := lm_attempt meta\<rparr>;
                             (_, s7) = atomic_write processing (serialize_envelope L envelope') s6
                         in (\<lparr>lr_leased = True, lr_message = Some envelope',
                              lr_lease = Some lease, lr_error = None\<rparr>, s7))"

section \<open>Acknowledgement\<close>

definition fs_ack :: "json_lib \<Rightarrow> lease_token \<Rightarrow> fs_adapter \<Rightarrow> res \<times> fs_adapter" where
  "fs_ack L lease s =
     (if \<not> fsa_is_open s then (err_res ''adapter not open'', s)
      else
        case read_lease_meta L (lt_message_key lease) s of
          ((None, e), s1) \<Rightarrow> (err_res (''lease not found: '' @ value_or e ''unknown''), s1)
        | ((Some meta, _), s1) \<Rightarrow>
            let (now, s2) = now_ms s1; cfg = fsa_config s2
            in if now > lm_lease_until_ms meta then (err_res ''lease expired'', s2)
               else if lm_consumer_id meta \<noteq> lt_consumer_id lease
               then (err_res ''consumer_id mismatch'', s2)
               else
                 (case after_last_colon (lt_message_key lease) of
                    None \<Rightarrow> (err_res ''invalid message key format'', s2)
                  | Some message_id \<Rightarrow>
                      let (moved, s3) =
                            move_file
                              (build_queue_path cfg (lm_queue meta) (fc_processing_dir cfg)
                                 (json_name message_id))
                              (build_queue_path cfg (lm_queue meta) (fc_archive_dir cfg)
                                 (json_name message_id)) s2
                      in if \<not> fst moved then ((False, snd moved), s3)
                         else
                           let (_, s4) = delete_lease_meta (lt_message_key lease) s3
                           in (ok_res, s4)))"

text \<open>The block of \<open>nack\<close> and \<open>move_to_dlq\<close> that writes the reason and the time into the message
  file; every exception and every write error is swallowed.\<close>

definition fs_stamp_dlq :: "json_lib \<Rightarrow> path \<Rightarrow> string \<Rightarrow> fs_adapter \<Rightarrow> fs_adapter" where
  "fs_stamp_dlq L p reason s =
     (case read_file p s of
        ((None, _), s1) \<Rightarrow> s1
      | ((Some content, _), s1) \<Rightarrow>
          (case json_parse L content of
             Inl _ \<Rightarrow> s1
           | Inr j \<Rightarrow>
               (case jset ''dlqReason'' (JStr reason) j of
                  Inl _ \<Rightarrow> s1
                | Inr j1 \<Rightarrow>
                    let (now, s2) = now_ms s1 in
                    (case jset ''dlqAt'' (JInt now) j1 of
                       Inl _ \<Rightarrow> s2
                     | Inr j2 \<Rightarrow> snd (atomic_write p (jl_dump L 2 j2) s2)))))"

definition fs_nack ::
  "json_lib \<Rightarrow> lease_token \<Rightarrow> string \<Rightarrow> bool \<Rightarrow> fs_adapter \<Rightarrow> res \<times> fs_adapter" where
  "fs_nack L lease reason requeue s =
     (if \<not> fsa_is_open s then (err_res ''adapter not open'', s)
      else
        case read_lease_meta L (lt_message_key lease) s of
          ((None, e), s1) \<Rightarrow> (err_res (''lease not found: '' @ value_or e ''unknown''), s1)
        | ((Some meta, _), s1) \<Rightarrow>
            (case after_last_colon (lt_message_key lease) of
               None \<Rightarrow> (err_res ''invalid message key format'', s1)
             | Some message_id \<Rightarrow>
                 let cfg = fsa_config s1;
                     filename = json_name message_id;
                     processing =
                       build_queue_path cfg (lm_queue meta) (fc_processing_dir cfg) filename;
                     (moved, s2) =
                       (if requeue then
                          move_file processing
                            (build_queue_path cfg (lm_queue meta) (fc_inbox_dir cfg) filename) s1
                        else
                          move_file processing
                            (build_queue_path cfg (lm_queue meta) (fc_dlq_dir cfg) filename)
                            (fs_stamp_dlq L processing reason s1))
                 in if \<not> fst moved then ((False, snd moved), s2)
                    else
                      let (_, s3) = delete_lease_meta (lt_message_key lease) s2
                      in (ok_res, s3)))"

definition fs_extend_lease ::
  "json_lib \<Rightarrow> lease_token \<Rightarrow> int \<Rightarrow> fs_adapter \<Rightarrow> res \<times> fs_adapter" where
  "fs_extend_lease L lease visibility_timeout_sec s =
     (if \<not> fsa_is_open s then (err_res ''adapter not open'', s)
      else
        case read_lease_meta L (lt_message_key lease) s of
          ((None, e), s1) \<Rightarrow> (err_res (''lease not found: '' @ value_or e ''unknown''), s1)
        | ((Some meta, _), s1) \<Rightarrow>
            if lm_consumer_id meta \<noteq> lt_consumer_id lease
            then (err_res ''consumer_id mismatch'', s1)
            else
              let (now, s2) = now_ms s1
              in if now > lm_lease_until_ms meta then (err_res ''lease expired'', s2)
                 else
                   write_lease_meta L (lt_message_key lease)
                     (meta\<lparr>lm_lease_until_ms := i64 (now + visibility_timeout_sec * 1000)\<rparr>) s2)"

section \<open>Policies\<close>

text \<open>The two optional blocks of a stored policy. A block that is missing leaves the values of a
  default-constructed policy; a member missing inside a block gets the default named here.\<close>

definition retry_of_json :: "json_lib \<Rightarrow> json \<Rightarrow> json_exc + retry_policy" where
  "retry_of_json L r =
     ebind (jvalue (get_i32 L) r ''limit'' 5) (\<lambda>limit.
     ebind (jvalue get_string r ''backoff'' ''exponential'') (\<lambda>backoff.
     ebind (jvalue (get_i32 L) r ''initialDelaySec'' 1) (\<lambda>initial.
     ebind (jvalue (get_i32 L) r ''maxDelaySec'' 60) (\<lambda>maximum.
       Inr \<lparr>rp_limit = limit, rp_backoff = backoff, rp_initial_delay_sec = initial,
            rp_max_delay_sec = maximum\<rparr>))))"

definition dlq_of_json :: "json_lib \<Rightarrow> json \<Rightarrow> json_exc + dlq_policy" where
  "dlq_of_json L d =
     ebind (jvalue get_bool d ''enabled'' True) (\<lambda>enabled.
     ebind (jvalue get_string d ''queue'' '''') (\<lambda>queue.
     ebind (jvalue (get_i32 L) d ''retentionDays'' 14) (\<lambda>days.
       Inr \<lparr>dp_enabled = enabled, dp_queue = queue, dp_retention_days = days\<rparr>)))"

definition fs_policy_of_json :: "json_lib \<Rightarrow> json \<Rightarrow> json_exc + queue_policy" where
  "fs_policy_of_json L j =
     ebind (jvalue (get_i32 L) j ''visibilityTimeoutSec'' 30) (\<lambda>visibility.
     ebind (case jmember j ''retry'' of
              Some (JObj m) \<Rightarrow> retry_of_json L (JObj m)
            | _ \<Rightarrow> Inr (qp_retry default_policy)) (\<lambda>retry.
     ebind (case jmember j ''dlq'' of
              Some (JObj m) \<Rightarrow> dlq_of_json L (JObj m)
            | _ \<Rightarrow> Inr (qp_dlq default_policy)) (\<lambda>dlq.
       Inr \<lparr>qp_visibility_timeout_sec = visibility, qp_retry = retry, qp_dlq = dlq\<rparr>)))"

definition policy_json :: "queue_policy \<Rightarrow> json" where
  "policy_json policy = jobj
     [(''visibilityTimeoutSec'', JInt (qp_visibility_timeout_sec policy)),
      (''retry'', jobj
         [(''limit'', JInt (rp_limit (qp_retry policy))),
          (''backoff'', JStr (rp_backoff (qp_retry policy))),
          (''initialDelaySec'', JInt (rp_initial_delay_sec (qp_retry policy))),
          (''maxDelaySec'', JInt (rp_max_delay_sec (qp_retry policy)))]),
      (''dlq'', jobj
         [(''enabled'', JBool (dp_enabled (qp_dlq policy))),
          (''queue'', JStr (dp_queue (qp_dlq policy))),
          (''retentionDays'', JInt (dp_retention_days (qp_dlq policy)))])]"

definition policy_path :: "fs_config \<Rightarrow> string \<Rightarrow> path" where
  "policy_path cfg queue = build_meta_path cfg (''policy_'' @ queue @ ''.json'')"

definition fs_load_policy ::
  "json_lib \<Rightarrow> string \<Rightarrow> fs_adapter \<Rightarrow> (queue_policy option \<times> string option) \<times> fs_adapter"
where
  "fs_load_policy L queue s =
     (case fsa_policies s queue of
        Some p \<Rightarrow> ((Some p, None), s)
      | None \<Rightarrow>
          (case read_file (policy_path (fsa_config s) queue) s of
             ((None, _), s1) \<Rightarrow> ((None, None), s1)
           | ((Some content, _), s1) \<Rightarrow>
               (case ebind (json_parse L content) (fs_policy_of_json L) of
                  Inl e \<Rightarrow> ((None, Some (''policy parse error: '' @ jl_what L e)), s1)
                | Inr p \<Rightarrow>
                    ((Some p, None), s1\<lparr>fsa_policies := (fsa_policies s1)(queue \<mapsto> p)\<rparr>))))"

definition fs_save_policy ::
  "json_lib \<Rightarrow> string \<Rightarrow> queue_policy \<Rightarrow> fs_adapter \<Rightarrow> res \<times> fs_adapter" where
  "fs_save_policy L queue policy s =
     (let s1 = s\<lparr>fsa_policies := (fsa_policies s)(queue \<mapsto> policy)\<rparr>;
          (_, s2) = ensure_queue_directories queue s1
      in atomic_write (policy_path (fsa_config s2) queue) (jl_dump L 2 (policy_json policy)) s2)"

section \<open>Metrics\<close>

definition fs_metrics ::
  "string \<Rightarrow> fs_adapter \<Rightarrow> (queue_metrics \<times> string option) \<times> fs_adapter" where
  "fs_metrics queue s =
     (if \<not> fsa_is_open s then ((zero_metrics, Some ''adapter not open''), s)
      else
        let cfg = fsa_config s;
            (r, s1) = list_json_files (build_queue_path cfg queue (fc_inbox_dir cfg) []) s;
            (i, s2) = list_json_files (build_queue_path cfg queue (fc_processing_dir cfg) []) s1;
            (d, s3) = list_json_files (build_queue_path cfg queue ''delayed'' []) s2;
            (q, s4) = list_json_files (build_queue_path cfg queue (fc_dlq_dir cfg) []) s3
        in ((\<lparr>qm_ready = length r, qm_inflight = length i, qm_delayed = length d,
              qm_dlq = length q\<rparr>, None), s4))"

section \<open>Sweeps\<close>

text \<open>What one lease file says to \<open>recover_expired_leases\<close>: None when the lease has not expired,
  else the key and the queue it names.\<close>

definition expired_entry ::
  "json_lib \<Rightarrow> int \<Rightarrow> string \<Rightarrow> json_exc + (string \<times> string) option" where
  "expired_entry L now content =
     ebind (json_parse L content) (\<lambda>j.
     ebind (jvalue (get_i64 L) j ''leaseUntil'' 0) (\<lambda>until.
       if now > until then
         ebind (jvalue get_string j ''messageKey'' '''') (\<lambda>key.
         ebind (jvalue get_string j ''queue'' '''') (\<lambda>queue.
           Inr (Some (key, queue))))
       else Inr None))"

text \<open>The loop body after a lease file was found expired: the message file, when it is still in the
  processing directory, goes back to the inbox; the lease file is removed in any case.\<close>

definition recover_one ::
  "string \<Rightarrow> string \<Rightarrow> path \<Rightarrow> int \<Rightarrow> fs_adapter \<Rightarrow> int \<times> fs_adapter" where
  "recover_one queue message_id entry n s =
     (let cfg = fsa_config s;
          processing = build_queue_path cfg queue (fc_processing_dir cfg) (json_name message_id);
          inbox = build_queue_path cfg queue (fc_inbox_dir cfg) (json_name message_id);
          (n2, s2) =
            (if fexists s processing then
               case os_rename processing inbox s of
                 (None, s2) \<Rightarrow> (i32 (n + 1), s2)
               | (Some _, s2) \<Rightarrow> (n, s2)
             else (n, s));
          (_, s3) = os_remove entry s2
      in (n2, s3))"

fun recover_entries ::
  "json_lib \<Rightarrow> int \<Rightarrow> path list \<Rightarrow> int \<Rightarrow> fs_adapter \<Rightarrow> int \<times> fs_adapter" where
  "recover_entries L now [] n s = (n, s)"
| "recover_entries L now (entry # es) n s =
     (case read_file entry s of
        ((None, _), s1) \<Rightarrow> recover_entries L now es n s1
      | ((Some content, _), s1) \<Rightarrow>
          (case expired_entry L now content of
             Inl _ \<Rightarrow> recover_entries L now es n s1
           | Inr None \<Rightarrow> recover_entries L now es n s1
           | Inr (Some (key, queue)) \<Rightarrow>
               if key = [] \<or> queue = [] then recover_entries L now es n s1
               else
                 (case after_last_colon key of
                    None \<Rightarrow> recover_entries L now es n s1
                  | Some message_id \<Rightarrow>
                      let (n2, s2) = recover_one queue message_id entry n s1
                      in recover_entries L now es n2 s2)))"

definition fs_recover_expired_leases ::
  "json_lib \<Rightarrow> fs_adapter \<Rightarrow> (int \<times> string option) \<times> fs_adapter" where
  "fs_recover_expired_leases L s =
     (if \<not> fsa_is_open s then ((0, Some ''adapter not open''), s)
      else
        let (now, s1) = now_ms s;
            meta_dir = build_meta_path (fsa_config s1) ''leases''
        in if \<not> fexists s1 meta_dir then ((0, None), s1)
           else
             let (entries, s2) = os_list_files meta_dir s1;
                 (n, s3) = recover_entries L now entries 0 s2
             in ((n, None), s3))"

text \<open>\<open>process_delayed_messages\<close>: one due file, the files of one queue, all queues.\<close>

definition process_one ::
  "string \<Rightarrow> path \<Rightarrow> json \<Rightarrow> int \<Rightarrow> fs_adapter \<Rightarrow> int \<times> fs_adapter" where
  "process_one queue f j n s =
     (let cfg = fsa_config s
      in case os_rename f (build_queue_path cfg queue (fc_inbox_dir cfg) (last f)) s of
           (Some _, s1) \<Rightarrow> (n, s1)
         | (None, s1) \<Rightarrow>
             (case jvalue get_string j ''key'' '''' of
                Inl _ \<Rightarrow> (i32 (n + 1), s1)
              | Inr key \<Rightarrow>
                  (i32 (n + 1), if key = [] then s1 else snd (delete_delayed_meta key s1))))"

fun process_files ::
  "json_lib \<Rightarrow> int \<Rightarrow> string \<Rightarrow> path list \<Rightarrow> int \<Rightarrow> fs_adapter \<Rightarrow> int \<times> fs_adapter" where
  "process_files L now queue [] n s = (n, s)"
| "process_files L now queue (f # fs) n s =
     (case read_file f s of
        ((None, _), s1) \<Rightarrow> process_files L now queue fs n s1
      | ((Some content, _), s1) \<Rightarrow>
          (case ebind (json_parse L content)
                  (\<lambda>j. ebind (jvalue (get_i64 L) j ''availableAt'' 0) (\<lambda>a. Inr (j, a))) of
             Inl _ \<Rightarrow> process_files L now queue fs n s1
           | Inr (j, available_at) \<Rightarrow>
               if now \<ge> available_at then
                 let (n2, s2) = process_one queue f j n s1 in process_files L now queue fs n2 s2
               else process_files L now queue fs n s1))"

fun process_queues ::
  "json_lib \<Rightarrow> int \<Rightarrow> path list \<Rightarrow> int \<Rightarrow> fs_adapter \<Rightarrow> int \<times> fs_adapter" where
  "process_queues L now [] n s = (n, s)"
| "process_queues L now (d # ds) n s =
     (let queue = last d; cfg = fsa_config s
      in if queue = fc_meta_dir cfg then process_queues L now ds n s
         else
           let delayed_dir = build_queue_path cfg queue ''delayed'' []
           in if \<not> fexists s delayed_dir then process_queues L now ds n s
              else
                let (fs, s1) = list_json_files delayed_dir s;
                    (n2, s2) = process_files L now queue fs n s1
                in process_queues L now ds n2 s2)"

definition fs_process_delayed_messages ::
  "json_lib \<Rightarrow> fs_adapter \<Rightarrow> (int \<times> string option) \<times> fs_adapter" where
  "fs_process_delayed_messages L s =
     (if \<not> fsa_is_open s then ((0, Some ''adapter not open''), s)
      else
        let (now, s1) = now_ms s;
            (ds, s2) = os_list_dirs (to_path (fc_root (fsa_config s1))) s1;
            (n, s3) = process_queues L now ds 0 s2
        in ((n, None), s3))"

definition expired_info ::
  "json_lib \<Rightarrow> int \<Rightarrow> string \<Rightarrow> json_exc + expired_lease_info option" where
  "expired_info L now content =
     ebind (json_parse L content) (\<lambda>j.
     ebind (jvalue (get_i64 L) j ''leaseUntil'' 0) (\<lambda>until.
       if now > until then
         ebind (jvalue get_string j ''messageKey'' '''') (\<lambda>key.
         ebind (jvalue get_string j ''queue'' '''') (\<lambda>queue.
         ebind (jvalue (get_i32 L) j ''attempt'' 0) (\<lambda>attempt.
           Inr (Some \<lparr>el_message_key = key, el_queue = queue, el_attempt = attempt\<rparr>))))
       else Inr None))"

fun collect_expired ::
  "json_lib \<Rightarrow> int \<Rightarrow> path list \<Rightarrow> fs_adapter \<Rightarrow> expired_lease_info list \<times> fs_adapter" where
  "collect_expired L now [] s = ([], s)"
| "collect_expired L now (entry # es) s =
     (case read_file entry s of
        ((None, _), s1) \<Rightarrow> collect_expired L now es s1
      | ((Some content, _), s1) \<Rightarrow>
          (case expired_info L now content of
             Inr (Some info) \<Rightarrow>
               let (infos, s2) = collect_expired L now es s1 in (info # infos, s2)
           | _ \<Rightarrow> collect_expired L now es s1))"

definition fs_get_expired_inflight_messages ::
  "json_lib \<Rightarrow> fs_adapter \<Rightarrow> (expired_lease_info list \<times> string option) \<times> fs_adapter" where
  "fs_get_expired_inflight_messages L s =
     (if \<not> fsa_is_open s then (([], Some ''adapter not open''), s)
      else
        let (now, s1) = now_ms s;
            meta_dir = build_meta_path (fsa_config s1) ''leases''
        in if \<not> fexists s1 meta_dir then (([], None), s1)
           else
             let (entries, s2) = os_list_files meta_dir s1;
                 (infos, s3) = collect_expired L now entries s2
             in ((infos, None), s3))"

section \<open>Retry and dead letters\<close>

text \<open>The block of \<open>delay_message\<close> that writes the new availability time into the message file.\<close>

definition fs_stamp_available :: "json_lib \<Rightarrow> path \<Rightarrow> int \<Rightarrow> fs_adapter \<Rightarrow> fs_adapter" where
  "fs_stamp_available L p delay_ms s =
     (case read_file p s of
        ((None, _), s1) \<Rightarrow> s1
      | ((Some content, _), s1) \<Rightarrow>
          (case json_parse L content of
             Inl _ \<Rightarrow> s1
           | Inr j \<Rightarrow>
               let (now, s2) = now_ms s1 in
               (case jset ''availableAt'' (JInt (i64 (now + delay_ms))) j of
                  Inl _ \<Rightarrow> s2
                | Inr j1 \<Rightarrow> snd (atomic_write p (jl_dump L 2 j1) s2))))"

definition fs_delay_message :: "json_lib \<Rightarrow> string \<Rightarrow> int \<Rightarrow> fs_adapter \<Rightarrow> res \<times> fs_adapter" where
  "fs_delay_message L key delay_ms s =
     (if \<not> fsa_is_open s then (err_res ''adapter not open'', s)
      else
        case read_lease_meta L key s of
          ((None, e), s1) \<Rightarrow> ((False, e), s1)
        | ((Some meta, _), s1) \<Rightarrow>
            (case after_last_colon key of
               None \<Rightarrow> (err_res ''invalid message key format'', s1)
             | Some message_id \<Rightarrow>
                 let cfg = fsa_config s1;
                     queue = lm_queue meta;
                     filename = json_name message_id;
                     processing = build_queue_path cfg queue (fc_processing_dir cfg) filename
                 in if delay_ms \<le> 0 then
                      let (moved, s2) =
                            move_file processing
                              (build_queue_path cfg queue (fc_inbox_dir cfg) filename) s1
                      in if \<not> fst moved then ((False, snd moved), s2)
                         else let (_, s3) = delete_lease_meta key s2 in (ok_res, s3)
                    else
                      let s2 = fs_stamp_available L processing delay_ms s1;
                          (moved, s3) =
                            move_file processing
                              (build_queue_path cfg queue ''delayed'' filename) s2
                      in if \<not> fst moved then ((False, snd moved), s3)
                         else
                           let (now, s4) = now_ms s3;
                               (_, s5) = write_delayed_meta L key
                                 \<lparr>dm_message_key = key, dm_queue = queue,
                                  dm_available_at_ms = i64 (now + delay_ms),
                                  dm_attempt = lm_attempt meta\<rparr> s4;
                               (_, s6) = delete_lease_meta key s5
                           in (ok_res, s6)))"

definition fs_move_to_dlq :: "json_lib \<Rightarrow> string \<Rightarrow> string \<Rightarrow> fs_adapter \<Rightarrow> res \<times> fs_adapter" where
  "fs_move_to_dlq L key reason s =
     (if \<not> fsa_is_open s then (err_res ''adapter not open'', s)
      else
        case read_lease_meta L key s of
          ((None, e), s1) \<Rightarrow> ((False, e), s1)
        | ((Some meta, _), s1) \<Rightarrow>
            (case after_last_colon key of
               None \<Rightarrow> (err_res ''invalid message key format'', s1)
             | Some message_id \<Rightarrow>
                 let cfg = fsa_config s1;
                     filename = json_name message_id;
                     processing =
                       build_queue_path cfg (lm_queue meta) (fc_processing_dir cfg) filename;
                     s2 = fs_stamp_dlq L processing reason s1;
                     (moved, s3) =
                       move_file processing
                         (build_queue_path cfg (lm_queue meta) (fc_dlq_dir cfg) filename) s2
                 in if \<not> fst moved then ((False, snd moved), s3)
                    else let (_, s4) = delete_lease_meta key s3 in (ok_res, s4)))"

definition dlq_info_of_json :: "json_lib \<Rightarrow> string \<Rightarrow> json \<Rightarrow> json_exc + dlq_message_info" where
  "dlq_info_of_json L queue j =
     ebind (jvalue get_string j ''key'' '''') (\<lambda>key.
     ebind (jvalue get_string j ''queue'' queue) (\<lambda>q.
     ebind (jvalue get_string j ''dlqReason'' '''') (\<lambda>reason.
     ebind (jvalue (get_i64 L) j ''dlqAt'' 0) (\<lambda>at.
     ebind (jvalue (get_i32 L) j ''attempt'' 0) (\<lambda>attempt.
       Inr \<lparr>di_message_key = key, di_queue = q, di_reason = reason, di_dlq_at_ms = at,
            di_attempt = attempt\<rparr>)))))"

fun collect_dlq ::
  "json_lib \<Rightarrow> string \<Rightarrow> int \<Rightarrow> path list \<Rightarrow> int \<Rightarrow> fs_adapter \<Rightarrow> dlq_message_info list \<times> fs_adapter"
where
  "collect_dlq L queue limit [] n s = ([], s)"
| "collect_dlq L queue limit (f # fs) n s =
     (if n \<ge> limit then ([], s)
      else
        case read_file f s of
          ((None, _), s1) \<Rightarrow> collect_dlq L queue limit fs n s1
        | ((Some content, _), s1) \<Rightarrow>
            (case ebind (json_parse L content) (dlq_info_of_json L queue) of
               Inl _ \<Rightarrow> collect_dlq L queue limit fs n s1
             | Inr info \<Rightarrow>
                 let (infos, s2) = collect_dlq L queue limit fs (n + 1) s1 in (info # infos, s2)))"

definition fs_list_dlq_messages ::
  "json_lib \<Rightarrow> string \<Rightarrow> int \<Rightarrow> fs_adapter \<Rightarrow> (dlq_message_info list \<times> string option) \<times> fs_adapter"
where
  "fs_list_dlq_messages L queue limit s =
     (if \<not> fsa_is_open s then (([], Some ''adapter not open''), s)
      else
        let cfg = fsa_config s;
            (fs, s1) = list_json_files (build_queue_path cfg queue (fc_dlq_dir cfg) []) s;
            (infos, s2) = collect_dlq L queue limit fs 0 s1
        in ((infos, None), s2))"

text \<open>The edit of \<open>reprocess_dlq_message\<close> before the new availability time is set.\<close>

definition clear_dlq_fields :: "json \<Rightarrow> json_exc + json" where
  "clear_dlq_fields j =
     ebind (jerase ''dlqReason'' j) (\<lambda>j1.
     ebind (jerase ''dlqAt'' j1) (\<lambda>j2.
       jset ''attempt'' (JInt 0) j2))"

definition fs_reprocess_dlq_message :: "json_lib \<Rightarrow> string \<Rightarrow> fs_adapter \<Rightarrow> res \<times> fs_adapter" where
  "fs_reprocess_dlq_message L key s =
     (if \<not> fsa_is_open s then (err_res ''adapter not open'', s)
      else
        let queue = extract_queue_from_key key
        in if queue = [] then (err_res ''invalid message key format'', s)
           else
             case after_last_colon key of
               None \<Rightarrow> (err_res ''invalid message key format'', s)
             | Some message_id \<Rightarrow>
                 let cfg = fsa_config s;
                     filename = json_name message_id;
                     dlq = build_queue_path cfg queue (fc_dlq_dir cfg) filename;
                     inbox = build_queue_path cfg queue (fc_inbox_dir cfg) filename
                 in (case read_file dlq s of
                       ((None, e), s1) \<Rightarrow>
                         (err_res (''DLQ message not found: '' @ value_or e ''unknown''), s1)
                     | ((Some content, _), s1) \<Rightarrow>
                         (case ebind (json_parse L content) clear_dlq_fields of
                            Inl e \<Rightarrow>
                              (err_res (''failed to parse DLQ message: '' @ jl_what L e), s1)
                          | Inr j \<Rightarrow>
                              let (now, s2) = now_ms s1 in
                              (case jset ''availableAt'' (JInt now) j of
                                 Inl e \<Rightarrow>
                                   (err_res (''failed to parse DLQ message: '' @ jl_what L e), s2)
                               | Inr j1 \<Rightarrow>
                                   let (written, s3) = atomic_write dlq (jl_dump L 2 j1) s2
                                   in if \<not> fst written then ((False, snd written), s3)
                                      else
                                        let (moved, s4) = move_file dlq inbox s3
                                        in if \<not> fst moved then ((False, snd moved), s4)
                                           else (ok_res, s4)))))"

section \<open>The adapter as an operation table\<close>

definition fs_backend :: "json_lib \<Rightarrow> fs_adapter backend" where
  "fs_backend L = \<lparr>
     be_enqueue = fs_enqueue L,
     be_lease_next = fs_lease_next L,
     be_ack = fs_ack L,
     be_nack = fs_nack L,
     be_extend_lease = fs_extend_lease L,
     be_load_policy = fs_load_policy L,
     be_save_policy = fs_save_policy L,
     be_metrics = fs_metrics,
     be_recover_expired_leases = fs_recover_expired_leases L,
     be_process_delayed_messages = fs_process_delayed_messages L,
     be_get_expired_inflight_messages = fs_get_expired_inflight_messages L,
     be_delay_message = fs_delay_message L,
     be_move_to_dlq = fs_move_to_dlq L,
     be_list_dlq_messages = fs_list_dlq_messages L,
     be_reprocess_dlq_message = fs_reprocess_dlq_message L\<rparr>"

lemmas fs_model_defs [model_defs] =
  build_queue_path_def build_meta_path_def ensure_directories_def ensure_queue_directories_def
  json_name_def fs_open_def fs_close_def serialize_envelope_def deserialize_envelope_def
  lease_meta_path_def delayed_meta_path_def ensure_meta_dir_def write_lease_meta_def
  lease_meta_of_json_def read_lease_meta_def delete_lease_meta_def write_delayed_meta_def
  delete_delayed_meta_def extract_queue_from_key_def fs_enqueue_def fs_lease_next_def fs_ack_def
  fs_stamp_dlq_def fs_nack_def fs_extend_lease_def retry_of_json_def dlq_of_json_def
  fs_policy_of_json_def policy_json_def policy_path_def fs_load_policy_def fs_save_policy_def
  fs_metrics_def expired_entry_def recover_one_def fs_recover_expired_leases_def process_one_def
  fs_process_delayed_messages_def expired_info_def fs_get_expired_inflight_messages_def
  fs_stamp_available_def fs_delay_message_def fs_move_to_dlq_def dlq_info_of_json_def
  fs_list_dlq_messages_def clear_dlq_fields_def fs_reprocess_dlq_message_def

end
