(* ===== verification/Backend_Contract.thy ===== *)
theory Backend_Contract
  imports Backend_Types
begin

text \<open>
  What the queue manager and the mailbox rely on when they call an adapter: none of its operations
  loses a message. An adapter is a table of operations over its own state; \<open>stored s q i\<close> is the body
  of the message \<open>i\<close> of the queue \<open>q\<close> when the adapter still owes it to somebody (it is neither
  unknown nor acknowledged). The laws below are proved for the model of each adapter by an
  interpretation of the locale; the clients' lemmas are proved once, inside the locale.
\<close>

section \<open>Vocabulary\<close>

definition msg_key :: "string \<Rightarrow> string \<Rightarrow> string" where
  "msg_key q i = ''msg:'' @ q @ CHR '':'' # i"

text \<open>A message identifier: non-empty, without the two characters paths and keys are cut at.\<close>

definition id_ok :: "string \<Rightarrow> bool" where
  "id_ok i \<longleftrightarrow> i \<noteq> [] \<and> CHR ''/'' \<notin> set i \<and> CHR '':'' \<notin> set i"

lemma msg_key_last: "CHR '':'' \<notin> set i \<Longrightarrow> after_last_colon (msg_key q i) = Some i"
  using after_last_colon_append [of i "''msg:'' @ q"] by (simp add: msg_key_def)

lemma slash_msg_key [simp]:
  "CHR ''/'' \<in> set (msg_key q i) \<longleftrightarrow> CHR ''/'' \<in> set q \<or> CHR ''/'' \<in> set i"
  by (auto simp: msg_key_def)

text \<open>The part of a message no operation after the enqueue changes.\<close>

definition msg_body :: "message \<Rightarrow> message" where
  "msg_body e = e\<lparr>m_attempt := 0, m_available_at_ms := 0\<rparr>"

lemma msg_body_upd [simp]:
  "msg_body (e\<lparr>m_available_at_ms := a\<rparr>) = msg_body e" "msg_body (e\<lparr>m_attempt := n\<rparr>) = msg_body e"
  by (simp_all add: msg_body_def)

lemma msg_body_eqD:
  assumes "msg_body e' = msg_body e"
  shows "m_key e' = m_key e" "m_message_id e' = m_message_id e" "m_queue e' = m_queue e"
    "m_payload_json e' = m_payload_json e" "m_target_consumer_id e' = m_target_consumer_id e"
  using assms by (cases e; cases e'; simp add: msg_body_def)+

definition msg_ranges :: "message \<Rightarrow> bool" where
  "msg_ranges e \<longleftrightarrow> in_i32 (m_priority e) \<and> in_i32 (m_attempt e) \<and>
     in_i64 (m_created_at_ms e) \<and> in_i64 (m_available_at_ms e)"

text \<open>The message a client hands in: its key, queue and identifier agree, its numbers are in the
  range of their types, and it says when it was made.\<close>

definition well_formed_message :: "message \<Rightarrow> bool" where
  "well_formed_message e \<longleftrightarrow>
     msg_ranges e \<and> 0 < m_created_at_ms e \<and> m_key e = msg_key (m_queue e) (m_message_id e) \<and>
     id_ok (m_message_id e)"

section \<open>The contract\<close>

locale message_store =
  fixes B :: "'s backend"
    and inv :: "'s \<Rightarrow> bool"
    and stored :: "'s \<Rightarrow> string \<Rightarrow> string \<Rightarrow> message option"
    and fresh :: "'s \<Rightarrow> string \<Rightarrow> string \<Rightarrow> bool"
    and queue_name :: "string \<Rightarrow> bool"
    and key_ok :: "string \<Rightarrow> bool"
  assumes fresh_stored: "inv s \<Longrightarrow> queue_name q \<Longrightarrow> id_ok i \<Longrightarrow> fresh s q i \<Longrightarrow> stored s q i = None"
    and enqueue: "inv s \<Longrightarrow> well_formed_message e \<Longrightarrow> queue_name (m_queue e) \<Longrightarrow>
        fresh s (m_queue e) (m_message_id e) \<Longrightarrow> be_enqueue B e s = (r, s') \<Longrightarrow>
        inv s' \<and>
        (\<forall>q i. queue_name q \<longrightarrow> id_ok i \<longrightarrow> (q, i) \<noteq> (m_queue e, m_message_id e) \<longrightarrow>
           stored s' q i = stored s q i) \<and>
        (fst r \<longrightarrow> stored s' (m_queue e) (m_message_id e) = Some (msg_body e))"
    and lease_next: "inv s \<Longrightarrow> queue_name queue \<Longrightarrow> be_lease_next B queue c t s = (lr, s') \<Longrightarrow>
        inv s' \<and> (\<forall>q i. queue_name q \<longrightarrow> id_ok i \<longrightarrow> stored s' q i = stored s q i)"
    and ack: "inv s \<Longrightarrow> key_ok (lt_message_key l) \<Longrightarrow> be_ack B l s = (r, s') \<Longrightarrow>
        inv s' \<and>
        (\<forall>q i. queue_name q \<longrightarrow> id_ok i \<longrightarrow> stored s' q i = stored s q i \<or>
           (fst r \<and> after_last_colon (lt_message_key l) = Some i \<and> stored s' q i = None))"
    and nack: "inv s \<Longrightarrow> key_ok (lt_message_key l) \<Longrightarrow> be_nack B l reason requeue s = (r, s') \<Longrightarrow>
        inv s' \<and> (\<forall>q i. queue_name q \<longrightarrow> id_ok i \<longrightarrow> stored s' q i = stored s q i)"
    and extend_lease: "inv s \<Longrightarrow> key_ok (lt_message_key l) \<Longrightarrow>
        be_extend_lease B l t s = (r, s') \<Longrightarrow>
        inv s' \<and> (\<forall>q i. queue_name q \<longrightarrow> id_ok i \<longrightarrow> stored s' q i = stored s q i)"
    and load_policy: "inv s \<Longrightarrow> be_load_policy B queue s = (pr, s') \<Longrightarrow>
        inv s' \<and> (\<forall>q i. queue_name q \<longrightarrow> id_ok i \<longrightarrow> stored s' q i = stored s q i)"
    and save_policy: "inv s \<Longrightarrow> be_save_policy B queue p s = (r, s') \<Longrightarrow>
        inv s' \<and> (\<forall>q i. queue_name q \<longrightarrow> id_ok i \<longrightarrow> stored s' q i = stored s q i)"
    and metrics: "inv s \<Longrightarrow> be_metrics B queue s = (mr, s') \<Longrightarrow>
        inv s' \<and> (\<forall>q i. queue_name q \<longrightarrow> id_ok i \<longrightarrow> stored s' q i = stored s q i)"
    and recover: "inv s \<Longrightarrow> be_recover_expired_leases B s = (nr, s') \<Longrightarrow>
        inv s' \<and> (\<forall>q i. queue_name q \<longrightarrow> id_ok i \<longrightarrow> stored s' q i = stored s q i)"
    and process_delayed: "inv s \<Longrightarrow> be_process_delayed_messages B s = (nr, s') \<Longrightarrow>
        inv s' \<and> (\<forall>q i. queue_name q \<longrightarrow> id_ok i \<longrightarrow> stored s' q i = stored s q i)"
    and get_expired: "inv s \<Longrightarrow> be_get_expired_inflight_messages B s = ((infos, err), s') \<Longrightarrow>
        inv s' \<and> (\<forall>q i. queue_name q \<longrightarrow> id_ok i \<longrightarrow> stored s' q i = stored s q i) \<and>
        (\<forall>info \<in> set infos. key_ok (el_message_key info))"
    and delay_message: "inv s \<Longrightarrow> key_ok key \<Longrightarrow> be_delay_message B key d s = (r, s') \<Longrightarrow>
        inv s' \<and> (\<forall>q i. queue_name q \<longrightarrow> id_ok i \<longrightarrow> stored s' q i = stored s q i)"
    and move_to_dlq: "inv s \<Longrightarrow> key_ok key \<Longrightarrow> be_move_to_dlq B key reason s = (r, s') \<Longrightarrow>
        inv s' \<and> (\<forall>q i. queue_name q \<longrightarrow> id_ok i \<longrightarrow> stored s' q i = stored s q i)"
    and list_dlq: "inv s \<Longrightarrow> be_list_dlq_messages B queue n s = (dr, s') \<Longrightarrow>
        inv s' \<and> (\<forall>q i. queue_name q \<longrightarrow> id_ok i \<longrightarrow> stored s' q i = stored s q i)"
    and reprocess_dlq: "inv s \<Longrightarrow> key_ok key \<Longrightarrow> be_reprocess_dlq_message B key s = (r, s') \<Longrightarrow>
        inv s' \<and> (\<forall>q i. queue_name q \<longrightarrow> id_ok i \<longrightarrow> stored s' q i = stored s q i)"
begin

text \<open>The laws of the operations that keep every message, as one relation between states.\<close>

definition keeps :: "'s \<Rightarrow> 's \<Rightarrow> bool" where
  "keeps s s' \<longleftrightarrow>
     inv s' \<and> (\<forall>q i. queue_name q \<longrightarrow> id_ok i \<longrightarrow> stored s' q i = stored s q i)"

lemma keeps_refl: "inv s \<Longrightarrow> keeps s s"
  by (simp add: keeps_def)

lemma keeps_trans: "keeps s s' \<Longrightarrow> keeps s' s'' \<Longrightarrow> keeps s s''"
  by (simp add: keeps_def)

lemma keeps_inv: "keeps s s' \<Longrightarrow> inv s'"
  by (simp add: keeps_def)

lemmas keeping =
  lease_next [folded keeps_def] nack [folded keeps_def] extend_lease [folded keeps_def]
  load_policy [folded keeps_def] save_policy [folded keeps_def] metrics [folded keeps_def]
  recover [folded keeps_def] process_delayed [folded keeps_def]
  delay_message [folded keeps_def] move_to_dlq [folded keeps_def] list_dlq [folded keeps_def]
  reprocess_dlq [folded keeps_def]

lemma keeps_get_expired:
  "inv s \<Longrightarrow> be_get_expired_inflight_messages B s = ((infos, err), s') \<Longrightarrow>
     keeps s s' \<and> (\<forall>info \<in> set infos. key_ok (el_message_key info))"
  using get_expired by (simp add: keeps_def)

end

end
