(* ===== verification/FileSystem_View.thy ===== *)
theory FileSystem_View
  imports FileSystem_Adapter Backend_Contract
begin

text \<open>
  What a message looks like in the directories of \<open>FileSystem_Adapter\<close>: its place (the state
  directory its file is in) and its body (the fields no later operation changes). The file map
  invariant \<open>fm_inv\<close> and the step relation \<open>fs_step\<close> are stated here, with one lemma per kind of
  file change (a file outside the message directories, a lease file, a rewritten message file, a
  moved message file); \<open>FileSystem_Lifecycle\<close> composes them into the adapter's operations.
\<close>

section \<open>Names, keys and places\<close>

definition queue_ok :: "fs_config \<Rightarrow> string \<Rightarrow> bool" where
  "queue_ok cfg q \<longleftrightarrow> plain_name q \<and> q \<noteq> fc_meta_dir cfg"

fun state_dir :: "fs_config \<Rightarrow> message_state \<Rightarrow> string" where
  "state_dir cfg Ready = fc_inbox_dir cfg"
| "state_dir cfg Inflight = fc_processing_dir cfg"
| "state_dir cfg Delayed = ''delayed''"
| "state_dir cfg Dlq = fc_dlq_dir cfg"
| "state_dir cfg Archived = fc_archive_dir cfg"

definition fs_cfg_ok :: "fs_config \<Rightarrow> bool" where
  "fs_cfg_ok cfg \<longleftrightarrow>
     list_all plain_name
       [fc_inbox_dir cfg, fc_processing_dir cfg, fc_archive_dir cfg, fc_dlq_dir cfg, fc_meta_dir cfg] \<and>
     distinct
       [fc_inbox_dir cfg, fc_processing_dir cfg, fc_archive_dir cfg, fc_dlq_dir cfg,
        ''delayed'', ''leases'']"

definition root_path :: "fs_config \<Rightarrow> path" where
  "root_path cfg = to_path (fc_root cfg)"

definition lease_dir :: "fs_config \<Rightarrow> path" where
  "lease_dir cfg = root_path cfg @ [fc_meta_dir cfg, ''leases'']"

definition mpath :: "fs_config \<Rightarrow> message_state \<Rightarrow> string \<Rightarrow> string \<Rightarrow> path" where
  "mpath cfg st q f = root_path cfg @ [q, state_dir cfg st, f]"

lemma plain_delayed [simp]: "plain_name ''delayed''" "plain_name ''leases''"
  by (simp_all add: plain_name_def)

lemma plain_state_dir [simp]: "fs_cfg_ok cfg \<Longrightarrow> plain_name (state_dir cfg st)"
  by (cases st) (simp_all add: fs_cfg_ok_def)

lemma plain_meta_dir [simp]: "fs_cfg_ok cfg \<Longrightarrow> plain_name (fc_meta_dir cfg)"
  by (simp add: fs_cfg_ok_def)

lemma state_dir_inj [simp]:
  "fs_cfg_ok cfg \<Longrightarrow> state_dir cfg st = state_dir cfg st' \<longleftrightarrow> st = st'"
  by (cases st; cases st') (auto simp: fs_cfg_ok_def)

lemma state_dir_not_leases [simp]: "fs_cfg_ok cfg \<Longrightarrow> state_dir cfg st \<noteq> ''leases''"
  by (cases st) (auto simp: fs_cfg_ok_def)

lemma plain_json_name: "CHR ''/'' \<notin> set i \<Longrightarrow> plain_name (json_name i)"
  by (auto simp: plain_name_def json_name_def dest: arg_cong [of _ _ length])

lemma json_name_inj [simp]: "json_name i = json_name j \<longleftrightarrow> i = j"
  by (simp add: json_name_def)

lemma json_name_not_Nil [simp]: "json_name i \<noteq> []"
  by (simp add: json_name_def)

lemma has_json_ext_json_name [simp]: "has_json_ext (json_name i) \<longleftrightarrow> i \<noteq> []"
  by (simp add: json_name_def)

lemma mpath_inj [simp]:
  "fs_cfg_ok cfg \<Longrightarrow> mpath cfg st q f = mpath cfg st' q' f' \<longleftrightarrow> st = st' \<and> q = q' \<and> f = f'"
  by (auto simp: mpath_def)

text \<open>The paths the adapter builds. The queue may be any string: the path is then some directory
  followed by the state directory and the file.\<close>

definition queue_base :: "fs_config \<Rightarrow> string \<Rightarrow> path" where
  "queue_base cfg q = path_append (root_path cfg) q"

lemma queue_base_ok [simp]: "queue_ok cfg q \<Longrightarrow> queue_base cfg q = root_path cfg @ [q]"
  by (simp add: queue_base_def queue_ok_def)

lemma build_queue_path_eq:
  "plain_name d \<Longrightarrow> plain_name f \<Longrightarrow> build_queue_path cfg q d f = queue_base cfg q @ [d, f]"
  by (simp add: build_queue_path_def queue_base_def root_path_def plain_name_def)

lemma build_queue_dir_eq:
  "plain_name d \<Longrightarrow> build_queue_path cfg q d [] = queue_base cfg q @ [d]"
  by (simp add: build_queue_path_def queue_base_def root_path_def)

lemma components_slash:
  "plain_name d \<Longrightarrow> components (d @ CHR ''/'' # s) = d # components s"
proof -
  assume d: "plain_name d"
  have "split_slash acc (e @ CHR ''/'' # s) = (rev acc @ e) # split_slash [] s"
    if "CHR ''/'' \<notin> set e" for acc e
    using that by (induction e arbitrary: acc) auto
  with d show ?thesis by (simp add: components_def plain_name_def)
qed

lemma hd_components: "CHR ''/'' \<notin> set d \<Longrightarrow> d \<noteq> [] \<Longrightarrow> hd d \<noteq> CHR ''.'' \<Longrightarrow>
   \<exists>e cs. components (d @ s) = (d @ e) # cs"
proof (induction s arbitrary: d)
  case Nil
  then have "plain_name d" by (auto simp: plain_name_def)
  then show ?case by simp
next
  case (Cons c s)
  show ?case
  proof (cases "c = CHR ''/''")
    case True
    from Cons.prems have "plain_name d" by (auto simp: plain_name_def)
    with True show ?thesis by (simp add: components_slash)
  next
    case False
    with Cons.prems Cons.IH [of "d @ [c]"] show ?thesis by auto
  qed
qed

lemma meta_path_eq:
  assumes "fs_cfg_ok cfg" "f \<noteq> []" "\<not> is_absolute f"
  shows "build_meta_path cfg f = root_path cfg @ fc_meta_dir cfg # components f"
  using assms by (simp add: build_meta_path_def root_path_def path_append_def [of _ f])

lemma not_absolute_append [simp]: "plain_name d \<Longrightarrow> \<not> is_absolute (d @ s)"
  by (cases d) (auto simp: plain_name_def is_absolute_def)

lemma lease_meta_path_eq:
  assumes "fs_cfg_ok cfg" "CHR ''/'' \<notin> set k"
  shows "lease_meta_path cfg k = lease_dir cfg @ [safe_key k @ ''.json'']"
proof -
  have p: "plain_name (safe_key k @ ''.json'')"
    using assms plain_json_name [of "safe_key k"] by (simp add: json_name_def)
  have "components (''leases'' @ CHR ''/'' # (safe_key k @ ''.json'')) =
      [''leases'', safe_key k @ ''.json'']"
    using p by (simp only: components_slash plain_delayed components_plain)
  with assms show ?thesis
    by (simp add: lease_meta_path_def meta_path_eq lease_dir_def is_absolute_def)
qed

text \<open>A path outside the message and lease directories; what is written there cannot be seen by
  the message operations.\<close>

definition foreign :: "fs_config \<Rightarrow> path \<Rightarrow> bool" where
  "foreign cfg p \<longleftrightarrow>
     (\<forall>q st f. queue_ok cfg q \<longrightarrow> has_json_ext f \<longrightarrow> p \<noteq> mpath cfg st q f) \<and>
     (p = [] \<or> butlast p \<noteq> lease_dir cfg)"

lemma foreign_meta:
  assumes "fs_cfg_ok cfg" "cs \<noteq> []" "hd cs \<noteq> ''leases''"
  shows "foreign cfg (root_path cfg @ fc_meta_dir cfg # cs)"
  using assms
  by (cases cs rule: rev_cases)
    (auto simp: foreign_def mpath_def queue_ok_def lease_dir_def butlast_append)

lemma foreign_not_json:
  assumes "fs_cfg_ok cfg" "\<not> has_json_ext f"
  shows "foreign cfg (b @ [state_dir cfg st, f])"
  using assms by (auto simp: foreign_def mpath_def lease_dir_def butlast_append)

lemma foreign_base:
  assumes "fs_cfg_ok cfg" "\<And>q. queue_ok cfg q \<Longrightarrow> b \<noteq> root_path cfg @ [q]"
  shows "foreign cfg (b @ [state_dir cfg st, f])"
  using assms by (auto simp: foreign_def mpath_def lease_dir_def butlast_append)

section \<open>The invariant and the view of a message\<close>

definition body_of :: "json_lib \<Rightarrow> string \<Rightarrow> message option" where
  "body_of L c = map_option msg_body (fst (deserialize_envelope L c))"

definition good_content :: "json_lib \<Rightarrow> string \<Rightarrow> string \<Rightarrow> string \<Rightarrow> bool" where
  "good_content L q i c \<longleftrightarrow>
     (\<exists>m e. jl_parse L c = Some (JObj m) \<and> envelope_of_json L (JObj m) = Inr e \<and>
        m_key e = msg_key q i \<and> m_message_id e = i \<and> m_queue e = q)"

definition good_lease :: "json_lib \<Rightarrow> string \<Rightarrow> bool" where
  "good_lease L c \<longleftrightarrow>
     (\<exists>m k. jl_parse L c = Some (JObj m) \<and> fmlookup m ''messageKey'' = Some (JStr k) \<and>
        CHR ''/'' \<notin> set k)"

text \<open>
  The file map is well-formed: a message file is in one state directory at most, every JSON file
  in a state directory of a queue is a message of that queue under its own name, and every file
  among the leases names a message key without a slash.
\<close>

definition fm_unique :: "fs_config \<Rightarrow> (path \<rightharpoonup> string) \<Rightarrow> bool" where
  "fm_unique cfg fm \<longleftrightarrow>
     (\<forall>q st st' f. queue_ok cfg q \<longrightarrow> has_json_ext f \<longrightarrow>
        fm (mpath cfg st q f) \<noteq> None \<longrightarrow> fm (mpath cfg st' q f) \<noteq> None \<longrightarrow> st = st')"

definition fm_contents :: "fs_config \<Rightarrow> json_lib \<Rightarrow> (path \<rightharpoonup> string) \<Rightarrow> bool" where
  "fm_contents cfg L fm \<longleftrightarrow>
     (\<forall>q st f c. queue_ok cfg q \<longrightarrow> has_json_ext f \<longrightarrow> fm (mpath cfg st q f) = Some c \<longrightarrow>
        (\<exists>i. f = json_name i \<and> id_ok i \<and> good_content L q i c))"

definition fm_leases :: "fs_config \<Rightarrow> json_lib \<Rightarrow> (path \<rightharpoonup> string) \<Rightarrow> bool" where
  "fm_leases cfg L fm \<longleftrightarrow>
     (\<forall>p c. p \<noteq> [] \<longrightarrow> butlast p = lease_dir cfg \<longrightarrow> fm p = Some c \<longrightarrow> good_lease L c)"

definition fm_inv :: "fs_config \<Rightarrow> json_lib \<Rightarrow> (path \<rightharpoonup> string) \<Rightarrow> bool" where
  "fm_inv cfg L fm \<longleftrightarrow> fm_unique cfg fm \<and> fm_contents cfg L fm \<and> fm_leases cfg L fm"

lemma fm_uniqueD:
  "fm_inv cfg L fm \<Longrightarrow> queue_ok cfg q \<Longrightarrow> has_json_ext f \<Longrightarrow> fm (mpath cfg st q f) = Some c \<Longrightarrow>
     fm (mpath cfg st' q f) = Some c' \<Longrightarrow> st = st'"
  unfolding fm_inv_def fm_unique_def by blast

lemma fm_contentsD:
  "fm_inv cfg L fm \<Longrightarrow> queue_ok cfg q \<Longrightarrow> has_json_ext f \<Longrightarrow> fm (mpath cfg st q f) = Some c \<Longrightarrow>
     \<exists>i. f = json_name i \<and> id_ok i \<and> good_content L q i c"
  unfolding fm_inv_def fm_contents_def by blast

lemma fm_leasesD:
  "fm_inv cfg L fm \<Longrightarrow> p \<noteq> [] \<Longrightarrow> butlast p = lease_dir cfg \<Longrightarrow> fm p = Some c \<Longrightarrow> good_lease L c"
  unfolding fm_inv_def fm_leases_def by blast

text \<open>Where a message is and what it carries.\<close>

definition fm_view ::
  "fs_config \<Rightarrow> json_lib \<Rightarrow> (path \<rightharpoonup> string) \<Rightarrow> string \<Rightarrow> string \<Rightarrow>
     (message_state \<times> message option) option" where
  "fm_view cfg L fm q i =
     (case filter (\<lambda>st. fm (mpath cfg st q (json_name i)) \<noteq> None)
             [Ready, Inflight, Delayed, Dlq, Archived] of
        [] \<Rightarrow> None
      | st # _ \<Rightarrow> Some (st, body_of L (the (fm (mpath cfg st q (json_name i))))))"

lemma fm_view_cong:
  "(\<And>st. fm (mpath cfg st q (json_name i)) = fm' (mpath cfg st q (json_name i))) \<Longrightarrow>
     fm_view cfg L fm q i = fm_view cfg L fm' q i"
  by (simp add: fm_view_def)

lemma fm_view_Some:
  assumes "fm_inv cfg L fm" "queue_ok cfg q" "id_ok i"
  shows "fm_view cfg L fm q i = Some (st, b) \<longleftrightarrow>
           (\<exists>c. fm (mpath cfg st q (json_name i)) = Some c \<and> body_of L c = b)"
proof -
  let ?p = "\<lambda>st. mpath cfg st q (json_name i)"
  have u: "st1 = st2" if "fm (?p st1) = Some c1" "fm (?p st2) = Some c2" for st1 st2 c1 c2
    using fm_uniqueD [OF assms(1,2) _ that] assms(3) by (simp add: id_ok_def)
  have all: "st \<in> set [Ready, Inflight, Delayed, Dlq, Archived]" by (cases st) auto
  show ?thesis
  proof (cases "filter (\<lambda>st. fm (?p st) \<noteq> None) [Ready, Inflight, Delayed, Dlq, Archived]")
    case Nil
    then have "\<forall>st \<in> set [Ready, Inflight, Delayed, Dlq, Archived]. \<not> fm (?p st) \<noteq> None"
      by (simp only: filter_empty_conv)
    then have "fm (?p st) = None" using all by blast
    with Nil show ?thesis by (simp only: fm_view_def) simp
  next
    case (Cons st1 rest)
    then have "st1 \<in> set (filter (\<lambda>st. fm (?p st) \<noteq> None) [Ready, Inflight, Delayed, Dlq, Archived])"
      by simp
    then obtain c1 where c1: "fm (?p st1) = Some c1" by (auto split: if_splits)
    from Cons have "fm_view cfg L fm q i = Some (st1, body_of L c1)"
      by (simp only: fm_view_def list.case) (simp add: c1)
    moreover have "st = st1 \<and> c = c1" if "fm (?p st) = Some c" for c
      using u [OF that c1] that c1 by auto
    ultimately show ?thesis using c1 by auto
  qed
qed

lemma fm_view_None:
  assumes "fm_inv cfg L fm" "queue_ok cfg q" "id_ok i"
  shows "fm_view cfg L fm q i = None \<longleftrightarrow> (\<forall>st. fm (mpath cfg st q (json_name i)) = None)"
proof (cases "fm_view cfg L fm q i")
  case None
  then have "fm (mpath cfg st q (json_name i)) = None" for st
    using fm_view_Some [OF assms, of st "body_of L (the (fm (mpath cfg st q (json_name i))))"]
    by (cases "fm (mpath cfg st q (json_name i))") auto
  with None show ?thesis by simp
next
  case (Some v)
  then obtain st b where "fm_view cfg L fm q i = Some (st, b)" by (cases v) simp
  with fm_view_Some [OF assms] show ?thesis by fastforce
qed

text \<open>
  An edge \<open>(q, i, st, st')\<close> is a state change the message \<open>i\<close> of the queue \<open>q\<close> may make.
  \<open>moves E q i v v'\<close>: the message stayed where it was or took one edge of \<open>E\<close>; what it carries
  is the same.
\<close>

type_synonym edge = "string \<times> string \<times> message_state \<times> message_state"

definition moves ::
  "edge set \<Rightarrow> string \<Rightarrow> string \<Rightarrow> (message_state \<times> 'b) option \<Rightarrow> (message_state \<times> 'b) option \<Rightarrow> bool"
where
  "moves E q i v v' \<longleftrightarrow>
     v' = v \<or> (\<exists>st st' b. v = Some (st, b) \<and> v' = Some (st', b) \<and> (q, i, st, st') \<in> E)"

lemma moves_refl [simp]: "moves E q i v v"
  by (simp add: moves_def)

lemma moves_empty [simp]: "moves {} q i v v' \<longleftrightarrow> v' = v"
  by (auto simp: moves_def)

lemma moves_mono: "moves E q i v v' \<Longrightarrow> E \<subseteq> F \<Longrightarrow> moves F q i v v'"
  by (auto simp: moves_def)

definition trans_edges :: "edge set \<Rightarrow> bool" where
  "trans_edges E \<longleftrightarrow>
     (\<forall>q i a b c. (q, i, a, b) \<in> E \<longrightarrow> (q, i, b, c) \<in> E \<longrightarrow> (q, i, a, c) \<in> E)"

lemma moves_trans:
  "moves E q i v v' \<Longrightarrow> moves E q i v' v'' \<Longrightarrow> trans_edges E \<Longrightarrow> moves E q i v v''"
  unfolding moves_def trans_edges_def by (metis option.inject prod.inject)

section \<open>Steps on the file map\<close>

definition fm_step ::
  "fs_config \<Rightarrow> json_lib \<Rightarrow> edge set \<Rightarrow> (path \<rightharpoonup> string) \<Rightarrow> (path \<rightharpoonup> string) \<Rightarrow> bool" where
  "fm_step cfg L E fm fm' \<longleftrightarrow>
     fm_inv cfg L fm' \<and>
     (\<forall>q i. queue_ok cfg q \<longrightarrow> id_ok i \<longrightarrow> moves E q i (fm_view cfg L fm q i) (fm_view cfg L fm' q i))"

lemma fm_step_refl: "fm_inv cfg L fm \<Longrightarrow> fm_step cfg L E fm fm"
  by (simp add: fm_step_def)

lemma fm_step_same_places:
  assumes inv: "fm_inv cfg L fm"
    and eq: "\<And>q st f. queue_ok cfg q \<Longrightarrow> has_json_ext f \<Longrightarrow>
               fm' (mpath cfg st q f) = fm (mpath cfg st q f)"
    and leases: "\<And>p c. p \<noteq> [] \<Longrightarrow> butlast p = lease_dir cfg \<Longrightarrow> fm' p = Some c \<Longrightarrow> good_lease L c"
  shows "fm_step cfg L E fm fm'"
proof -
  have "fm_inv cfg L fm'"
    unfolding fm_inv_def
  proof (intro conjI)
    show "fm_unique cfg fm'"
      using inv by (auto simp: fm_inv_def fm_unique_def eq)
    show "fm_contents cfg L fm'"
      using inv by (auto simp: fm_inv_def fm_contents_def eq)
    show "fm_leases cfg L fm'"
      using leases by (auto simp: fm_leases_def)
  qed
  moreover have "fm_view cfg L fm' q i = fm_view cfg L fm q i" if "queue_ok cfg q" "id_ok i" for q i
    using that by (intro fm_view_cong eq) (auto simp: id_ok_def)
  ultimately show ?thesis by (simp add: fm_step_def)
qed

lemma fm_step_foreign:
  assumes "fm_inv cfg L fm" "foreign cfg p"
  shows "fm_step cfg L E fm (fm(p := x))"
  using assms
  by (intro fm_step_same_places) (auto simp: foreign_def dest: fm_leasesD split: if_splits)

lemma fm_step_lease:
  assumes "fm_inv cfg L fm" "fs_cfg_ok cfg" "p \<noteq> []" "butlast p = lease_dir cfg"
    and "\<And>c. x = Some c \<Longrightarrow> good_lease L c"
  shows "fm_step cfg L E fm (fm(p := x))"
proof (rule fm_step_same_places)
  fix q st f assume "queue_ok cfg q" "has_json_ext f"
  then have "p \<noteq> mpath cfg st q f"
    using assms(4) by (auto simp: mpath_def lease_dir_def butlast_append queue_ok_def)
  then show "(fm(p := x)) (mpath cfg st q f) = fm (mpath cfg st q f)" by simp
next
  fix p' c assume "p' \<noteq> []" "butlast p' = lease_dir cfg" "(fm(p := x)) p' = Some c"
  then show "good_lease L c"
    using assms(1,5) by (auto dest: fm_leasesD split: if_splits)
qed fact

lemma mpath_not_lease: "fs_cfg_ok cfg \<Longrightarrow> butlast (mpath cfg st q f) \<noteq> lease_dir cfg"
  by (auto simp: mpath_def lease_dir_def butlast_append)

lemma fm_step_rewrite:
  assumes inv: "fm_inv cfg L fm" and cfg: "fs_cfg_ok cfg"
    and q: "queue_ok cfg q" and i: "id_ok i"
    and old: "fm (mpath cfg st q (json_name i)) = Some c0"
    and new: "good_content L q i c" "body_of L c = body_of L c0"
  shows "fm_step cfg L E fm (fm(mpath cfg st q (json_name i) \<mapsto> c))"
proof -
  let ?fm = "fm(mpath cfg st q (json_name i) \<mapsto> c)"
  have dom: "?fm p = None \<longleftrightarrow> fm p = None" for p using old by auto
  have inv': "fm_inv cfg L ?fm"
    unfolding fm_inv_def
  proof (intro conjI)
    have "fm_unique cfg fm" using inv by (simp add: fm_inv_def)
    then show "fm_unique cfg ?fm" by (simp only: fm_unique_def dom not_False_eq_True)
    show "fm_contents cfg L ?fm"
      using inv new(1) i cfg by (auto simp: fm_contents_def fm_inv_def)
    show "fm_leases cfg L ?fm"
      using inv mpath_not_lease [OF cfg] by (auto simp: fm_leases_def fm_inv_def)
  qed
  have "fm_view cfg L ?fm q' i' = fm_view cfg L fm q' i'" if "queue_ok cfg q'" "id_ok i'" for q' i'
  proof (cases "q' = q \<and> i' = i")
    case True
    have "fm_view cfg L ?fm q i = Some (st, body_of L c)"
      using fm_view_Some [OF inv' q i] by simp
    moreover have "fm_view cfg L fm q i = Some (st, body_of L c0)"
      using fm_view_Some [OF inv q i] old by simp
    ultimately show ?thesis using True new(2) by simp
  next
    case False
    with cfg show ?thesis by (intro fm_view_cong) auto
  qed
  with inv' show ?thesis by (simp add: fm_step_def)
qed

lemma fm_step_move_ok:
  assumes inv: "fm_inv cfg L fm" and cfg: "fs_cfg_ok cfg"
    and q: "queue_ok cfg q" and f: "has_json_ext f"
    and E: "\<And>i. f = json_name i \<Longrightarrow> (q, i, st, st') \<in> E"
  shows "fm_step cfg L E fm (fm_move (mpath cfg st q f) (mpath cfg st' q f) fm)"
proof (cases "fm (mpath cfg st q f)")
  case None
  then show ?thesis using inv by (simp add: fm_move_def fm_step_refl)
next
  case (Some c)
  let ?fm = "(fm(mpath cfg st q f := None))(mpath cfg st' q f \<mapsto> c)"
  from inv q f Some obtain i where i: "f = json_name i" "id_ok i" "good_content L q i c"
    using fm_contentsD by blast
  have u: "st1 = st2" if "queue_ok cfg q'" "has_json_ext f'" "fm (mpath cfg st1 q' f') \<noteq> None"
    "fm (mpath cfg st2 q' f') \<noteq> None" for q' f' st1 st2
    using that fm_uniqueD [OF inv] by fastforce
  have other: "fm (mpath cfg st1 q f) = None" if "st1 \<noteq> st" for st1
    using u [OF q f, of st1 st] Some that by (cases "fm (mpath cfg st1 q f)") auto
  have at: "?fm (mpath cfg st1 q f) = (if st1 = st' then Some c else None)" for st1
    using cfg other by auto
  have away: "?fm (mpath cfg st1 q' f') = fm (mpath cfg st1 q' f')" if "\<not> (q' = q \<and> f' = f)" for st1 q' f'
    using cfg that by auto
  have inv': "fm_inv cfg L ?fm"
    unfolding fm_inv_def
  proof (intro conjI)
    show "fm_unique cfg ?fm"
      unfolding fm_unique_def
    proof (intro allI impI)
      fix q' st1 st2 f'
      assume "queue_ok cfg q'" "has_json_ext f'" "?fm (mpath cfg st1 q' f') \<noteq> None"
        "?fm (mpath cfg st2 q' f') \<noteq> None"
      then show "st1 = st2"
        using u [of q' f' st1 st2] at away by (cases "q' = q \<and> f' = f") (auto split: if_splits)
    qed
    show "fm_contents cfg L ?fm"
      unfolding fm_contents_def
    proof (intro allI impI)
      fix q' st1 f' c'
      assume h: "queue_ok cfg q'" "has_json_ext f'" "?fm (mpath cfg st1 q' f') = Some c'"
      show "\<exists>i. f' = json_name i \<and> id_ok i \<and> good_content L q' i c'"
      proof (cases "q' = q \<and> f' = f")
        case True
        with h at have "c' = c" by (auto split: if_splits)
        with True i show ?thesis by blast
      next
        case False
        with h away have "fm (mpath cfg st1 q' f') = Some c'" by simp
        with h inv show ?thesis by (auto dest: fm_contentsD)
      qed
    qed
    show "fm_leases cfg L ?fm"
      using inv mpath_not_lease [OF cfg]
      by (auto simp: fm_leases_def fm_inv_def split: if_splits)
  qed
  have "moves E q' i' (fm_view cfg L fm q' i') (fm_view cfg L ?fm q' i')"
    if "queue_ok cfg q'" "id_ok i'" for q' i'
  proof (cases "q' = q \<and> i' = i")
    case True
    have "fm_view cfg L ?fm q i = Some (st', body_of L c)"
      using fm_view_Some [OF inv' q i(2)] by (simp add: i(1))
    moreover have "fm_view cfg L fm q i = Some (st, body_of L c)"
      using fm_view_Some [OF inv q i(2)] Some by (simp add: i(1))
    ultimately show ?thesis using True E [OF i(1)] by (auto simp: moves_def)
  next
    case False
    with i have "fm_view cfg L ?fm q' i' = fm_view cfg L fm q' i'"
      by (intro fm_view_cong away) auto
    then show ?thesis by simp
  qed
  with inv' Some show ?thesis by (simp add: fm_step_def fm_move_def)
qed

section \<open>Editing a message file keeps the message\<close>

definition same_message :: "json_lib \<Rightarrow> json \<Rightarrow> json \<Rightarrow> bool" where
  "same_message L j j' \<longleftrightarrow>
     (\<forall>e m. j = JObj m \<longrightarrow> envelope_of_json L j = Inr e \<longrightarrow>
        (\<exists>m' e'. j' = JObj m' \<and> envelope_of_json L j' = Inr e' \<and> msg_body e' = msg_body e))"

lemma same_message_trans:
  "same_message L j j' \<Longrightarrow> same_message L j' j'' \<Longrightarrow> same_message L j j''"
  by (fastforce simp: same_message_def)

lemma envelope_obj_Inr:
  "envelope_of_json L (JObj m) = Inr e \<longleftrightarrow>
     jvalue get_string (JObj m) ''key'' '''' = Inr (m_key e) \<and>
     jvalue get_string (JObj m) ''messageId'' '''' = Inr (m_message_id e) \<and>
     jvalue get_string (JObj m) ''queue'' '''' = Inr (m_queue e) \<and>
     jvalue get_string (JObj m) ''payload'' ''{}'' = Inr (m_payload_json e) \<and>
     jvalue get_string (JObj m) ''attributes'' ''{}'' = Inr (m_attributes_json e) \<and>
     jvalue (get_i32 L) (JObj m) ''priority'' 0 = Inr (m_priority e) \<and>
     jvalue (get_i32 L) (JObj m) ''attempt'' 0 = Inr (m_attempt e) \<and>
     jvalue (get_i64 L) (JObj m) ''createdAt'' 0 = Inr (m_created_at_ms e) \<and>
     jvalue (get_i64 L) (JObj m) ''availableAt'' 0 = Inr (m_available_at_ms e) \<and>
     jvalue get_string (JObj m) ''targetConsumerId'' '''' = Inr (m_target_consumer_id e)"
  by (cases e) (auto simp: envelope_of_json_def ebind_Inr_conv simp del: jvalue_obj)

text \<open>A member that is not one of the envelope's may be set or dropped.\<close>

definition envelope_keys :: "string list" where
  "envelope_keys = [''key'', ''messageId'', ''queue'', ''payload'', ''attributes'', ''priority'',
     ''attempt'', ''createdAt'', ''availableAt'', ''targetConsumerId'']"

lemma jvalue_upd_other:
  "k' \<noteq> k \<Longrightarrow> jvalue get (JObj (fmupd k v m)) k' d = jvalue get (JObj m) k' d"
  by simp

lemma jvalue_drop_other:
  "k' \<noteq> k \<Longrightarrow> jvalue get (JObj (fmdrop k m)) k' d = jvalue get (JObj m) k' d"
  by simp

lemma envelope_upd_other:
  "k \<notin> set envelope_keys \<Longrightarrow> envelope_of_json L (JObj (fmupd k v m)) = envelope_of_json L (JObj m)"
  by (auto simp only: envelope_of_json_def envelope_keys_def set_simps insert_iff de_Morgan_disj
      jvalue_upd_other empty_iff not_False_eq_True)

lemma envelope_drop_other:
  "k \<notin> set envelope_keys \<Longrightarrow> envelope_of_json L (JObj (fmdrop k m)) = envelope_of_json L (JObj m)"
  by (auto simp only: envelope_of_json_def envelope_keys_def set_simps insert_iff de_Morgan_disj
      jvalue_drop_other empty_iff not_False_eq_True)

lemma envelope_upd_available:
  "envelope_of_json L (JObj m) = Inr e \<Longrightarrow>
     envelope_of_json L (JObj (fmupd ''availableAt'' (JInt a) m)) =
       Inr (e\<lparr>m_available_at_ms := i64 a\<rparr>)"
  by (simp add: envelope_obj_Inr)

lemma envelope_upd_attempt:
  "envelope_of_json L (JObj m) = Inr e \<Longrightarrow>
     envelope_of_json L (JObj (fmupd ''attempt'' (JInt a) m)) = Inr (e\<lparr>m_attempt := i32 a\<rparr>)"
  by (simp add: envelope_obj_Inr)

lemma same_message_dlq:
  assumes "jset ''dlqReason'' (JStr r) j = Inr j1" "jset ''dlqAt'' (JInt t) j1 = Inr j2"
  shows "same_message L j j2"
  using assms by (cases j) (auto simp: same_message_def envelope_upd_other envelope_keys_def)

lemma same_message_available:
  "jset ''availableAt'' (JInt t) j = Inr j1 \<Longrightarrow> same_message L j j1"
  by (cases j) (auto simp: same_message_def envelope_upd_available)

lemma same_message_clear:
  "clear_dlq_fields j = Inr j1 \<Longrightarrow> same_message L j j1"
  by (cases j)
    (auto simp: same_message_def clear_dlq_fields_def envelope_drop_other envelope_keys_def
      envelope_upd_attempt)

lemma body_of_eq:
  "jl_parse L c = Some j \<Longrightarrow> envelope_of_json L j = Inr e \<Longrightarrow> body_of L c = Some (msg_body e)"
  by (simp add: body_of_def deserialize_envelope_def json_parse_def)

lemma good_content_edit:
  assumes ok: "json_ok L" and good: "good_content L q i c0"
    and parse: "jl_parse L c0 = Some j" and same: "same_message L j j'"
  shows "good_content L q i (jl_dump L n j')" "body_of L (jl_dump L n j') = body_of L c0"
proof -
  from good parse obtain m e where j: "j = JObj m" "envelope_of_json L j = Inr e"
      "m_key e = msg_key q i" "m_message_id e = i" "m_queue e = q"
    by (auto simp: good_content_def)
  with same obtain m' e' where j': "j' = JObj m'" "envelope_of_json L j' = Inr e'"
      "msg_body e' = msg_body e"
    by (auto simp: same_message_def)
  note eq = msg_body_eqD [OF j'(3)]
  show "good_content L q i (jl_dump L n j')"
    using ok j' j eq unfolding good_content_def by (intro exI [of _ m'] exI [of _ e']) simp
  show "body_of L (jl_dump L n j') = body_of L c0"
    using ok j j' parse by (simp add: body_of_eq)
qed

text \<open>What is written at an enqueue or a lease is a message.\<close>

lemma envelope_roundtrip [simp]:
  "msg_ranges e \<Longrightarrow> envelope_of_json L (envelope_json e) = Inr e"
  by (simp add: envelope_of_json_def envelope_json_def jobj_def msg_ranges_def)

lemma deserialize_serialize:
  "json_ok L \<Longrightarrow> msg_ranges e \<Longrightarrow>
     deserialize_envelope L (serialize_envelope L e) = (Some e, None)"
  by (simp add: deserialize_envelope_def serialize_envelope_def)

lemma good_content_serialize:
  assumes "json_ok L" "msg_ranges e" "m_key e = msg_key q i" "m_message_id e = i" "m_queue e = q"
  shows "good_content L q i (serialize_envelope L e)"
    "body_of L (serialize_envelope L e) = Some (msg_body e)"
proof -
  obtain m where m: "envelope_json e = JObj m" by (simp add: envelope_json_def jobj_def)
  moreover have "envelope_of_json L (JObj m) = Inr e" using assms(2) m by (simp flip: m)
  ultimately show "good_content L q i (serialize_envelope L e)"
    using assms unfolding good_content_def
    by (intro exI [of _ m] exI [of _ e]) (simp add: serialize_envelope_def)
  show "body_of L (serialize_envelope L e) = Some (msg_body e)"
    using assms by (simp add: body_of_eq [of L _ "envelope_json e"] serialize_envelope_def)
qed

section \<open>Steps of the adapter\<close>

definition fs_inv :: "json_lib \<Rightarrow> fs_adapter \<Rightarrow> bool" where
  "fs_inv L s \<longleftrightarrow> json_ok L \<and> fs_cfg_ok (fsa_config s) \<and> fm_inv (fsa_config s) L (fget s)"

definition fs_view :: "json_lib \<Rightarrow> fs_adapter \<Rightarrow> string \<Rightarrow> string \<Rightarrow>
    (message_state \<times> message option) option" where
  "fs_view L s q i = fm_view (fsa_config s) L (fget s) q i"

definition fs_step ::
  "json_lib \<Rightarrow> edge set \<Rightarrow> fs_adapter \<Rightarrow> fs_adapter \<Rightarrow> bool" where
  "fs_step L E s s' \<longleftrightarrow>
     fsa_config s' = fsa_config s \<and> fsa_is_open s' = fsa_is_open s \<and>
     fm_step (fsa_config s) L E (fget s) (fget s')"

lemma same_env_fs:
  fixes s s' :: fs_adapter
  shows "same_env s s' \<Longrightarrow>
     fsa_config s' = fsa_config s \<and> fsa_is_open s' = fsa_is_open s \<and> fsa_policies s' = fsa_policies s"
  by (cases s; cases s') (simp add: same_env_def)

lemma fs_step_inv: "fs_inv L s \<Longrightarrow> fs_step L E s s' \<Longrightarrow> fs_inv L s'"
  by (simp add: fs_inv_def fs_step_def fm_step_def)

lemma fs_step_view:
  "fs_step L E s s' \<Longrightarrow> queue_ok (fsa_config s) q \<Longrightarrow> id_ok i \<Longrightarrow>
     moves E q i (fs_view L s q i) (fs_view L s' q i)"
  by (simp add: fs_step_def fm_step_def fs_view_def)

lemma fs_stepI:
  "same_env s s' \<Longrightarrow> fm_step (fsa_config s) L E (fget s) (fget s') \<Longrightarrow> fs_step L E s s'"
  using same_env_fs [of s s'] by (simp add: fs_step_def)

lemma fs_step_refl: "fs_inv L s \<Longrightarrow> fs_step L E s s"
  by (simp add: fs_step_def fs_inv_def fm_step_refl)

lemma fs_step_same: "fs_inv L s \<Longrightarrow> same_env s s' \<Longrightarrow> fget s' = fget s \<Longrightarrow> fs_step L E s s'"
  by (rule fs_stepI) (simp_all add: fs_inv_def fm_step_refl)

lemma fs_step_mono: "fs_step L E s s' \<Longrightarrow> E \<subseteq> F \<Longrightarrow> fs_step L F s s'"
  by (auto simp: fs_step_def fm_step_def intro: moves_mono)

lemma fs_step_trans:
  "fs_step L E s s' \<Longrightarrow> fs_step L E s' s'' \<Longrightarrow> trans_edges E \<Longrightarrow> fs_step L E s s''"
  unfolding fs_step_def fm_step_def by (metis moves_trans)

lemma fs_step_then: "fs_step L E s s' \<Longrightarrow> fs_step L {} s' s'' \<Longrightarrow> fs_step L E s s''"
  by (simp add: fs_step_def fm_step_def)

lemma fs_then_step: "fs_step L {} s s' \<Longrightarrow> fs_step L E s' s'' \<Longrightarrow> fs_step L E s s''"
  by (simp add: fs_step_def fm_step_def)

text \<open>Writing, rewriting, moving and deleting files.\<close>

lemma fs_write_foreign:
  assumes "fs_inv L s" "atomic_write p c s = (r, s')"
    "foreign (fsa_config s) p" "foreign (fsa_config s) (with_suffix p ''.tmp'')"
  shows "fs_step L E s s'"
proof -
  obtain x where x: "fget s' = (if fst r then ((fget s)(with_suffix p ''.tmp'' := None))(p \<mapsto> c)
      else (fget s)(with_suffix p ''.tmp'' := x))" "same_env s s'"
    using atomic_write_effect [OF assms(2)] by metis
  have step: "fm_step (fsa_config s) L {} (fget s) ((fget s)(with_suffix p ''.tmp'' := y))" for y
    using assms by (intro fm_step_foreign) (simp_all add: fs_inv_def)
  have "fm_step (fsa_config s) L {} ((fget s)(with_suffix p ''.tmp'' := None))
      (((fget s)(with_suffix p ''.tmp'' := None))(p \<mapsto> c))"
    using assms step by (intro fm_step_foreign) (simp_all add: fm_step_def)
  then have "fm_step (fsa_config s) L E (fget s) (fget s')"
    using step [of None] step [of x] x(1) by (simp add: fm_step_def)
  with x(2) show ?thesis by (rule fs_stepI)
qed

lemma fs_write_lease:
  assumes "fs_inv L s" "atomic_write p c s = (r, s')"
    "p \<noteq> []" "butlast p = lease_dir (fsa_config s)" "good_lease L c"
  shows "fs_step L E s s'"
proof -
  let ?cfg = "fsa_config s" and ?t = "with_suffix p ''.tmp''"
  obtain x where x: "fget s' = (if fst r then ((fget s)(?t := None))(p \<mapsto> c)
      else (fget s)(?t := x))" "x \<in> {None, Some c, fget s ?t}" "same_env s s'"
    using atomic_write_effect [OF assms(2)] by metis
  have t: "?t \<noteq> []" "butlast ?t = lease_dir ?cfg"
    using assms(3,4) by (simp_all add: with_suffix_def)
  have inv: "fm_inv ?cfg L (fget s)" "fs_cfg_ok ?cfg" using assms(1) by (simp_all add: fs_inv_def)
  have good: "good_lease L d" if "y \<in> {None, Some c, fget s ?t}" "y = Some d" for y d
    using that assms(5) fm_leasesD [OF inv(1) t] by auto
  have step: "fm_step ?cfg L {} (fget s) ((fget s)(?t := y))"
    if "y \<in> {None, Some c, fget s ?t}" for y
    using inv t good [OF that] by (intro fm_step_lease) auto
  have "fm_step ?cfg L {} ((fget s)(?t := None)) (((fget s)(?t := None))(p \<mapsto> c))"
    using inv assms(3-5) step [of None] by (intro fm_step_lease) (auto simp: fm_step_def)
  then have "fm_step ?cfg L E (fget s) (fget s')"
    using step [of None] step [OF x(2)] x(1) by (simp add: fm_step_def)
  with x(3) show ?thesis by (rule fs_stepI)
qed

lemma fs_rewrite:
  assumes inv: "fs_inv L s" and w: "atomic_write p (jl_dump L n j') s = (r, s')"
    and p: "p = b @ [state_dir (fsa_config s) st, f]"
    and old: "fget s p = Some c0" and parse: "jl_parse L c0 = Some j"
    and same: "same_message L j j'"
  shows "fs_step L E s s'"
proof -
  let ?cfg = "fsa_config s" and ?t = "with_suffix p ''.tmp''"
  have cfg: "fs_cfg_ok ?cfg" and fmi: "fm_inv ?cfg L (fget s)" and ok: "json_ok L"
    using inv by (simp_all add: fs_inv_def)
  have t: "?t = b @ [state_dir ?cfg st, f @ ''.tmp'']"
    using p with_suffix_snoc [of "b @ [state_dir ?cfg st]" f "''.tmp''"] by simp
  have ft: "foreign ?cfg ?t" unfolding t using cfg by (intro foreign_not_json) auto
  show ?thesis
  proof (cases "\<exists>q. queue_ok ?cfg q \<and> b = root_path ?cfg @ [q] \<and> has_json_ext f")
    case False
    then have "foreign ?cfg p"
      using p cfg by (cases "has_json_ext f") (auto intro: foreign_not_json foreign_base)
    with inv w ft show ?thesis by (blast intro: fs_write_foreign)
  next
    case True
    then obtain q where q: "queue_ok ?cfg q" "b = root_path ?cfg @ [q]" "has_json_ext f" by blast
    then have pm: "p = mpath ?cfg st q f" using p by (simp add: mpath_def)
    from fm_contentsD [OF fmi q(1,3), of st c0] old pm
    obtain i where i: "f = json_name i" "id_ok i" "good_content L q i c0" by auto
    note new = good_content_edit [OF ok i(3) parse same, of n]
    obtain x where x: "fget s' = (if fst r then ((fget s)(?t := None))(p \<mapsto> jl_dump L n j')
        else (fget s)(?t := x))" "same_env s s'"
      using atomic_write_effect [OF w] by metis
    have step: "fm_step ?cfg L {} (fget s) ((fget s)(?t := y))" for y
      using fmi ft by (rule fm_step_foreign)
    have neq: "?t \<noteq> p" by (rule with_suffix_neq) simp
    have "fm_step ?cfg L {} ((fget s)(?t := None)) (((fget s)(?t := None))(p \<mapsto> jl_dump L n j'))"
      using fm_step_rewrite [of ?cfg L "(fget s)(?t := None)" q i st c0 "jl_dump L n j'" "{}"]
        step [of None] cfg q(1) i old new pm neq
      by (simp add: fm_step_def)
    then have "fm_step ?cfg L E (fget s) (fget s')"
      using step [of None] step [of x] x(1) by (simp add: fm_step_def)
    with x(2) show ?thesis by (rule fs_stepI)
  qed
qed

lemma fm_step_move:
  assumes inv: "fm_inv cfg L fm" and cfg: "fs_cfg_ok cfg" 
    and E: "\<And>q i. b = root_path cfg @ [q] \<Longrightarrow> f = json_name i \<Longrightarrow> (q, i, st, st') \<in> E"
  shows "fm_step cfg L E fm (fm_move (b @ [state_dir cfg st, f]) (b @ [state_dir cfg st', f]) fm)"
proof (cases "\<exists>q. queue_ok cfg q \<and> b = root_path cfg @ [q] \<and> has_json_ext f")
  case True
  then obtain q where "queue_ok cfg q" "b = root_path cfg @ [q]" "has_json_ext f" by blast
  then show ?thesis
    using fm_step_move_ok [OF inv cfg, of q f st st' E] E [of q] by (simp add: mpath_def)
next
  case False
  then have foreign: "foreign cfg (b @ [state_dir cfg st'', f])" for st''
    using cfg by (cases "has_json_ext f") (auto intro: foreign_not_json foreign_base)
  have "fm_step cfg L {} fm (fm(b @ [state_dir cfg st, f] := None))"
    using inv foreign by (rule fm_step_foreign)
  moreover from this
  have "fm_step cfg L {} (fm(b @ [state_dir cfg st, f] := None))
        ((fm(b @ [state_dir cfg st, f] := None))(b @ [state_dir cfg st', f] := x))" for x
    using foreign by (intro fm_step_foreign) (simp_all add: fm_step_def)
  ultimately show ?thesis
    using inv by (auto simp: fm_move_def fm_step_def split: option.splits)
qed

end
