(* ===== verification/FileSystem_Steps.thy ===== *)
theory FileSystem_Steps
  imports FileSystem_View
begin

text \<open>
  What the helpers of \<open>FileSystem_Adapter\<close> do to the messages, as steps on \<open>fs_view\<close>: reading,
  listing and the meta files change no message; a move between two state directories is one edge;
  stamping a message file keeps the message. \<open>FileSystem_Lifecycle\<close> composes them.
\<close>

section \<open>The helpers\<close>

lemma ensure_meta_dir_effect: "fget (ensure_meta_dir d s) = fget s \<and> same_env s (ensure_meta_dir d s)"
  by (cases "os_mkdirs d s") (auto simp: ensure_meta_dir_def dest: os_mkdirs_effect)

lemma ensure_meta_dir_config [simp]: "fsa_config (ensure_meta_dir d s) = fsa_config s"
  using same_env_fs [of s "ensure_meta_dir d s"] ensure_meta_dir_effect [of d s] by simp

lemma lease_dir_eq: "fs_cfg_ok cfg \<Longrightarrow> build_meta_path cfg ''leases'' = lease_dir cfg"
  by (simp add: build_meta_path_def lease_dir_def root_path_def)

lemma plain_components: "c \<in> set (components s) \<Longrightarrow> plain_name c"
proof -
  have "CHR ''/'' \<notin> set d" if "d \<in> set (split_slash acc s)" "CHR ''/'' \<notin> set acc" for d acc
    using that by (induction acc s rule: split_slash.induct) (auto split: if_splits)
  then show "c \<in> set (components s) \<Longrightarrow> plain_name c"
    by (auto simp: components_def plain_name_def)
qed

lemma foreign_meta_tmp:
  assumes "fs_cfg_ok cfg" "cs \<noteq> []" "hd cs \<noteq> ''leases''"
  shows "foreign cfg (with_suffix (root_path cfg @ fc_meta_dir cfg # cs) ''.tmp'')"
proof -
  obtain ds d where cs: "cs = ds @ [d]" using assms(2) by (cases cs rule: rev_cases) auto
  have "d @ ''.tmp'' \<noteq> ''leases''" using ends_with_snoc [of "d @ ''.tmp''" "''.tmp''"] by auto
  then have "foreign cfg (root_path cfg @ fc_meta_dir cfg # (ds @ [d @ ''.tmp'']))"
    using assms cs by (intro foreign_meta) (cases ds; auto)+
  then show ?thesis
    using with_suffix_snoc [of "root_path cfg @ fc_meta_dir cfg # ds" d "''.tmp''"] cs by simp
qed

lemma delayed_meta_path_eq:
  assumes "fs_cfg_ok cfg"
  shows "delayed_meta_path cfg k =
    root_path cfg @ fc_meta_dir cfg # ''delayed'' # components (safe_key k @ ''.json'')"
proof -
  have "components (''delayed'' @ CHR ''/'' # (safe_key k @ ''.json'')) =
      ''delayed'' # components (safe_key k @ ''.json'')"
    by (simp only: components_slash plain_delayed)
  with assms show ?thesis
    by (simp add: delayed_meta_path_def meta_path_eq is_absolute_def)
qed

lemma policy_path_eq:
  assumes "fs_cfg_ok cfg"
  obtains e cs where "policy_path cfg q = root_path cfg @ fc_meta_dir cfg # (''policy_'' @ e) # cs"
proof -
  obtain e cs where "components (''policy_'' @ (q @ ''.json'')) = (''policy_'' @ e) # cs"
    using hd_components [of "''policy_''" "q @ ''.json''"] by auto
  with assms that show thesis
    by (simp add: policy_path_def meta_path_eq is_absolute_def)
qed

lemma fs_foreign_delayed:
  "fs_cfg_ok cfg \<Longrightarrow> foreign cfg (delayed_meta_path cfg k)"
  "fs_cfg_ok cfg \<Longrightarrow> foreign cfg (with_suffix (delayed_meta_path cfg k) ''.tmp'')"
  by (simp_all add: delayed_meta_path_eq foreign_meta foreign_meta_tmp)

lemma fs_foreign_policy:
  assumes "fs_cfg_ok cfg"
  shows "foreign cfg (policy_path cfg q)" "foreign cfg (with_suffix (policy_path cfg q) ''.tmp'')"
proof -
  obtain e cs where "policy_path cfg q = root_path cfg @ fc_meta_dir cfg # (''policy_'' @ e) # cs"
    using assms by (rule policy_path_eq)
  with assms show "foreign cfg (policy_path cfg q)"
      "foreign cfg (with_suffix (policy_path cfg q) ''.tmp'')"
    by (simp_all add: foreign_meta foreign_meta_tmp)
qed

lemma fs_invD:
  assumes "fs_inv L s"
  shows "json_ok L" "fs_cfg_ok (fsa_config s)" "fm_inv (fsa_config s) L (fget s)"
  using assms by (simp_all add: fs_inv_def)

lemma step_make_dirs: "fs_inv L s \<Longrightarrow> make_dirs ds s = (r, s') \<Longrightarrow> fs_step L {} s s'"
  by (auto dest!: make_dirs_effect intro: fs_step_same)

lemma step_ensure_queue_directories:
  "fs_inv L s \<Longrightarrow> ensure_queue_directories q s = (r, s') \<Longrightarrow> fs_step L {} s s'"
  unfolding ensure_queue_directories_def Let_def by (rule step_make_dirs)

lemma step_now_ms: "fs_inv L s \<Longrightarrow> now_ms s = (t, s') \<Longrightarrow> fs_step L {} s s'"
  by (auto dest!: now_ms_effect intro: fs_step_same)

lemma step_fresh_guid: "fs_inv L s \<Longrightarrow> fresh_guid s = (t, s') \<Longrightarrow> fs_step L {} s s'"
  by (auto dest!: fresh_guid_effect intro: fs_step_same)

lemma step_read_file: "fs_inv L s \<Longrightarrow> read_file p s = (r, s') \<Longrightarrow> fs_step L {} s s'"
  by (cases r) (auto dest!: read_file_effect intro: fs_step_same)

lemma step_list_json_files: "fs_inv L s \<Longrightarrow> list_json_files d s = (r, s') \<Longrightarrow> fs_step L {} s s'"
  by (auto dest!: list_json_files_effect intro: fs_step_same)

lemma step_os_list_files: "fs_inv L s \<Longrightarrow> os_list_files d s = (r, s') \<Longrightarrow> fs_step L {} s s'"
  by (auto dest!: os_list_files_effect intro: fs_step_same)

lemma step_os_list_dirs: "fs_inv L s \<Longrightarrow> os_list_dirs d s = (r, s') \<Longrightarrow> fs_step L {} s s'"
  by (auto dest!: os_list_dirs_effect intro: fs_step_same)

lemma read_lease_meta_same:
  "read_lease_meta L k s = (r, s') \<Longrightarrow> fget s' = fget s \<and> same_env s s'"
  by (auto simp: read_lease_meta_def split: prod.splits option.splits sum.splits
      dest!: read_file_effect)

lemma step_read_lease_meta: "fs_inv L s \<Longrightarrow> read_lease_meta L k s = (r, s') \<Longrightarrow> fs_step L {} s s'"
  by (auto dest!: read_lease_meta_same intro: fs_step_same)

lemma step_write_lease_meta:
  assumes "fs_inv L s" "write_lease_meta L k meta s = (r, s')" "CHR ''/'' \<notin> set k"
  shows "fs_step L {} s s'"
proof -
  let ?s = "ensure_meta_dir (lease_dir (fsa_config s)) s"
  note inv = fs_invD [OF assms(1)]
  have s: "fs_step L {} s ?s"
    using assms(1) ensure_meta_dir_effect [of "lease_dir (fsa_config s)" s] by (auto intro: fs_step_same)
  moreover have "fs_step L {} ?s s'"
  proof (rule fs_write_lease)
    show "fs_inv L ?s" using assms(1) s by (rule fs_step_inv)
    show "atomic_write (lease_meta_path (fsa_config s) k)
           (jl_dump L 2 (jobj
              [(''messageKey'', JStr k),
               (''consumerId'', JStr (lm_consumer_id meta)),
               (''leaseId'', JStr (lm_lease_id meta)),
               (''leaseUntil'', JInt (lm_lease_until_ms meta)),
               (''attempt'', JInt (lm_attempt meta)),
               (''queue'', JStr (lm_queue meta))])) ?s = (r, s')"
      using assms(2) inv(2) by (simp add: write_lease_meta_def Let_def lease_dir_eq)
    show "good_lease L (jl_dump L 2 (jobj
              [(''messageKey'', JStr k),
               (''consumerId'', JStr (lm_consumer_id meta)),
               (''leaseId'', JStr (lm_lease_id meta)),
               (''leaseUntil'', JInt (lm_lease_until_ms meta)),
               (''attempt'', JInt (lm_attempt meta)),
               (''queue'', JStr (lm_queue meta))]))"
      using inv(1) assms(3) by (simp add: good_lease_def jobj_def)
  qed (use inv(2) assms(3) in \<open>simp_all add: lease_meta_path_eq\<close>)
  ultimately show ?thesis by (rule fs_then_step)
qed

lemma step_write_delayed_meta:
  assumes "fs_inv L s" "write_delayed_meta L k meta s = (r, s')"
  shows "fs_step L {} s s'"
proof -
  let ?s = "ensure_meta_dir (build_meta_path (fsa_config s) ''delayed'') s"
  note inv = fs_invD [OF assms(1)]
  have s: "fs_step L {} s ?s"
    using assms(1) ensure_meta_dir_effect [of "build_meta_path (fsa_config s) ''delayed''" s]
    by (auto intro: fs_step_same)
  moreover have "fs_step L {} ?s s'"
    using assms fs_step_inv [OF assms(1) s] fs_foreign_delayed [OF inv(2), of k]
    unfolding write_delayed_meta_def Let_def by (elim fs_write_foreign) simp_all
  ultimately show ?thesis by (rule fs_then_step)
qed

lemma step_delete_foreign:
  assumes "fs_inv L s" "delete_file p s = (r, s')" "foreign (fsa_config s) p"
  shows "fs_step L {} s s'"
  using delete_file_effect [OF assms(2)] assms fs_invD [OF assms(1)]
  by (intro fs_stepI) (auto intro: fm_step_foreign fm_step_refl)

lemma step_delete_delayed_meta:
  "fs_inv L s \<Longrightarrow> delete_delayed_meta k s = (r, s') \<Longrightarrow> fs_step L {} s s'"
  unfolding delete_delayed_meta_def
  by (rule step_delete_foreign) (auto dest: fs_invD(2) intro: fs_foreign_delayed(1))

lemma step_os_remove_lease:
  assumes "fs_inv L s" "os_remove p s = (r, s')" "entry_of (lease_dir (fsa_config s)) p"
  shows "fs_step L {} s s'"
  using os_remove_effect [OF assms(2)] assms(3) fs_invD [OF assms(1)]
  by (intro fs_stepI) (auto simp: entry_of_def intro: fm_step_lease fm_step_refl)

lemma step_delete_lease_meta:
  assumes "fs_inv L s" "delete_lease_meta k s = (r, s')" "CHR ''/'' \<notin> set k"
  shows "fs_step L {} s s'"
proof -
  have "lease_meta_path (fsa_config s) k \<noteq> []"
    "butlast (lease_meta_path (fsa_config s) k) = lease_dir (fsa_config s)"
    using assms fs_invD [OF assms(1)] by (simp_all add: lease_meta_path_eq)
  then show ?thesis
    using delete_file_effect [of _ s] assms fs_invD [OF assms(1)]
    by (intro fs_stepI) (auto simp: delete_lease_meta_def intro: fm_step_lease fm_step_refl)
qed

text \<open>Moving a state file: from one state directory to another below the same base.\<close>

definition edges_at ::
  "fs_config \<Rightarrow> path \<Rightarrow> string \<Rightarrow> message_state \<Rightarrow> message_state \<Rightarrow> edge set" where
  "edges_at cfg b f st st' =
     {(q, i, st, st') | q i. b = root_path cfg @ [q] \<and> f = json_name i}"

lemma step_move_file:
  assumes "fs_inv L s"
    "move_file (b @ [state_dir (fsa_config s) st, f]) (b @ [state_dir (fsa_config s) st', f]) s = (r, s')"
  shows "fs_step L (edges_at (fsa_config s) b f st st') s s'"
  using move_file_effect [OF assms(2)] fs_invD [OF assms(1)]
  by (intro fs_stepI) (auto simp: edges_at_def intro!: fm_step_move fm_step_refl)

lemma step_os_rename:
  assumes "fs_inv L s"
    "os_rename (b @ [state_dir (fsa_config s) st, f]) (b @ [state_dir (fsa_config s) st', f]) s = (r, s')"
  shows "fs_step L (edges_at (fsa_config s) b f st st') s s'"
  using os_rename_effect [OF assms(2)] fs_invD [OF assms(1)]
  by (intro fs_stepI) (auto simp: edges_at_def intro!: fm_step_move fm_step_refl)

text \<open>Stamping a message file with more members.\<close>

lemma step_edit_file:
  assumes inv: "fs_inv L s" and r: "read_file p s = ((Some content, e), s1)"
    and n: "now_ms s1 = (t, s2)" and j: "json_parse L content = Inr j"
    and same: "same_message L j j'" and p: "p = b @ [state_dir (fsa_config s) st, f]"
    and w: "atomic_write p (jl_dump L k j') s2 = (w, s3)"
  shows "fs_step L {} s s3"
proof -
  have s1: "fs_step L {} s s1" using step_read_file [OF inv r] .
  have inv1: "fs_inv L s1" using inv s1 by (rule fs_step_inv)
  have s2: "fs_step L {} s1 s2" using step_now_ms [OF inv1 n] .
  have s12: "fs_step L {} s s2" using s1 s2 by (rule fs_then_step)
  have "fget s2 p = Some content"
    using read_file_effect [OF r] now_ms_effect [OF n] by auto
  moreover have "jl_parse L content = Some j"
    using j by (simp add: json_parse_def split: option.splits)
  moreover have "p = b @ [state_dir (fsa_config s2) st, f]"
    using s12 p by (simp add: fs_step_def)
  ultimately have "fs_step L {} s2 s3"
    using fs_step_inv [OF inv s12] w same by (blast intro: fs_rewrite)
  with s12 show ?thesis by (rule fs_then_step)
qed

lemma step_read_now:
  assumes "fs_inv L s" "read_file p s = (r, s1)" "now_ms s1 = (t, s2)"
  shows "fs_step L {} s s1" "fs_step L {} s s2" "fs_inv L s1" "fs_inv L s2"
proof -
  show s1: "fs_step L {} s s1" using step_read_file [OF assms(1,2)] .
  show inv1: "fs_inv L s1" using assms(1) s1 by (rule fs_step_inv)
  show s2: "fs_step L {} s s2" using s1 step_now_ms [OF inv1 assms(3)] by (rule fs_then_step)
  show "fs_inv L s2" using assms(1) s2 by (rule fs_step_inv)
qed

lemma step_fs_stamp_dlq:
  assumes "fs_inv L s"
  shows "fs_step L {} s (fs_stamp_dlq L (b @ [state_dir (fsa_config s) st, f]) reason s)"
proof -
  let ?p = "b @ [state_dir (fsa_config s) st, f]"
  obtain c e s1 where r: "read_file ?p s = ((c, e), s1)" by (metis prod.collapse)
  obtain t s2 where n: "now_ms s1 = (t, s2)" by (cases "now_ms s1")
  have "fs_step L {} s (snd (atomic_write ?p (jl_dump L 2 j2) s2))"
    if "c = Some content" "json_parse L content = Inr j"
      "jset ''dlqReason'' (JStr reason) j = Inr j1" "jset ''dlqAt'' (JInt t) j1 = Inr j2"
    for content j j1 j2
    using step_edit_file [OF assms, of ?p content e s1 t s2 j j2 b st f 2] that r n
      same_message_dlq [OF that(3,4)] by (cases "atomic_write ?p (jl_dump L 2 j2) s2") auto
  then show ?thesis
    using step_read_now [OF assms r n]
    by (auto simp: fs_stamp_dlq_def r n split: option.splits sum.splits)
qed

lemma step_fs_stamp_available:
  assumes "fs_inv L s"
  shows "fs_step L {} s (fs_stamp_available L (b @ [state_dir (fsa_config s) st, f]) d s)"
proof -
  let ?p = "b @ [state_dir (fsa_config s) st, f]"
  obtain c e s1 where r: "read_file ?p s = ((c, e), s1)" by (metis prod.collapse)
  obtain t s2 where n: "now_ms s1 = (t, s2)" by (cases "now_ms s1")
  have "fs_step L {} s (snd (atomic_write ?p (jl_dump L 2 j1) s2))"
    if "c = Some content" "json_parse L content = Inr j"
      "jset ''availableAt'' (JInt (i64 (t + d))) j = Inr j1"
    for content j j1
    using step_edit_file [OF assms, of ?p content e s1 t s2 j j1 b st f 2] that r n
      same_message_available [OF that(3)] by (cases "atomic_write ?p (jl_dump L 2 j1) s2") auto
  then show ?thesis
    using step_read_now [OF assms r n]
    by (auto simp: fs_stamp_available_def r n split: option.splits sum.splits)
qed

section \<open>The operations\<close>

text \<open>The edges an operation on a message key may take: any queue, the identifier behind the last
  colon of the key.\<close>

definition key_edges :: "string \<Rightarrow> message_state \<Rightarrow> message_state \<Rightarrow> edge set" where
  "key_edges key st st' = {(q, i, st, st') | q i. after_last_colon key = Some i}"

definition any_edges :: "message_state \<Rightarrow> message_state \<Rightarrow> edge set" where
  "any_edges st st' = {(q, i, st, st') | q i. True}"

lemma edges_at_key: "after_last_colon key = Some i \<Longrightarrow>
   edges_at cfg b (json_name i) st st' \<subseteq> key_edges key st st'"
  by (auto simp: edges_at_def key_edges_def)

lemma edges_at_any: "edges_at cfg b f st st' \<subseteq> any_edges st st'"
  by (auto simp: edges_at_def any_edges_def)

lemma trans_any_edges: "st \<noteq> st' \<Longrightarrow> trans_edges (any_edges st st')"
  by (auto simp: trans_edges_def any_edges_def)

text \<open>The state paths of a key without slash.\<close>

lemma key_state_path:
  assumes "fs_cfg_ok cfg" "CHR ''/'' \<notin> set key" "after_last_colon key = Some i"
  shows "build_queue_path cfg q (fc_processing_dir cfg) (json_name i) =
      queue_base cfg q @ [state_dir cfg Inflight, json_name i]"
    and "build_queue_path cfg q (fc_inbox_dir cfg) (json_name i) =
      queue_base cfg q @ [state_dir cfg Ready, json_name i]"
    and "build_queue_path cfg q (fc_archive_dir cfg) (json_name i) =
      queue_base cfg q @ [state_dir cfg Archived, json_name i]"
    and "build_queue_path cfg q (fc_dlq_dir cfg) (json_name i) =
      queue_base cfg q @ [state_dir cfg Dlq, json_name i]"
    and "build_queue_path cfg q ''delayed'' (json_name i) =
      queue_base cfg q @ [state_dir cfg Delayed, json_name i]"
proof -
  have p: "plain_name (json_name i)"
    using after_last_colon_subset [OF assms(3)] assms(2) by (auto intro: plain_json_name)
  note d = plain_state_dir [OF assms(1)]
  show "build_queue_path cfg q (fc_processing_dir cfg) (json_name i) =
      queue_base cfg q @ [state_dir cfg Inflight, json_name i]"
    using build_queue_path_eq [OF d [of Inflight] p] by simp
  show "build_queue_path cfg q (fc_inbox_dir cfg) (json_name i) =
      queue_base cfg q @ [state_dir cfg Ready, json_name i]"
    using build_queue_path_eq [OF d [of Ready] p] by simp
  show "build_queue_path cfg q (fc_archive_dir cfg) (json_name i) =
      queue_base cfg q @ [state_dir cfg Archived, json_name i]"
    using build_queue_path_eq [OF d [of Archived] p] by simp
  show "build_queue_path cfg q (fc_dlq_dir cfg) (json_name i) =
      queue_base cfg q @ [state_dir cfg Dlq, json_name i]"
    using build_queue_path_eq [OF d [of Dlq] p] by simp
  show "build_queue_path cfg q ''delayed'' (json_name i) =
      queue_base cfg q @ [state_dir cfg Delayed, json_name i]"
    using build_queue_path_eq [OF d [of Delayed] p] by simp
qed

lemma fs_step_config: "fs_step L E s s' \<Longrightarrow> fsa_config s' = fsa_config s"
  by (simp add: fs_step_def)

text \<open>A move between two state directories of a key, then the deletion of its lease.\<close>

lemma step_move_key:
  assumes inv: "fs_inv L s" and key: "CHR ''/'' \<notin> set key" "after_last_colon key = Some i"
    and m: "move_file (queue_base (fsa_config s) q @ [state_dir (fsa_config s) st, json_name i])
          (queue_base (fsa_config s) q @ [state_dir (fsa_config s) st', json_name i]) s = (r, s1)"
  shows "fs_step L (key_edges key st st') s s1"
  using step_move_file [OF inv m] edges_at_key [OF key(2)] by (rule fs_step_mono)

lemma step_then_delete_lease:
  assumes "fs_inv L s" "fs_step L E s s1" "CHR ''/'' \<notin> set key" "delete_lease_meta key s1 = (r, s2)"
  shows "fs_step L E s s2"
  using assms(2) step_delete_lease_meta [OF fs_step_inv [OF assms(1,2)] assms(4,3)]
  by (rule fs_step_then)

lemma fs_step_weak: "fs_step L {} s s' \<Longrightarrow> fs_step L E s s'"
  by (rule fs_step_mono) auto

text \<open>Sequencing: a helper that changes no view, followed by the rest of the operation.\<close>

lemma fs_step_seq:
  assumes "fs_inv L s" "fs_step L {} s s1"
    and "fs_inv L s1 \<Longrightarrow> fsa_config s1 = fsa_config s \<Longrightarrow> fs_step L E s1 s'"
  shows "fs_step L E s s'"
  using assms fs_step_inv [OF assms(1,2)] fs_step_config [OF assms(2)] fs_then_step by blast

lemmas seq_read_lease = fs_step_seq [OF _ step_read_lease_meta]
lemmas seq_now = fs_step_seq [OF _ step_now_ms]

text \<open>The tail of acknowledgement, rejection, delay and dead-lettering: the message file moves and
  its lease is deleted when the move succeeded.\<close>

lemma step_move_then_delete:
  assumes "fs_inv L s" "CHR ''/'' \<notin> set key" "after_last_colon key = Some i"
    and "move_file (queue_base (fsa_config s) q @ [state_dir (fsa_config s) st, json_name i])
          (queue_base (fsa_config s) q @ [state_dir (fsa_config s) st', json_name i]) s = (r, s1)"
    and "s' = s1 \<or> s' = snd (delete_lease_meta key s1)"
  shows "fs_step L (key_edges key st st') s s'"
  using assms(5) step_move_key [OF assms(1-4)]
    step_then_delete_lease [OF assms(1) step_move_key [OF assms(1-4)] assms(2) prod.collapse [symmetric]]
  by blast

end
