(* ===== verification/FileSystem_Lifecycle.thy ===== *)
theory FileSystem_Lifecycle
  imports FileSystem_Steps
begin

text \<open>
  The life cycle of a message under \<open>FileSystem_Adapter\<close>: for every method of the adapter, the
  state changes it may make to any message (\<open>fs_step\<close> with the edges of that method), on every
  branch, faults of the file system included. A message's content is the same afterwards, and no
  method but the enqueue makes a message appear; none makes one disappear.
\<close>

section \<open>Operations on a leased message\<close>

lemma fs_ack_step:
  assumes inv: "fs_inv L s" and key: "CHR ''/'' \<notin> set (lt_message_key lease)"
    and run: "fs_ack L lease s = (r, s')"
  shows "fs_step L (key_edges (lt_message_key lease) Inflight Archived) s s'"
proof (cases "fsa_is_open s")
  case False
  with run inv show ?thesis by (simp add: fs_ack_def fs_step_refl)
next
  case open': True
  let ?key = "lt_message_key lease"
  obtain m e s1 where rd: "read_lease_meta L ?key s = ((m, e), s1)" by (metis prod.collapse)
  show ?thesis
  proof (rule seq_read_lease [OF inv inv rd])
    assume inv1: "fs_inv L s1"
    show "fs_step L (key_edges ?key Inflight Archived) s1 s'"
    proof (cases m)
      case None
      with run open' rd inv1 show ?thesis by (simp add: fs_ack_def fs_step_refl)
    next
      case (Some meta)
      obtain t s2 where n: "now_ms s1 = (t, s2)" by (cases "now_ms s1")
      show ?thesis
      proof (rule seq_now [OF inv1 inv1 n])
        assume inv2: "fs_inv L s2"
        show "fs_step L (key_edges ?key Inflight Archived) s2 s'"
        proof (cases "t > lm_lease_until_ms meta \<or> lm_consumer_id meta \<noteq> lt_consumer_id lease \<or>
            after_last_colon ?key = None")
          case True
          with run open' rd n Some inv2 show ?thesis
            by (auto simp: fs_ack_def Let_def fs_step_refl split: if_splits)
        next
          case False
          then obtain i where i: "after_last_colon ?key = Some i" by auto
          note p = key_state_path [OF fs_invD(2) [OF inv2] key i]
          obtain x s3 where mv: "move_file (queue_base (fsa_config s2) (lm_queue meta) @
              [state_dir (fsa_config s2) Inflight, json_name i])
              (queue_base (fsa_config s2) (lm_queue meta) @
              [state_dir (fsa_config s2) Archived, json_name i]) s2 = (x, s3)"
            by (metis prod.collapse)
          then have "s' = s3 \<or> s' = snd (delete_lease_meta ?key s3)"
            using run open' rd n Some False i
            by (auto simp: fs_ack_def Let_def p split: if_splits prod.splits)
          then show ?thesis by (rule step_move_then_delete [OF inv2 key i mv])
        qed
      qed
    qed
  qed
qed

lemma fs_nack_step:
  assumes inv: "fs_inv L s" and key: "CHR ''/'' \<notin> set (lt_message_key lease)"
    and run: "fs_nack L lease reason requeue s = (r, s')"
  shows "fs_step L (key_edges (lt_message_key lease) Inflight (if requeue then Ready else Dlq)) s s'"
proof (cases "fsa_is_open s")
  case False
  with run inv show ?thesis by (simp add: fs_nack_def fs_step_refl)
next
  case open': True
  let ?key = "lt_message_key lease"
  let ?E = "key_edges ?key Inflight (if requeue then Ready else Dlq)"
  obtain m e s1 where rd: "read_lease_meta L ?key s = ((m, e), s1)" by (metis prod.collapse)
  show ?thesis
  proof (rule seq_read_lease [OF inv inv rd])
    assume inv1: "fs_inv L s1"
    show "fs_step L ?E s1 s'"
    proof (cases "m = None \<or> after_last_colon ?key = None")
      case True
      with run open' rd inv1 show ?thesis by (auto simp: fs_nack_def fs_step_refl split: option.splits)
    next
      case False
      then obtain meta i where m: "m = Some meta" and i: "after_last_colon ?key = Some i" by auto
      let ?proc = "queue_base (fsa_config s1) (lm_queue meta) @
        [state_dir (fsa_config s1) Inflight, json_name i]"
      define s2 where "s2 = (if requeue then s1 else fs_stamp_dlq L ?proc reason s1)"
      have step2: "fs_step L {} s1 s2"
        using step_fs_stamp_dlq [OF inv1] fs_step_refl [OF inv1]
        by (simp add: s2_def del: state_dir.simps)
      show ?thesis
      proof (rule fs_step_seq [OF inv1 step2])
        assume inv2: "fs_inv L s2" and cfg: "fsa_config s2 = fsa_config s1"
        note p = key_state_path [OF fs_invD(2) [OF inv1] key i]
        obtain x s3 where mv: "move_file
            (queue_base (fsa_config s2) (lm_queue meta) @ [state_dir (fsa_config s2) Inflight, json_name i])
            (queue_base (fsa_config s2) (lm_queue meta) @
              [state_dir (fsa_config s2) (if requeue then Ready else Dlq), json_name i]) s2 = (x, s3)"
          by (metis prod.collapse)
        then have "s' = s3 \<or> s' = snd (delete_lease_meta ?key s3)"
          using run open' rd m i cfg
          by (auto simp: fs_nack_def Let_def p s2_def split: if_splits prod.splits)
        then show "fs_step L ?E s2 s'" by (rule step_move_then_delete [OF inv2 key i mv])
      qed
    qed
  qed
qed

lemma fs_extend_lease_step:
  assumes inv: "fs_inv L s" and key: "CHR ''/'' \<notin> set (lt_message_key lease)"
    and run: "fs_extend_lease L lease t s = (r, s')"
  shows "fs_step L {} s s'"
proof (cases "fsa_is_open s")
  case False
  with run inv show ?thesis by (simp add: fs_extend_lease_def fs_step_refl)
next
  case open': True
  obtain m e s1 where rd: "read_lease_meta L (lt_message_key lease) s = ((m, e), s1)"
    by (metis prod.collapse)
  show ?thesis
  proof (rule seq_read_lease [OF inv inv rd])
    assume inv1: "fs_inv L s1"
    obtain now s2 where n: "now_ms s1 = (now, s2)" by (cases "now_ms s1")
    note s2 = step_now_ms [OF inv1 n]
    note inv2 = fs_step_inv [OF inv1 s2]
    have "fs_step L {} s1 s'"
      if "write_lease_meta L (lt_message_key lease) meta' s2 = (r, s')" for meta'
      using s2 step_write_lease_meta [OF inv2 that key] by (rule fs_then_step)
    then show "fs_step L {} s1 s'"
      using run open' rd n s2 fs_step_refl [OF inv1]
      by (auto simp: fs_extend_lease_def split: option.splits if_splits)
  qed
qed

lemma fget_policies [simp]: "fget (s\<lparr>fsa_policies := p\<rparr>) = fget s"
  by (simp add: fget_def fun_eq_iff)

lemma fs_step_policies: "fs_inv L s \<Longrightarrow> fs_step L E s (s\<lparr>fsa_policies := p\<rparr>)"
  by (simp add: fs_step_def fs_inv_def fm_step_refl)

lemma fs_load_policy_step:
  assumes inv: "fs_inv L s" and run: "fs_load_policy L q s = (r, s')"
  shows "fs_step L {} s s'"
proof -
  obtain c e s1 where rd: "read_file (policy_path (fsa_config s) q) s = ((c, e), s1)"
    by (metis prod.collapse)
  note s1 = step_read_file [OF inv rd]
  have "fs_step L {} s (s1\<lparr>fsa_policies := p\<rparr>)" for p
    using s1 fs_step_policies [OF fs_step_inv [OF inv s1]] by (rule fs_then_step)
  then show ?thesis
    using run rd s1 fs_step_refl [OF inv]
    by (auto simp: fs_load_policy_def split: option.splits sum.splits)
qed

lemma fs_save_policy_step:
  assumes inv: "fs_inv L s" and run: "fs_save_policy L q p s = (r, s')"
  shows "fs_step L {} s s'"
proof -
  let ?s = "s\<lparr>fsa_policies := (fsa_policies s)(q \<mapsto> p)\<rparr>"
  have s: "fs_step L {} s ?s" using inv by (rule fs_step_policies)
  note inv1 = fs_step_inv [OF inv s]
  obtain d s2 where mk: "ensure_queue_directories q ?s = (d, s2)"
    by (cases "ensure_queue_directories q ?s")
  note s2 = step_ensure_queue_directories [OF inv1 mk]
  note inv2 = fs_step_inv [OF inv1 s2]
  have "atomic_write (policy_path (fsa_config s2) q) (jl_dump L 2 (policy_json p)) s2 = (r, s')"
    using run mk by (simp add: fs_save_policy_def)
  then have "fs_step L {} s2 s'"
    using fs_foreign_policy [OF fs_invD(2) [OF inv2]] by (rule fs_write_foreign [OF inv2])
  with s s2 show ?thesis by (blast intro: fs_then_step)
qed

lemma fs_metrics_step:
  assumes inv: "fs_inv L s" and run: "fs_metrics q s = (r, s')"
  shows "fs_step L {} s s'"
proof (cases "fsa_is_open s")
  case False
  with run inv show ?thesis by (simp add: fs_metrics_def fs_step_refl)
next
  case True
  let ?cfg = "fsa_config s"
  obtain p1 s1 where l1: "list_json_files (build_queue_path ?cfg q (fc_inbox_dir ?cfg) []) s = (p1, s1)"
    by (metis prod.collapse)
  obtain p2 s2 where l2: "list_json_files (build_queue_path ?cfg q (fc_processing_dir ?cfg) []) s1 = (p2, s2)"
    by (metis prod.collapse)
  obtain p3 s3 where l3: "list_json_files (build_queue_path ?cfg q ''delayed'' []) s2 = (p3, s3)"
    by (metis prod.collapse)
  obtain p4 s4 where l4: "list_json_files (build_queue_path ?cfg q (fc_dlq_dir ?cfg) []) s3 = (p4, s4)"
    by (metis prod.collapse)
  have "same_env s s4 \<and> fget s4 = fget s"
    using list_json_files_effect [OF l1] list_json_files_effect [OF l2]
      list_json_files_effect [OF l3] list_json_files_effect [OF l4] by (auto intro: same_env_trans)
  moreover have "s' = s4" using run True l1 l2 l3 l4 by (simp add: fs_metrics_def Let_def)
  ultimately show ?thesis using inv by (simp add: fs_step_same)
qed

lemma fs_delay_message_step:
  assumes inv: "fs_inv L s" and key: "CHR ''/'' \<notin> set key"
    and run: "fs_delay_message L key d s = (r, s')"
  shows "fs_step L (key_edges key Inflight (if d \<le> 0 then Ready else Delayed)) s s'"
proof (cases "fsa_is_open s")
  case False
  with run inv show ?thesis by (simp add: fs_delay_message_def fs_step_refl)
next
  case open': True
  let ?E = "key_edges key Inflight (if d \<le> 0 then Ready else Delayed)"
  obtain m e s1 where rd: "read_lease_meta L key s = ((m, e), s1)" by (metis prod.collapse)
  show ?thesis
  proof (rule seq_read_lease [OF inv inv rd])
    assume inv1: "fs_inv L s1"
    show "fs_step L ?E s1 s'"
    proof (cases "m = None \<or> after_last_colon key = None")
      case True
      with run open' rd inv1 show ?thesis
        by (auto simp: fs_delay_message_def fs_step_refl split: option.splits)
    next
      case False
      then obtain meta i where m: "m = Some meta" and i: "after_last_colon key = Some i" by auto
      let ?proc = "queue_base (fsa_config s1) (lm_queue meta) @
        [state_dir (fsa_config s1) Inflight, json_name i]"
      define s2 where "s2 = (if d \<le> 0 then s1 else fs_stamp_available L ?proc d s1)"
      have step2: "fs_step L {} s1 s2"
        using step_fs_stamp_available [OF inv1] fs_step_refl [OF inv1]
        by (simp add: s2_def del: state_dir.simps)
      show ?thesis
      proof (rule fs_step_seq [OF inv1 step2])
        assume inv2: "fs_inv L s2" and cfg: "fsa_config s2 = fsa_config s1"
        note p = key_state_path [OF fs_invD(2) [OF inv1] key i]
        obtain x s3 where mv: "move_file
            (queue_base (fsa_config s2) (lm_queue meta) @ [state_dir (fsa_config s2) Inflight, json_name i])
            (queue_base (fsa_config s2) (lm_queue meta) @
              [state_dir (fsa_config s2) (if d \<le> 0 then Ready else Delayed), json_name i]) s2 = (x, s3)"
          by (metis prod.collapse)
        note s3 = step_move_key [OF inv2 key i mv]
        note inv3 = fs_step_inv [OF inv2 s3]
        show "fs_step L ?E s2 s'"
        proof (cases "d \<le> 0 \<or> \<not> fst x")
          case True
          then have "s' = s3 \<or> s' = snd (delete_lease_meta key s3)"
            using run open' rd m i mv cfg
            by (auto simp: fs_delay_message_def Let_def p s2_def split: if_splits prod.splits)
          then show ?thesis by (rule step_move_then_delete [OF inv2 key i mv])
        next
          case False
          obtain t s4 where n: "now_ms s3 = (t, s4)" by (cases "now_ms s3")
          note s4 = step_now_ms [OF inv3 n]
          note inv4 = fs_step_inv [OF inv3 s4]
          let ?dm = "\<lparr>dm_message_key = key, dm_queue = lm_queue meta,
            dm_available_at_ms = i64 (t + d), dm_attempt = lm_attempt meta\<rparr>"
          obtain y s5 where w: "write_delayed_meta L key ?dm s4 = (y, s5)" by (metis prod.collapse)
          note s5 = step_write_delayed_meta [OF inv4 w]
          note inv5 = fs_step_inv [OF inv4 s5]
          obtain z s6 where del: "delete_lease_meta key s5 = (z, s6)" by (metis prod.collapse)
          note s6 = step_delete_lease_meta [OF inv5 del key]
          have "s' = s6"
            using run open' rd m i mv cfg False n w del
            by (auto simp: fs_delay_message_def Let_def p s2_def split: if_splits prod.splits)
          then show ?thesis using s3 s4 s5 s6 by (blast intro: fs_step_then)
        qed
      qed
    qed
  qed
qed

lemma fs_move_to_dlq_step:
  assumes inv: "fs_inv L s" and key: "CHR ''/'' \<notin> set key"
    and run: "fs_move_to_dlq L key reason s = (r, s')"
  shows "fs_step L (key_edges key Inflight Dlq) s s'"
proof (cases "fsa_is_open s")
  case False
  with run inv show ?thesis by (simp add: fs_move_to_dlq_def fs_step_refl)
next
  case open': True
  let ?E = "key_edges key Inflight Dlq"
  obtain m e s1 where rd: "read_lease_meta L key s = ((m, e), s1)" by (metis prod.collapse)
  show ?thesis
  proof (rule seq_read_lease [OF inv inv rd])
    assume inv1: "fs_inv L s1"
    show "fs_step L ?E s1 s'"
    proof (cases "m = None \<or> after_last_colon key = None")
      case True
      with run open' rd inv1 show ?thesis
        by (auto simp: fs_move_to_dlq_def fs_step_refl split: option.splits)
    next
      case False
      then obtain meta i where m: "m = Some meta" and i: "after_last_colon key = Some i" by auto
      let ?proc = "queue_base (fsa_config s1) (lm_queue meta) @
        [state_dir (fsa_config s1) Inflight, json_name i]"
      let ?s2 = "fs_stamp_dlq L ?proc reason s1"
      show ?thesis
      proof (rule fs_step_seq [OF inv1 step_fs_stamp_dlq [OF inv1]])
        assume inv2: "fs_inv L ?s2" and cfg: "fsa_config ?s2 = fsa_config s1"
        note p = key_state_path [OF fs_invD(2) [OF inv1] key i]
        obtain x s3 where mv: "move_file
            (queue_base (fsa_config ?s2) (lm_queue meta) @ [state_dir (fsa_config ?s2) Inflight, json_name i])
            (queue_base (fsa_config ?s2) (lm_queue meta) @ [state_dir (fsa_config ?s2) Dlq, json_name i])
            ?s2 = (x, s3)"
          by (metis prod.collapse)
        then have "s' = s3 \<or> s' = snd (delete_lease_meta key s3)"
          using run open' rd m i cfg
          by (auto simp: fs_move_to_dlq_def Let_def p split: if_splits prod.splits)
        then show "fs_step L ?E ?s2 s'" by (rule step_move_then_delete [OF inv2 key i mv])
      qed
    qed
  qed
qed

lemma fs_step_closed: "fs_inv L s \<Longrightarrow> s' = s \<Longrightarrow> fs_step L E s s'"
  by (simp add: fs_step_refl)

lemma collect_expired_same:
  "collect_expired L now es s = (infos, s') \<Longrightarrow> fget s' = fget s \<and> same_env s s'"
proof (induction L now es s arbitrary: infos s' rule: collect_expired.induct)
  case (2 L now e es s)
  obtain c x s1 where rd: "read_file e s = ((c, x), s1)" by (metis prod.collapse)
  note eff = read_file_effect [OF rd]
  from "2.prems" rd obtain infos' where "collect_expired L now es s1 = (infos', s')"
    by (cases c) (auto split: sum.splits option.splits prod.splits)
  with "2.IH" rd have "fget s' = fget s1 \<and> same_env s1 s'"
    using "2.prems" by (cases c) (fastforce split: sum.splits option.splits prod.splits)+
  with eff show ?case by (auto intro: same_env_trans)
qed simp

lemma collect_dlq_same:
  "collect_dlq L q lim fs n s = (infos, s') \<Longrightarrow> fget s' = fget s \<and> same_env s s'"
proof (induction L q lim fs n s arbitrary: infos s' rule: collect_dlq.induct)
  case (2 L q lim f fs n s)
  show ?case
  proof (cases "n \<ge> lim")
    case True
    with "2.prems" show ?thesis by simp
  next
    case False
    obtain c x s1 where rd: "read_file f s = ((c, x), s1)" by (metis prod.collapse)
    have "fget s' = fget s1 \<and> same_env s1 s'"
      using "2.prems" "2.IH" rd False
      by (cases c) (fastforce split: sum.splits option.splits prod.splits)+
    with read_file_effect [OF rd] show ?thesis by (auto intro: same_env_trans)
  qed
qed simp

lemma fs_get_expired_step:
  assumes inv: "fs_inv L s" and run: "fs_get_expired_inflight_messages L s = (r, s')"
  shows "fs_step L {} s s'"
proof -
  obtain now s1 where n: "now_ms s = (now, s1)" by (cases "now_ms s")
  obtain es s2 where l: "os_list_files (build_meta_path (fsa_config s1) ''leases'') s1 = (es, s2)"
    by (metis prod.collapse)
  obtain infos s3 where c: "collect_expired L now es s2 = (infos, s3)" by (metis prod.collapse)
  have "same_env s s' \<and> fget s' = fget s"
    using run n l c now_ms_effect [OF n] os_list_files_effect [OF l] collect_expired_same [OF c]
    by (auto simp: fs_get_expired_inflight_messages_def Let_def split: if_splits
        intro: same_env_trans)
  with inv show ?thesis by (simp add: fs_step_same)
qed

lemma fs_list_dlq_step:
  assumes inv: "fs_inv L s" and run: "fs_list_dlq_messages L q lim s = (r, s')"
  shows "fs_step L {} s s'"
proof -
  let ?cfg = "fsa_config s"
  obtain fs s1 where l: "list_json_files (build_queue_path ?cfg q (fc_dlq_dir ?cfg) []) s = (fs, s1)"
    by (metis prod.collapse)
  obtain infos s2 where c: "collect_dlq L q lim fs 0 s1 = (infos, s2)" by (metis prod.collapse)
  have "same_env s s' \<and> fget s' = fget s"
    using run l c list_json_files_effect [OF l] collect_dlq_same [OF c]
    by (auto simp: fs_list_dlq_messages_def Let_def split: if_splits intro: same_env_trans)
  with inv show ?thesis by (simp add: fs_step_same)
qed

lemma fs_reprocess_step:
  assumes inv: "fs_inv L s" and key: "CHR ''/'' \<notin> set key"
    and run: "fs_reprocess_dlq_message L key s = (r, s')"
  shows "fs_step L (key_edges key Dlq Ready) s s'"
proof (cases "\<not> fsa_is_open s \<or> extract_queue_from_key key = [] \<or> after_last_colon key = None")
  case True
  with run inv show ?thesis
    by (auto simp: fs_reprocess_dlq_message_def Let_def fs_step_refl split: if_splits)
next
  case False
  then obtain i where i: "after_last_colon key = Some i" by auto
  let ?E = "key_edges key Dlq Ready" and ?q = "extract_queue_from_key key"
  note p = key_state_path [OF fs_invD(2) [OF inv] key i]
  let ?b = "queue_base (fsa_config s) ?q"
  let ?dlq = "?b @ [state_dir (fsa_config s) Dlq, json_name i]"
  obtain c e s1 where rd: "read_file ?dlq s = ((c, e), s1)" by (metis prod.collapse)
  obtain t s2 where n: "now_ms s1 = (t, s2)" by (cases "now_ms s1")
  note s12 = step_read_now [OF inv rd n]
  show ?thesis
  proof (cases "\<exists>content j0 j j1. c = Some content \<and> json_parse L content = Inr j0 \<and>
      clear_dlq_fields j0 = Inr j \<and> jset ''availableAt'' (JInt t) j = Inr j1")
    case False': False
    have "s' = s1 \<or> s' = s2"
      using run False False' i n rd
      by (auto simp: fs_reprocess_dlq_message_def Let_def p ebind_def split: option.splits sum.splits)
    then show ?thesis using s12 by (auto intro: fs_step_weak)
  next
    case True
    then obtain content j0 j j1 where h: "c = Some content" "json_parse L content = Inr j0"
      "clear_dlq_fields j0 = Inr j" "jset ''availableAt'' (JInt t) j = Inr j1" by blast
    obtain w s3 where wr: "atomic_write ?dlq (jl_dump L 2 j1) s2 = (w, s3)" by (metis prod.collapse)
    have same: "same_message L j0 j1"
      using same_message_clear [OF h(3)] same_message_available [OF h(4)] by (rule same_message_trans)
    have s3: "fs_step L {} s s3"
      using step_edit_file [OF inv _ n h(2) same refl wr] rd h(1) by simp
    show ?thesis
    proof (rule fs_step_seq [OF inv s3])
      assume inv3: "fs_inv L s3" and cfg: "fsa_config s3 = fsa_config s"
      obtain x s4 where mv: "move_file (queue_base (fsa_config s3) ?q @ [state_dir (fsa_config s3) Dlq, json_name i])
          (queue_base (fsa_config s3) ?q @ [state_dir (fsa_config s3) Ready, json_name i]) s3 = (x, s4)"
        by (metis prod.collapse)
      have "s' = s3 \<or> s' = s4"
        using run False i n rd h wr mv cfg
        by (auto simp: fs_reprocess_dlq_message_def Let_def p split: if_splits)
      then show "fs_step L ?E s3 s'"
        using step_move_key [OF inv3 key i mv] fs_step_refl [OF inv3] by auto
    qed
  qed
qed

text \<open>The sweeps.\<close>

lemma expired_entry_key:
  assumes "good_lease L c" "expired_entry L now c = Inr (Some (key, queue))"
  shows "CHR ''/'' \<notin> set key"
  using assms
  by (auto simp: good_lease_def expired_entry_def json_parse_def ebind_Inr_conv split: if_splits)

lemma recover_one_step:
  assumes inv: "fs_inv L s" and i: "CHR ''/'' \<notin> set i"
    and e: "entry_of (lease_dir (fsa_config s)) entry"
    and run: "recover_one q i entry n s = (n', s')"
  shows "fs_step L (any_edges Inflight Ready) s s'"
proof -
  note cfg = fs_invD(2) [OF inv]
  let ?b = "queue_base (fsa_config s) q"
  let ?proc = "?b @ [state_dir (fsa_config s) Inflight, json_name i]"
  let ?inbox = "?b @ [state_dir (fsa_config s) Ready, json_name i]"
  have p: "build_queue_path (fsa_config s) q (fc_processing_dir (fsa_config s)) (json_name i) = ?proc"
    "build_queue_path (fsa_config s) q (fc_inbox_dir (fsa_config s)) (json_name i) = ?inbox"
    using build_queue_path_eq [OF plain_state_dir [OF cfg, of Inflight] plain_json_name [OF i]]
      build_queue_path_eq [OF plain_state_dir [OF cfg, of Ready] plain_json_name [OF i]] by simp_all
  obtain x s1 where mv: "os_rename ?proc ?inbox s = (x, s1)" by (metis prod.collapse)
  define s2 where "s2 = (if fexists s ?proc then s1 else s)"
  have s2: "fs_step L (any_edges Inflight Ready) s s2"
    using fs_step_mono [OF step_os_rename [OF inv mv] edges_at_any] fs_step_refl [OF inv]
    by (simp add: s2_def)
  note inv2 = fs_step_inv [OF inv s2] and cfg2 = fs_step_config [OF s2]
  obtain y s3 where rm: "os_remove entry s2 = (y, s3)" by (metis prod.collapse)
  have "s' = s3"
    using run mv rm by (auto simp: recover_one_def Let_def p s2_def split: if_splits option.splits)
  then show ?thesis
    using s2 step_os_remove_lease [OF inv2 rm] e cfg2 by (auto intro: fs_step_then)
qed

lemma recover_entries_step:
  assumes "recover_entries L now es n s = (n', s')" "fs_inv L s"
    "\<forall>e \<in> set es. entry_of (lease_dir (fsa_config s)) e"
  shows "fs_step L (any_edges Inflight Ready) s s'"
  using assms
proof (induction es arbitrary: n s)
  case Nil
  then show ?case by (simp add: fs_step_refl)
next
  case (Cons entry es)
  let ?E = "any_edges Inflight Ready"
  obtain c x s1 where rd: "read_file entry s = ((c, x), s1)" by (metis prod.collapse)
  show ?case
  proof (rule fs_step_seq [OF Cons.prems(2) step_read_file [OF Cons.prems(2) rd]])
    assume inv1: "fs_inv L s1" and cfg1: "fsa_config s1 = fsa_config s"
    note e1 = Cons.prems(3) [folded cfg1]
    show "fs_step L ?E s1 s'"
    proof (cases "\<exists>content key queue i. c = Some content \<and>
        expired_entry L now content = Inr (Some (key, queue)) \<and> key \<noteq> [] \<and> queue \<noteq> [] \<and>
        after_last_colon key = Some i")
      case False
      then have "recover_entries L now es n s1 = (n', s')"
        using Cons.prems(1) rd by (auto split: option.splits sum.splits if_splits)
      then show ?thesis using inv1 e1 by (intro Cons.IH) auto
    next
      case True
      then obtain content key queue i where c: "c = Some content"
        "expired_entry L now content = Inr (Some (key, queue))" "key \<noteq> []" "queue \<noteq> []"
        "after_last_colon key = Some i" by blast
      obtain n2 s2 where one: "recover_one queue i entry n s1 = (n2, s2)" by (metis prod.collapse)
      have "fget s entry = Some content" using read_file_effect [OF rd] c by auto
      then have "good_lease L content"
        using fs_invD(3) [OF Cons.prems(2)] Cons.prems(3) by (auto simp: entry_of_def intro: fm_leasesD)
      then have "CHR ''/'' \<notin> set i"
        using expired_entry_key c(2) after_last_colon_subset [OF c(5)] by blast
      then have s2: "fs_step L ?E s1 s2"
        using inv1 e1 one by (intro recover_one_step [of L s1 i entry queue n n2]) auto
      moreover have "recover_entries L now es n2 s2 = (n', s')"
        using Cons.prems(1) rd c one by simp
      then have "fs_step L ?E s2 s'"
        using fs_step_inv [OF inv1 s2] e1 fs_step_config [OF s2] by (intro Cons.IH) auto
      ultimately show ?thesis by (rule fs_step_trans) (simp add: trans_any_edges)
    qed
  qed
qed

lemma fs_recover_step:
  assumes inv: "fs_inv L s" and run: "fs_recover_expired_leases L s = (r, s')"
  shows "fs_step L (any_edges Inflight Ready) s s'"
proof (cases "fsa_is_open s")
  case False
  with run inv show ?thesis by (simp add: fs_recover_expired_leases_def fs_step_refl)
next
  case open': True
  obtain now s1 where n: "now_ms s = (now, s1)" by (cases "now_ms s")
  let ?d = "build_meta_path (fsa_config s1) ''leases''"
  show ?thesis
  proof (rule seq_now [OF inv inv n])
    assume inv1: "fs_inv L s1"
    obtain es s2 where l: "os_list_files ?d s1 = (es, s2)" by (metis prod.collapse)
    obtain k s3 where rec: "recover_entries L now es 0 s2 = (k, s3)" by (metis prod.collapse)
    note s2 = step_os_list_files [OF inv1 l]
    note inv2 = fs_step_inv [OF inv1 s2] and cfg2 = fs_step_config [OF s2]
    have "\<forall>e \<in> set es. entry_of (lease_dir (fsa_config s2)) e"
      using os_list_files_effect [OF l] lease_dir_eq [OF fs_invD(2) [OF inv1]] cfg2 by simp
    note s3 = recover_entries_step [OF rec inv2 this]
    show "fs_step L (any_edges Inflight Ready) s1 s'"
      using run open' n l rec fs_then_step [OF s2 s3] fs_step_refl [OF inv1]
      by (auto simp: fs_recover_expired_leases_def Let_def split: if_splits)
  qed
qed

lemma entry_path:
  assumes "list_json_files (build_queue_path cfg q d []) s = (fs, s1)" "plain_name d" "f \<in> set fs"
  shows "f = queue_base cfg q @ [d, last f]" "plain_name (last f)" "has_json_ext (last f)"
    "fget s f \<noteq> None"
proof -
  have "entry_of (queue_base cfg q @ [d]) f \<and> has_json_ext (last f) \<and> fget s f \<noteq> None"
    using list_json_files_effect [OF assms(1)] assms(3) build_queue_dir_eq [OF assms(2)] by auto
  then show "f = queue_base cfg q @ [d, last f]" "plain_name (last f)" "has_json_ext (last f)"
    "fget s f \<noteq> None"
    by (auto simp: entry_of_iff)
qed

lemma process_one_step:
  assumes inv: "fs_inv L s"
    and f: "f = queue_base (fsa_config s) q @ [state_dir (fsa_config s) Delayed, g]" "plain_name g"
    and run: "process_one q f j n s = (n', s')"
  shows "fs_step L (any_edges Delayed Ready) s s'"
proof -
  note cfg = fs_invD(2) [OF inv]
  let ?inbox = "queue_base (fsa_config s) q @ [state_dir (fsa_config s) Ready, g]"
  have p: "build_queue_path (fsa_config s) q (fc_inbox_dir (fsa_config s)) (last f) = ?inbox"
    using build_queue_path_eq [OF plain_state_dir [OF cfg, of Ready] f(2)] f(1) by simp
  obtain x s1 where mv: "os_rename (queue_base (fsa_config s) q @ [state_dir (fsa_config s) Delayed, g])
      ?inbox s = (x, s1)" by (metis prod.collapse)
  have s1: "fs_step L (any_edges Delayed Ready) s s1"
    using step_os_rename [OF inv mv] edges_at_any by (rule fs_step_mono)
  have mv': "os_rename f ?inbox s = (x, s1)" using mv f(1) by simp
  have "s' = s1 \<or> (\<exists>key. s' = snd (delete_delayed_meta key s1))"
    using run mv' by (auto simp: process_one_def Let_def p split: option.splits sum.splits if_splits)
  then show ?thesis
    using s1 step_delete_delayed_meta [OF fs_step_inv [OF inv s1] prod.collapse [symmetric]]
    by (auto intro: fs_step_then)
qed

lemma process_files_step:
  assumes "process_files L now q fs n s = (n', s')" "fs_inv L s"
    "\<forall>f \<in> set fs. f = queue_base (fsa_config s) q @ [state_dir (fsa_config s) Delayed, last f] \<and>
        plain_name (last f)"
  shows "fs_step L (any_edges Delayed Ready) s s'"
  using assms
proof (induction fs arbitrary: n s)
  case Nil
  then show ?case by (simp add: fs_step_refl)
next
  case (Cons f fs)
  let ?E = "any_edges Delayed Ready"
  obtain c x s1 where rd: "read_file f s = ((c, x), s1)" by (metis prod.collapse)
  show ?case
  proof (rule fs_step_seq [OF Cons.prems(2) step_read_file [OF Cons.prems(2) rd]])
    assume inv1: "fs_inv L s1" and cfg1: "fsa_config s1 = fsa_config s"
    note f1 = Cons.prems(3) [folded cfg1]
    have "process_files L now q fs n s1 = (n', s') \<or>
        (\<exists>j n2 s2. process_one q f j n s1 = (n2, s2) \<and> process_files L now q fs n2 s2 = (n', s'))"
      using Cons.prems(1) rd by (auto split: option.splits sum.splits if_splits prod.splits)
    then show "fs_step L ?E s1 s'"
    proof
      assume "process_files L now q fs n s1 = (n', s')"
      then show ?thesis using inv1 f1 by (intro Cons.IH) auto
    next
      assume "\<exists>j n2 s2. process_one q f j n s1 = (n2, s2) \<and> process_files L now q fs n2 s2 = (n', s')"
      then obtain j n2 s2 where one: "process_one q f j n s1 = (n2, s2)"
        and rest: "process_files L now q fs n2 s2 = (n', s')" by blast
      have s2: "fs_step L ?E s1 s2"
        using f1 by (intro process_one_step [OF inv1 _ _ one, of "last f"]) simp_all
      have "fs_step L ?E s2 s'"
        using rest fs_step_inv [OF inv1 s2] f1 fs_step_config [OF s2] by (intro Cons.IH) auto
      with s2 show ?thesis by (rule fs_step_trans) (simp add: trans_any_edges)
    qed
  qed
qed

lemma process_queues_step:
  assumes "process_queues L now ds n s = (n', s')" "fs_inv L s"
  shows "fs_step L (any_edges Delayed Ready) s s'"
  using assms
proof (induction ds arbitrary: n s)
  case Nil
  then show ?case by (simp add: fs_step_refl)
next
  case (Cons d ds)
  let ?E = "any_edges Delayed Ready" and ?q = "last d" and ?cfg = "fsa_config s"
  let ?dd = "build_queue_path ?cfg ?q ''delayed'' []"
  show ?case
  proof (cases "?q = fc_meta_dir ?cfg \<or> \<not> fexists s ?dd")
    case True
    then have "process_queues L now ds n s = (n', s')"
      using Cons.prems(1) by (auto simp: Let_def split: if_splits)
    then show ?thesis using Cons.prems(2) by (rule Cons.IH)
  next
    case False
    obtain fs s1 where l: "list_json_files ?dd s = (fs, s1)" by (metis prod.collapse)
    obtain n2 s2 where p: "process_files L now ?q fs n s1 = (n2, s2)" by (metis prod.collapse)
    note s1 = step_list_json_files [OF Cons.prems(2) l]
    note inv1 = fs_step_inv [OF Cons.prems(2) s1]
    have s2: "fs_step L ?E s s2"
    proof (rule fs_then_step [OF s1 process_files_step [OF p inv1]])
      show "\<forall>f \<in> set fs. f = queue_base (fsa_config s1) ?q @ [state_dir (fsa_config s1) Delayed, last f] \<and>
          plain_name (last f)"
        using entry_path [OF l] fs_step_config [OF s1] by simp
    qed
    have "process_queues L now ds n2 s2 = (n', s')"
      using Cons.prems(1) False l p by (simp add: Let_def)
    then have "fs_step L ?E s2 s'" using fs_step_inv [OF Cons.prems(2) s2] by (rule Cons.IH)
    with s2 show ?thesis by (rule fs_step_trans) (simp add: trans_any_edges)
  qed
qed

lemma fs_process_delayed_step:
  assumes inv: "fs_inv L s" and run: "fs_process_delayed_messages L s = (r, s')"
  shows "fs_step L (any_edges Delayed Ready) s s'"
proof (cases "fsa_is_open s")
  case False
  with run inv show ?thesis by (simp add: fs_process_delayed_messages_def fs_step_refl)
next
  case open': True
  obtain now s1 where n: "now_ms s = (now, s1)" by (cases "now_ms s")
  show ?thesis
  proof (rule seq_now [OF inv inv n])
    assume inv1: "fs_inv L s1"
    obtain ds s2 where l: "os_list_dirs (to_path (fc_root (fsa_config s1))) s1 = (ds, s2)"
      by (metis prod.collapse)
    obtain k s3 where p: "process_queues L now ds 0 s2 = (k, s3)" by (metis prod.collapse)
    note s2 = step_os_list_dirs [OF inv1 l]
    have "s' = s3"
      using run open' n l p by (simp add: fs_process_delayed_messages_def Let_def)
    then show "fs_step L (any_edges Delayed Ready) s1 s'"
      using fs_then_step [OF s2 process_queues_step [OF p fs_step_inv [OF inv1 s2]]] by simp
  qed
qed

section \<open>Enqueue\<close>

text \<open>The message the caller hands in: its key, queue and identifier agree, its numbers are in the
  range of their types.\<close>

definition new_message :: "fs_config \<Rightarrow> message \<Rightarrow> string \<Rightarrow> string \<Rightarrow> bool" where
  "new_message cfg e q i \<longleftrightarrow>
     msg_ranges e \<and> m_key e = msg_key q i \<and> m_message_id e = i \<and> m_queue e = q \<and>
     queue_ok cfg q \<and> id_ok i"

definition fs_adds ::
  "json_lib \<Rightarrow> string \<Rightarrow> string \<Rightarrow> message_state \<Rightarrow> message \<Rightarrow> bool \<Rightarrow> fs_adapter \<Rightarrow> fs_adapter \<Rightarrow> bool"
where
  "fs_adds L q i st b must s s' \<longleftrightarrow>
     fsa_config s' = fsa_config s \<and> fsa_is_open s' = fsa_is_open s \<and> fs_inv L s' \<and>
     (\<forall>q' i'. queue_ok (fsa_config s) q' \<longrightarrow> id_ok i' \<longrightarrow> (q', i') \<noteq> (q, i) \<longrightarrow>
        fs_view L s' q' i' = fs_view L s q' i') \<and>
     (fs_view L s' q i = Some (st, Some (msg_body b)) \<or> \<not> must \<and> fs_view L s' q i = fs_view L s q i)"

lemma fm_add:
  assumes inv: "fm_inv cfg L fm" and cfg: "fs_cfg_ok cfg" and q: "queue_ok cfg q" and i: "id_ok i"
    and fresh: "fm_view cfg L fm q i = None" and c: "good_content L q i c"
  shows "fm_inv cfg L (fm(mpath cfg st q (json_name i) \<mapsto> c))"
    "fm_view cfg L (fm(mpath cfg st q (json_name i) \<mapsto> c)) q i = Some (st, body_of L c)"
    "\<And>q' i'. (q', i') \<noteq> (q, i) \<Longrightarrow>
       fm_view cfg L (fm(mpath cfg st q (json_name i) \<mapsto> c)) q' i' = fm_view cfg L fm q' i'"
proof -
  let ?fm = "fm(mpath cfg st q (json_name i) \<mapsto> c)"
  have none: "fm (mpath cfg st' q (json_name i)) = None" for st'
    using fm_view_None [OF inv q i] fresh by simp
  show inv': "fm_inv cfg L ?fm"
    unfolding fm_inv_def
  proof (intro conjI)
    show "fm_unique cfg ?fm"
      using inv none cfg by (auto simp: fm_inv_def fm_unique_def)
    show "fm_contents cfg L ?fm"
      using inv c i cfg by (auto simp: fm_contents_def fm_inv_def)
    show "fm_leases cfg L ?fm"
      using inv mpath_not_lease [OF cfg] by (auto simp: fm_leases_def fm_inv_def)
  qed
  show "fm_view cfg L ?fm q i = Some (st, body_of L c)"
    using fm_view_Some [OF inv' q i] by simp
  show "(q', i') \<noteq> (q, i) \<Longrightarrow> fm_view cfg L ?fm q' i' = fm_view cfg L fm q' i'" for q' i'
    using cfg by (intro fm_view_cong) auto
qed

lemma fs_write_new:
  assumes inv: "fs_inv L s" and new: "new_message (fsa_config s) e q i"
    and fresh: "fs_view L s q i = None"
    and w: "atomic_write (mpath (fsa_config s) st q (json_name i)) (serialize_envelope L e) s = (r, s')"
  shows "fs_adds L q i st e (fst r) s s'"
proof -
  let ?cfg = "fsa_config s" and ?p = "mpath (fsa_config s) st q (json_name i)"
  let ?t = "with_suffix ?p ''.tmp''"
  note fmi = fs_invD [OF inv]
  have q: "queue_ok ?cfg q" and i: "id_ok i" using new by (simp_all add: new_message_def)
  have t: "?t = (root_path ?cfg @ [q]) @ [state_dir ?cfg st, json_name i @ ''.tmp'']"
    using with_suffix_snoc [of "root_path ?cfg @ [q, state_dir ?cfg st]" "json_name i" "''.tmp''"]
    by (simp add: mpath_def)
  have ft: "foreign ?cfg ?t" unfolding t using fmi by (intro foreign_not_json) auto
  obtain x where x: "fget s' = (if fst r then ((fget s)(?t := None))(?p \<mapsto> serialize_envelope L e)
      else (fget s)(?t := x))" "same_env s s'"
    using atomic_write_effect [OF w] by metis
  have step: "fm_step ?cfg L {} (fget s) ((fget s)(?t := y))" for y
    using fmi(3) ft by (rule fm_step_foreign)
  have good: "good_content L q i (serialize_envelope L e)"
    "body_of L (serialize_envelope L e) = Some (msg_body e)"
    using good_content_serialize fmi(1) new by (auto simp: new_message_def)
  have inv0: "fm_inv ?cfg L ((fget s)(?t := None))"
    and fresh0: "fm_view ?cfg L ((fget s)(?t := None)) q i = None"
    using step [of None] fresh q i by (simp_all add: fm_step_def fs_view_def)
  note add = fm_add [OF inv0 fmi(2) q i fresh0 good(1), where st = st]
  have env: "fsa_config s' = ?cfg" "fsa_is_open s' = fsa_is_open s"
    using same_env_fs [OF x(2)] by simp_all
  show ?thesis
  proof (cases "fst r")
    case True
    then show ?thesis
      using x(1) add good(2) step [of None] fmi env
      by (auto simp: fs_adds_def fs_inv_def fs_view_def fm_step_def)
  next
    case False
    then show ?thesis
      using x(1) step [of x] fmi env q i
      by (auto simp: fs_adds_def fs_inv_def fs_view_def fm_step_def)
  qed
qed

lemma fs_step_adds:
  assumes "fs_step L {} s s1" "fs_adds L q i st e must s1 s2" "queue_ok (fsa_config s) q" "id_ok i"
  shows "fs_adds L q i st e must s s2"
  using assms fs_step_view [OF assms(1)] by (auto simp: fs_adds_def fs_step_def)

lemma fs_adds_none:
  "fs_inv L s \<Longrightarrow> fs_step L {} s s1 \<Longrightarrow> queue_ok (fsa_config s) q \<Longrightarrow> id_ok i \<Longrightarrow>
     fs_adds L q i st e False s s1"
  using fs_step_inv [of L s "{}" s1] fs_step_view [of L "{}" s s1]
  by (auto simp: fs_adds_def fs_step_def)

lemma fs_enqueue_adds:
  assumes inv: "fs_inv L s" and new: "new_message (fsa_config s) e q i"
    and fresh: "fs_view L s q i = None" and run: "fs_enqueue L e s = (r, s')"
  shows "\<exists>st \<in> {Ready, Delayed}. fs_adds L q i st e (fst r) s s'"
proof -
  have q: "queue_ok (fsa_config s) q" and i: "id_ok i" using new by (simp_all add: new_message_def)
  obtain x s1 where mk: "ensure_queue_directories (m_queue e) s = (x, s1)"
    by (metis prod.collapse)
  note s1 = step_ensure_queue_directories [OF inv mk]
  show ?thesis
  proof (cases "fsa_is_open s \<and> fst x")
    case False
    then have "\<not> fst r \<and> (s' = s \<or> s' = s1)"
      using run mk by (auto simp: fs_enqueue_def split: if_splits)
    then show ?thesis
      using fs_adds_none [OF inv _ q i] fs_step_refl [OF inv] s1 by auto
  next
    case True
    note inv1 = fs_step_inv [OF inv s1]
    obtain now s2 where n: "now_ms s1 = (now, s2)" by (cases "now_ms s1")
    have s2: "fs_step L {} s s2" using s1 step_now_ms [OF inv1 n] by (rule fs_then_step)
    note inv2 = fs_step_inv [OF inv s2]
    let ?dm = "\<lparr>dm_message_key = m_key e, dm_queue = m_queue e,
       dm_available_at_ms = m_available_at_ms e, dm_attempt = m_attempt e\<rparr>"
    obtain y s3 where d: "write_delayed_meta L (m_key e) ?dm s2 = (y, s3)" by (metis prod.collapse)
    have s3: "fs_step L {} s s3" using s2 step_write_delayed_meta [OF inv2 d] by (rule fs_then_step)
    define st where "st = (if m_available_at_ms e > now then Delayed else Ready)"
    define s4 where "s4 = (if m_available_at_ms e > now then s3 else s2)"
    have s4: "fs_step L {} s s4" using s2 s3 by (simp add: s4_def)
    note inv4 = fs_step_inv [OF inv s4]
    note cfg = fs_step_config [OF s2] fs_step_config [OF s4]
    have "build_queue_path (fsa_config s) q (state_dir (fsa_config s) st') (json_name i) =
        mpath (fsa_config s) st' q (json_name i)" for st'
      using build_queue_path_eq [of "state_dir (fsa_config s) st'" "json_name i"]
        plain_state_dir [OF fs_invD(2) [OF inv]] plain_json_name [of i] q i
      by (simp add: mpath_def id_ok_def)
    note p = this [of Ready] this [of Delayed]
    have e: "m_queue e = q" "m_message_id e = i" using new by (simp_all add: new_message_def)
    have w: "atomic_write (mpath (fsa_config s4) st q (json_name i)) (serialize_envelope L e) s4 = (r, s')"
    proof (cases "m_available_at_ms e > now")
      case gt: True
      have eq: "fs_enqueue L e s = atomic_write (build_queue_path (fsa_config s2) (m_queue e) ''delayed''
          (json_name (m_message_id e))) (serialize_envelope L e) s3"
        using True mk n d gt by (simp only: fs_enqueue_def Let_def prod.case if_True if_False not_not simp_thms)
      have "st = Delayed" "s4 = s3" using gt by (simp_all add: st_def s4_def)
      then show ?thesis using trans [OF eq [symmetric] run] cfg p(2) e by simp
    next
      case le: False
      have eq: "fs_enqueue L e s = atomic_write (build_queue_path (fsa_config s2) (m_queue e)
          (fc_inbox_dir (fsa_config s2)) (json_name (m_message_id e))) (serialize_envelope L e) s2"
        using True mk n d le by (simp only: fs_enqueue_def Let_def prod.case if_True if_False not_not simp_thms)
      have "st = Ready" "s4 = s2" using le by (simp_all add: st_def s4_def)
      then show ?thesis using trans [OF eq [symmetric] run] cfg p(1) e by simp
    qed
    have fresh4: "fs_view L s4 q i = None" using fs_step_view [OF s4 q i] fresh by simp
    have new4: "new_message (fsa_config s4) e q i" using new cfg(2) by simp
    have "fs_adds L q i st e (fst r) s s'"
      using s4 fs_write_new [OF inv4 new4 fresh4 w] q i by (rule fs_step_adds)
    then show ?thesis unfolding st_def by (auto split: if_splits)
  qed
qed

section \<open>Leasing\<close>

lemma find_match_same:
  "find_match L c fs s = (r, s') \<Longrightarrow> fget s' = fget s \<and> same_env s s'"
proof (induction fs arbitrary: s)
  case (Cons f fs)
  obtain x e s1 where rd: "read_file f s = ((x, e), s1)" by (metis prod.collapse)
  have "s' = s1 \<or> find_match L c fs s1 = (r, s')"
    using Cons.prems rd by (auto split: option.splits prod.splits if_splits)
  then show ?case
    using Cons.IH [of s1] read_file_effect [OF rd] by (auto intro: same_env_trans)
qed simp

lemma find_match_Some:
  "find_match L c fs s = (Some (f, e), s') \<Longrightarrow>
     f \<in> set fs \<and> (m_target_consumer_id e = [] \<or> m_target_consumer_id e = c) \<and>
     (\<exists>content. fget s f = Some content \<and> fst (deserialize_envelope L content) = Some e)"
proof (induction fs arbitrary: s)
  case (Cons f' fs)
  obtain x y s1 where rd: "read_file f' s = ((x, y), s1)" by (metis prod.collapse)
  note eff = read_file_effect [OF rd]
  consider (rest) "find_match L c fs s1 = (Some (f, e), s')"
    | (hit) content z where "x = Some content" "deserialize_envelope L content = (Some e, z)"
        "f' = f" "m_target_consumer_id e = [] \<or> m_target_consumer_id e = c"
    using Cons.prems rd by (auto split: option.splits prod.splits if_splits)
  then show ?case
  proof cases
    case rest
    with Cons.IH [of s1] eff show ?thesis by auto
  next
    case hit
    with eff show ?thesis by (auto intro: exI [of _ content])
  qed
qed simp

lemma jvalue_ranges:
  "jvalue (get_i32 L) j k 0 = Inr x \<Longrightarrow> in_i32 x" "jvalue (get_i64 L) j k 0 = Inr x \<Longrightarrow> in_i64 x"
proof -
  have "in_i32 0" "in_i64 0" by (simp_all add: in_i32_def in_i64_def)
  then show "jvalue (get_i32 L) j k 0 = Inr x \<Longrightarrow> in_i32 x"
      "jvalue (get_i64 L) j k 0 = Inr x \<Longrightarrow> in_i64 x"
    by (auto simp: jvalue_def dest: get_i32_range get_i64_range split: json.splits option.splits)
qed

lemma envelope_of_json_ranges: "envelope_of_json L j = Inr e \<Longrightarrow> msg_ranges e"
  by (auto simp: envelope_of_json_def msg_ranges_def ebind_Inr_conv dest: jvalue_ranges)

text \<open>There and back: a message known to be ready that may have been moved to the processing
  directory, and may have been moved back.\<close>

lemma fs_step_back:
  assumes inv: "fs_inv L s" and ready: "fget s (b @ [state_dir (fsa_config s) Ready, f]) \<noteq> None"
    and s1: "fs_step L (edges_at (fsa_config s) b f Ready Inflight) s s1"
    and s2: "fs_step L (edges_at (fsa_config s) b f Inflight Ready) s1 s2"
  shows "fs_step L (edges_at (fsa_config s) b f Ready Inflight) s s2"
proof -
  let ?cfg = "fsa_config s"
  let ?E = "edges_at ?cfg b f Ready Inflight" and ?F = "edges_at ?cfg b f Inflight Ready"
  have "moves ?E q i (fm_view ?cfg L (fget s) q i) (fm_view ?cfg L (fget s2) q i)"
    if q: "queue_ok ?cfg q" and i: "id_ok i" for q i
  proof -
    let ?v = "fm_view ?cfg L (fget s) q i" and ?v1 = "fm_view ?cfg L (fget s1) q i"
    have m1: "moves ?E q i ?v ?v1" and m2: "moves ?F q i ?v1 (fm_view ?cfg L (fget s2) q i)"
      using s1 s2 q i by (auto simp: fs_step_def fm_step_def)
    show ?thesis
    proof (cases "b = root_path ?cfg @ [q] \<and> f = json_name i")
      case True
      then obtain c where "fget s (mpath ?cfg Ready q (json_name i)) = Some c"
        using ready by (auto simp: mpath_def)
      then have "?v = Some (Ready, body_of L c)"
        using fm_view_Some [OF fs_invD(3) [OF inv] q i] by simp
      with m1 m2 show ?thesis by (auto simp: moves_def edges_at_def)
    next
      case False
      with m1 m2 show ?thesis by (auto simp: moves_def edges_at_def)
    qed
  qed
  with s1 s2 show ?thesis by (simp add: fs_step_def fm_step_def)
qed

lemma same_message_serialize:
  assumes "envelope_of_json L j = Inr e"
  shows "same_message L j (envelope_json (e\<lparr>m_attempt := i32 n\<rparr>))"
proof -
  let ?e = "e\<lparr>m_attempt := i32 n\<rparr>"
  have "msg_ranges ?e" using envelope_of_json_ranges [OF assms] by (simp add: msg_ranges_def)
  then have "envelope_of_json L (envelope_json ?e) = Inr ?e" by (rule envelope_roundtrip)
  moreover obtain m where "envelope_json ?e = JObj m" by (simp add: envelope_json_def jobj_def)
  ultimately show ?thesis
    using assms unfolding same_message_def by (intro allI impI exI [of _ m] exI [of _ ?e]) auto
qed

definition queue_edges :: "string \<Rightarrow> message_state \<Rightarrow> message_state \<Rightarrow> edge set" where
  "queue_edges q st st' = {(q, i, st, st') | i. True}"

lemma edges_at_queue:
  "queue_ok cfg q \<Longrightarrow> edges_at cfg (queue_base cfg q) f st st' \<subseteq> queue_edges q st st'"
  by (auto simp: edges_at_def queue_edges_def)

lemma fs_rewrite_body:
  assumes inv: "fs_inv L s" and q: "queue_ok (fsa_config s) q" and i: "id_ok i"
    and w: "atomic_write (mpath (fsa_config s) st q (json_name i)) c s = (r, s')"
    and view: "fs_view L s q i = Some (st, body_of L c)" and good: "good_content L q i c"
  shows "fs_step L E s s'"
proof -
  let ?cfg = "fsa_config s" and ?p = "mpath (fsa_config s) st q (json_name i)"
  let ?t = "with_suffix ?p ''.tmp''"
  note fmi = fs_invD [OF inv]
  have t: "?t = (root_path ?cfg @ [q]) @ [state_dir ?cfg st, json_name i @ ''.tmp'']"
    using with_suffix_snoc [of "root_path ?cfg @ [q, state_dir ?cfg st]" "json_name i" "''.tmp''"]
    by (simp add: mpath_def)
  have ft: "foreign ?cfg ?t" unfolding t using fmi by (intro foreign_not_json) auto
  obtain x where x: "fget s' = (if fst r then ((fget s)(?t := None))(?p \<mapsto> c)
      else (fget s)(?t := x))" "same_env s s'"
    using atomic_write_effect [OF w] by metis
  have step: "fm_step ?cfg L {} (fget s) ((fget s)(?t := y))" for y
    using fmi(3) ft by (rule fm_step_foreign)
  obtain c0 where c0: "fget s ?p = Some c0" "body_of L c0 = body_of L c"
    using view fm_view_Some [OF fmi(3) q i] by (auto simp: fs_view_def)
  have "?t \<noteq> ?p" by (rule with_suffix_neq) simp
  then have "fm_step ?cfg L {} ((fget s)(?t := None)) (((fget s)(?t := None))(?p \<mapsto> c))"
    using fm_step_rewrite [of ?cfg L "(fget s)(?t := None)" q i st c0 c "{}"]
      step [of None] fmi q i good c0 by (simp add: fm_step_def)
  then have "fm_step ?cfg L E (fget s) (fget s')"
    using step [of None] step [of x] x(1) by (simp add: fm_step_def)
  with x(2) show ?thesis by (rule fs_stepI)
qed

text \<open>What a granted lease says: a message of the queue that was ready is now in flight; its target
  is nobody or the consumer; token and message carry its key.\<close>

definition lease_given ::
  "json_lib \<Rightarrow> string \<Rightarrow> string \<Rightarrow> lease_result \<Rightarrow> fs_adapter \<Rightarrow> fs_adapter \<Rightarrow> bool" where
  "lease_given L q consumer r s s' \<longleftrightarrow>
     (\<exists>i e l. id_ok i \<and> lr_message r = Some e \<and> lr_lease r = Some l \<and>
        m_key e = msg_key q i \<and> m_message_id e = i \<and> m_queue e = q \<and>
        lt_message_key l = msg_key q i \<and> lt_consumer_id l = consumer \<and>
        (m_target_consumer_id e = [] \<or> m_target_consumer_id e = consumer) \<and>
        fs_view L s q i = Some (Ready, Some (msg_body e)) \<and>
        fs_view L s' q i = Some (Inflight, Some (msg_body e)))"

lemma fs_lease_next_full:
  assumes inv: "fs_inv L s" and q: "queue_ok (fsa_config s) q"
    and run: "fs_lease_next L q consumer t s = (r, s')"
  shows "fs_step L (queue_edges q Ready Inflight) s s' \<and>
    (lr_leased r \<longrightarrow> lease_given L q consumer r s s')"
proof (cases "fsa_is_open s")
  case False
  with run inv show ?thesis by (auto simp: fs_lease_next_def fs_step_refl)
next
  case open': True
  let ?cfg = "fsa_config s" and ?E = "queue_edges q Ready Inflight"
  let ?b = "queue_base (fsa_config s) q"
  note cfg_ok = fs_invD(2) [OF inv]
  obtain fs s1 where l: "list_json_files (build_queue_path ?cfg q (fc_inbox_dir ?cfg) []) s = (fs, s1)"
    by (metis prod.collapse)
  obtain m s2 where fm: "find_match L consumer fs s1 = (m, s2)" by (metis prod.collapse)
  have same2: "fget s2 = fget s" "same_env s s2"
    using list_json_files_effect [OF l] find_match_same [OF fm] by (auto intro: same_env_trans)
  have s2: "fs_step L {} s s2" using inv same2 by (simp add: fs_step_same)
  note inv2 = fs_step_inv [OF inv s2] and cfg2 = fs_step_config [OF s2]
  show ?thesis
  proof (cases m)
    case None
    then have "s' = s2 \<and> \<not> lr_leased r"
      using run open' l fm by (auto simp: fs_lease_next_def Let_def)
    with s2 show ?thesis by (simp add: fs_step_weak)
  next
    case (Some fe)
    obtain f e where fe: "fe = (f, e)" by (cases fe)
    with Some fm have fm': "find_match L consumer fs s1 = (Some (f, e), s2)" by simp
    from find_match_Some [OF fm'] obtain content where f: "f \<in> set fs"
      and c: "fget s1 f = Some content" "fst (deserialize_envelope L content) = Some e" by blast
    have "plain_name (fc_inbox_dir ?cfg)" using plain_state_dir [OF cfg_ok, of Ready] by simp
    note entry = entry_path [OF l this f]
    define g where "g = last f"
    have f_eq: "f = ?b @ [state_dir ?cfg Ready, g]" using entry(1) by (simp add: g_def)
    have g: "plain_name g" "has_json_ext g" using entry(2,3) by (simp_all add: g_def)
    let ?proc = "?b @ [state_dir ?cfg Inflight, g]"
    have proc: "build_queue_path ?cfg q (fc_processing_dir ?cfg) (last f) = ?proc"
      using build_queue_path_eq [OF plain_state_dir [OF cfg_ok, of Inflight] g(1)] by (simp add: g_def)
    have cs: "fget s f = Some content" "f = mpath ?cfg Ready q g"
      using c(1) list_json_files_effect [OF l] f_eq q by (auto simp: mpath_def)
    from fm_contentsD [OF fs_invD(3) [OF inv] q g(2)] cs
    obtain i where i: "g = json_name i" "id_ok i" "good_content L q i content" by metis
    then have key: "m_key e = msg_key q i" and "CHR ''/'' \<notin> set (m_key e)"
      using c(2) q by (auto simp: good_content_def deserialize_envelope_def json_parse_def
          queue_ok_def plain_name_def id_ok_def)
    then have slash: "CHR ''/'' \<notin> set (m_key e)" by simp
    obtain x s3 where mv: "move_file f ?proc s2 = (x, s3)" by (metis prod.collapse)
    have mv': "move_file (?b @ [state_dir (fsa_config s2) Ready, g])
        (?b @ [state_dir (fsa_config s2) Inflight, g]) s2 = (x, s3)"
      using mv f_eq cfg2 by simp
    have s3: "fs_step L (edges_at ?cfg ?b g Ready Inflight) s s3"
      using fs_then_step [OF s2 step_move_file [OF inv2 mv', unfolded cfg2]] .
    note inv3 = fs_step_inv [OF inv s3]
    have final: "fs_step L ?E s t" if "fs_step L (edges_at ?cfg ?b g Ready Inflight) s t" for t
      using that edges_at_queue [OF q] by (rule fs_step_mono)
    show ?thesis
    proof (cases "fst x")
      case False
      then have "s' = s3 \<and> \<not> lr_leased r"
        using run open' l fm Some fe mv proc cfg2 by (auto simp: fs_lease_next_def Let_def)
      with final [OF s3] show ?thesis by simp
    next
      case moved: True
      obtain lid s4 where gid: "fresh_guid s3 = (lid, s4)" by (metis prod.collapse)
      obtain now s5 where n: "now_ms s4 = (now, s5)" by (metis prod.collapse)
      have s45: "fs_step L {} s3 s5"
        using step_fresh_guid [OF inv3 gid]
          step_now_ms [OF fs_step_inv [OF inv3 step_fresh_guid [OF inv3 gid]] n]
        by (rule fs_then_step)
      note inv5 = fs_step_inv [OF inv3 s45]
      define meta where "meta = \<lparr>lm_consumer_id = consumer, lm_lease_id = lid,
        lm_lease_until_ms = i64 (now + t * 1000), lm_attempt = i32 (m_attempt e + 1), lm_queue = q\<rparr>"
      obtain y s6 where w: "write_lease_meta L (m_key e) meta s5 = (y, s6)" by (metis prod.collapse)
      have s6: "fs_step L {} s3 s6"
        using s45 step_write_lease_meta [OF inv5 w slash] by (rule fs_then_step)
      have s06: "fs_step L (edges_at ?cfg ?b g Ready Inflight) s s6"
        using s3 s6 by (rule fs_step_then)
      note inv6 = fs_step_inv [OF inv s06] and cfg6 = fs_step_config [OF s06]
      show ?thesis
      proof (cases "fst y")
        case False
        obtain z s7 where bk: "move_file ?proc f s6 = (z, s7)" by (metis prod.collapse)
        then have "move_file (?b @ [state_dir (fsa_config s6) Inflight, g])
            (?b @ [state_dir (fsa_config s6) Ready, g]) s6 = (z, s7)"
          using f_eq cfg6 by simp
        note s7 = step_move_file [OF inv6 this, unfolded cfg6]
        have "fget s (?b @ [state_dir ?cfg Ready, g]) \<noteq> None" using cs(1) f_eq by simp
        note back_step = fs_step_back [OF inv this s06 s7]
        have "s' = s7 \<and> \<not> lr_leased r"
          using run open' l fm Some fe mv proc cfg2 moved gid n w False bk
          by (auto simp: fs_lease_next_def Let_def meta_def)
        with final [OF back_step] show ?thesis by simp
      next
        case True
        let ?e = "e\<lparr>m_attempt := i32 (m_attempt e + 1)\<rparr>"
        obtain z s7 where wr: "atomic_write ?proc (serialize_envelope L ?e) s6 = (z, s7)"
          by (metis prod.collapse)
        let ?l = "\<lparr>lt_lease_id = lid, lt_message_key = m_key e, lt_consumer_id = consumer,
          lt_lease_until_ms = i64 (now + t * 1000)\<rparr>"
        have res: "s' = s7 \<and> lr_message r = Some ?e \<and> lr_lease r = Some ?l"
          using run open' l fm Some fe mv proc cfg2 moved gid n w True wr
          by (auto simp: fs_lease_next_def Let_def meta_def)
        have s7: "fs_step L {} s6 s7 \<and> fs_view L s6 q i = Some (Inflight, Some (msg_body e)) \<and>
          m_message_id e = i \<and> m_queue e = q \<and> body_of L content = Some (msg_body e)"
        proof -
          have "fget s3 = fm_move f ?proc (fget s2)" using move_file_effect [OF mv] moved by simp
          then have "fget s3 (mpath (fsa_config s3) Inflight q (json_name i)) = Some content"
            using cs same2 i(1) q fs_step_config [OF s3] by (simp add: fm_move_def mpath_def)
          then have "fs_view L s3 q i = Some (Inflight, body_of L content)"
            using fm_view_Some [OF fs_invD(3) [OF inv3] _ i(2)] q fs_step_config [OF s3]
            by (simp add: fs_view_def)
          then have v6: "fs_view L s6 q i = Some (Inflight, body_of L content)"
            using fs_step_view [OF s6 _ i(2), of q] q fs_step_config [OF s3] by simp
          obtain j where j: "jl_parse L content = Some j" "envelope_of_json L j = Inr e"
            using c(2) by (auto simp: deserialize_envelope_def json_parse_def ebind_def
                split: option.splits sum.splits)
          have r: "msg_ranges ?e"
            using envelope_of_json_ranges [OF j(2)] by (simp add: msg_ranges_def)
          have ids: "m_key e = msg_key q i" "m_message_id e = i" "m_queue e = q"
            using i(3) j by (auto simp: good_content_def)
          note good = good_content_serialize [OF fs_invD(1) [OF inv] r, of q i]
          have g: "good_content L q i (serialize_envelope L ?e)" using good(1) ids by simp
          have v: "fs_view L s6 q i = Some (Inflight, body_of L (serialize_envelope L ?e))"
            using v6 good(2) ids body_of_eq [OF j] by simp
          have w6: "atomic_write (mpath (fsa_config s6) Inflight q (json_name i))
              (serialize_envelope L ?e) s6 = (z, s7)"
            using wr q cfg6 i(1) by (simp add: mpath_def)
          have "queue_ok (fsa_config s6) q" using q cfg6 by simp
          then have "fs_step L {} s6 s7" using fs_rewrite_body [OF inv6 _ i(2) w6 v g] by blast
          then show ?thesis using ids v6 body_of_eq [OF j] by simp
        qed
        have ready: "fs_view L s q i = Some (Ready, Some (msg_body e))"
          using fm_view_Some [OF fs_invD(3) [OF inv] q i(2)] cs i(1) s7 by (simp add: fs_view_def)
        have "fs_view L s7 q i = fs_view L s6 q i"
          using fs_step_view [OF conjunct1 [OF s7] _ i(2), of q] q cfg6 by simp
        then have "lease_given L q consumer r s s7"
          using res s7 ready key i(2) find_match_Some [OF fm'] unfolding lease_given_def
          by (intro exI [of _ i] exI [of _ ?e] exI [of _ ?l]) simp
        then show ?thesis using res s7 final [OF fs_step_then [OF s06]] by simp
      qed
    qed
  qed
qed

lemmas fs_lease_next_step = fs_lease_next_full [THEN conjunct1]

end
