(* ===== verification/FileSystem_Machine.thy ===== *)
theory FileSystem_Machine
  imports FileSystem_Lifecycle
begin

text \<open>
  The adapter as a state machine: the transitions of a message between its states, sequences of
  adapter operations, and the properties of such sequences. The last part evaluates runs on a
  concrete store.
\<close>

section \<open>The life cycle as a state machine\<close>

inductive lifecycle :: "message_state \<Rightarrow> message_state \<Rightarrow> bool" where
  lease: "lifecycle Ready Inflight"
| acknowledge: "lifecycle Inflight Archived"
| release: "lifecycle Inflight Ready"
| postpone: "lifecycle Inflight Delayed"
| bury: "lifecycle Inflight Dlq"
| due: "lifecycle Delayed Ready"
| reprocess: "lifecycle Dlq Ready"

inductive_cases lifecycle_fromE [elim!]:
  "lifecycle Ready st" "lifecycle Inflight st" "lifecycle Delayed st" "lifecycle Dlq st"
  "lifecycle Archived st"

lemmas lifecycle_intros [intro] = lifecycle.intros

code_pred lifecycle .

definition lifecycle_edges :: "edge set" where
  "lifecycle_edges = {(q, i, st, st') | q i st st'. lifecycle\<^sup>*\<^sup>* st st'}"

lemma trans_lifecycle_edges: "trans_edges lifecycle_edges"
  by (auto simp: trans_edges_def lifecycle_edges_def)

lemma lifecycle_edgesI:
  "lifecycle a b \<Longrightarrow> key_edges key a b \<subseteq> lifecycle_edges"
  "lifecycle a b \<Longrightarrow> any_edges a b \<subseteq> lifecycle_edges"
  "lifecycle a b \<Longrightarrow> queue_edges q a b \<subseteq> lifecycle_edges"
  by (auto simp: lifecycle_edges_def key_edges_def any_edges_def queue_edges_def)

text \<open>An archived message stays archived.\<close>

lemma archived_final: "lifecycle\<^sup>*\<^sup>* Archived st \<longleftrightarrow> st = Archived"
proof
  assume "lifecycle\<^sup>*\<^sup>* Archived st"
  then show "st = Archived" by (induction rule: rtranclp_induct) auto
qed simp

section \<open>Sequences of operations\<close>

datatype fs_op =
    Op_Enqueue message
  | Op_Lease string string int
  | Op_Ack lease_token
  | Op_Nack lease_token string bool
  | Op_Extend lease_token int
  | Op_Load_Policy string
  | Op_Save_Policy string queue_policy
  | Op_Metrics string
  | Op_Recover
  | Op_Process_Delayed
  | Op_Expired
  | Op_Delay string int
  | Op_Move_To_Dlq string string
  | Op_List_Dlq string int
  | Op_Reprocess string

fun fs_exec :: "json_lib \<Rightarrow> fs_op \<Rightarrow> fs_adapter \<Rightarrow> fs_adapter" where
  "fs_exec L (Op_Enqueue e) s = snd (fs_enqueue L e s)"
| "fs_exec L (Op_Lease q c t) s = snd (fs_lease_next L q c t s)"
| "fs_exec L (Op_Ack l) s = snd (fs_ack L l s)"
| "fs_exec L (Op_Nack l r b) s = snd (fs_nack L l r b s)"
| "fs_exec L (Op_Extend l t) s = snd (fs_extend_lease L l t s)"
| "fs_exec L (Op_Load_Policy q) s = snd (fs_load_policy L q s)"
| "fs_exec L (Op_Save_Policy q p) s = snd (fs_save_policy L q p s)"
| "fs_exec L (Op_Metrics q) s = snd (fs_metrics q s)"
| "fs_exec L Op_Recover s = snd (fs_recover_expired_leases L s)"
| "fs_exec L Op_Process_Delayed s = snd (fs_process_delayed_messages L s)"
| "fs_exec L Op_Expired s = snd (fs_get_expired_inflight_messages L s)"
| "fs_exec L (Op_Delay k d) s = snd (fs_delay_message L k d s)"
| "fs_exec L (Op_Move_To_Dlq k r) s = snd (fs_move_to_dlq L k r s)"
| "fs_exec L (Op_List_Dlq q n) s = snd (fs_list_dlq_messages L q n s)"
| "fs_exec L (Op_Reprocess k) s = snd (fs_reprocess_dlq_message L k s)"

definition op_ok :: "json_lib \<Rightarrow> fs_adapter \<Rightarrow> fs_op \<Rightarrow> bool" where
  "op_ok L s op \<longleftrightarrow>
     (case op of
        Op_Enqueue e \<Rightarrow> new_message (fsa_config s) e (m_queue e) (m_message_id e) \<and>
          fs_view L s (m_queue e) (m_message_id e) = None
      | Op_Lease q c t \<Rightarrow> queue_ok (fsa_config s) q
      | Op_Ack l \<Rightarrow> CHR ''/'' \<notin> set (lt_message_key l)
      | Op_Nack l r b \<Rightarrow> CHR ''/'' \<notin> set (lt_message_key l)
      | Op_Extend l t \<Rightarrow> CHR ''/'' \<notin> set (lt_message_key l)
      | Op_Delay k d \<Rightarrow> CHR ''/'' \<notin> set k
      | Op_Move_To_Dlq k r \<Rightarrow> CHR ''/'' \<notin> set k
      | Op_Reprocess k \<Rightarrow> CHR ''/'' \<notin> set k
      | _ \<Rightarrow> True)"

text \<open>A run in which every operation is admissible where it happens.\<close>

fun fs_run :: "json_lib \<Rightarrow> fs_op list \<Rightarrow> fs_adapter \<Rightarrow> fs_adapter option" where
  "fs_run L [] s = Some s"
| "fs_run L (op # ops) s = (if op_ok L s op then fs_run L ops (fs_exec L op s) else None)"

lemma prod_snd: "\<exists>r. x = (r, snd x)"
  by (cases x) simp

text \<open>The transitions each operation can cause.\<close>

fun op_edges :: "fs_op \<Rightarrow> edge set" where
  "op_edges (Op_Lease q c t) = queue_edges q Ready Inflight"
| "op_edges (Op_Ack l) = key_edges (lt_message_key l) Inflight Archived"
| "op_edges (Op_Nack l r b) = key_edges (lt_message_key l) Inflight (if b then Ready else Dlq)"
| "op_edges (Op_Delay k d) = key_edges k Inflight (if d \<le> 0 then Ready else Delayed)"
| "op_edges (Op_Move_To_Dlq k r) = key_edges k Inflight Dlq"
| "op_edges (Op_Reprocess k) = key_edges k Dlq Ready"
| "op_edges Op_Recover = any_edges Inflight Ready"
| "op_edges Op_Process_Delayed = any_edges Delayed Ready"
| "op_edges _ = {}"

lemma op_edges_lifecycle: "op_edges op \<subseteq> lifecycle_edges"
proof (cases op)
  case (Op_Nack l r b)
  then show ?thesis by (simp add: lifecycle_edgesI(1) [OF release] lifecycle_edgesI(1) [OF bury])
next
  case (Op_Delay k d)
  then show ?thesis by (simp add: lifecycle_edgesI(1) [OF release] lifecycle_edgesI(1) [OF postpone])
qed (simp_all add: lifecycle_edgesI lifecycle_intros)

lemma fs_exec_step:
  assumes inv: "fs_inv L s" and ok: "op_ok L s op" and not_enq: "\<And>e. op \<noteq> Op_Enqueue e"
  shows "fs_step L (op_edges op) s (fs_exec L op s)"
proof (cases op)
  case (Op_Enqueue e)
  with not_enq [of e] show ?thesis by simp
next
  case (Op_Lease q c t)
  then show ?thesis
    using fs_lease_next_step [OF inv _ prod.collapse [symmetric]] ok by (simp add: op_ok_def)
next
  case (Op_Ack l)
  then show ?thesis
    using fs_ack_step [OF inv _ prod.collapse [symmetric]] ok by (simp add: op_ok_def)
next
  case (Op_Nack l r b)
  then show ?thesis
    using fs_nack_step [OF inv _ prod.collapse [symmetric], of l b r] ok by (simp add: op_ok_def)
next
  case (Op_Delay k d)
  then show ?thesis
    using fs_delay_message_step [OF inv _ prod.collapse [symmetric], of k d] ok
    by (simp add: op_ok_def)
next
  case (Op_Move_To_Dlq k r)
  then show ?thesis
    using fs_move_to_dlq_step [OF inv _ prod.collapse [symmetric], of k] ok by (simp add: op_ok_def)
next
  case (Op_Reprocess k)
  then show ?thesis
    using fs_reprocess_step [OF inv _ prod.collapse [symmetric], of k] ok by (simp add: op_ok_def)
next
  case (Op_Extend l t)
  then show ?thesis
    using fs_extend_lease_step [OF inv _ prod.collapse [symmetric], of l] ok
    by (simp add: op_ok_def)
qed (simp_all add: fs_load_policy_step [OF inv prod.collapse [symmetric]]
      fs_save_policy_step [OF inv prod.collapse [symmetric]]
      fs_metrics_step [OF inv prod.collapse [symmetric]]
      fs_get_expired_step [OF inv prod.collapse [symmetric]]
      fs_list_dlq_step [OF inv prod.collapse [symmetric]]
      fs_recover_step [OF inv prod.collapse [symmetric]]
      fs_process_delayed_step [OF inv prod.collapse [symmetric]])

text \<open>One operation and one message: what was there moves along the edges of the operation, what
  was not there is at most added by its own enqueue.\<close>

lemma fs_exec_one:
  assumes inv: "fs_inv L s" and ok: "op_ok L s op"
    and q: "queue_ok (fsa_config s) q" and i: "id_ok i"
  shows "fs_inv L (fs_exec L op s) \<and> fsa_config (fs_exec L op s) = fsa_config s \<and>
    (moves (op_edges op) q i (fs_view L s q i) (fs_view L (fs_exec L op s) q i) \<or>
     (\<exists>e st. op = Op_Enqueue e \<and> m_queue e = q \<and> m_message_id e = i \<and> fs_view L s q i = None \<and>
        st \<in> {Ready, Delayed} \<and> fs_view L (fs_exec L op s) q i = Some (st, Some (msg_body e))))"
proof (cases "\<exists>e. op = Op_Enqueue e")
  case False
  then have step: "fs_step L (op_edges op) s (fs_exec L op s)"
    using fs_exec_step [OF inv ok] by blast
  then show ?thesis
    using fs_step_inv [OF inv step] fs_step_config [OF step] fs_step_view [OF step q i] by blast
next
  case True
  then obtain e where e: "op = Op_Enqueue e" by blast
  with ok have new: "new_message (fsa_config s) e (m_queue e) (m_message_id e)"
    and fresh: "fs_view L s (m_queue e) (m_message_id e) = None" by (simp_all add: op_ok_def)
  obtain r s' where run: "fs_enqueue L e s = (r, s')" by (metis prod.collapse)
  from fs_enqueue_adds [OF inv new fresh run] obtain st
    where st: "st \<in> {Ready, Delayed}" "fs_adds L (m_queue e) (m_message_id e) st e (fst r) s s'"
    by blast
  then show ?thesis
    using fresh q i run e
    by (cases "(q, i) = (m_queue e, m_message_id e)") (auto simp: fs_adds_def)
qed

lemma fs_exec_view:
  assumes inv: "fs_inv L s" and ok: "op_ok L s op"
    and q: "queue_ok (fsa_config s) q" and i: "id_ok i"
  shows "fs_inv L (fs_exec L op s)" "fsa_config (fs_exec L op s) = fsa_config s"
    "fs_view L s q i = Some (st, b) \<Longrightarrow>
       \<exists>st'. fs_view L (fs_exec L op s) q i = Some (st', b) \<and> (st' = st \<or> (q, i, st, st') \<in> op_edges op)"
  using fs_exec_one [OF assms] by (auto simp: moves_def)

lemma op_edge_lifecycle: "(q, i, st, st') \<in> op_edges op \<Longrightarrow> lifecycle\<^sup>*\<^sup>* st st'"
  using op_edges_lifecycle by (force simp: lifecycle_edges_def)

lemma fs_run_Cons:
  "fs_run L (op # ops) s = Some s' \<longleftrightarrow> op_ok L s op \<and> fs_run L ops (fs_exec L op s) = Some s'"
  by simp

lemma fs_run_inv:
  "fs_run L ops s = Some s' \<Longrightarrow> fs_inv L s \<Longrightarrow> queue_ok (fsa_config s) q \<Longrightarrow> id_ok i \<Longrightarrow>
     fs_inv L s' \<and> fsa_config s' = fsa_config s"
proof (induction ops arbitrary: s)
  case (Cons op ops)
  then have ok: "op_ok L s op" "fs_run L ops (fs_exec L op s) = Some s'"
    by (simp_all only: fs_run_Cons)
  note one = fs_exec_view(1,2) [OF Cons.prems(2) ok(1) Cons.prems(3,4)]
  show ?case using Cons.IH [OF ok(2) one(1)] one(2) Cons.prems(3,4) by simp
qed simp

lemma fs_run_view:
  assumes "fs_run L ops s = Some s'" "fs_inv L s" "queue_ok (fsa_config s) q" "id_ok i"
    "fs_view L s q i = Some (st, b)"
  shows "\<exists>st'. fs_view L s' q i = Some (st', b) \<and> lifecycle\<^sup>*\<^sup>* st st'"
  using assms
proof (induction ops arbitrary: s st)
  case (Cons op ops)
  then have ok: "op_ok L s op" "fs_run L ops (fs_exec L op s) = Some s'"
    by (simp_all only: fs_run_Cons)
  note one = fs_exec_view [OF Cons.prems(2) ok(1) Cons.prems(3,4)]
  from one(3) [OF Cons.prems(5)] obtain st1
    where v: "fs_view L (fs_exec L op s) q i = Some (st1, b)" and e: "lifecycle\<^sup>*\<^sup>* st st1"
    using op_edge_lifecycle by blast
  from Cons.IH [OF ok(2) one(1) _ Cons.prems(4) v] one(2) Cons.prems(3)
  obtain st' where "fs_view L s' q i = Some (st', b)" "lifecycle\<^sup>*\<^sup>* st1 st'" by auto
  with e show ?case by (meson rtranclp_trans)
qed auto

text \<open>Operations that do not hand a leased message back.\<close>

fun releases :: "fs_op \<Rightarrow> bool" where
  "releases (Op_Nack l r b) = b"
| "releases (Op_Delay k d) = True"
| "releases (Op_Reprocess k) = True"
| "releases Op_Recover = True"
| "releases _ = False"

lemma fs_run_held:
  assumes "fs_run L ops s = Some s'" "fs_inv L s" "queue_ok (fsa_config s) q" "id_ok i"
    "fs_view L s q i = Some (st, b)" "st \<in> {Inflight, Archived, Dlq}" "\<forall>op \<in> set ops. \<not> releases op"
  shows "\<exists>st' \<in> {Inflight, Archived, Dlq}. fs_view L s' q i = Some (st', b)"
  using assms
proof (induction ops arbitrary: s st)
  case (Cons op ops)
  then have ok: "op_ok L s op" "fs_run L ops (fs_exec L op s) = Some s'"
    by (simp_all only: fs_run_Cons)
  note one = fs_exec_view [OF Cons.prems(2) ok(1) Cons.prems(3,4)]
  have held: "st1 \<in> {Inflight, Archived, Dlq}"
    if "(q, i, st, st1) \<in> op_edges op" for st1
    using that Cons.prems(6,7)
    by (cases op) (auto simp: key_edges_def any_edges_def queue_edges_def split: if_splits)
  from one(3) [OF Cons.prems(5)] obtain st1
    where v: "fs_view L (fs_exec L op s) q i = Some (st1, b)" and e: "st1 \<in> {Inflight, Archived, Dlq}"
    using held Cons.prems(6) by blast
  show ?case
    using Cons.IH [OF ok(2) one(1) _ Cons.prems(4) v e] one(2) Cons.prems(3,7) by simp
qed auto

end
