(* ===== verification/FileSystem_Progress.thy ===== *)
theory FileSystem_Progress
  imports FileSystem_Machine
begin

text \<open>
  What the adapter achieves when no system call fails: an acknowledgement by the holder of a lease
  archives the message, the recovery sweep finds every expired lease, the delay sweep finds every
  due message. Each sweep is an induction over the listed files, with a lemma for the file that is
  looked for and a lemma that the other files leave it alone.
\<close>

section \<open>Leases\<close>

definition stored_lease :: "json_lib \<Rightarrow> fs_adapter \<Rightarrow> string \<Rightarrow> lease_meta option" where
  "stored_lease L s key =
     (case fget s (lease_meta_path (fsa_config s) key) of
        None \<Rightarrow> None
      | Some c \<Rightarrow> (case ebind (json_parse L c) (lease_meta_of_json L) of Inl _ \<Rightarrow> None | Inr m \<Rightarrow> Some m))"

lemma read_lease_meta_stored:
  "read_lease_meta L key s = ((m, e), s1) \<Longrightarrow> m = None \<or> m = stored_lease L s key"
  by (auto simp: read_lease_meta_def stored_lease_def split: prod.splits option.splits sum.splits
      dest!: read_file_effect)

lemma now_ms_value: "now_ms s = (t, s') \<Longrightarrow> t = clock s (clock_n s)"
  by (simp add: now_ms_def)

lemma read_lease_meta_clock:
  "read_lease_meta L key s = (x, s1) \<Longrightarrow> clock s1 = clock s \<and> clock_n s1 = clock_n s"
  by (auto simp: read_lease_meta_def read_file_def os_read_def os_io_def Let_def
      split: prod.splits option.splits sum.splits if_splits)

lemma fs_ack_cases:
  assumes "fs_ack L lease s = (r, s')"
  shows "if fst r then fsa_is_open s \<and>
      (\<exists>m. stored_lease L s (lt_message_key lease) = Some m \<and>
         lm_consumer_id m = lt_consumer_id lease \<and> clock s (clock_n s) \<le> lm_lease_until_ms m)
    else fget s' = fget s"
proof -
  obtain m e s1 where rd: "read_lease_meta L (lt_message_key lease) s = ((m, e), s1)"
    by (metis prod.collapse)
  obtain t s2 where n: "now_ms s1 = (t, s2)" by (cases "now_ms s1")
  have g: "fget s1 = fget s" "fget s2 = fget s" "t = clock s (clock_n s)"
    using read_lease_meta_same [OF rd] now_ms_effect [OF n] now_ms_value [OF n]
      read_lease_meta_clock [OF rd] by auto
  have mv: "\<not> fst r' \<Longrightarrow> fget s3 = fget s" if "move_file a b s2 = (r', s3)" for a b r' s3
    using move_file_effect [OF that] g(2) by simp
  show ?thesis
  proof (cases m)
    case None
    with assms rd g show ?thesis by (auto simp: fs_ack_def split: if_splits)
  next
    case (Some meta)
    then have st: "stored_lease L s (lt_message_key lease) = Some meta"
      using read_lease_meta_stored [OF rd] by simp
    show ?thesis
    proof (cases "fst r")
      case True
      with assms rd n g st Some show ?thesis
        by (auto simp: fs_ack_def Let_def split: if_splits option.splits prod.splits)
    next
      case False
      with assms rd n g Some mv show ?thesis
        by (auto simp: fs_ack_def Let_def split: if_splits option.splits prod.splits)
    qed
  qed
qed

section \<open>Runs without faults\<close>

definition no_faults :: "'a world_scheme \<Rightarrow> bool" where
  "no_faults s \<longleftrightarrow> fault s = (\<lambda>_. None)"

lemma no_faults_same: "same_env s s' \<Longrightarrow> no_faults s \<Longrightarrow> no_faults s'"
  by (simp add: same_env_def no_faults_def)

text \<open>The directories of a queue exist, and no message file name is taken by a directory.\<close>

definition queue_dirs :: "fs_config \<Rightarrow> string \<Rightarrow> 'a world_scheme \<Rightarrow> bool" where
  "queue_dirs cfg q s \<longleftrightarrow>
     (\<forall>st. is_dir s (root_path cfg @ [q, state_dir cfg st])) \<and>
     (\<forall>st i. \<not> is_dir s (mpath cfg st q (json_name i)))"

lemma queue_dirsD:
  assumes "queue_dirs cfg q s"
  shows "mpath cfg st q f \<noteq> []" "is_dir s (butlast (mpath cfg st q f))"
    "\<not> is_dir s (mpath cfg st q (json_name i))"
  using assms by (simp_all add: queue_dirs_def mpath_def butlast_append del: state_dir.simps)

lemma is_dir_dirs: "dirs s' = dirs s \<Longrightarrow> is_dir s' = is_dir s"
  by (simp add: is_dir_def fun_eq_iff)

lemma queue_dirs_dirs: "dirs s' = dirs s \<Longrightarrow> queue_dirs cfg q s' = queue_dirs cfg q s"
  using is_dir_dirs [of s' s] by (simp add: queue_dirs_def)

lemma os_rename_ok:
  assumes "no_faults s" "fget s p = Some c" "dst \<noteq> []" "is_dir s (butlast dst)" "\<not> is_dir s dst"
  shows "\<exists>s'. os_rename p dst s = (None, s') \<and> fget s' = (fget s)(p := None, dst \<mapsto> c) \<and>
    same_env s s' \<and> dirs s' = dirs s"
  using assms
  by (auto simp: os_rename_def os_io_def no_faults_def is_dir_def same_env_def Let_def)

lemma move_message_ok:
  assumes "no_faults s" "queue_dirs cfg q s" "fget s (mpath cfg st q (json_name i)) = Some c"
  shows "\<exists>s'. move_file (mpath cfg st q (json_name i)) (mpath cfg st' q (json_name i)) s = (ok_res, s') \<and>
    fget s' = (fget s)(mpath cfg st q (json_name i) := None, mpath cfg st' q (json_name i) \<mapsto> c) \<and>
    same_env s s' \<and> dirs s' = dirs s"
proof -
  have "mpath cfg st' q (json_name i) \<noteq> []" "is_dir s (butlast (mpath cfg st' q (json_name i)))"
    "\<not> is_dir s (mpath cfg st' q (json_name i))"
    using queue_dirsD [OF assms(2)] by simp_all
  from os_rename_ok [OF assms(1,3) this] show ?thesis by (auto simp: move_file_def)
qed

lemma read_file_ok: "no_faults s \<Longrightarrow> fget s p = Some c \<Longrightarrow>
   \<exists>s'. read_file p s = ((Some c, None), s') \<and> fget s' = fget s \<and> same_env s s' \<and> dirs s' = dirs s \<and>
     clock_n s' = clock_n s"
  by (auto simp: read_file_def os_read_def os_io_def no_faults_def same_env_def Let_def)

lemma read_lease_meta_ok:
  assumes "no_faults s" "stored_lease L s key = Some m"
  shows "\<exists>s'. read_lease_meta L key s = ((Some m, None), s') \<and> fget s' = fget s \<and> same_env s s' \<and>
    dirs s' = dirs s \<and> clock_n s' = clock_n s"
proof -
  from assms(2) obtain c where c: "fget s (lease_meta_path (fsa_config s) key) = Some c"
      "ebind (json_parse L c) (lease_meta_of_json L) = Inr m"
    by (auto simp: stored_lease_def split: option.splits sum.splits)
  from read_file_ok [OF assms(1) c(1)] c(2) show ?thesis by (auto simp: read_lease_meta_def)
qed

lemma delete_lease_ok:
  assumes "no_faults s"
  shows "\<exists>s'. delete_lease_meta key s = (ok_res, s') \<and>
    fget s' = (fget s)(lease_meta_path (fsa_config s) key := None) \<and> same_env s s' \<and> dirs s' = dirs s"
  using assms by (auto simp: delete_lease_meta_def delete_file_def os_remove_def os_io_def
      no_faults_def same_env_def Let_def)

lemma now_ms_run: "\<exists>s'. now_ms s = (clock s (clock_n s), s') \<and> fget s' = fget s \<and> same_env s s' \<and>
  dirs s' = dirs s"
  by (simp add: now_ms_def same_env_def)

text \<open>The paths of a message of an admissible queue.\<close>

lemma message_paths:
  assumes "fs_cfg_ok cfg" "queue_ok cfg q" "id_ok i"
  shows "build_queue_path cfg q (fc_processing_dir cfg) (json_name i) = mpath cfg Inflight q (json_name i)"
    "build_queue_path cfg q (fc_inbox_dir cfg) (json_name i) = mpath cfg Ready q (json_name i)"
    "build_queue_path cfg q (fc_archive_dir cfg) (json_name i) = mpath cfg Archived q (json_name i)"
    "build_queue_path cfg q (fc_dlq_dir cfg) (json_name i) = mpath cfg Dlq q (json_name i)"
    "build_queue_path cfg q ''delayed'' (json_name i) = mpath cfg Delayed q (json_name i)"
proof -
  have s: "CHR ''/'' \<notin> set (msg_key q i)" and c: "after_last_colon (msg_key q i) = Some i"
    using assms(2,3) msg_key_last [of i q] by (auto simp: queue_ok_def plain_name_def id_ok_def)
  show "build_queue_path cfg q (fc_processing_dir cfg) (json_name i) = mpath cfg Inflight q (json_name i)"
    "build_queue_path cfg q (fc_inbox_dir cfg) (json_name i) = mpath cfg Ready q (json_name i)"
    "build_queue_path cfg q (fc_archive_dir cfg) (json_name i) = mpath cfg Archived q (json_name i)"
    "build_queue_path cfg q (fc_dlq_dir cfg) (json_name i) = mpath cfg Dlq q (json_name i)"
    "build_queue_path cfg q ''delayed'' (json_name i) = mpath cfg Delayed q (json_name i)"
    using key_state_path [OF assms(1) s c, of q] assms(2)
    by (simp_all add: mpath_def)
qed

text \<open>An acknowledgement by the holder before the lease ends archives the message and removes the
  lease.\<close>

lemma fs_ack_ok:
  assumes inv: "fs_inv L s" and nf: "no_faults s" and op: "fsa_is_open s"
    and q: "queue_ok (fsa_config s) q" and i: "id_ok i" and dirs: "queue_dirs (fsa_config s) q s"
    and key: "lt_message_key lease = msg_key q i"
    and lease: "stored_lease L s (msg_key q i) = Some m" "lm_queue m = q"
      "lm_consumer_id m = lt_consumer_id lease" "clock s (clock_n s) \<le> lm_lease_until_ms m"
    and view: "fs_view L s q i = Some (Inflight, b)"
  shows "\<exists>s'. fs_ack L lease s = (ok_res, s') \<and> fs_view L s' q i = Some (Archived, b) \<and>
    stored_lease L s' (msg_key q i) = None"
proof -
  let ?cfg = "fsa_config s" and ?key = "msg_key q i"
  have colon: "after_last_colon ?key = Some i" and slash: "CHR ''/'' \<notin> set ?key"
    using q i msg_key_last [of i q] by (auto simp: queue_ok_def plain_name_def id_ok_def)
  obtain s1 where s1: "read_lease_meta L ?key s = ((Some m, None), s1)" "fget s1 = fget s" "same_env s s1"
      "dirs s1 = dirs s" "clock_n s1 = clock_n s"
    using read_lease_meta_ok [OF nf lease(1)] by blast
  have c1: "clock s1 = clock s" using s1(3) by (simp add: same_env_def)
  obtain s2 where s2: "now_ms s1 = (clock s (clock_n s), s2)" "fget s2 = fget s1" "same_env s1 s2"
      "dirs s2 = dirs s1"
    using now_ms_run [of s1] s1(5) c1 by auto
  have env2: "same_env s s2" using s1(3) s2(3) by (rule same_env_trans)
  note cfg2 = same_env_fs [OF env2] and nf2 = no_faults_same [OF env2 nf]
  obtain c where c: "fget s (mpath ?cfg Inflight q (json_name i)) = Some c" "body_of L c = b"
    using view fm_view_Some [OF fs_invD(3) [OF inv] q i] by (auto simp: fs_view_def)
  obtain s3 where s3: "move_file (mpath ?cfg Inflight q (json_name i)) (mpath ?cfg Archived q (json_name i)) s2 = (ok_res, s3)"
      "fget s3 = (fget s2)(mpath ?cfg Inflight q (json_name i) := None, mpath ?cfg Archived q (json_name i) \<mapsto> c)"
      "same_env s2 s3" "dirs s3 = dirs s2"
    using move_message_ok [OF nf2, of ?cfg q Inflight i c Archived] dirs c s1 s2 queue_dirs_dirs [of s2 s]
    by auto
  have env3: "same_env s s3" using env2 s3(3) by (rule same_env_trans)
  note cfg3 = same_env_fs [OF env3] and nf3 = no_faults_same [OF env3 nf]
  obtain s4 where s4: "delete_lease_meta ?key s3 = (ok_res, s4)"
      "fget s4 = (fget s3)(lease_meta_path (fsa_config s3) ?key := None)" "same_env s3 s4"
    using delete_lease_ok [OF nf3] by blast
  have run: "fs_ack L lease s = (ok_res, s4)"
    using op key s1(1) s2(1) s3(1) s4(1) lease colon cfg2
      message_paths [OF fs_invD(2) [OF inv] q i]
    by (simp add: fs_ack_def Let_def)
  have inv4: "fs_inv L s4"
    using fs_ack_step [OF inv _ run] slash key fs_step_inv [OF inv] by auto
  have cfg4: "fsa_config s4 = ?cfg" using same_env_fs [OF s4(3)] cfg3 by simp
  have p: "lease_meta_path ?cfg ?key = lease_dir ?cfg @ [safe_key ?key @ ''.json'']"
    using lease_meta_path_eq [OF fs_invD(2) [OF inv] slash] .
  have "fget s4 (mpath ?cfg Archived q (json_name i)) = Some c"
    using s3(2) s4(2) cfg3 p mpath_not_lease [OF fs_invD(2) [OF inv], of Archived q "json_name i"]
    by auto
  then have "fs_view L s4 q i = Some (Archived, b)"
    using fm_view_Some [OF fs_invD(3) [OF inv4] _ i] q cfg4 c(2) by (simp add: fs_view_def)
  moreover have "stored_lease L s4 ?key = None"
    using s4(2) cfg4 cfg3 by (simp add: stored_lease_def)
  ultimately show ?thesis using run by blast
qed

section \<open>Recovery finds every expired lease\<close>

lemma path_not_lease:
  "fs_cfg_ok cfg \<Longrightarrow> butlast (b @ [state_dir cfg st, f]) \<noteq> lease_dir cfg"
  by (auto simp: lease_dir_def butlast_append)

lemma recover_one_frame:
  assumes cfg: "fs_cfg_ok (fsa_config s)" and i: "CHR ''/'' \<notin> set i"
    and run: "recover_one q i e n s = (n', s')"
  shows "same_env s s'" "dirs s' = dirs s"
    "p \<noteq> e \<Longrightarrow> butlast p = lease_dir (fsa_config s) \<Longrightarrow> fget s' p = fget s p"
proof -
  let ?b = "queue_base (fsa_config s) q"
  let ?proc = "?b @ [state_dir (fsa_config s) Inflight, json_name i]"
  let ?inbox = "?b @ [state_dir (fsa_config s) Ready, json_name i]"
  have pr: "build_queue_path (fsa_config s) q (fc_processing_dir (fsa_config s)) (json_name i) = ?proc"
    "build_queue_path (fsa_config s) q (fc_inbox_dir (fsa_config s)) (json_name i) = ?inbox"
    using build_queue_path_eq [OF plain_state_dir [OF cfg, of Inflight] plain_json_name [OF i]]
      build_queue_path_eq [OF plain_state_dir [OF cfg, of Ready] plain_json_name [OF i]] by simp_all
  obtain x s1 where mv: "os_rename ?proc ?inbox s = (x, s1)" by (metis prod.collapse)
  define s2 where "s2 = (if fexists s ?proc then s1 else s)"
  obtain y s3 where rm: "os_remove e s2 = (y, s3)" by (metis prod.collapse)
  have s': "s' = s3"
    using run mv rm by (auto simp: recover_one_def Let_def pr s2_def split: if_splits option.splits)
  have e2: "same_env s s2" "dirs s2 = dirs s"
    using os_rename_effect [OF mv] by (auto simp: s2_def)
  show "same_env s s'" "dirs s' = dirs s"
    using e2 os_remove_effect [OF rm] s' by (auto intro: same_env_trans)
  assume p: "p \<noteq> e" "butlast p = lease_dir (fsa_config s)"
  then have "p \<noteq> ?proc" "p \<noteq> ?inbox"
    using path_not_lease [OF cfg, of ?b Inflight "json_name i"]
      path_not_lease [OF cfg, of ?b Ready "json_name i"] by blast+
  then have "fget s2 p = fget s p"
    using os_rename_effect [OF mv] by (auto simp: s2_def fm_move_def split: option.splits)
  then show "fget s' p = fget s p"
    using os_remove_effect [OF rm] s' p(1) by auto
qed

lemma recover_one_moves:
  assumes inv: "fs_inv L s" and nf: "no_faults s" and q: "queue_ok (fsa_config s) q" and i: "id_ok i"
    and dirs: "queue_dirs (fsa_config s) q s" and e: "entry_of (lease_dir (fsa_config s)) e"
    and view: "fs_view L s q i = Some (Inflight, b)" and run: "recover_one q i e n s = (n', s')"
  shows "fs_view L s' q i = Some (Ready, b)"
proof -
  let ?cfg = "fsa_config s"
  note cfg = fs_invD(2) [OF inv] and p = message_paths [OF fs_invD(2) [OF inv] q i]
  have i': "CHR ''/'' \<notin> set i" using i by (simp add: id_ok_def)
  obtain c where c: "fget s (mpath ?cfg Inflight q (json_name i)) = Some c" "body_of L c = b"
    using view fm_view_Some [OF fs_invD(3) [OF inv] q i] by (auto simp: fs_view_def)
  have dst: "mpath ?cfg Ready q (json_name i) \<noteq> []" "is_dir s (butlast (mpath ?cfg Ready q (json_name i)))"
    "\<not> is_dir s (mpath ?cfg Ready q (json_name i))"
    using queue_dirsD [OF dirs] by simp_all
  obtain s1 where s1: "os_rename (mpath ?cfg Inflight q (json_name i)) (mpath ?cfg Ready q (json_name i)) s = (None, s1)"
    "fget s1 = (fget s)(mpath ?cfg Inflight q (json_name i) := None, mpath ?cfg Ready q (json_name i) \<mapsto> c)"
    "same_env s s1"
    using os_rename_ok [OF nf c(1) dst] by blast
  obtain y s2 where rm: "os_remove e s1 = (y, s2)" by (metis prod.collapse)
  have "fexists s (mpath ?cfg Inflight q (json_name i))"
    using c by (simp add: fexists_def is_file_def)
  then have s': "s' = s2" using run s1(1) rm by (simp add: recover_one_def Let_def p)
  have "mpath ?cfg Ready q (json_name i) \<noteq> e"
    using e mpath_not_lease [OF cfg] by (auto simp: entry_of_def)
  then have "fget s' (mpath ?cfg Ready q (json_name i)) = Some c"
    using os_remove_effect [OF rm] s1(2) s' by auto
  moreover have "fs_inv L s'" "fsa_config s' = ?cfg"
    using recover_one_step [OF inv i' e run] by (auto intro: fs_step_inv [OF inv] dest: fs_step_config)
  ultimately show ?thesis
    using fm_view_Some [OF fs_invD(3), of L s' q i Ready b] q i c(2) by (simp add: fs_view_def)
qed

lemma recover_keeps_ready:
  assumes "fs_step L (any_edges Inflight Ready) s s'" "fs_view L s q i = Some (Ready, b)"
    "queue_ok (fsa_config s) q" "id_ok i"
  shows "fs_view L s' q i = Some (Ready, b)"
  using fs_step_view [OF assms(1,3,4)] assms(2) by (auto simp: moves_def any_edges_def)

lemma recover_entries_ok:
  assumes "recover_entries L now es n s = (n', s')" "fs_inv L s" "no_faults s"
    "queue_ok (fsa_config s) q" "id_ok i" "queue_dirs (fsa_config s) q s"
    "\<forall>e \<in> set es. entry_of (lease_dir (fsa_config s)) e" "entry \<in> set es"
    "fget s entry = Some c" "expired_entry L now c = Inr (Some (msg_key q i, q))"
    "fs_view L s q i = Some (Inflight, b)"
  shows "fs_view L s' q i = Some (Ready, b)"
  using assms
proof (induction es arbitrary: n s)
  case (Cons e es)
  note inv = Cons.prems(2) and nf = Cons.prems(3) and q = Cons.prems(4) and i = Cons.prems(5)
  obtain x y s1 where rd: "read_file e s = ((x, y), s1)" by (metis prod.collapse)
  have s1: "fs_step L {} s s1" using step_read_file [OF inv rd] .
  note inv1 = fs_step_inv [OF inv s1] and cfg1 = fs_step_config [OF s1]
  note eff = read_file_effect [OF rd]
  have nf1: "no_faults s1" using eff nf no_faults_same by blast
  have dirs1: "queue_dirs (fsa_config s1) q s1" using eff Cons.prems(6) cfg1 queue_dirs_dirs [of s1 s] by simp
  have v1: "fs_view L s1 q i = Some (Inflight, b)" using fs_step_view [OF s1 q i] Cons.prems(11) by simp
  have e1: "\<forall>e' \<in> set es. entry_of (lease_dir (fsa_config s1)) e'" "entry_of (lease_dir (fsa_config s1)) e"
    using Cons.prems(7) cfg1 by simp_all
  have colon: "after_last_colon (msg_key q i) = Some i" "msg_key q i \<noteq> []" "q \<noteq> []"
    using i q msg_key_last [of i q] by (simp_all add: id_ok_def msg_key_def queue_ok_def plain_name_def)
  show ?case
  proof (cases "e = entry")
    case True
    then have x: "x = Some c" using rd Cons.prems(9) read_file_ok [OF nf, of e c] by auto
    obtain n2 s2 where one: "recover_one q i e n s1 = (n2, s2)" by (metis prod.collapse)
    have rest: "recover_entries L now es n2 s2 = (n', s')"
      using Cons.prems(1,10) rd x one colon by simp
    have q1: "queue_ok (fsa_config s1) q" using q cfg1 by simp
    have v2: "fs_view L s2 q i = Some (Ready, b)"
      using recover_one_moves [OF inv1 nf1 q1 i dirs1 e1(2) v1 one] .
    have i': "CHR ''/'' \<notin> set i" using i by (simp add: id_ok_def)
    have s2: "fs_step L (any_edges Inflight Ready) s1 s2" using recover_one_step [OF inv1 i' e1(2) one] .
    note inv2 = fs_step_inv [OF inv1 s2] and cfg2 = fs_step_config [OF s2]
    have "fs_step L (any_edges Inflight Ready) s2 s'"
      using recover_entries_step [OF rest inv2] e1(1) cfg2 by simp
    then show ?thesis using recover_keeps_ready [OF _ v2 _ i] q1 cfg2 by simp
  next
    case False
    then have mem: "entry \<in> set es" using Cons.prems(8) by simp
    have keep: "fget s1 entry = Some c" using eff Cons.prems(9) by simp
    show ?thesis
    proof (cases "\<exists>content key queue k. x = Some content \<and>
        expired_entry L now content = Inr (Some (key, queue)) \<and> key \<noteq> [] \<and> queue \<noteq> [] \<and>
        after_last_colon key = Some k")
      case no: False
      then have "recover_entries L now es n s1 = (n', s')"
        using Cons.prems(1) rd by (auto split: option.splits sum.splits if_splits)
      then show ?thesis
        using Cons.IH [OF _ inv1 nf1 _ i dirs1 e1(1) mem keep Cons.prems(10) v1] q cfg1 by simp
    next
      case True
      then obtain content key queue k where ck: "x = Some content"
        "expired_entry L now content = Inr (Some (key, queue))" "key \<noteq> []" "queue \<noteq> []"
        "after_last_colon key = Some k" by blast
      obtain n2 s2 where one: "recover_one queue k e n s1 = (n2, s2)" by (metis prod.collapse)
      have rest: "recover_entries L now es n2 s2 = (n', s')" using Cons.prems(1) rd ck one by simp
      have "fget s e = Some content" using eff ck by auto
      then have "good_lease L content"
        using fs_invD(3) [OF inv] Cons.prems(7) by (auto simp: entry_of_def intro: fm_leasesD)
      then have k: "CHR ''/'' \<notin> set k"
        using expired_entry_key ck(2) after_last_colon_subset [OF ck(5)] by blast
      have s2: "fs_step L (any_edges Inflight Ready) s1 s2" using recover_one_step [OF inv1 k e1(2) one] .
      note inv2 = fs_step_inv [OF inv1 s2] and cfg2 = fs_step_config [OF s2]
      note frame = recover_one_frame [OF fs_invD(2) [OF inv1] k one]
      have b_entry: "butlast entry = lease_dir (fsa_config s1)"
        using e1(1) mem by (auto simp: entry_of_def)
      have keep2: "fget s2 entry = Some c" using frame(3) [of entry] False b_entry keep by simp
      have dirs2: "queue_dirs (fsa_config s2) q s2"
        using dirs1 cfg2 frame(2) queue_dirs_dirs [of s2 s1] by simp
      have e2: "\<forall>e' \<in> set es. entry_of (lease_dir (fsa_config s2)) e'" using e1(1) cfg2 by simp
      have q2: "queue_ok (fsa_config s2) q" using q cfg1 cfg2 by simp
      have step_rest: "fs_step L (any_edges Inflight Ready) s2 s'"
        using recover_entries_step [OF rest inv2] e1(1) cfg2 by simp
      have q1: "queue_ok (fsa_config s1) q" using q cfg1 by simp
      from fs_step_view [OF s2 q1 i] v1
      consider "fs_view L s2 q i = Some (Inflight, b)" | "fs_view L s2 q i = Some (Ready, b)"
        by (auto simp: moves_def any_edges_def)
      then show ?thesis
      proof cases
        case 1
        then show ?thesis
          using Cons.IH [OF rest inv2 no_faults_same [OF frame(1) nf1] q2 i dirs2 e2 mem keep2 Cons.prems(10)]
          by simp
      next
        case 2
        show ?thesis using recover_keeps_ready [OF step_rest 2 q2 i] .
      qed
    qed
  qed
qed simp

lemma os_list_files_ok:
  "no_faults s \<Longrightarrow> fget s p = Some c \<Longrightarrow> entry_of d p \<Longrightarrow> p \<in> set (fst (os_list_files d s))"
  by (auto simp: os_list_files_def os_io_def no_faults_def fget_def Let_def
      intro: rev_image_eqI dest!: map_of_SomeD)

lemma fs_recover_ok:
  assumes inv: "fs_inv L s" and nf: "no_faults s" and op: "fsa_is_open s"
    and q: "queue_ok (fsa_config s) q" and i: "id_ok i" and dirs: "queue_dirs (fsa_config s) q s"
    and ld: "is_dir s (lease_dir (fsa_config s))"
    and lease: "fget s (lease_meta_path (fsa_config s) (msg_key q i)) = Some c"
      "expired_entry L (clock s (clock_n s)) c = Inr (Some (msg_key q i, q))"
    and view: "fs_view L s q i = Some (Inflight, b)"
    and run: "fs_recover_expired_leases L s = (r, s')"
  shows "fs_view L s' q i = Some (Ready, b)"
proof -
  let ?cfg = "fsa_config s" and ?key = "msg_key q i"
  have slash: "CHR ''/'' \<notin> set ?key" using q i by (auto simp: queue_ok_def plain_name_def id_ok_def)
  note p = lease_meta_path_eq [OF fs_invD(2) [OF inv] slash]
  have entry: "entry_of (lease_dir ?cfg) (lease_meta_path ?cfg ?key)"
    using slash plain_json_name [of "safe_key ?key"] by (simp add: entry_of_def p json_name_def)
  obtain s1 where s1: "now_ms s = (clock s (clock_n s), s1)" "fget s1 = fget s" "same_env s s1" "dirs s1 = dirs s"
    using now_ms_run by blast
  obtain es s2 where l: "os_list_files (build_meta_path (fsa_config s1) ''leases'') s1 = (es, s2)"
    by (metis prod.collapse)
  note cfg1 = same_env_fs [OF s1(3)] and eff = os_list_files_effect [OF l]
  have env2: "same_env s s2" using s1(3) eff by (auto intro: same_env_trans)
  note cfg2 = same_env_fs [OF env2] and nf2 = no_faults_same [OF env2 nf]
  have ldir: "build_meta_path (fsa_config s1) ''leases'' = lease_dir ?cfg"
    using lease_dir_eq [OF fs_invD(2) [OF inv]] cfg1 by simp
  have mem: "lease_meta_path ?cfg ?key \<in> set es"
    using os_list_files_ok [OF no_faults_same [OF s1(3) nf], of "lease_meta_path ?cfg ?key" c] lease(1) s1(2) entry l ldir
    by (metis fst_conv)
  obtain n s3 where rec: "recover_entries L (clock s (clock_n s)) es 0 s2 = (n, s3)" by (metis prod.collapse)
  have "fexists s1 (lease_dir ?cfg)" using ld is_dir_dirs [OF s1(4)] by (simp add: fexists_def)
  then have s': "s' = s3"
    using run op s1(1) l rec by (simp add: fs_recover_expired_leases_def Let_def ldir)
  have step2: "fs_step L {} s s2" using inv env2 eff s1 by (simp add: fs_step_same)
  have v2: "fs_view L s2 q i = Some (Inflight, b)" using fs_step_view [OF step2 q i] view by simp
  have d2: "queue_dirs (fsa_config s2) q s2"
    using dirs cfg2 eff s1(4) queue_dirs_dirs [of s2 s] by simp
  have e2: "\<forall>e \<in> set es. entry_of (lease_dir (fsa_config s2)) e" using eff ldir cfg2 by simp
  show ?thesis unfolding s'
  proof (rule recover_entries_ok [OF rec fs_step_inv [OF inv step2] nf2 _ i d2 e2 mem _ lease(2) v2])
    show "queue_ok (fsa_config s2) q" using q cfg2 by simp
    show "fget s2 (lease_meta_path ?cfg ?key) = Some c" using lease(1) eff s1(2) by simp
  qed
qed

section \<open>The delay sweep finds every due message\<close>

text \<open>What the sweep reads in a delayed message file.\<close>

definition due_at :: "json_lib \<Rightarrow> int \<Rightarrow> string \<Rightarrow> bool" where
  "due_at L now c \<longleftrightarrow>
     (\<exists>j a. json_parse L c = Inr j \<and> jvalue (get_i64 L) j ''availableAt'' 0 = Inr a \<and> a \<le> now)"

lemma foreign_neq:
  "foreign cfg p \<Longrightarrow> queue_ok cfg q \<Longrightarrow> has_json_ext f \<Longrightarrow> mpath cfg st q f \<noteq> p"
  by (auto simp: foreign_def)

lemma process_one_frame:
  assumes cfg: "fs_cfg_ok (fsa_config s)" and g: "plain_name g"
    and f: "f = queue_base (fsa_config s) q' @ [state_dir (fsa_config s) Delayed, g]"
    and run: "process_one q' f j n s = (n', s')"
  shows "same_env s s'" "dirs s' = dirs s"
    "queue_ok (fsa_config s) q \<Longrightarrow> has_json_ext h \<Longrightarrow> mpath (fsa_config s) Delayed q h \<noteq> f \<Longrightarrow>
       fget s' (mpath (fsa_config s) Delayed q h) = fget s (mpath (fsa_config s) Delayed q h)"
proof -
  let ?inbox = "queue_base (fsa_config s) q' @ [state_dir (fsa_config s) Ready, g]"
  have p: "build_queue_path (fsa_config s) q' (fc_inbox_dir (fsa_config s)) (last f) = ?inbox"
    using build_queue_path_eq [OF plain_state_dir [OF cfg, of Ready] g] f by simp
  obtain x s1 where mv: "os_rename f ?inbox s = (x, s1)" by (metis prod.collapse)
  note e1 = os_rename_effect [OF mv]
  consider "s' = s1" | key where "s' = snd (delete_delayed_meta key s1)"
    using run mv by (auto simp: process_one_def Let_def p split: option.splits sum.splits if_splits)
  then have *: "same_env s1 s' \<and> dirs s' = dirs s1 \<and>
    (\<forall>p. \<not> foreign (fsa_config s) p \<longrightarrow> fget s' p = fget s1 p)"
  proof cases
    case (2 key)
    obtain y s2 where d: "delete_delayed_meta key s1 = (y, s2)" by (metis prod.collapse)
    have "fsa_config s1 = fsa_config s" using e1 same_env_fs by blast
    then show ?thesis
      using 2 d fs_foreign_delayed(1) [OF cfg, of key]
        delete_file_effect [OF d [unfolded delete_delayed_meta_def]] by auto
  qed auto
  show "same_env s s'" "dirs s' = dirs s" using * e1 by (auto intro: same_env_trans)
  assume h: "queue_ok (fsa_config s) q" "has_json_ext h" "mpath (fsa_config s) Delayed q h \<noteq> f"
  let ?p = "mpath (fsa_config s) Delayed q h"
  have "\<not> foreign (fsa_config s) ?p" using h(1,2) by (auto simp: foreign_def)
  moreover have "?p \<noteq> ?inbox"
    using state_dir_inj [OF cfg, of Delayed Ready] by (auto simp: mpath_def)
  then have "fget s1 ?p = fget s ?p"
    using e1 h(3) by (auto simp: fm_move_def split: option.splits)
  ultimately show "fget s' ?p = fget s ?p" using * by simp
qed

lemma process_one_moves:
  assumes inv: "fs_inv L s" and nf: "no_faults s" and q: "queue_ok (fsa_config s) q" and i: "id_ok i"
    and dirs: "queue_dirs (fsa_config s) q s" and view: "fs_view L s q i = Some (Delayed, b)"
    and run: "process_one q (mpath (fsa_config s) Delayed q (json_name i)) j n s = (n', s')"
  shows "fs_view L s' q i = Some (Ready, b)"
proof -
  let ?cfg = "fsa_config s" and ?f = "mpath (fsa_config s) Delayed q (json_name i)"
  have g: "plain_name (json_name i)" using i by (auto simp: id_ok_def intro: plain_json_name)
  have fq: "?f = queue_base ?cfg q @ [state_dir ?cfg Delayed, json_name i]" using q by (simp add: mpath_def)
  obtain c where c: "fget s ?f = Some c" "body_of L c = b"
    using view fm_view_Some [OF fs_invD(3) [OF inv] q i] by (auto simp: fs_view_def)
  let ?r = "mpath ?cfg Ready q (json_name i)"
  obtain s1 where s1: "os_rename ?f ?r s = (None, s1)" "fget s1 = (fget s)(?f := None, ?r \<mapsto> c)" "same_env s s1"
    using os_rename_ok [OF nf c(1)] queue_dirsD [OF dirs] by blast
  have p: "build_queue_path ?cfg q (fc_inbox_dir ?cfg) (last ?f) = ?r"
    using message_paths(2) [OF fs_invD(2) [OF inv] q i] by (simp add: mpath_def)
  have "s' = s1 \<or> (\<exists>key. s' = snd (delete_delayed_meta key s1))"
    using run s1(1) by (auto simp: process_one_def Let_def p split: sum.splits if_splits)
  then have "fget s' ?r = fget s1 ?r"
  proof
    assume "\<exists>key. s' = snd (delete_delayed_meta key s1)"
    then obtain key where k: "s' = snd (delete_delayed_meta key s1)" by blast
    obtain y s2 where d: "delete_file (delayed_meta_path (fsa_config s1) key) s1 = (y, s2)"
      by (metis prod.collapse)
    have "fsa_config s1 = ?cfg" using same_env_fs [OF s1(3)] by simp
    then have "?r \<noteq> delayed_meta_path (fsa_config s1) key"
      using fs_foreign_delayed(1) [OF fs_invD(2) [OF inv], of key] i
      by (intro foreign_neq [OF _ q]) (simp_all add: id_ok_def)
    then show ?thesis
      using k d delete_file_effect [OF d] by (simp add: delete_delayed_meta_def)
  qed simp
  then have "fget s' ?r = Some c" using s1(2) by simp
  moreover have "fs_inv L s'" "fsa_config s' = ?cfg"
    using process_one_step [OF inv fq g run]
    by (auto intro: fs_step_inv [OF inv] dest: fs_step_config)
  ultimately show ?thesis
    using fm_view_Some [OF fs_invD(3), of L s' q i Ready b] q i c(2) by (simp add: fs_view_def)
qed

lemma sweep_keeps_ready:
  assumes "fs_step L (any_edges Delayed Ready) s s'" "fs_view L s q i = Some (Ready, b)"
    "queue_ok (fsa_config s) q" "id_ok i"
  shows "fs_view L s' q i = Some (Ready, b)"
  using fs_step_view [OF assms(1,3,4)] assms(2) by (auto simp: moves_def any_edges_def)

text \<open>The state of a message waiting to be found.\<close>

definition waiting :: "json_lib \<Rightarrow> int \<Rightarrow> fs_adapter \<Rightarrow> string \<Rightarrow> string \<Rightarrow> message option \<Rightarrow> bool" where
  "waiting L now s q i b \<longleftrightarrow>
     fs_inv L s \<and> no_faults s \<and> queue_ok (fsa_config s) q \<and> id_ok i \<and> queue_dirs (fsa_config s) q s \<and>
     fs_view L s q i = Some (Delayed, b) \<and>
     (\<exists>c. fget s (mpath (fsa_config s) Delayed q (json_name i)) = Some c \<and> due_at L now c)"

lemma waiting_same:
  "waiting L now s q i b \<Longrightarrow> same_env s s' \<Longrightarrow> fget s' = fget s \<Longrightarrow> dirs s' = dirs s \<Longrightarrow>
     waiting L now s' q i b"
  using same_env_fs [of s s'] no_faults_same [of s s'] queue_dirs_dirs [of s' s]
  by (simp add: waiting_def fs_inv_def fs_view_def)

lemma process_one_waiting:
  assumes w: "waiting L now s q i b" and g: "plain_name g"
    and f: "f = queue_base (fsa_config s) q' @ [state_dir (fsa_config s) Delayed, g]"
    and run: "process_one q' f j n s = (n', s')"
    and other: "f \<noteq> mpath (fsa_config s) Delayed q (json_name i)"
  shows "waiting L now s' q i b"
proof -
  let ?f = "mpath (fsa_config s) Delayed q (json_name i)"
  note w' = w [unfolded waiting_def]
  have inv: "fs_inv L s" and q: "queue_ok (fsa_config s) q" and i: "id_ok i" using w' by blast+
  note frame = process_one_frame [OF fs_invD(2) [OF inv] g f run]
  have keep: "fget s' ?f = fget s ?f" using other i q by (intro frame(3)) (auto simp: id_ok_def)
  have step: "fs_step L (any_edges Delayed Ready) s s'" using process_one_step [OF inv f g run] .
  note inv' = fs_step_inv [OF inv step] and cfg' = fs_step_config [OF step]
  have "fs_view L s' q i = fs_view L s q i"
  proof -
    obtain c where "fget s ?f = Some c" "body_of L c = b"
      using w' fm_view_Some [OF fs_invD(3) [OF inv] q i] by (auto simp: fs_view_def)
    with keep have "fs_view L s' q i = Some (Delayed, b)"
      using fm_view_Some [OF fs_invD(3) [OF inv'] _ i] q cfg' by (auto simp: fs_view_def)
    then show ?thesis using w' by simp
  qed
  then show ?thesis
    using w' keep inv' cfg' no_faults_same [OF frame(1)] queue_dirs_dirs [OF frame(2)]
    by (simp add: waiting_def)
qed

lemma process_files_cases:
  assumes "process_files L now q (f # fs) n s = (n', s')" "read_file f s = ((c, e), s1)"
  shows "process_files L now q fs n s1 = (n', s') \<and>
      (\<forall>content. c = Some content \<longrightarrow> \<not> due_at L now content) \<or>
    (\<exists>j n2 s2. process_one q f j n s1 = (n2, s2) \<and> process_files L now q fs n2 s2 = (n', s'))"
  using assms
  by (auto simp: due_at_def ebind_def split: option.splits sum.splits if_splits prod.splits)

lemma process_files_other:
  assumes "process_files L now q' fs n s = (n', s')" "waiting L now s q i b" "q' \<noteq> q"
    "plain_name q'"
    "\<forall>f \<in> set fs. f = queue_base (fsa_config s) q' @ [state_dir (fsa_config s) Delayed, last f] \<and>
        plain_name (last f)"
  shows "waiting L now s' q i b"
  using assms
proof (induction fs arbitrary: n s)
  case (Cons f fs)
  obtain c e s1 where rd: "read_file f s = ((c, e), s1)" by (metis prod.collapse)
  note eff = read_file_effect [OF rd]
  have cfg1: "fsa_config s1 = fsa_config s" using eff same_env_fs by blast
  have w1: "waiting L now s1 q i b" using waiting_same [OF Cons.prems(2)] eff by blast
  note f1 = Cons.prems(5) [folded cfg1]
  from process_files_cases [OF Cons.prems(1) rd] show ?case
  proof (elim disjE conjE exE)
    assume "process_files L now q' fs n s1 = (n', s')"
    then show ?thesis using Cons.IH [OF _ w1 Cons.prems(3,4)] f1 by simp
  next
    fix j n2 s2 assume one: "process_one q' f j n s1 = (n2, s2)"
      and rest: "process_files L now q' fs n2 s2 = (n', s')"
    have inv1: "fs_inv L s1" and q: "queue_ok (fsa_config s1) q"
      using w1 by (simp_all add: waiting_def)
    obtain g where g: "plain_name g" "f = queue_base (fsa_config s1) q' @ [state_dir (fsa_config s1) Delayed, g]"
      using f1 by (metis list.set_intros(1))
    have "f \<noteq> mpath (fsa_config s1) Delayed q (json_name i)"
      using g Cons.prems(3,4) by (simp add: mpath_def queue_base_def)
    then have w2: "waiting L now s2 q i b" using process_one_waiting [OF w1 g one] by simp
    have "fsa_config s2 = fsa_config s1"
      using process_one_step [OF inv1 g(2,1) one] by (rule fs_step_config)
    then show ?thesis using Cons.IH [OF rest w2 Cons.prems(3,4)] f1 by simp
  qed
qed simp

lemma process_files_ok:
  assumes "process_files L now q fs n s = (n', s')" "waiting L now s q i b"
    "mpath (fsa_config s) Delayed q (json_name i) \<in> set fs"
    "\<forall>f \<in> set fs. f = queue_base (fsa_config s) q @ [state_dir (fsa_config s) Delayed, last f] \<and>
        plain_name (last f)"
  shows "fs_view L s' q i = Some (Ready, b)"
  using assms
proof (induction fs arbitrary: n s)
  case (Cons f fs)
  obtain c e s1 where rd: "read_file f s = ((c, e), s1)" by (metis prod.collapse)
  note eff = read_file_effect [OF rd]
  have cfg1: "fsa_config s1 = fsa_config s" using eff same_env_fs by blast
  have w1: "waiting L now s1 q i b" using waiting_same [OF Cons.prems(2)] eff by blast
  have inv1: "fs_inv L s1" and nf1: "no_faults s1" and q: "queue_ok (fsa_config s1) q" and i: "id_ok i"
    using w1 by (simp_all add: waiting_def)
  note f1 = Cons.prems(4) [folded cfg1]
  let ?f = "mpath (fsa_config s1) Delayed q (json_name i)"
  obtain g where g: "plain_name g" "f = queue_base (fsa_config s1) q @ [state_dir (fsa_config s1) Delayed, g]"
    using f1 by (metis list.set_intros(1))
  show ?case
  proof (cases "f = ?f")
    case True
    obtain c0 where c0: "fget s f = Some c0" "due_at L now c0"
      using Cons.prems(2) True cfg1 by (auto simp: waiting_def)
    have "c = Some c0" using read_file_ok [OF _ c0(1)] rd Cons.prems(2) by (auto simp: waiting_def)
    with process_files_cases [OF Cons.prems(1) rd] c0(2)
    obtain j n2 s2 where one: "process_one q f j n s1 = (n2, s2)"
      and rest: "process_files L now q fs n2 s2 = (n', s')" by blast
    have step: "fs_step L (any_edges Delayed Ready) s1 s2" using process_one_step [OF inv1 g(2,1) one] .
    note inv2 = fs_step_inv [OF inv1 step] and cfg2 = fs_step_config [OF step]
    have "fs_view L s2 q i = Some (Ready, b)"
      using process_one_moves [OF inv1 nf1 q i _ _ one [unfolded True]] w1 by (simp add: waiting_def)
    moreover have "fs_step L (any_edges Delayed Ready) s2 s'"
      using process_files_step [OF rest inv2] f1 cfg2 by simp
    ultimately show ?thesis using sweep_keeps_ready q cfg2 i by auto
  next
    case False
    then have mem: "?f \<in> set fs" using Cons.prems(3) cfg1 by simp
    from process_files_cases [OF Cons.prems(1) rd] show ?thesis
    proof (elim disjE conjE exE)
      assume "process_files L now q fs n s1 = (n', s')"
      then show ?thesis using Cons.IH [OF _ w1 mem] f1 by simp
    next
      fix j n2 s2 assume one: "process_one q f j n s1 = (n2, s2)"
        and rest: "process_files L now q fs n2 s2 = (n', s')"
      have w2: "waiting L now s2 q i b" using process_one_waiting [OF w1 g one False] .
      have cfg2: "fsa_config s2 = fsa_config s1"
        using process_one_step [OF inv1 g(2,1) one] by (rule fs_step_config)
      show ?thesis using Cons.IH [OF rest w2] mem f1 cfg2 by simp
    qed
  qed
qed simp

lemma list_json_files_ok:
  assumes "no_faults s" "fget s p = Some c" "entry_of d p" "has_json_ext (last p)" "is_dir s d"
    "list_json_files d s = (ps, s')"
  shows "p \<in> set ps"
  using os_list_files_ok [OF assms(1-3)] assms(4-6)
  by (auto simp: list_json_files_def fexists_def split: prod.splits)

lemma process_queues_ok:
  assumes "process_queues L now ds n s = (n', s')" "waiting L now s q i b"
    "\<forall>d \<in> set ds. plain_name (last d)" "\<exists>d \<in> set ds. last d = q"
  shows "fs_view L s' q i = Some (Ready, b)"
  using assms
proof (induction ds arbitrary: n s)
  case (Cons d ds)
  let ?cfg = "fsa_config s" and ?q = "last d"
  let ?dd = "build_queue_path ?cfg ?q ''delayed'' []"
  note w = Cons.prems(2)
  have inv: "fs_inv L s" and nf: "no_faults s" and q: "queue_ok ?cfg q" and i: "id_ok i"
    and dirs: "queue_dirs ?cfg q s" using w by (simp_all add: waiting_def)
  obtain fs s1 where l: "list_json_files ?dd s = (fs, s1)" by (metis prod.collapse)
  obtain n2 s2 where p: "process_files L now ?q fs n s1 = (n2, s2)" by (metis prod.collapse)
  note eff = list_json_files_effect [OF l]
  have cfg1: "fsa_config s1 = ?cfg" using eff same_env_fs by blast
  have w1: "waiting L now s1 q i b" using waiting_same [OF w] eff by blast
  have inv1: "fs_inv L s1" using w1 by (simp add: waiting_def)
  have f1: "\<forall>f \<in> set fs. f = queue_base (fsa_config s1) ?q @ [state_dir (fsa_config s1) Delayed, last f] \<and>
      plain_name (last f)"
    using entry_path [OF l] cfg1 by simp
  have cfg2: "fsa_config s2 = fsa_config s1"
    using process_files_step [OF p inv1 f1] by (rule fs_step_config)
  have ds: "\<forall>d \<in> set ds. plain_name (last d)" using Cons.prems(3) by simp
  show ?case
  proof (cases "?q = q")
    case True
    have dd: "?dd = root_path ?cfg @ [q, state_dir ?cfg Delayed]"
      using build_queue_dir_eq [of "''delayed''" ?cfg q] q True by simp
    obtain c where c: "fget s (mpath ?cfg Delayed q (json_name i)) = Some c"
      using w by (auto simp: waiting_def)
    have isd: "is_dir s ?dd" using dirs by (simp add: queue_dirs_def dd del: state_dir.simps)
    have run: "process_queues L now ds n2 s2 = (n', s')"
      using Cons.prems(1) l p isd q True by (simp add: Let_def fexists_def queue_ok_def)
    have "mpath ?cfg Delayed q (json_name i) \<in> set fs"
      using list_json_files_ok [OF nf c _ _ isd l] i plain_json_name [of i]
      by (simp add: entry_of_def mpath_def dd id_ok_def butlast_append)
    then have "fs_view L s2 q i = Some (Ready, b)"
      using process_files_ok [OF p [unfolded True] w1] f1 cfg1 True by simp
    moreover have "fs_step L (any_edges Delayed Ready) s2 s'"
      using process_queues_step [OF run] process_files_step [OF p inv1 f1] fs_step_inv [OF inv1] by blast
    ultimately show ?thesis using sweep_keeps_ready q cfg1 cfg2 i by auto
  next
    case False
    then have mem: "\<exists>d \<in> set ds. last d = q" using Cons.prems(4) by auto
    show ?thesis
    proof (cases "?q = fc_meta_dir ?cfg \<or> \<not> fexists s ?dd")
      case True
      then have "process_queues L now ds n s = (n', s')"
        using Cons.prems(1) by (auto simp: Let_def split: if_splits)
      then show ?thesis using Cons.IH [OF _ w ds mem] by simp
    next
      case skip: False
      then have run: "process_queues L now ds n2 s2 = (n', s')"
        using Cons.prems(1) l p by (simp add: Let_def)
      have "waiting L now s2 q i b"
        using process_files_other [OF p w1 False] Cons.prems(3) f1 by simp
      then show ?thesis using Cons.IH [OF run _ ds mem] by simp
    qed
  qed
qed simp

lemma fs_process_delayed_ok:
  assumes op: "fsa_is_open s" and w: "waiting L (clock s (clock_n s)) s q i b"
    and d: "root_path (fsa_config s) @ [q] \<in> set (dirs s)"
    and run: "fs_process_delayed_messages L s = (r, s')"
  shows "fs_view L s' q i = Some (Ready, b)"
proof -
  let ?cfg = "fsa_config s"
  obtain s1 where s1: "now_ms s = (clock s (clock_n s), s1)" "fget s1 = fget s" "same_env s s1" "dirs s1 = dirs s"
    using now_ms_run by blast
  note cfg1 = same_env_fs [OF s1(3)]
  obtain ds s2 where l: "os_list_dirs (to_path (fc_root (fsa_config s1))) s1 = (ds, s2)"
    by (metis prod.collapse)
  obtain k s3 where p: "process_queues L (clock s (clock_n s)) ds 0 s2 = (k, s3)" by (metis prod.collapse)
  have s': "s' = s3"
    using run op s1(1) l p by (simp add: fs_process_delayed_messages_def Let_def)
  note eff = os_list_dirs_effect [OF l]
  have w2: "waiting L (clock s (clock_n s)) s2 q i b"
    using waiting_same [OF waiting_same [OF w s1(3,2,4)]] eff by blast
  have q: "plain_name q" using w by (simp add: waiting_def queue_ok_def)
  have "root_path ?cfg @ [q] \<in> set ds"
    using l d cfg1 s1(4) q w no_faults_same [OF s1(3)]
    by (auto simp: os_list_dirs_def os_io_def no_faults_def waiting_def root_path_def entry_of_def Let_def)
  then have "\<exists>d \<in> set ds. last d = q" by force
  moreover have "\<forall>d \<in> set ds. plain_name (last d)" using eff by (auto simp: entry_of_def)
  ultimately show ?thesis unfolding s' by (intro process_queues_ok [OF p w2])
qed

end
