(* ===== verification/Generator.thy ===== *)
theory Generator
  imports OS_World Backend_Contract
begin

text \<open>
  \<open>CommonLibrary/Utilities/Generator.cpp\<close>: the text of a GUID, five 16-bit draws in upper case
  hexadecimal. The random draws are an argument; the first draw is not used, as in the code.
\<close>

definition hex_digits :: string where
  "hex_digits = ''0123456789ABCDEF''"

definition hex_digit :: "nat \<Rightarrow> char" where
  "hex_digit n = hex_digits ! (n mod 16)"

text \<open>\<open>{:04X}\<close> of a 16-bit value.\<close>

definition hex4 :: "16 word \<Rightarrow> string" where
  "hex4 w = (let n = unat w
     in [hex_digit (n div 4096), hex_digit (n div 256), hex_digit (n div 16), hex_digit n])"

definition guid :: "(nat \<Rightarrow> 16 word) \<Rightarrow> string" where
  "guid draw =
     hex4 (draw 1) @ CHR ''-'' # hex4 (draw 2) @ CHR ''-'' # hex4 (draw 3) @ CHR ''-'' #
     hex4 (draw 4) @ CHR ''-'' # hex4 (draw 5)"

lemma hex_digit_mem: "hex_digit n \<in> set hex_digits"
  unfolding hex_digit_def by (rule nth_mem) (simp add: hex_digits_def)

lemma set_hex4: "set (hex4 w) \<subseteq> set hex_digits"
  by (simp add: hex4_def Let_def hex_digit_mem)

lemma set_guid: "set (guid draw) \<subseteq> insert (CHR ''-'') (set hex_digits)"
  using set_hex4 by (auto simp: guid_def)

lemma length_guid: "length (guid draw) = 24"
  by (simp add: guid_def hex4_def Let_def)

lemma id_ok_guid: "id_ok (guid draw)"
proof -
  have "CHR ''/'' \<notin> set (guid draw)" "CHR '':'' \<notin> set (guid draw)"
    using set_guid [of draw] by (auto simp: hex_digits_def)
  moreover have "guid draw \<noteq> []" using length_guid [of draw] by auto
  ultimately show ?thesis by (simp add: id_ok_def)
qed

text \<open>Every identifier the world hands out is such a text.\<close>

definition guid_source :: "'a world_scheme \<Rightarrow> bool" where
  "guid_source w \<longleftrightarrow> (\<forall>n. \<exists>draw. guids w n = guid draw)"

lemma guid_source_id: "guid_source w \<Longrightarrow> fresh_guid w = (i, w') \<Longrightarrow> id_ok i"
  by (metis fresh_guid_def guid_source_def id_ok_guid prod.inject)

text \<open>Different draws of one position give different texts: the text keeps every bit that is printed.\<close>

lemma hex_digit_inj: "m < 16 \<Longrightarrow> n < 16 \<Longrightarrow> hex_digit m = hex_digit n \<longleftrightarrow> m = n"
proof -
  assume "m < 16" "n < 16"
  moreover have "distinct hex_digits" "length hex_digits = 16" by (simp_all add: hex_digits_def)
  ultimately show ?thesis
    using nth_eq_iff_index_eq [of hex_digits m n] by (simp add: hex_digit_def)
qed

lemma four_digits:
  fixes m :: nat
  assumes "m < 65536"
  shows "m = 4096 * (m div 4096 mod 16) + 256 * (m div 256 mod 16) + 16 * (m div 16 mod 16) + m mod 16"
proof -
  define a b c where "a = m div 16" and "b = a div 16" and "c = b div 16"
  have d: "m div 16 = a" "m div 256 = b" "m div 4096 = c"
    by (simp_all add: a_def b_def c_def div_mult2_eq [symmetric])
  have "c < 16" using assms d(3) by auto
  then have c: "c mod 16 = c" by simp
  have "m = a * 16 + m mod 16" "a = b * 16 + a mod 16" "b = c * 16 + b mod 16"
    by (simp_all only: a_def b_def c_def div_mult_mod_eq)
  then obtain x y z where e: "m = a * 16 + x" "x = m mod 16" "a = b * 16 + y" "y = a mod 16"
    "b = c * 16 + z" "z = b mod 16" by blast
  have "m = 4096 * c + 256 * z + 16 * y + x" using e(1,3,5) by linarith
  then show ?thesis by (simp only: d c e(2,4,6))
qed

lemma hex4_inj: "hex4 v = hex4 w \<Longrightarrow> v = w"
proof -
  assume eq: "hex4 v = hex4 w"
  let ?m = "unat v" and ?n = "unat w"
  have bound: "?m < 65536" "?n < 65536" using unsigned_less [of v] unsigned_less [of w] by simp_all
  have mod: "hex_digit k = hex_digit (k mod 16)" for k by (simp add: hex_digit_def)
  from eq have "hex_digit (?m div 4096) = hex_digit (?n div 4096)" "hex_digit (?m div 256) = hex_digit (?n div 256)"
    "hex_digit (?m div 16) = hex_digit (?n div 16)" "hex_digit ?m = hex_digit ?n"
    by (simp_all add: hex4_def Let_def)
  then have "?m div 4096 mod 16 = ?n div 4096 mod 16" "?m div 256 mod 16 = ?n div 256 mod 16"
    "?m div 16 mod 16 = ?n div 16 mod 16" "?m mod 16 = ?n mod 16"
    using hex_digit_inj mod by (metis mod_less_divisor zero_less_numeral)+
  then have "?m = ?n" using four_digits [OF bound(1)] four_digits [OF bound(2)] by simp
  then have "of_nat ?m = (of_nat ?n :: 16 word)" by simp
  then show "v = w" by simp
qed

text \<open>A GUID has 24 characters, all of them upper case hexadecimal digits or the separator: it is
  a message identifier that neither cuts a key nor leaves its directory, and two GUIDs are equal only
  when all five draws are.\<close>

theorem guid_identifies:
  "id_ok (guid draw) \<and> length (guid draw) = 24 \<and>
   (guid draw = guid draw' \<longleftrightarrow> list_all (\<lambda>k. draw k = draw' k) [1, 2, 3, 4, 5])"
proof -
  have "guid draw = guid draw' \<Longrightarrow> list_all (\<lambda>k. draw k = draw' k) [1, 2, 3, 4, 5]"
  proof -
    assume "guid draw = guid draw'"
    then have "hex4 (draw 1) = hex4 (draw' 1) \<and> hex4 (draw 2) = hex4 (draw' 2) \<and>
        hex4 (draw 3) = hex4 (draw' 3) \<and> hex4 (draw 4) = hex4 (draw' 4) \<and> hex4 (draw 5) = hex4 (draw' 5)"
      by (simp add: guid_def hex4_def Let_def)
    then show ?thesis by (auto dest: hex4_inj)
  qed
  then show ?thesis using id_ok_guid length_guid by (auto simp: guid_def)
qed

end
