(* ===== verification/Doubles.thy ===== *)
theory Doubles
  imports Complex_Main
begin

text \<open>
  IEEE double precision numbers as rationals, for the few places where the program computes with
  \<open>double\<close>: rounding to a 53-bit significand with ties to even (exponents are not bounded: overflow is
  treated where it can occur), powers of two and truncation.
\<close>

definition pow2 :: "int \<Rightarrow> rat" where
  "pow2 e = (if 0 \<le> e then 2 ^ nat e else 1 / 2 ^ nat (- e))"

definition truncate_rat :: "rat \<Rightarrow> int" where
  "truncate_rat r = (if 0 \<le> r then floor r else ceiling r)"

fun bit_length :: "nat \<Rightarrow> nat" where
  "bit_length n = (if n = 0 then 0 else Suc (bit_length (n div 2)))"

declare bit_length.simps [simp del]

text \<open>The exponent of the unit in the last place of a positive number: the quotient of numerator and
  denominator has one bit more or less than the difference of their lengths.\<close>

definition ulp_exponent :: "rat \<Rightarrow> int" where
  "ulp_exponent r =
     (let (p, q) = quotient_of r;
          e = int (bit_length (nat p)) - int (bit_length (nat q)) - 53
      in if r / pow2 e \<ge> 2 ^ 53 then e + 1 else e)"

definition round_half_even :: "rat \<Rightarrow> int" where
  "round_half_even r =
     (let k = floor r; d = r - of_int k
      in if d > 1 / 2 \<or> (d = 1 / 2 \<and> odd k) then k + 1 else k)"

definition round_double :: "rat \<Rightarrow> rat" where
  "round_double r =
     (if r = 0 then 0
      else let u = pow2 (ulp_exponent \<bar>r\<bar>) in sgn r * (of_int (round_half_even (\<bar>r\<bar> / u)) * u))"

lemma pow2_nat: "0 \<le> e \<Longrightarrow> pow2 e = of_int (2 ^ nat e)"
  by (simp add: pow2_def)

lemma truncate_of_int [simp]: "truncate_rat (of_int z) = z"
  by (simp add: truncate_rat_def)

lemma truncate_seconds [simp]: "truncate_rat (of_int d * 1000) = d * 1000"
  using truncate_of_int [of "d * 1000"] by simp

lemma round_half_even_of_int [simp]: "round_half_even (of_int k) = k"
  by (simp add: round_half_even_def)

lemma of_int_min: "min (of_int a) (of_int b) = (of_int (min a b) :: rat)"
  by (simp add: min_def)

end
