(* ===== verification/Message_Validator.thy ===== *)
theory Message_Validator
  imports Json Backend_Types Doubles
begin

text \<open>
  \<open>MainMQ/MessageValidator.cpp\<close>: the schemas registered per queue and the check of a payload against
  the rules of its queue's schema. Custom validators are functions, as in the code. Two things of the
  C++ library are fields of a parameter: the regular expression engine (None for a pattern
  \<open>std::regex\<close> rejects) and the text \<open>std::format\<close> prints for a double, which is only used in error
  messages. Doubles are rational numbers (\<open>Doubles\<close>); an integer member is rounded when it is
  converted.
\<close>

datatype rule_type =
    Required | Type | MinLength | MaxLength | MinValue | MaxValue | Pattern | Enum | Custom

record validation_rule =
  vr_field :: string
  vr_type :: rule_type
  vr_expected_type :: string
  vr_min_length :: int
  vr_max_length :: int
  vr_min_value :: rat
  vr_max_value :: rat
  vr_pattern :: string
  vr_enum_values :: "string list"
  vr_custom_validator :: "(string \<Rightarrow> bool) option"
  vr_custom_validator_name :: string
  vr_error_message :: string

record validation_result =
  res_valid :: bool
  res_errors :: "string list"

record message_schema =
  ms_name :: string
  ms_description :: string
  ms_rules :: "validation_rule list"

record message_validator =
  mv_schemas :: "string \<rightharpoonup> message_schema"
  mv_custom :: "string \<rightharpoonup> (string \<Rightarrow> bool)"

record validator_env =
  ve_regex :: "string \<Rightarrow> (string \<Rightarrow> bool) option"
  ve_double_text :: "rat \<Rightarrow> string"

section \<open>Schemas\<close>

definition register_schema :: "string \<Rightarrow> message_schema \<Rightarrow> message_validator \<Rightarrow> message_validator" where
  "register_schema queue schema v = v\<lparr>mv_schemas := (mv_schemas v)(queue \<mapsto> schema)\<rparr>"

definition unregister_schema :: "string \<Rightarrow> message_validator \<Rightarrow> message_validator" where
  "unregister_schema queue v = v\<lparr>mv_schemas := (mv_schemas v)(queue := None)\<rparr>"

definition has_schema :: "message_validator \<Rightarrow> string \<Rightarrow> bool" where
  "has_schema v queue \<longleftrightarrow> mv_schemas v queue \<noteq> None"

definition get_schema :: "message_validator \<Rightarrow> string \<Rightarrow> message_schema option" where
  "get_schema v queue = mv_schemas v queue"

definition register_custom_validator ::
  "string \<Rightarrow> (string \<Rightarrow> bool) \<Rightarrow> message_validator \<Rightarrow> message_validator" where
  "register_custom_validator name f v = v\<lparr>mv_custom := (mv_custom v)(name \<mapsto> f)\<rparr>"

definition has_custom_validator :: "message_validator \<Rightarrow> string \<Rightarrow> bool" where
  "has_custom_validator v name \<longleftrightarrow> mv_custom v name \<noteq> None"

definition resolve_rule :: "message_validator \<Rightarrow> validation_rule \<Rightarrow> validation_rule" where
  "resolve_rule v rule =
     (if vr_type rule = Custom \<and> vr_custom_validator_name rule \<noteq> [] \<and> vr_custom_validator rule = None
      then (case mv_custom v (vr_custom_validator_name rule) of
              None \<Rightarrow> rule
            | Some f \<Rightarrow> rule\<lparr>vr_custom_validator := Some f\<rparr>)
      else rule)"

definition resolve_custom_validators :: "message_validator \<Rightarrow> message_schema \<Rightarrow> message_schema" where
  "resolve_custom_validators v schema = schema\<lparr>ms_rules := map (resolve_rule v) (ms_rules schema)\<rparr>"

section \<open>Rules\<close>

fun get_double :: "json \<Rightarrow> rat" where
  "get_double (JInt i) = round_double (of_int i)"
| "get_double (JFloat r) = r"
| "get_double _ = 0"

definition make_error :: "validation_rule \<Rightarrow> string \<Rightarrow> string" where
  "make_error rule default_msg =
     (if vr_error_message rule = [] then default_msg else vr_error_message rule)"

definition quoted :: "string \<Rightarrow> string" where
  "quoted s = CHR 0x27 # s @ [CHR 0x27]"

definition rule_required :: "validation_rule \<Rightarrow> json \<Rightarrow> string option" where
  "rule_required rule payload =
     (if \<not> jcontains payload (vr_field rule)
      then Some (make_error rule (''field '' @ quoted (vr_field rule) @ '' is required''))
      else None)"

definition type_match :: "string \<Rightarrow> json \<Rightarrow> bool" where
  "type_match expected j \<longleftrightarrow>
     (if expected = ''string'' \<and> is_string j then True
      else if expected = ''number'' \<and> is_number j then True
      else if expected = ''boolean'' \<and> is_boolean j then True
      else if expected = ''array'' \<and> is_array j then True
      else if expected = ''object'' \<and> is_object j then True
      else expected = ''null'' \<and> j = JNull)"

definition rule_type_check :: "validation_rule \<Rightarrow> json \<Rightarrow> string option" where
  "rule_type_check rule payload =
     (case jmember payload (vr_field rule) of
        None \<Rightarrow> None
      | Some value \<Rightarrow>
          if \<not> type_match (vr_expected_type rule) value
          then Some (make_error rule (''field '' @ quoted (vr_field rule) @ '' must be of type '' @
                      quoted (vr_expected_type rule)))
          else None)"

definition rule_min_length :: "validation_rule \<Rightarrow> json \<Rightarrow> string option" where
  "rule_min_length rule payload =
     (case string_member payload (vr_field rule) of
        None \<Rightarrow> None
      | Some value \<Rightarrow>
          if int (length value) < vr_min_length rule
          then Some (make_error rule (''field '' @ quoted (vr_field rule) @ '' must be at least '' @
                      int_text (vr_min_length rule) @ '' characters''))
          else None)"

definition rule_max_length :: "validation_rule \<Rightarrow> json \<Rightarrow> string option" where
  "rule_max_length rule payload =
     (case string_member payload (vr_field rule) of
        None \<Rightarrow> None
      | Some value \<Rightarrow>
          if int (length value) > vr_max_length rule
          then Some (make_error rule (''field '' @ quoted (vr_field rule) @ '' must be at most '' @
                      int_text (vr_max_length rule) @ '' characters''))
          else None)"

text \<open>The member the two value rules compare, when there is one and it is a number.\<close>

definition number_member :: "json \<Rightarrow> string \<Rightarrow> rat option" where
  "number_member payload field =
     (case jmember payload field of
        None \<Rightarrow> None
      | Some value \<Rightarrow> if is_number value then Some (get_double value) else None)"

definition rule_min_value :: "validator_env \<Rightarrow> validation_rule \<Rightarrow> json \<Rightarrow> string option" where
  "rule_min_value env rule payload =
     (case number_member payload (vr_field rule) of
        None \<Rightarrow> None
      | Some value \<Rightarrow>
          if value < vr_min_value rule
          then Some (make_error rule (''field '' @ quoted (vr_field rule) @ '' must be at least '' @
                      ve_double_text env (vr_min_value rule)))
          else None)"

definition rule_max_value :: "validator_env \<Rightarrow> validation_rule \<Rightarrow> json \<Rightarrow> string option" where
  "rule_max_value env rule payload =
     (case number_member payload (vr_field rule) of
        None \<Rightarrow> None
      | Some value \<Rightarrow>
          if value > vr_max_value rule
          then Some (make_error rule (''field '' @ quoted (vr_field rule) @ '' must be at most '' @
                      ve_double_text env (vr_max_value rule)))
          else None)"

definition rule_pattern :: "validator_env \<Rightarrow> validation_rule \<Rightarrow> json \<Rightarrow> string option" where
  "rule_pattern env rule payload =
     (case string_member payload (vr_field rule) of
        None \<Rightarrow> None
      | Some value \<Rightarrow>
          (case ve_regex env (vr_pattern rule) of
             None \<Rightarrow> Some (make_error rule (''invalid regex pattern for field '' @ quoted (vr_field rule)))
           | Some matches \<Rightarrow>
               if \<not> matches value
               then Some (make_error rule (''field '' @ quoted (vr_field rule) @
                           '' does not match pattern '' @ quoted (vr_pattern rule)))
               else None))"

text \<open>The quoted alternatives, separated by a comma and a blank.\<close>

fun enum_text :: "string list \<Rightarrow> string" where
  "enum_text [] = []"
| "enum_text [x] = quoted x"
| "enum_text (x # xs) = quoted x @ '', '' @ enum_text xs"

definition rule_enum :: "validation_rule \<Rightarrow> json \<Rightarrow> string option" where
  "rule_enum rule payload =
     (case string_member payload (vr_field rule) of
        None \<Rightarrow> None
      | Some value \<Rightarrow>
          if \<not> list_ex (\<lambda>allowed. value = allowed) (vr_enum_values rule)
          then Some (make_error rule (''field '' @ quoted (vr_field rule) @ '' must be one of: '' @
                      enum_text (vr_enum_values rule)))
          else None)"

definition rule_custom :: "json_lib \<Rightarrow> validation_rule \<Rightarrow> json \<Rightarrow> string option" where
  "rule_custom L rule payload =
     (case jmember payload (vr_field rule) of
        None \<Rightarrow> None
      | Some value \<Rightarrow>
          (case vr_custom_validator rule of
             None \<Rightarrow> None
           | Some f \<Rightarrow>
               if \<not> f (jl_dump L (- 1) value)
               then Some (make_error rule (''field '' @ quoted (vr_field rule) @
                           '' failed custom validation''))
               else None))"

definition validate_rule ::
  "json_lib \<Rightarrow> validator_env \<Rightarrow> json \<Rightarrow> validation_rule \<Rightarrow> string option" where
  "validate_rule L env payload rule =
     (case vr_type rule of
        Required \<Rightarrow> rule_required rule payload
      | Type \<Rightarrow> rule_type_check rule payload
      | MinLength \<Rightarrow> rule_min_length rule payload
      | MaxLength \<Rightarrow> rule_max_length rule payload
      | MinValue \<Rightarrow> rule_min_value env rule payload
      | MaxValue \<Rightarrow> rule_max_value env rule payload
      | Pattern \<Rightarrow> rule_pattern env rule payload
      | Enum \<Rightarrow> rule_enum rule payload
      | Custom \<Rightarrow> rule_custom L rule payload)"

section \<open>Payloads\<close>

text \<open>The loop over the rules.\<close>

fun validate_rules ::
  "json_lib \<Rightarrow> validator_env \<Rightarrow> json \<Rightarrow> validation_rule list \<Rightarrow> validation_result \<Rightarrow> validation_result"
where
  "validate_rules L env payload [] r = r"
| "validate_rules L env payload (rule # rules) r =
     (case validate_rule L env payload rule of
        None \<Rightarrow> validate_rules L env payload rules r
      | Some e \<Rightarrow>
          validate_rules L env payload rules
            \<lparr>res_valid = False, res_errors = res_errors r @ [e]\<rparr>)"

definition validate_json ::
  "json_lib \<Rightarrow> validator_env \<Rightarrow> message_validator \<Rightarrow> string \<Rightarrow> string \<Rightarrow> validation_result" where
  "validate_json L env v json_str queue =
     (let result = \<lparr>res_valid = True, res_errors = []\<rparr>
      in case get_schema v queue of
           None \<Rightarrow> result
         | Some schema \<Rightarrow>
             (case json_parse L json_str of
                Inl e \<Rightarrow> \<lparr>res_valid = False, res_errors = [''JSON parse error: '' @ jl_what L e]\<rparr>
              | Inr payload \<Rightarrow> validate_rules L env payload (ms_rules schema) result))"

definition validate ::
  "json_lib \<Rightarrow> validator_env \<Rightarrow> message_validator \<Rightarrow> message \<Rightarrow> validation_result" where
  "validate L env v message = validate_json L env v (m_payload_json message) (m_queue message)"

section \<open>Rule constructors\<close>

text \<open>A rule with the default member values.\<close>

definition default_rule :: "string \<Rightarrow> rule_type \<Rightarrow> string \<Rightarrow> validation_rule" where
  "default_rule field t error_msg =
     \<lparr>vr_field = field, vr_type = t, vr_expected_type = [], vr_min_length = 0,
      vr_max_length = 2 ^ 63 - 1, vr_min_value = 0, vr_max_value = 0, vr_pattern = [],
      vr_enum_values = [], vr_custom_validator = None, vr_custom_validator_name = [],
      vr_error_message = error_msg\<rparr>"

definition required :: "string \<Rightarrow> string \<Rightarrow> validation_rule" where
  "required field error_msg = default_rule field Required error_msg"

definition type_string :: "string \<Rightarrow> string \<Rightarrow> validation_rule" where
  "type_string field error_msg = (default_rule field Type error_msg)\<lparr>vr_expected_type := ''string''\<rparr>"

definition type_number :: "string \<Rightarrow> string \<Rightarrow> validation_rule" where
  "type_number field error_msg = (default_rule field Type error_msg)\<lparr>vr_expected_type := ''number''\<rparr>"

definition type_boolean :: "string \<Rightarrow> string \<Rightarrow> validation_rule" where
  "type_boolean field error_msg =
     (default_rule field Type error_msg)\<lparr>vr_expected_type := ''boolean''\<rparr>"

definition type_array :: "string \<Rightarrow> string \<Rightarrow> validation_rule" where
  "type_array field error_msg = (default_rule field Type error_msg)\<lparr>vr_expected_type := ''array''\<rparr>"

definition type_object :: "string \<Rightarrow> string \<Rightarrow> validation_rule" where
  "type_object field error_msg = (default_rule field Type error_msg)\<lparr>vr_expected_type := ''object''\<rparr>"

definition min_length :: "string \<Rightarrow> int \<Rightarrow> string \<Rightarrow> validation_rule" where
  "min_length field minimum error_msg =
     (default_rule field MinLength error_msg)\<lparr>vr_min_length := minimum\<rparr>"

definition max_length :: "string \<Rightarrow> int \<Rightarrow> string \<Rightarrow> validation_rule" where
  "max_length field maximum error_msg =
     (default_rule field MaxLength error_msg)\<lparr>vr_max_length := maximum\<rparr>"

definition min_value :: "string \<Rightarrow> rat \<Rightarrow> string \<Rightarrow> validation_rule" where
  "min_value field minimum error_msg =
     (default_rule field MinValue error_msg)\<lparr>vr_min_value := minimum\<rparr>"

definition max_value :: "string \<Rightarrow> rat \<Rightarrow> string \<Rightarrow> validation_rule" where
  "max_value field maximum error_msg =
     (default_rule field MaxValue error_msg)\<lparr>vr_max_value := maximum\<rparr>"

definition enum_values :: "string \<Rightarrow> string list \<Rightarrow> string \<Rightarrow> validation_rule" where
  "enum_values field values error_msg =
     (default_rule field Enum error_msg)\<lparr>vr_enum_values := values\<rparr>"

lemmas validator_model_defs [model_defs] =
  register_schema_def get_schema_def resolve_rule_def resolve_custom_validators_def
  make_error_def quoted_def rule_required_def type_match_def rule_type_check_def rule_min_length_def
  rule_max_length_def number_member_def rule_min_value_def rule_max_value_def rule_pattern_def
  rule_enum_def rule_custom_def validate_rule_def validate_json_def validate_def default_rule_def
  required_def type_string_def min_length_def max_length_def enum_values_def min_value_def
  max_value_def

section \<open>What a valid payload satisfies\<close>

text \<open>The rules as conditions on the member they name.\<close>

fun satisfies :: "json_lib \<Rightarrow> validator_env \<Rightarrow> json \<Rightarrow> validation_rule \<Rightarrow> bool" where
  "satisfies L env (JObj m) rule =
     (case fmlookup m (vr_field rule) of
        None \<Rightarrow> vr_type rule \<noteq> Required
      | Some value \<Rightarrow>
          (case (vr_type rule, value) of
             (Type, _) \<Rightarrow> type_match (vr_expected_type rule) value
           | (MinLength, JStr s) \<Rightarrow> vr_min_length rule \<le> int (length s)
           | (MaxLength, JStr s) \<Rightarrow> int (length s) \<le> vr_max_length rule
           | (MinValue, JInt i) \<Rightarrow> vr_min_value rule \<le> round_double (of_int i)
           | (MinValue, JFloat r) \<Rightarrow> vr_min_value rule \<le> r
           | (MaxValue, JInt i) \<Rightarrow> round_double (of_int i) \<le> vr_max_value rule
           | (MaxValue, JFloat r) \<Rightarrow> r \<le> vr_max_value rule
           | (Pattern, JStr s) \<Rightarrow> (\<exists>f. ve_regex env (vr_pattern rule) = Some f \<and> f s)
           | (Enum, JStr s) \<Rightarrow> s \<in> set (vr_enum_values rule)
           | (Custom, _) \<Rightarrow> (\<forall>f. vr_custom_validator rule = Some f \<longrightarrow> f (jl_dump L (- 1) value))
           | _ \<Rightarrow> True))"
| "satisfies L env _ rule = (vr_type rule \<noteq> Required)"

lemma list_ex_mem [simp]: "list_ex (\<lambda>allowed. s = allowed) xs \<longleftrightarrow> s \<in> set xs"
  by (auto simp: list_ex_iff)

lemmas rule_defs = validate_rule_def rule_required_def rule_type_check_def rule_min_length_def
  rule_max_length_def rule_min_value_def rule_max_value_def rule_pattern_def rule_enum_def
  rule_custom_def number_member_def string_member_def

lemma validate_rule_None: "validate_rule L env payload rule = None \<longleftrightarrow> satisfies L env payload rule"
proof (cases payload)
  case (JObj m)
  show ?thesis
  proof (cases "fmlookup m (vr_field rule)")
    case None
    then show ?thesis using JObj by (cases "vr_type rule") (simp_all add: rule_defs)
  next
    case (Some x)
    then show ?thesis
      using JObj
      by (cases "vr_type rule"; cases x) (auto simp: rule_defs split: option.splits)
  qed
qed (cases "vr_type rule"; simp add: rule_defs)+

lemma validate_rules_result:
  "validate_rules L env payload rules r =
     (let es = List.map_filter (validate_rule L env payload) rules
      in \<lparr>res_valid = (res_valid r \<and> es = []), res_errors = res_errors r @ es\<rparr>)"
  by (induction rules arbitrary: r) (auto simp: map_filter_simps split: option.splits)

lemma map_filter_Nil_iff: "List.map_filter f xs = [] \<longleftrightarrow> (\<forall>x \<in> set xs. f x = None)"
  by (induction xs) (auto simp: map_filter_simps split: option.splits)

lemma validate_json_cases:
  "validate_json L env v json_str queue =
     (case mv_schemas v queue of
        None \<Rightarrow> \<lparr>res_valid = True, res_errors = []\<rparr>
      | Some schema \<Rightarrow>
          (case jl_parse L json_str of
             None \<Rightarrow> \<lparr>res_valid = False, res_errors = [''JSON parse error: '' @ jl_what L Parse_Error]\<rparr>
           | Some payload \<Rightarrow>
               \<lparr>res_valid = (\<forall>rule \<in> set (ms_rules schema). satisfies L env payload rule),
                res_errors = List.map_filter (validate_rule L env payload) (ms_rules schema)\<rparr>))"
  by (auto simp: validate_json_def get_schema_def json_parse_def validate_rules_result
      map_filter_Nil_iff validate_rule_None split: option.splits)

text \<open>C10: A payload passes validation exactly when its queue has no schema, or it is JSON and
  satisfies every rule of the schema; the errors of a failed validation are those of the violated
  rules in the order of the schema, and a passed validation reports none.\<close>

theorem validate_json_correct:
  "res_valid (validate_json L env v json_str queue) =
     (case mv_schemas v queue of
        None \<Rightarrow> True
      | Some schema \<Rightarrow>
          (case jl_parse L json_str of
             None \<Rightarrow> False
           | Some payload \<Rightarrow> list_all (satisfies L env payload) (ms_rules schema))) \<and>
   (res_valid (validate_json L env v json_str queue) =
      (res_errors (validate_json L env v json_str queue) = []))"
  by (auto simp: validate_json_cases list_all_iff map_filter_Nil_iff validate_rule_None
      split: option.splits)

text \<open>A custom rule that only names its validator is enforced after the names have been
  resolved against a validator registered under that name, and passes unchecked when they have
  not.\<close>

theorem resolve_custom_enforces:
  assumes "vr_type rule = Custom" "vr_custom_validator rule = None"
    and "vr_custom_validator_name rule = name" "name \<noteq> []" "fmlookup m (vr_field rule) = Some value"
  shows "satisfies L env (JObj m) rule \<and>
    (satisfies L env (JObj m) (resolve_rule (register_custom_validator name f v) rule) \<longleftrightarrow>
       f (jl_dump L (- 1) value))"
  using assms by (simp_all add: resolve_rule_def register_custom_validator_def)

definition demo_rule :: validation_rule where
  "demo_rule = \<lparr>vr_field = ''f'', vr_type = Custom, vr_expected_type = [], vr_min_length = 0,
     vr_max_length = 0, vr_min_value = 0, vr_max_value = 0, vr_pattern = [], vr_enum_values = [],
     vr_custom_validator = None, vr_custom_validator_name = ''check'', vr_error_message = []\<rparr>"

theorem resolve_custom_enforces_witness:
  "\<not> satisfies ref_json \<lparr>ve_regex = (\<lambda>p. None), ve_double_text = (\<lambda>d. [])\<rparr> (jobj [(''f'', JNull)])
     (resolve_rule (register_custom_validator ''check'' (\<lambda>s. False)
        \<lparr>mv_schemas = Map.empty, mv_custom = Map.empty\<rparr>) demo_rule)"
proof -
  let ?v = "\<lparr>mv_schemas = Map.empty, mv_custom = Map.empty\<rparr>"
  let ?env = "\<lparr>ve_regex = (\<lambda>p. None), ve_double_text = (\<lambda>d. [])\<rparr>"
  let ?m = "fmupd ''f'' JNull fmempty"
  have "satisfies ref_json ?env (JObj ?m) demo_rule \<and>
    (satisfies ref_json ?env (JObj ?m)
       (resolve_rule (register_custom_validator ''check'' (\<lambda>s. False) ?v) demo_rule) \<longleftrightarrow> False)"
    by (rule resolve_custom_enforces) (simp_all add: demo_rule_def)
  then show ?thesis by (simp add: jobj_def)
qed

end
