(* ===== verification/Queue_Manager.thy ===== *)
theory Queue_Manager
  imports Backend_Contract Doubles
begin

text \<open>
  \<open>MainMQ/QueueManager.cpp\<close>: the registered policies, the two sweeps over an adapter and the choice
  between retry and dead letter queue. The adapter is the operation table \<open>B\<close>; its state is a field
  of the manager's. The thread pool is a library of the program the manager only starts and stops:
  the result of starting it is an argument of \<open>qm_start\<close>, and a worker thread is the loop it runs,
  over the values its tests of the running flag see. Log output is not modelled.
\<close>

record 's queue_manager =
  qm_running :: bool
  qm_policies :: "string \<rightharpoonup> queue_policy"
  qm_backend :: 's

definition qm_start :: "res \<Rightarrow> 's queue_manager \<Rightarrow> res \<times> 's queue_manager" where
  "qm_start pool_started m =
     (if qm_running m then (err_res ''already running'', m)
      else if \<not> fst pool_started then ((False, snd pool_started), m)
      else (ok_res, m\<lparr>qm_running := True\<rparr>))"

definition qm_stop :: "'s queue_manager \<Rightarrow> 's queue_manager" where
  "qm_stop m = (if \<not> qm_running m then m else m\<lparr>qm_running := False\<rparr>)"

definition qm_register_queue ::
  "'s backend \<Rightarrow> string \<Rightarrow> queue_policy \<Rightarrow> 's queue_manager \<Rightarrow> 's queue_manager" where
  "qm_register_queue B queue_name policy m =
     (let (_, s) = be_save_policy B queue_name policy (qm_backend m)
      in m\<lparr>qm_policies := (qm_policies m)(queue_name \<mapsto> policy), qm_backend := s\<rparr>)"

definition qm_get_policy :: "string \<Rightarrow> 's queue_manager \<Rightarrow> queue_policy option" where
  "qm_get_policy queue_name m = qm_policies m queue_name"

section \<open>Backoff\<close>

text \<open>
  \<open>calculate_backoff_delay\<close>. The exponential branch computes with doubles: the initial delay times a
  power of two, the minimum with the maximal delay, times 1000, truncated. Every factor is an integer
  of at most 31 bits times a power of two, so the double computation is exact up to the exponent
  1023, above which \<open>pow\<close> is infinite: then a positive initial delay is cut to the maximal delay, and
  for any other the conversion to an integer is undefined, as it is for a value out of range;
  \<open>undef\<close> stands for whatever the conversion then gives. The linear branch multiplies 32-bit integers.
\<close>

definition calculate_backoff_delay :: "int \<Rightarrow> int \<Rightarrow> retry_policy \<Rightarrow> int" where
  "calculate_backoff_delay undef attempt policy =
     (if rp_backoff policy = ''exponential'' then
        (let e = i32 (attempt - 1)
         in if e \<ge> 1024 then
              (if rp_initial_delay_sec policy > 0 then rp_max_delay_sec policy * 1000 else undef)
            else
              let delay_sec = min (of_int (rp_initial_delay_sec policy) * pow2 e)
                                (of_int (rp_max_delay_sec policy));
                  ms = truncate_rat (delay_sec * 1000)
              in if in_i64 ms then ms else undef)
      else if rp_backoff policy = ''linear'' then
        min (i32 (rp_initial_delay_sec policy * attempt)) (rp_max_delay_sec policy) * 1000
      else rp_initial_delay_sec policy * 1000)"

section \<open>Retry or dead letter queue\<close>

definition apply_retry_or_dlq ::
  "'s backend \<Rightarrow> int \<Rightarrow> string \<Rightarrow> int \<Rightarrow> queue_policy \<Rightarrow> 's \<Rightarrow> res \<times> 's" where
  "apply_retry_or_dlq B undef key attempt policy s =
     (if attempt \<ge> rp_limit (qp_retry policy) then
        if dp_enabled (qp_dlq policy) then
          (let reason = ''retry limit exceeded (attempt '' @ int_text attempt @ '')'';
               (r, s1) = be_move_to_dlq B key reason s
           in if \<not> fst r then ((False, snd r), s1) else (ok_res, s1))
        else ((True, Some ''dlq disabled, message dropped''), s)
      else
        (let delay_ms = calculate_backoff_delay undef attempt (qp_retry policy);
             (r, s1) = be_delay_message B key delay_ms s
         in if \<not> fst r then ((False, snd r), s1) else (ok_res, s1)))"

section \<open>The sweeps\<close>

text \<open>The counters of one lease sweep: recovered, sent to the dead letter queue, delayed.\<close>

record sweep_counts =
  sw_recovered :: int
  sw_dlq :: int
  sw_delayed :: int

definition no_counts :: sweep_counts where
  "no_counts = \<lparr>sw_recovered = 0, sw_dlq = 0, sw_delayed = 0\<rparr>"

text \<open>\<open>result_msg.value().find("dlq") != npos\<close>.\<close>

fun contains_text :: "string \<Rightarrow> string \<Rightarrow> bool" where
  "contains_text sub [] = (sub = [])"
| "contains_text sub (c # s) = (take (length sub) (c # s) = sub \<or> contains_text sub s)"

definition sweep_one ::
  "'s backend \<Rightarrow> int \<Rightarrow> (string \<rightharpoonup> queue_policy) \<Rightarrow> expired_lease_info \<Rightarrow> sweep_counts \<Rightarrow> 's \<Rightarrow>
     sweep_counts \<times> 's" where
  "sweep_one B undef policies info n s =
     (case policies (el_queue info) of
        None \<Rightarrow>
          (let (r, s1) = be_delay_message B (el_message_key info) 0 s
           in (if fst r then n\<lparr>sw_recovered := i32 (sw_recovered n + 1)\<rparr> else n, s1))
      | Some policy \<Rightarrow>
          (let (r, s1) = apply_retry_or_dlq B undef (el_message_key info) (el_attempt info) policy s
           in (if fst r then
                 if (case snd r of Some t \<Rightarrow> contains_text ''dlq'' t | None \<Rightarrow> False)
                 then n\<lparr>sw_dlq := i32 (sw_dlq n + 1)\<rparr>
                 else if el_attempt info \<ge> rp_limit (qp_retry policy)
                 then n\<lparr>sw_dlq := i32 (sw_dlq n + 1)\<rparr>
                 else n\<lparr>sw_delayed := i32 (sw_delayed n + 1)\<rparr>
               else n, s1)))"

fun sweep_all ::
  "'s backend \<Rightarrow> int \<Rightarrow> (string \<rightharpoonup> queue_policy) \<Rightarrow> expired_lease_info list \<Rightarrow> sweep_counts \<Rightarrow> 's \<Rightarrow>
     sweep_counts \<times> 's" where
  "sweep_all B undef policies [] n s = (n, s)"
| "sweep_all B undef policies (info # infos) n s =
     (let (n1, s1) = sweep_one B undef policies info n s
      in sweep_all B undef policies infos n1 s1)"

definition qm_recover_expired_leases ::
  "'s backend \<Rightarrow> int \<Rightarrow> 's queue_manager \<Rightarrow> sweep_counts \<times> 's queue_manager" where
  "qm_recover_expired_leases B undef m =
     (let ((infos, err), s1) = be_get_expired_inflight_messages B (qm_backend m)
      in if err \<noteq> None \<or> infos = [] then (no_counts, m\<lparr>qm_backend := s1\<rparr>)
         else
           let (n, s2) = sweep_all B undef (qm_policies m) infos no_counts s1
           in (n, m\<lparr>qm_backend := s2\<rparr>))"

definition qm_process_delayed_messages :: "'s backend \<Rightarrow> 's queue_manager \<Rightarrow> 's queue_manager" where
  "qm_process_delayed_messages B m =
     m\<lparr>qm_backend := snd (be_process_delayed_messages B (qm_backend m))\<rparr>"

text \<open>The loops of the two worker threads, over the values of the running flag at their tests.\<close>

fun lease_sweep_worker ::
  "'s backend \<Rightarrow> int \<Rightarrow> bool list \<Rightarrow> 's queue_manager \<Rightarrow> 's queue_manager" where
  "lease_sweep_worker B undef [] m = m"
| "lease_sweep_worker B undef (running # rs) m =
     (if running then lease_sweep_worker B undef rs (snd (qm_recover_expired_leases B undef m)) else m)"

fun retry_sweep_worker :: "'s backend \<Rightarrow> bool list \<Rightarrow> 's queue_manager \<Rightarrow> 's queue_manager" where
  "retry_sweep_worker B [] m = m"
| "retry_sweep_worker B (running # rs) m =
     (if running then retry_sweep_worker B rs (qm_process_delayed_messages B m) else m)"

section \<open>Backoff: bounds and growth\<close>

text \<open>The policies a deployment uses: non-negative delays.\<close>

definition retry_ok :: "retry_policy \<Rightarrow> bool" where
  "retry_ok p \<longleftrightarrow> 0 < rp_initial_delay_sec p \<and> in_i32 (rp_initial_delay_sec p) \<and>
     0 \<le> rp_max_delay_sec p \<and> in_i32 (rp_max_delay_sec p)"

lemma in_i64_seconds: "0 \<le> d \<Longrightarrow> d < 2 ^ 31 \<Longrightarrow> in_i64 (d * 1000)"
  by (simp add: in_i64_def)

lemma backoff_exponential:
  assumes p: "retry_ok p" "rp_backoff p = ''exponential''" and a: "1 \<le> attempt" "in_i32 attempt"
  shows "calculate_backoff_delay undef attempt p =
    1000 * min (rp_initial_delay_sec p * 2 ^ nat (attempt - 1)) (rp_max_delay_sec p)"
proof -
  let ?i = "rp_initial_delay_sec p" and ?m = "rp_max_delay_sec p"
  have e: "i32 (attempt - 1) = attempt - 1" using a by (intro i32_id) (auto simp: in_i32_def)
  show ?thesis
  proof (cases "attempt - 1 \<ge> 1024")
    case True
    have "?m < 2 ^ 31" using p by (simp add: retry_ok_def in_i32_def)
    also have "(2::int) ^ 31 \<le> 2 ^ nat (attempt - 1)" using True by (intro power_increasing) auto
    also have "\<dots> \<le> ?i * 2 ^ nat (attempt - 1)" using p by (simp add: retry_ok_def)
    finally show ?thesis
      using True p e by (simp add: calculate_backoff_delay_def retry_ok_def Let_def)
  next
    case False
    let ?d = "min (?i * 2 ^ nat (attempt - 1)) ?m"
    have "min (of_int ?i * pow2 (attempt - 1)) (of_int ?m) * 1000 = (of_int (?d * 1000) :: rat)"
      using a of_int_min [of "?i * 2 ^ nat (attempt - 1)" ?m] by (simp add: pow2_nat)
    moreover have "0 \<le> ?i * 2 ^ nat (attempt - 1)" using p by (simp add: retry_ok_def)
    then have "0 \<le> ?d" "?d < 2 ^ 31" using p by (auto simp: retry_ok_def in_i32_def)
    then have "in_i64 (?d * 1000)" by (rule in_i64_seconds)
    ultimately show ?thesis
      using False p e by (simp add: calculate_backoff_delay_def Let_def)
  qed
qed

lemma backoff_linear:
  assumes "rp_backoff p = ''linear''" "in_i32 (rp_initial_delay_sec p * attempt)"
  shows "calculate_backoff_delay undef attempt p =
    1000 * min (rp_initial_delay_sec p * attempt) (rp_max_delay_sec p)"
  using assms by (simp add: calculate_backoff_delay_def)

lemma backoff_fixed:
  "rp_backoff p \<noteq> ''exponential'' \<Longrightarrow> rp_backoff p \<noteq> ''linear'' \<Longrightarrow>
     calculate_backoff_delay undef attempt p = 1000 * rp_initial_delay_sec p"
  by (simp add: calculate_backoff_delay_def)

section \<open>The manager loses no message\<close>

context message_store
begin

lemma keeps_apply_retry_or_dlq:
  assumes "inv s" "key_ok key" "apply_retry_or_dlq B undef key attempt policy s = (r, s')"
  shows "keeps s s'"
  using assms keeps_refl [OF assms(1)]
  by (auto simp: apply_retry_or_dlq_def Let_def split: if_splits prod.splits intro: keeping)

lemma keeps_sweep_one:
  assumes "inv s" "key_ok (el_message_key info)" "sweep_one B undef policies info n s = (n', s')"
  shows "keeps s s'"
proof (cases "policies (el_queue info)")
  case None
  then show ?thesis
    using assms by (auto simp: sweep_one_def split: prod.splits intro: keeping)
next
  case (Some policy)
  then show ?thesis
    using assms by (auto simp: sweep_one_def split: prod.splits intro: keeps_apply_retry_or_dlq)
qed

lemma keeps_sweep_all:
  assumes "sweep_all B undef policies infos n s = (n', s')" "inv s"
    "\<forall>info \<in> set infos. key_ok (el_message_key info)"
  shows "keeps s s'"
  using assms
proof (induction infos arbitrary: n s)
  case (Cons info infos)
  obtain n1 s1 where one: "sweep_one B undef policies info n s = (n1, s1)" by (metis prod.collapse)
  have s1: "keeps s s1" using keeps_sweep_one [OF Cons.prems(2) _ one] Cons.prems(3) by simp
  have "sweep_all B undef policies infos n1 s1 = (n', s')" using Cons.prems(1) one by simp
  then have "keeps s1 s'" using Cons.IH keeps_inv [OF s1] Cons.prems(3) by simp
  with s1 show ?case by (rule keeps_trans)
qed (simp add: keeps_refl)

lemma keeps_qm_recover:
  assumes "inv (qm_backend m)" "qm_recover_expired_leases B undef m = (n, m')"
  shows "keeps (qm_backend m) (qm_backend m')"
proof -
  obtain infos err s1 where g: "be_get_expired_inflight_messages B (qm_backend m) = ((infos, err), s1)"
    by (metis prod.collapse)
  note s1 = keeps_get_expired [OF assms(1) g]
  obtain n2 s2 where w: "sweep_all B undef (qm_policies m) infos no_counts s1 = (n2, s2)"
    by (metis prod.collapse)
  have "keeps s1 s2" using keeps_sweep_all [OF w keeps_inv] s1 by blast
  then have "keeps (qm_backend m) s2" using s1 keeps_trans by blast
  with s1 g w assms(2) show ?thesis
    by (auto simp: qm_recover_expired_leases_def Let_def split: if_splits)
qed

lemma keeps_qm_process_delayed:
  "inv (qm_backend m) \<Longrightarrow> keeps (qm_backend m) (qm_backend (qm_process_delayed_messages B m))"
  by (simp add: qm_process_delayed_messages_def keeping(8) [OF _ prod.collapse [symmetric]])

lemma keeps_qm_register:
  "inv (qm_backend m) \<Longrightarrow> keeps (qm_backend m) (qm_backend (qm_register_queue B q p m))"
  by (auto simp: qm_register_queue_def split: prod.splits intro: keeping(5))

lemma keeps_lease_sweep_worker:
  "inv (qm_backend m) \<Longrightarrow> keeps (qm_backend m) (qm_backend (lease_sweep_worker B undef rs m))"
proof (induction rs arbitrary: m)
  case (Cons running rs)
  obtain n m1 where r: "qm_recover_expired_leases B undef m = (n, m1)" by (metis prod.collapse)
  have k: "keeps (qm_backend m) (qm_backend m1)" using keeps_qm_recover [OF Cons.prems r] .
  then have "keeps (qm_backend m1) (qm_backend (lease_sweep_worker B undef rs m1))"
    by (rule Cons.IH [OF keeps_inv])
  with k r Cons.prems show ?case by (auto intro: keeps_trans keeps_refl)
qed (simp add: keeps_refl)

lemma keeps_retry_sweep_worker:
  "inv (qm_backend m) \<Longrightarrow> keeps (qm_backend m) (qm_backend (retry_sweep_worker B rs m))"
proof (induction rs arbitrary: m)
  case (Cons running rs)
  let ?m = "qm_process_delayed_messages B m"
  have k: "keeps (qm_backend m) (qm_backend ?m)" using keeps_qm_process_delayed [OF Cons.prems] .
  then have "keeps (qm_backend ?m) (qm_backend (retry_sweep_worker B rs ?m))"
    by (rule Cons.IH [OF keeps_inv])
  with k Cons.prems show ?case by (auto intro: keeps_trans keeps_refl)
qed (simp add: keeps_refl)

end

end
