(* ===== verification/Mailbox_Handler.thy ===== *)
theory Mailbox_Handler
  imports Generator Message_Validator Queue_Manager
begin

text \<open>
  \<open>MainMQ/MailboxHandler.cpp\<close> and \<open>MailboxTypes.h\<close>: the directory based request interface. A client
  puts a request file into the requests directory; the worker moves it to the processing directory,
  parses it, runs the command on the adapter and writes a response file for the client, or moves the
  request to the dead directory. The object's fields extend the operating system state the mailbox
  directories are in; the adapter and the queue manager are one field each, the adapter's state being
  part of the manager's. Adapter and mailbox are given separate file stores: their root directories
  do not overlap. The folder watcher and the thread pool are libraries the handler only starts and
  stops; the worker threads are their loops, over the values their tests of the running flag see.
\<close>

section \<open>Types\<close>

datatype mailbox_command =
    Unknown | Publish | ConsumeNext | Ack | Nack | ExtendLease | Status | Health | Metrics
  | ListDlq | ReprocessDlq

record mailbox_config =
  mc_root :: string
  mc_requests_dir :: string
  mc_processing_dir :: string
  mc_responses_dir :: string
  mc_dead_dir :: string
  mc_stale_timeout_ms :: int
  mc_poll_interval_ms :: int
  mc_use_folder_watcher :: bool

record mailbox_request =
  mr_request_id :: string
  mr_client_id :: string
  mr_command :: mailbox_command
  mr_timestamp_ms :: int
  mr_deadline_ms :: int
  mr_payload_json :: string
  mr_file_path :: path

record mailbox_response =
  rs_request_id :: string
  rs_ok :: bool
  rs_data_json :: string
  rs_error_code :: string
  rs_error_message :: string

record mailbox_metrics =
  mm_total_requests :: "64 word"
  mm_success_count :: "64 word"
  mm_error_count :: "64 word"
  mm_publish_count :: "64 word"
  mm_consume_count :: "64 word"
  mm_ack_count :: "64 word"
  mm_nack_count :: "64 word"
  mm_status_count :: "64 word"
  mm_health_count :: "64 word"
  mm_dlq_count :: "64 word"
  mm_parse_errors :: "64 word"
  mm_validation_errors :: "64 word"
  mm_timeout_errors :: "64 word"
  mm_internal_errors :: "64 word"
  mm_total_processing_time_ms :: "64 word"
  mm_last_request_time_ms :: "64 word"
  mm_start_time_ms :: int

definition zero_mailbox_metrics :: mailbox_metrics where
  "zero_mailbox_metrics = \<lparr>mm_total_requests = 0, mm_success_count = 0, mm_error_count = 0,
     mm_publish_count = 0, mm_consume_count = 0, mm_ack_count = 0, mm_nack_count = 0,
     mm_status_count = 0, mm_health_count = 0, mm_dlq_count = 0, mm_parse_errors = 0,
     mm_validation_errors = 0, mm_timeout_errors = 0, mm_internal_errors = 0,
     mm_total_processing_time_ms = 0, mm_last_request_time_ms = 0, mm_start_time_ms = 0\<rparr>"

definition invalid_request :: string where "invalid_request = ''ERR_INVALID_REQUEST''"
definition unknown_command :: string where "unknown_command = ''ERR_UNKNOWN_COMMAND''"
definition internal_error :: string where "internal_error = ''ERR_INTERNAL_ERROR''"
definition timeout_error :: string where "timeout_error = ''ERR_TIMEOUT''"
definition parse_error :: string where "parse_error = ''ERR_PARSE_ERROR''"
definition validation_failed :: string where "validation_failed = ''ERR_VALIDATION_FAILED''"
definition dlq_not_found :: string where "dlq_not_found = ''ERR_DLQ_NOT_FOUND''"

lemmas error_code_defs = invalid_request_def unknown_command_def internal_error_def
  timeout_error_def parse_error_def validation_failed_def dlq_not_found_def

record 's mailbox = world +
  mb_running :: bool
  mb_config :: mailbox_config
  mb_validator :: message_validator
  mb_metrics :: mailbox_metrics
  mb_pending :: "path list"
  mb_has_manager :: bool
  mb_manager :: "'s queue_manager"

text \<open>A call on the adapter.\<close>

definition on_backend :: "('s \<Rightarrow> 'r \<times> 's) \<Rightarrow> 's mailbox \<Rightarrow> 'r \<times> 's mailbox" where
  "on_backend f m =
     (let (r, s) = f (qm_backend (mb_manager m))
      in (r, m\<lparr>mb_manager := (mb_manager m)\<lparr>qm_backend := s\<rparr>\<rparr>))"

section \<open>Schemas\<close>

definition mb_register_schema :: "string \<Rightarrow> message_schema \<Rightarrow> 's mailbox \<Rightarrow> 's mailbox" where
  "mb_register_schema queue schema m =
     m\<lparr>mb_validator :=
         register_schema queue (resolve_custom_validators (mb_validator m) schema) (mb_validator m)\<rparr>"

definition mb_unregister_schema :: "string \<Rightarrow> 's mailbox \<Rightarrow> 's mailbox" where
  "mb_unregister_schema queue m = m\<lparr>mb_validator := unregister_schema queue (mb_validator m)\<rparr>"

definition mb_register_custom_validator ::
  "string \<Rightarrow> (string \<Rightarrow> bool) \<Rightarrow> 's mailbox \<Rightarrow> 's mailbox" where
  "mb_register_custom_validator name f m =
     m\<lparr>mb_validator := register_custom_validator name f (mb_validator m)\<rparr>"

section \<open>Directories\<close>

definition mb_build_path :: "mailbox_config \<Rightarrow> string \<Rightarrow> string \<Rightarrow> path" where
  "mb_build_path cfg sub_dir filename =
     (let p = path_append (to_path (mc_root cfg)) sub_dir
      in if filename = [] then p else path_append p filename)"

definition mb_ensure_directories :: "'s mailbox \<Rightarrow> res \<times> 's mailbox" where
  "mb_ensure_directories m =
     (let cfg = mb_config m
      in make_dirs [mb_build_path cfg (mc_requests_dir cfg) [], mb_build_path cfg (mc_processing_dir cfg) [],
           mb_build_path cfg (mc_responses_dir cfg) [], mb_build_path cfg (mc_dead_dir cfg) []] m)"

text \<open>The directory of the client's responses is created when missing; the error is not looked at.\<close>

definition build_response_path :: "string \<Rightarrow> string \<Rightarrow> 's mailbox \<Rightarrow> path \<times> 's mailbox" where
  "build_response_path client_id filename m =
     (let cfg = mb_config m;
          p = path_append (path_append (to_path (mc_root cfg)) (mc_responses_dir cfg)) client_id;
          m1 = (if fexists m p then m else snd (os_mkdirs p m))
      in (if filename = [] then p else path_append p filename, m1))"

section \<open>Start and stop\<close>

definition mb_start :: "res \<Rightarrow> 's mailbox \<Rightarrow> res \<times> 's mailbox" where
  "mb_start pool_started m =
     (if mb_running m then (err_res ''already running'', m)
      else
        let (r, m1) = mb_ensure_directories m
        in if \<not> fst r then ((False, snd r), m1)
           else if \<not> fst pool_started then ((False, snd pool_started), m1)
           else
             let (now, m2) = now_ms m1
             in (ok_res, m2\<lparr>mb_metrics := zero_mailbox_metrics\<lparr>mm_start_time_ms := now\<rparr>,
                            mb_running := True\<rparr>))"

definition mb_stop :: "'s mailbox \<Rightarrow> 's mailbox" where
  "mb_stop m = (if \<not> mb_running m then m else m\<lparr>mb_running := False\<rparr>)"

section \<open>Requests\<close>

definition parse_command :: "string \<Rightarrow> mailbox_command" where
  "parse_command command_str =
     (let cmd = map ascii_lower command_str
      in if cmd = ''publish'' then Publish
         else if cmd = ''consume_next'' \<or> cmd = ''consumenext'' \<or> cmd = ''consume'' then ConsumeNext
         else if cmd = ''ack'' then Ack
         else if cmd = ''nack'' then Nack
         else if cmd = ''extend_lease'' \<or> cmd = ''extendlease'' \<or> cmd = ''extend'' then ExtendLease
         else if cmd = ''status'' then Status
         else if cmd = ''health'' then Health
         else if cmd = ''metrics'' then Metrics
         else if cmd = ''list_dlq'' \<or> cmd = ''listdlq'' \<or> cmd = ''dlq'' then ListDlq
         else if cmd = ''reprocess_dlq'' \<or> cmd = ''reprocessdlq'' \<or> cmd = ''reprocess'' then ReprocessDlq
         else Unknown)"

definition parse_request ::
  "json_lib \<Rightarrow> string \<Rightarrow> path \<Rightarrow> mailbox_request option \<times> string option" where
  "parse_request L json_content file_path =
     (case json_parse L json_content of
        Inl e \<Rightarrow> (None, Some (''JSON parse error: '' @ jl_what L e))
      | Inr j \<Rightarrow>
          (case string_member j ''requestId'' of
             None \<Rightarrow> (None, Some ''missing requestId'')
           | Some request_id \<Rightarrow>
          (case string_member j ''clientId'' of
             None \<Rightarrow> (None, Some ''missing clientId'')
           | Some client_id \<Rightarrow>
          (case string_member j ''command'' of
             None \<Rightarrow> (None, Some ''missing command'')
           | Some command \<Rightarrow>
          (case ebind (jvalue (get_i64 L) j ''timestampMs'' 0) (\<lambda>t.
                ebind (jvalue (get_i64 L) j ''deadlineMs'' 0) (\<lambda>d. Inr (t, d))) of
             Inl e \<Rightarrow> (None, Some (''JSON parse error: '' @ jl_what L e))
           | Inr (timestamp, deadline) \<Rightarrow>
               (Some \<lparr>mr_request_id = request_id, mr_client_id = client_id,
                      mr_command = parse_command command, mr_timestamp_ms = timestamp,
                      mr_deadline_ms = deadline,
                      mr_payload_json =
                        (case jmember j ''payload'' of
                           Some (JObj m) \<Rightarrow> jl_dump L (- 1) (JObj m)
                         | _ \<Rightarrow> ''{}''),
                      mr_file_path = file_path\<rparr>, None))))))"

definition read_request_file ::
  "json_lib \<Rightarrow> path \<Rightarrow> 's mailbox \<Rightarrow> (mailbox_request option \<times> string option) \<times> 's mailbox" where
  "read_request_file L p m =
     (case os_read p m of
        (None, m1) \<Rightarrow> ((None, Some (''cannot open file: '' @ path_text p)), m1)
      | (Some content, m1) \<Rightarrow> (parse_request L content p, m1))"

section \<open>Responses\<close>

definition build_success_response :: "string \<Rightarrow> string \<Rightarrow> mailbox_response" where
  "build_success_response request_id data_json =
     \<lparr>rs_request_id = request_id, rs_ok = True, rs_data_json = data_json, rs_error_code = [],
      rs_error_message = []\<rparr>"

definition build_error_response :: "string \<Rightarrow> string \<Rightarrow> string \<Rightarrow> mailbox_response" where
  "build_error_response request_id error_code error_message =
     \<lparr>rs_request_id = request_id, rs_ok = False, rs_data_json = [], rs_error_code = error_code,
      rs_error_message = error_message\<rparr>"

definition response_json :: "json_lib \<Rightarrow> mailbox_response \<Rightarrow> json" where
  "response_json L r =
     (if rs_ok r then
        jobj [(''requestId'', JStr (rs_request_id r)), (''ok'', JBool True),
              (''data'', case json_parse L (rs_data_json r) of Inl _ \<Rightarrow> jobj [] | Inr j \<Rightarrow> j)]
      else
        jobj [(''requestId'', JStr (rs_request_id r)), (''ok'', JBool False),
              (''error'', jobj [(''code'', JStr (rs_error_code r)),
                                (''message'', JStr (rs_error_message r))])])"

definition write_response_file ::
  "json_lib \<Rightarrow> string \<Rightarrow> mailbox_response \<Rightarrow> 's mailbox \<Rightarrow> res \<times> 's mailbox" where
  "write_response_file L client_id r m =
     (let (target, m1) = build_response_path client_id (rs_request_id r @ ''.json'') m
      in atomic_write target (jl_dump L 2 (response_json L r)) m1)"

section \<open>Moving request files\<close>

definition move_to_processing :: "path \<Rightarrow> 's mailbox \<Rightarrow> (path \<times> string option) \<times> 's mailbox" where
  "move_to_processing f m =
     (let dest = mb_build_path (mb_config m) (mc_processing_dir (mb_config m)) (last f)
      in case os_rename f dest m of
           (Some e, m1) \<Rightarrow> (([], Some (''move failed: '' @ e)), m1)
         | (None, m1) \<Rightarrow> ((dest, None), m1))"

definition move_to_dead :: "json_lib \<Rightarrow> path \<Rightarrow> string \<Rightarrow> 's mailbox \<Rightarrow> res \<times> 's mailbox" where
  "move_to_dead L f reason m =
     (let dest = mb_build_path (mb_config m) (mc_dead_dir (mb_config m)) (last f)
      in case os_rename f dest m of
           (Some e, m1) \<Rightarrow> (err_res (''move to dead failed: '' @ e), m1)
         | (None, m1) \<Rightarrow>
             let (now, m2) = now_ms m1;
                 (_, m3) = os_write (with_suffix dest ''.reason'')
                   (jl_dump L 2 (jobj [(''reason'', JStr reason), (''movedAt'', JInt now)])) m2
             in (ok_res, m3))"

definition delete_processed :: "path \<Rightarrow> 's mailbox \<Rightarrow> res \<times> 's mailbox" where
  "delete_processed f m = delete_file f m"

section \<open>Metrics\<close>

definition record_request_start :: "'s mailbox \<Rightarrow> int \<times> 's mailbox" where
  "record_request_start m = now_ms m"

text \<open>The counters an outcome adds to, and the counter of the command.\<close>

definition count_outcome :: "bool \<Rightarrow> string \<Rightarrow> mailbox_metrics \<Rightarrow> mailbox_metrics" where
  "count_outcome success error_code k =
     (if success then k\<lparr>mm_success_count := mm_success_count k + 1\<rparr>
      else
        let k1 = k\<lparr>mm_error_count := mm_error_count k + 1\<rparr>
        in if error_code = parse_error \<or> error_code = invalid_request
           then k1\<lparr>mm_parse_errors := mm_parse_errors k1 + 1\<rparr>
           else if error_code = validation_failed
           then k1\<lparr>mm_validation_errors := mm_validation_errors k1 + 1\<rparr>
           else if error_code = timeout_error
           then k1\<lparr>mm_timeout_errors := mm_timeout_errors k1 + 1\<rparr>
           else k1\<lparr>mm_internal_errors := mm_internal_errors k1 + 1\<rparr>)"

fun count_command :: "mailbox_command \<Rightarrow> mailbox_metrics \<Rightarrow> mailbox_metrics" where
  "count_command Publish k = k\<lparr>mm_publish_count := mm_publish_count k + 1\<rparr>"
| "count_command ConsumeNext k = k\<lparr>mm_consume_count := mm_consume_count k + 1\<rparr>"
| "count_command Ack k = k\<lparr>mm_ack_count := mm_ack_count k + 1\<rparr>"
| "count_command Nack k = k\<lparr>mm_nack_count := mm_nack_count k + 1\<rparr>"
| "count_command Status k = k\<lparr>mm_status_count := mm_status_count k + 1\<rparr>"
| "count_command Health k = k\<lparr>mm_health_count := mm_health_count k + 1\<rparr>"
| "count_command ListDlq k = k\<lparr>mm_dlq_count := mm_dlq_count k + 1\<rparr>"
| "count_command ReprocessDlq k = k\<lparr>mm_dlq_count := mm_dlq_count k + 1\<rparr>"
| "count_command _ k = k"

definition record_request_end ::
  "mailbox_command \<Rightarrow> bool \<Rightarrow> string \<Rightarrow> int \<Rightarrow> 's mailbox \<Rightarrow> 's mailbox" where
  "record_request_end command success error_code start_time m =
     (let (now, m1) = now_ms m;
          k = mb_metrics m1;
          k1 = k\<lparr>mm_total_requests := mm_total_requests k + 1,
                 mm_total_processing_time_ms :=
                   mm_total_processing_time_ms k + word_of_int (now - start_time),
                 mm_last_request_time_ms := word_of_int now\<rparr>
      in m1\<lparr>mb_metrics := count_command command (count_outcome success error_code k1)\<rparr>)"

section \<open>Command handlers\<close>

text \<open>The \<open>catch\<close> clause the handlers share.\<close>

definition exception_response :: "json_lib \<Rightarrow> mailbox_request \<Rightarrow> json_exc \<Rightarrow> mailbox_response" where
  "exception_response L request e =
     build_error_response (mr_request_id request) parse_error (jl_what L e)"

fun join_errors :: "string \<Rightarrow> string list \<Rightarrow> string" where
  "join_errors acc [] = acc"
| "join_errors acc (e # es) = join_errors (if acc = [] then e else acc @ ''; '' @ e) es"

definition publish_content :: "json_lib \<Rightarrow> json \<Rightarrow> json_exc + string \<times> string \<times> int" where
  "publish_content L payload =
     ebind (jvalue get_string payload ''message'' ''{}'') (\<lambda>message.
     ebind (jvalue get_string payload ''attributes'' ''{}'') (\<lambda>attributes.
     ebind (jvalue (get_i32 L) payload ''priority'' 0) (\<lambda>priority.
       Inr (message, attributes, priority))))"

definition publish_routing :: "json_lib \<Rightarrow> json \<Rightarrow> json_exc + string \<times> int" where
  "publish_routing L payload =
     ebind (jvalue get_string payload ''targetConsumerId'' []) (\<lambda>target.
     ebind (jvalue (get_i64 L) payload ''delayMs'' 0) (\<lambda>delay_ms.
       Inr (target, delay_ms)))"

definition publish_envelope ::
  "string \<Rightarrow> string \<Rightarrow> string \<times> string \<times> int \<Rightarrow> int \<Rightarrow> string \<times> int \<Rightarrow> message" where
  "publish_envelope queue i content now routing =
     (let (message, attributes, priority) = content; (target, delay_ms) = routing
      in \<lparr>m_key = msg_key queue i, m_message_id = i, m_queue = queue, m_payload_json = message,
          m_attributes_json = attributes, m_priority = priority, m_attempt = 0,
          m_created_at_ms = now, m_available_at_ms = i64 (now + delay_ms),
          m_target_consumer_id = target\<rparr>)"

definition handle_publish ::
  "json_lib \<Rightarrow> validator_env \<Rightarrow> 's backend \<Rightarrow> mailbox_request \<Rightarrow> 's mailbox \<Rightarrow>
     mailbox_response \<times> 's mailbox" where
  "handle_publish L env B request m =
     (case json_parse L (mr_payload_json request) of
        Inl e \<Rightarrow> (exception_response L request e, m)
      | Inr payload \<Rightarrow>
          (case string_member payload ''queue'' of
             None \<Rightarrow>
               (build_error_response (mr_request_id request) invalid_request ''missing queue in payload'', m)
           | Some queue \<Rightarrow>
               let (message_id, m1) = fresh_guid m
               in case publish_content L payload of
                    Inl e \<Rightarrow> (exception_response L request e, m1)
                  | Inr content \<Rightarrow>
                      let (now, m2) = now_ms m1
                      in case publish_routing L payload of
                           Inl e \<Rightarrow> (exception_response L request e, m2)
                         | Inr routing \<Rightarrow>
                             let envelope = publish_envelope queue message_id content now routing;
                                 validation = validate L env (mb_validator m2) envelope
                             in if has_schema (mb_validator m2) queue \<and> \<not> res_valid validation then
                                  (build_error_response (mr_request_id request) validation_failed
                                     (join_errors [] (res_errors validation)), m2)
                                else
                                  let (r, m3) = on_backend (be_enqueue B envelope) m2
                                  in if \<not> fst r then
                                       (build_error_response (mr_request_id request) internal_error
                                          (value_or (snd r) ''enqueue failed''), m3)
                                     else
                                       (build_success_response (mr_request_id request)
                                          (jl_dump L (- 1) (jobj
                                             [(''messageId'', JStr message_id),
                                              (''messageKey'', JStr (m_key envelope))])), m3)))"

definition lease_message_json :: "message \<Rightarrow> json" where
  "lease_message_json msg = jobj
     [(''messageId'', JStr (m_message_id msg)), (''messageKey'', JStr (m_key msg)),
      (''queue'', JStr (m_queue msg)), (''payload'', JStr (m_payload_json msg)),
      (''attributes'', JStr (m_attributes_json msg)), (''priority'', JInt (m_priority msg)),
      (''attempt'', JInt (m_attempt msg)), (''createdAt'', JInt (m_created_at_ms msg))]"

definition lease_token_json :: "lease_token \<Rightarrow> json" where
  "lease_token_json lease = jobj
     [(''leaseId'', JStr (lt_lease_id lease)), (''messageKey'', JStr (lt_message_key lease)),
      (''consumerId'', JStr (lt_consumer_id lease)), (''leaseUntil'', JInt (lt_lease_until_ms lease))]"

text \<open>An object with the members that are present; null when there is none.\<close>

definition lease_data_json :: "lease_result \<Rightarrow> json" where
  "lease_data_json r =
     (let kvs = (case lr_message r of None \<Rightarrow> [] | Some msg \<Rightarrow> [(''message'', lease_message_json msg)]) @
                (case lr_lease r of None \<Rightarrow> [] | Some lease \<Rightarrow> [(''lease'', lease_token_json lease)])
      in if kvs = [] then JNull else jobj kvs)"

definition handle_consume_next ::
  "json_lib \<Rightarrow> 's backend \<Rightarrow> mailbox_request \<Rightarrow> 's mailbox \<Rightarrow> mailbox_response \<times> 's mailbox" where
  "handle_consume_next L B request m =
     (case json_parse L (mr_payload_json request) of
        Inl e \<Rightarrow> (exception_response L request e, m)
      | Inr payload \<Rightarrow>
          (case string_member payload ''queue'' of
             None \<Rightarrow>
               (build_error_response (mr_request_id request) invalid_request ''missing queue in payload'', m)
           | Some queue \<Rightarrow>
               (case ebind (jvalue get_string payload ''consumerId'' (mr_client_id request)) (\<lambda>c.
                     ebind (jvalue (get_i32 L) payload ''visibilityTimeoutSec'' 30) (\<lambda>t. Inr (c, t))) of
                  Inl e \<Rightarrow> (exception_response L request e, m)
                | Inr (consumer_id, visibility) \<Rightarrow>
                    let (r, m1) = on_backend (be_lease_next B queue consumer_id visibility) m
                    in if \<not> lr_leased r then
                         (case lr_error r of
                            Some e \<Rightarrow> (build_error_response (mr_request_id request) internal_error e, m1)
                          | None \<Rightarrow>
                              (build_success_response (mr_request_id request)
                                 (jl_dump L (- 1) (jobj [(''message'', JNull)])), m1))
                       else
                         (build_success_response (mr_request_id request)
                            (jl_dump L (- 1) (lease_data_json r)), m1))))"

text \<open>The lease token the three lease commands build from the payload.\<close>

definition request_lease ::
  "mailbox_request \<Rightarrow> json \<Rightarrow> string \<Rightarrow> json_exc + lease_token" where
  "request_lease request payload key =
     ebind (jvalue get_string payload ''leaseId'' []) (\<lambda>lease_id.
     ebind (jvalue get_string payload ''consumerId'' (mr_client_id request)) (\<lambda>consumer_id.
       Inr \<lparr>lt_lease_id = lease_id, lt_message_key = key, lt_consumer_id = consumer_id,
            lt_lease_until_ms = 0\<rparr>))"

text \<open>The answer to a command that only succeeds or fails.\<close>

definition plain_answer ::
  "mailbox_request \<Rightarrow> string \<Rightarrow> res \<times> 's mailbox \<Rightarrow> mailbox_response \<times> 's mailbox" where
  "plain_answer request failed x =
     (case x of (r, m1) \<Rightarrow>
        if \<not> fst r then
          (build_error_response (mr_request_id request) internal_error (value_or (snd r) failed), m1)
        else (build_success_response (mr_request_id request) ''{}'', m1))"

definition handle_ack ::
  "json_lib \<Rightarrow> 's backend \<Rightarrow> mailbox_request \<Rightarrow> 's mailbox \<Rightarrow> mailbox_response \<times> 's mailbox" where
  "handle_ack L B request m =
     (case json_parse L (mr_payload_json request) of
        Inl e \<Rightarrow> (exception_response L request e, m)
      | Inr payload \<Rightarrow>
          (case string_member payload ''messageKey'' of
             None \<Rightarrow>
               (build_error_response (mr_request_id request) invalid_request
                  ''missing messageKey in payload'', m)
           | Some key \<Rightarrow>
               (case request_lease request payload key of
                  Inl e \<Rightarrow> (exception_response L request e, m)
                | Inr lease \<Rightarrow> plain_answer request ''ack failed'' (on_backend (be_ack B lease) m))))"

definition handle_nack ::
  "json_lib \<Rightarrow> 's backend \<Rightarrow> mailbox_request \<Rightarrow> 's mailbox \<Rightarrow> mailbox_response \<times> 's mailbox" where
  "handle_nack L B request m =
     (case json_parse L (mr_payload_json request) of
        Inl e \<Rightarrow> (exception_response L request e, m)
      | Inr payload \<Rightarrow>
          (case string_member payload ''messageKey'' of
             None \<Rightarrow>
               (build_error_response (mr_request_id request) invalid_request
                  ''missing messageKey in payload'', m)
           | Some key \<Rightarrow>
               (case ebind (request_lease request payload key) (\<lambda>lease.
                     ebind (jvalue get_string payload ''reason'' []) (\<lambda>reason.
                     ebind (jvalue get_bool payload ''requeue'' False) (\<lambda>requeue.
                       Inr (lease, reason, requeue)))) of
                  Inl e \<Rightarrow> (exception_response L request e, m)
                | Inr (lease, reason, requeue) \<Rightarrow>
                    plain_answer request ''nack failed'' (on_backend (be_nack B lease reason requeue) m))))"

definition handle_extend_lease ::
  "json_lib \<Rightarrow> 's backend \<Rightarrow> mailbox_request \<Rightarrow> 's mailbox \<Rightarrow> mailbox_response \<times> 's mailbox" where
  "handle_extend_lease L B request m =
     (case json_parse L (mr_payload_json request) of
        Inl e \<Rightarrow> (exception_response L request e, m)
      | Inr payload \<Rightarrow>
          (case string_member payload ''messageKey'' of
             None \<Rightarrow>
               (build_error_response (mr_request_id request) invalid_request
                  ''missing messageKey in payload'', m)
           | Some key \<Rightarrow>
               (case ebind (request_lease request payload key) (\<lambda>lease.
                     ebind (jvalue (get_i32 L) payload ''visibilityTimeoutSec'' 30) (\<lambda>t.
                       Inr (lease, t))) of
                  Inl e \<Rightarrow> (exception_response L request e, m)
                | Inr (lease, visibility) \<Rightarrow>
                    plain_answer request ''extend_lease failed''
                      (on_backend (be_extend_lease B lease visibility) m))))"

definition status_policy_json :: "queue_policy \<Rightarrow> json" where
  "status_policy_json p = jobj
     [(''visibilityTimeoutSec'', JInt (qp_visibility_timeout_sec p)),
      (''retry'', jobj
         [(''limit'', JInt (rp_limit (qp_retry p))), (''backoff'', JStr (rp_backoff (qp_retry p))),
          (''initialDelaySec'', JInt (rp_initial_delay_sec (qp_retry p))),
          (''maxDelaySec'', JInt (rp_max_delay_sec (qp_retry p)))]),
      (''dlq'', jobj
         [(''enabled'', JBool (dp_enabled (qp_dlq p))), (''queue'', JStr (dp_queue (qp_dlq p))),
          (''retentionDays'', JInt (dp_retention_days (qp_dlq p)))])]"

definition handle_status ::
  "json_lib \<Rightarrow> 's backend \<Rightarrow> mailbox_request \<Rightarrow> 's mailbox \<Rightarrow> mailbox_response \<times> 's mailbox" where
  "handle_status L B request m =
     (case json_parse L (mr_payload_json request) of
        Inl e \<Rightarrow> (exception_response L request e, m)
      | Inr payload \<Rightarrow>
          (case string_member payload ''queue'' of
             None \<Rightarrow>
               (build_error_response (mr_request_id request) invalid_request ''missing queue in payload'', m)
           | Some queue \<Rightarrow>
               let ((k, err), m1) = on_backend (be_metrics B queue) m
               in case err of
                    Some e \<Rightarrow> (build_error_response (mr_request_id request) internal_error e, m1)
                  | None \<Rightarrow>
                      let policy = (if mb_has_manager m1 then qm_get_policy queue (mb_manager m1) else None)
                      in (build_success_response (mr_request_id request)
                            (jl_dump L (- 1) (jobj
                               ([(''queue'', JStr queue),
                                 (''metrics'', jobj
                                    [(''ready'', JInt (int (qm_ready k))),
                                     (''inflight'', JInt (int (qm_inflight k))),
                                     (''delayed'', JInt (int (qm_delayed k))),
                                     (''dlq'', JInt (int (qm_dlq k)))])] @
                                (case policy of None \<Rightarrow> []
                                 | Some p \<Rightarrow> [(''policy'', status_policy_json p)])))), m1)))"

definition handle_health ::
  "json_lib \<Rightarrow> mailbox_request \<Rightarrow> 's mailbox \<Rightarrow> mailbox_response \<times> 's mailbox" where
  "handle_health L request m =
     (let (now, m1) = now_ms m
      in (build_success_response (mr_request_id request)
            (jl_dump L (- 1) (jobj [(''status'', JStr ''ok''), (''timestamp'', JInt now)])), m1))"

definition word_json :: "64 word \<Rightarrow> json" where
  "word_json w = JInt (uint w)"

definition metrics_json :: "int \<Rightarrow> mailbox_metrics \<Rightarrow> json" where
  "metrics_json now k = jobj
     [(''timestamp'', JInt now),
      (''uptimeMs'', JInt (i64 (now - mm_start_time_ms k))),
      (''requests'', jobj
         [(''total'', word_json (mm_total_requests k)), (''success'', word_json (mm_success_count k)),
          (''error'', word_json (mm_error_count k))]),
      (''commands'', jobj
         [(''publish'', word_json (mm_publish_count k)), (''consume'', word_json (mm_consume_count k)),
          (''ack'', word_json (mm_ack_count k)), (''nack'', word_json (mm_nack_count k)),
          (''status'', word_json (mm_status_count k)), (''health'', word_json (mm_health_count k)),
          (''dlq'', word_json (mm_dlq_count k))]),
      (''errors'', jobj
         [(''parse'', word_json (mm_parse_errors k)),
          (''validation'', word_json (mm_validation_errors k)),
          (''timeout'', word_json (mm_timeout_errors k)),
          (''internal'', word_json (mm_internal_errors k))]),
      (''timing'', jobj
         [(''totalProcessingMs'', word_json (mm_total_processing_time_ms k)),
          (''avgProcessingMs'', JFloat
             (if mm_total_requests k > 0 then
                round_double (round_double (of_int (uint (mm_total_processing_time_ms k))) /
                  round_double (of_int (uint (mm_total_requests k))))
              else 0)),
          (''lastRequestMs'', word_json (mm_last_request_time_ms k))])]"

definition handle_metrics ::
  "json_lib \<Rightarrow> mailbox_request \<Rightarrow> 's mailbox \<Rightarrow> mailbox_response \<times> 's mailbox" where
  "handle_metrics L request m =
     (let (now, m1) = now_ms m
      in (build_success_response (mr_request_id request)
            (jl_dump L (- 1) (metrics_json now (mb_metrics m1))), m1))"

definition dlq_entry_json :: "dlq_message_info \<Rightarrow> json" where
  "dlq_entry_json msg = jobj
     [(''messageKey'', JStr (di_message_key msg)), (''queue'', JStr (di_queue msg)),
      (''reason'', JStr (di_reason msg)), (''dlqAt'', JInt (di_dlq_at_ms msg)),
      (''attempt'', JInt (di_attempt msg))]"

definition handle_list_dlq ::
  "json_lib \<Rightarrow> 's backend \<Rightarrow> mailbox_request \<Rightarrow> 's mailbox \<Rightarrow> mailbox_response \<times> 's mailbox" where
  "handle_list_dlq L B request m =
     (case json_parse L (mr_payload_json request) of
        Inl e \<Rightarrow> (exception_response L request e, m)
      | Inr payload \<Rightarrow>
          (case string_member payload ''queue'' of
             None \<Rightarrow>
               (build_error_response (mr_request_id request) invalid_request ''missing queue in payload'', m)
           | Some queue \<Rightarrow>
               (case jvalue (get_i32 L) payload ''limit'' 100 of
                  Inl e \<Rightarrow> (exception_response L request e, m)
                | Inr limit \<Rightarrow>
                    let ((msgs, err), m1) = on_backend (be_list_dlq_messages B queue limit) m
                    in case err of
                         Some e \<Rightarrow> (build_error_response (mr_request_id request) internal_error e, m1)
                       | None \<Rightarrow>
                           (build_success_response (mr_request_id request)
                              (jl_dump L (- 1) (jobj
                                 [(''queue'', JStr queue), (''count'', JInt (int (length msgs))),
                                  (''messages'', JArr (map dlq_entry_json msgs))])), m1))))"

definition handle_reprocess_dlq ::
  "json_lib \<Rightarrow> 's backend \<Rightarrow> mailbox_request \<Rightarrow> 's mailbox \<Rightarrow> mailbox_response \<times> 's mailbox" where
  "handle_reprocess_dlq L B request m =
     (case json_parse L (mr_payload_json request) of
        Inl e \<Rightarrow> (exception_response L request e, m)
      | Inr payload \<Rightarrow>
          (case string_member payload ''messageKey'' of
             None \<Rightarrow>
               (build_error_response (mr_request_id request) invalid_request
                  ''missing messageKey in payload'', m)
           | Some key \<Rightarrow>
               let (r, m1) = on_backend (be_reprocess_dlq_message B key) m
               in if \<not> fst r then
                    (build_error_response (mr_request_id request) dlq_not_found
                       (value_or (snd r) ''failed to reprocess DLQ message''), m1)
                  else
                    (build_success_response (mr_request_id request)
                       (jl_dump L (- 1) (jobj
                          [(''messageKey'', JStr key), (''reprocessed'', JBool True)])), m1)))"

definition handle_request ::
  "json_lib \<Rightarrow> validator_env \<Rightarrow> 's backend \<Rightarrow> mailbox_request \<Rightarrow> 's mailbox \<Rightarrow>
     mailbox_response \<times> 's mailbox" where
  "handle_request L env B request m =
     (case mr_command request of
        Publish \<Rightarrow> handle_publish L env B request m
      | ConsumeNext \<Rightarrow> handle_consume_next L B request m
      | Ack \<Rightarrow> handle_ack L B request m
      | Nack \<Rightarrow> handle_nack L B request m
      | ExtendLease \<Rightarrow> handle_extend_lease L B request m
      | Status \<Rightarrow> handle_status L B request m
      | Health \<Rightarrow> handle_health L request m
      | Metrics \<Rightarrow> handle_metrics L request m
      | ListDlq \<Rightarrow> handle_list_dlq L B request m
      | ReprocessDlq \<Rightarrow> handle_reprocess_dlq L B request m
      | Unknown \<Rightarrow>
          (build_error_response (mr_request_id request) unknown_command ''unknown command'', m))"

section \<open>Workers\<close>

text \<open>One request file: the body of the two processing loops.\<close>

definition process_request_file ::
  "json_lib \<Rightarrow> validator_env \<Rightarrow> 's backend \<Rightarrow> path \<Rightarrow> 's mailbox \<Rightarrow> 's mailbox" where
  "process_request_file L env B f m =
     (case move_to_processing f m of
        ((p, Some _), m1) \<Rightarrow> m1
      | ((p, None), m1) \<Rightarrow>
          (case read_request_file L p m1 of
             ((None, e), m2) \<Rightarrow> snd (move_to_dead L p (value_or e ''parse error'') m2)
           | ((Some request, _), m2) \<Rightarrow>
               let (start_time, m3) = record_request_start m2; (now, m4) = now_ms m3
               in if mr_deadline_ms request > 0 \<and> now > mr_deadline_ms request then
                    record_request_end (mr_command request) False timeout_error start_time
                      (snd (move_to_dead L p ''deadline exceeded'' m4))
                  else
                    let (response, m5) = handle_request L env B request m4;
                        m6 = record_request_end (mr_command request) (rs_ok response)
                               (rs_error_code response) start_time m5;
                        (_, m7) = write_response_file L (mr_client_id request) response m6;
                        (_, m8) = delete_processed p m7
                    in m8))"

text \<open>A batch of request files; the running flag is tested before each. Files that came from the
  watcher are checked to still exist.\<close>

fun process_batch ::
  "json_lib \<Rightarrow> validator_env \<Rightarrow> 's backend \<Rightarrow> bool \<Rightarrow> bool list \<Rightarrow> path list \<Rightarrow> 's mailbox \<Rightarrow> 's mailbox"
where
  "process_batch L env B check (running # rs) (f # fs) m =
     (if \<not> running then m
      else process_batch L env B check rs fs
             (if check \<and> \<not> fexists m f then m else process_request_file L env B f m))"
| "process_batch L env B check _ _ m = m"

definition process_pending_requests ::
  "json_lib \<Rightarrow> validator_env \<Rightarrow> 's backend \<Rightarrow> bool list \<Rightarrow> 's mailbox \<Rightarrow> 's mailbox" where
  "process_pending_requests L env B rs m =
     process_batch L env B True rs (mb_pending m) (m\<lparr>mb_pending := []\<rparr>)"

definition on_file_changed :: "string \<Rightarrow> string \<Rightarrow> bool \<Rightarrow> 's mailbox \<Rightarrow> 's mailbox" where
  "on_file_changed dir filename added m =
     (if \<not> added then m
      else if length filename < 5 \<or> drop (length filename - 5) filename \<noteq> ''.json'' then m
      else m\<lparr>mb_pending := mb_pending m @ [path_append (to_path dir) filename]\<rparr>)"

text \<open>One pass of the worker's loop after the running flag was found set. With the watcher, the flag
  is tested again after the wait.\<close>

definition worker_pass ::
  "json_lib \<Rightarrow> validator_env \<Rightarrow> 's backend \<Rightarrow> bool list \<Rightarrow> 's mailbox \<Rightarrow> 's mailbox" where
  "worker_pass L env B rs m =
     (if mc_use_folder_watcher (mb_config m) then
        (case rs of
           [] \<Rightarrow> m
         | running # rs' \<Rightarrow> if \<not> running then m else process_pending_requests L env B rs' m)
      else
        let (fs, m1) = list_json_files (mb_build_path (mb_config m) (mc_requests_dir (mb_config m)) []) m
        in process_batch L env B False rs fs m1)"

fun worker_loop ::
  "json_lib \<Rightarrow> validator_env \<Rightarrow> 's backend \<Rightarrow> (bool \<times> bool list) list \<Rightarrow> 's mailbox \<Rightarrow> 's mailbox" where
  "worker_loop L env B [] m = m"
| "worker_loop L env B ((running, rs) # passes) m =
     (if running then worker_loop L env B passes (worker_pass L env B rs m) else m)"

definition request_processing_worker ::
  "json_lib \<Rightarrow> validator_env \<Rightarrow> 's backend \<Rightarrow> (bool \<times> bool list) list \<Rightarrow> 's mailbox \<Rightarrow> 's mailbox" where
  "request_processing_worker L env B passes m =
     (let (fs, m1) = list_json_files (mb_build_path (mb_config m) (mc_requests_dir (mb_config m)) []) m
      in worker_loop L env B passes (m1\<lparr>mb_pending := mb_pending m1 @ fs\<rparr>))"

section \<open>Stale files\<close>

text \<open>The age of a file in milliseconds, as the clock and the time of its last write give it; None
  when the time cannot be read. It is an argument: the file times are not part of the file store.\<close>

definition clean_request :: "json_lib \<Rightarrow> (path \<Rightarrow> int option) \<Rightarrow> path \<Rightarrow> 's mailbox \<Rightarrow> 's mailbox" where
  "clean_request L age f m =
     (case age f of
        None \<Rightarrow> m
      | Some a \<Rightarrow>
          if a > mc_stale_timeout_ms (mb_config m) then snd (move_to_dead L f ''stale timeout'' m) else m)"

definition cleanup_stale_requests ::
  "json_lib \<Rightarrow> (path \<Rightarrow> int option) \<Rightarrow> 's mailbox \<Rightarrow> 's mailbox" where
  "cleanup_stale_requests L age m =
     (let (_, m1) = now_ms m;
          (fs, m2) = list_json_files (mb_build_path (mb_config m1) (mc_processing_dir (mb_config m1)) []) m1
      in fold (clean_request L age) fs m2)"

definition clean_response :: "(path \<Rightarrow> int option) \<Rightarrow> path \<Rightarrow> 's mailbox \<Rightarrow> 's mailbox" where
  "clean_response age f m =
     (case age f of
        None \<Rightarrow> m
      | Some a \<Rightarrow> if a > 300000 then snd (os_remove f m) else m)"

definition clean_client :: "(path \<Rightarrow> int option) \<Rightarrow> path \<Rightarrow> 's mailbox \<Rightarrow> 's mailbox" where
  "clean_client age d m = (let (fs, m1) = list_json_files d m in fold (clean_response age) fs m1)"

definition cleanup_stale_responses :: "(path \<Rightarrow> int option) \<Rightarrow> 's mailbox \<Rightarrow> 's mailbox" where
  "cleanup_stale_responses age m =
     (let (ds, m1) = os_list_dirs (mb_build_path (mb_config m) (mc_responses_dir (mb_config m)) []) m
      in fold (clean_client age) ds m1)"

fun stale_cleanup_worker ::
  "json_lib \<Rightarrow> (bool \<times> (path \<Rightarrow> int option)) list \<Rightarrow> 's mailbox \<Rightarrow> 's mailbox" where
  "stale_cleanup_worker L [] m = m"
| "stale_cleanup_worker L ((running, age) # passes) m =
     (if running then
        stale_cleanup_worker L passes (cleanup_stale_responses age (cleanup_stale_requests L age m))
      else m)"

end
