(* ===== verification/Mailbox_Safety.thy ===== *)
theory Mailbox_Safety
  imports Mailbox_Handler
begin

text \<open>
  What a mailbox request does to the messages the adapter holds, for every adapter that fulfils the
  contract \<open>message_store\<close>: each handler makes at most one call on the adapter (the lemmas \<open>*_call\<close>),
  and the law of that call gives the effect.
\<close>

abbreviation mb_backend :: "'s mailbox \<Rightarrow> 's" where
  "mb_backend m \<equiv> qm_backend (mb_manager m)"

definition payload_member :: "json_lib \<Rightarrow> mailbox_request \<Rightarrow> string \<Rightarrow> string option" where
  "payload_member L request k =
     (case json_parse L (mr_payload_json request) of Inl _ \<Rightarrow> None | Inr j \<Rightarrow> string_member j k)"

lemma on_backend_eq:
  "on_backend f m = (fst (f (mb_backend m)),
     m\<lparr>mb_manager := (mb_manager m)\<lparr>qm_backend := snd (f (mb_backend m))\<rparr>\<rparr>)"
  by (simp add: on_backend_def split: prod.split)

lemma fresh_guid_mailbox [simp]: "mb_manager (snd (fresh_guid m)) = mb_manager m"
  by (simp add: fresh_guid_def)

lemma now_ms_mailbox [simp]: "mb_manager (snd (now_ms m)) = mb_manager m"
  by (simp add: now_ms_def)

lemma plain_answer_simps [simp]:
  "mb_manager (snd (plain_answer request t x)) = mb_manager (snd x)"
  "rs_ok (fst (plain_answer request t x)) = fst (fst x)"
  by (simp_all add: plain_answer_def build_error_response_def build_success_response_def split: prod.split)

lemma response_simps [simp]:
  "\<not> rs_ok (exception_response L request e)" "\<not> rs_ok (build_error_response i c t)"
  "rs_ok (build_success_response i d)"
  by (simp_all add: exception_response_def build_error_response_def build_success_response_def)

lemma request_lease_key: "request_lease request payload key = Inr lease \<Longrightarrow> lt_message_key lease = key"
  by (auto simp: request_lease_def ebind_Inr_conv)

lemma ack_call:
  assumes "handle_ack L B request m = (resp, m')"
  shows "(mb_manager m' = mb_manager m \<and> \<not> rs_ok resp) \<or>
    (\<exists>lease. payload_member L request ''messageKey'' = Some (lt_message_key lease) \<and>
       mb_backend m' = snd (be_ack B lease (mb_backend m)) \<and>
       rs_ok resp = fst (fst (be_ack B lease (mb_backend m))))"
  using assms
  by (auto simp: handle_ack_def payload_member_def plain_answer_def on_backend_eq dest!: request_lease_key
      split: sum.splits option.splits if_splits)

lemma nack_call:
  assumes "handle_nack L B request m = (resp, m')"
  shows "mb_manager m' = mb_manager m \<or>
    (\<exists>lease reason rq. payload_member L request ''messageKey'' = Some (lt_message_key lease) \<and>
       mb_backend m' = snd (be_nack B lease reason rq (mb_backend m)))"
  using assms
  by (auto simp: handle_nack_def payload_member_def plain_answer_def on_backend_eq ebind_Inr_conv
      dest!: request_lease_key split: sum.splits option.splits if_splits) blast+

lemma extend_call:
  assumes "handle_extend_lease L B request m = (resp, m')"
  shows "mb_manager m' = mb_manager m \<or>
    (\<exists>lease t. payload_member L request ''messageKey'' = Some (lt_message_key lease) \<and>
       mb_backend m' = snd (be_extend_lease B lease t (mb_backend m)))"
  using assms
  by (auto simp: handle_extend_lease_def payload_member_def plain_answer_def on_backend_eq ebind_Inr_conv
      dest!: request_lease_key split: sum.splits option.splits if_splits) blast+

lemma consume_call:
  assumes "handle_consume_next L B request m = (resp, m')"
  shows "mb_manager m' = mb_manager m \<or>
    (\<exists>queue c t. payload_member L request ''queue'' = Some queue \<and>
       mb_backend m' = snd (be_lease_next B queue c t (mb_backend m)))"
  using assms
  by (auto simp: handle_consume_next_def payload_member_def on_backend_eq Let_def
      split: sum.splits option.splits if_splits) blast+

lemma status_call:
  assumes "handle_status L B request m = (resp, m')"
  shows "mb_manager m' = mb_manager m \<or>
    (\<exists>queue. mb_backend m' = snd (be_metrics B queue (mb_backend m)))"
  using assms
  by (auto simp: handle_status_def on_backend_eq Let_def
      split: sum.splits option.splits if_splits prod.splits)

lemma list_dlq_call:
  assumes "handle_list_dlq L B request m = (resp, m')"
  shows "mb_manager m' = mb_manager m \<or>
    (\<exists>queue n. mb_backend m' = snd (be_list_dlq_messages B queue n (mb_backend m)))"
  using assms
  by (auto simp: handle_list_dlq_def on_backend_eq Let_def
      split: sum.splits option.splits if_splits prod.splits) blast+

lemma reprocess_call:
  assumes "handle_reprocess_dlq L B request m = (resp, m')"
  shows "mb_manager m' = mb_manager m \<or>
    (\<exists>key. payload_member L request ''messageKey'' = Some key \<and>
       mb_backend m' = snd (be_reprocess_dlq_message B key (mb_backend m)))"
  using assms
  by (auto simp: handle_reprocess_dlq_def payload_member_def on_backend_eq Let_def
      split: sum.splits option.splits if_splits)

text \<open>The message a publish request hands to the adapter.\<close>

definition published :: "json_lib \<Rightarrow> mailbox_request \<Rightarrow> 's mailbox \<Rightarrow> message option" where
  "published L request m =
     (case json_parse L (mr_payload_json request) of
        Inl _ \<Rightarrow> None
      | Inr payload \<Rightarrow>
          (case (string_member payload ''queue'', publish_content L payload, publish_routing L payload) of
             (Some queue, Inr content, Inr routing) \<Rightarrow>
               Some (publish_envelope queue (guids m (guid_n m)) content (clock m (clock_n m)) routing)
           | _ \<Rightarrow> None))"

lemma publish_call:
  assumes "handle_publish L env B request m = (resp, m')"
  shows "(mb_manager m' = mb_manager m \<and> \<not> rs_ok resp) \<or>
    (\<exists>e. published L request m = Some e \<and>
       mb_backend m' = snd (be_enqueue B e (mb_backend m)) \<and>
       rs_ok resp = fst (fst (be_enqueue B e (mb_backend m))))"
  using assms
  by (auto simp: handle_publish_def published_def on_backend_eq Let_def fresh_guid_def now_ms_def
      split: sum.splits option.splits if_splits)

text \<open>A clock that is past the epoch and fits \<open>int64_t\<close>.\<close>

definition clock_ok :: "'a world_scheme \<Rightarrow> bool" where
  "clock_ok w \<longleftrightarrow> (\<forall>n. 0 < clock w n \<and> in_i64 (clock w n))"

lemma publish_envelope_fields:
  "m_queue (publish_envelope queue i content now routing) = queue"
  "m_message_id (publish_envelope queue i content now routing) = i"
  "m_key (publish_envelope queue i content now routing) = msg_key queue i"
  by (simp_all add: publish_envelope_def split: prod.split)

lemma publish_content_priority:
  "publish_content L payload = Inr (message, attributes, priority) \<Longrightarrow> in_i32 priority"
  by (auto simp: publish_content_def ebind_Inr_conv jvalue_def in_i32_def
      split: json.splits option.splits dest!: get_i32_range)

lemma published_well_formed:
  assumes "published L request m = Some e" "guid_source m" "clock_ok m"
  shows "well_formed_message e \<and> payload_member L request ''queue'' = Some (m_queue e) \<and>
    m_message_id e = guids m (guid_n m)"
proof -
  from assms(1) obtain payload queue content routing where p:
      "json_parse L (mr_payload_json request) = Inr payload" "string_member payload ''queue'' = Some queue"
      "publish_content L payload = Inr content"
      "e = publish_envelope queue (guids m (guid_n m)) content (clock m (clock_n m)) routing"
    by (auto simp: published_def split: sum.splits option.splits)
  obtain message attributes priority where c: "content = (message, attributes, priority)"
    by (metis prod_cases3)
  have "in_i32 priority" using publish_content_priority p(3) c by blast
  then have "msg_ranges e"
    using assms(3) p(4) c
    by (auto simp: msg_ranges_def publish_envelope_def clock_ok_def in_i32_def split: prod.split)
  moreover have "0 < m_created_at_ms e"
    using assms(3) p(4) c by (auto simp: publish_envelope_def clock_ok_def split: prod.split)
  moreover have "id_ok (guids m (guid_n m))"
    using assms(2) id_ok_guid by (metis guid_source_def)
  ultimately show ?thesis
    using p by (simp add: well_formed_message_def publish_envelope_fields payload_member_def)
qed

section \<open>Requests keep messages\<close>

context message_store
begin

text \<open>What a request must satisfy where it is handled: its queue and key are admissible, and the
  identifier a publish draws has not been used before in its queue.\<close>

definition admissible :: "json_lib \<Rightarrow> mailbox_request \<Rightarrow> 's mailbox \<Rightarrow> bool" where
  "admissible L request m \<longleftrightarrow>
     (\<forall>q. payload_member L request ''queue'' = Some q \<longrightarrow> queue_name q) \<and>
     (\<forall>k. payload_member L request ''messageKey'' = Some k \<longrightarrow> key_ok k) \<and>
     (\<forall>e. mr_command request = Publish \<longrightarrow> published L request m = Some e \<longrightarrow>
        fresh (mb_backend m) (m_queue e) (m_message_id e))"

lemma keeps_same: "inv (mb_backend m) \<Longrightarrow> mb_manager m' = mb_manager m \<Longrightarrow> keeps (mb_backend m) (mb_backend m')"
  by (simp add: keeps_refl)

lemma keeps_handle:
  assumes inv: "inv (mb_backend m)" and ok: "admissible L request m"
    and run: "handle_request L env B request m = (resp, m')"
    and cmd: "mr_command request \<noteq> Publish" "mr_command request \<noteq> Ack"
  shows "keeps (mb_backend m) (mb_backend m')"
proof (cases "mr_command request")
  case ConsumeNext
  with run have "handle_consume_next L B request m = (resp, m')" by (simp add: handle_request_def)
  from consume_call [OF this] show ?thesis
    using keeps_same [OF inv] ok keeping(1) [OF inv _ prod.collapse [symmetric]]
    by (auto simp: admissible_def)
next
  case Nack
  with run have "handle_nack L B request m = (resp, m')" by (simp add: handle_request_def)
  from nack_call [OF this] show ?thesis
    using keeps_same [OF inv] ok keeping(2) [OF inv _ prod.collapse [symmetric]]
    by (auto simp: admissible_def)
next
  case ExtendLease
  with run have "handle_extend_lease L B request m = (resp, m')" by (simp add: handle_request_def)
  from extend_call [OF this] show ?thesis
    using keeps_same [OF inv] ok keeping(3) [OF inv _ prod.collapse [symmetric]]
    by (auto simp: admissible_def)
next
  case Status
  with run have "handle_status L B request m = (resp, m')" by (simp add: handle_request_def)
  from status_call [OF this] show ?thesis
    using keeps_same [OF inv] keeping(6) [OF inv prod.collapse [symmetric]] by auto
next
  case ListDlq
  with run have "handle_list_dlq L B request m = (resp, m')" by (simp add: handle_request_def)
  from list_dlq_call [OF this] show ?thesis
    using keeps_same [OF inv] keeping(11) [OF inv prod.collapse [symmetric]] by auto
next
  case ReprocessDlq
  with run have "handle_reprocess_dlq L B request m = (resp, m')" by (simp add: handle_request_def)
  from reprocess_call [OF this] show ?thesis
    using keeps_same [OF inv] ok keeping(12) [OF inv _ prod.collapse [symmetric]]
    by (auto simp: admissible_def)
next
  case Unknown
  with run inv show ?thesis by (auto simp: handle_request_def keeps_refl)
next
  case Health
  with run have "mb_manager m' = mb_manager m"
    by (auto simp: handle_request_def handle_health_def now_ms_def)
  with inv show ?thesis by (simp add: keeps_refl)
next
  case Metrics
  with run have "mb_manager m' = mb_manager m"
    by (auto simp: handle_request_def handle_metrics_def now_ms_def)
  with inv show ?thesis by (simp add: keeps_refl)
qed (use cmd in simp_all)

text \<open>Acknowledgements: the only command that lets go of a message, and only of the one it names,
  and only when it is answered with success.\<close>

lemma ack_effect:
  assumes inv: "inv (mb_backend m)" and ok: "admissible L request m"
    and run: "handle_request L env B request m = (resp, m')" and cmd: "mr_command request = Ack"
    and q: "queue_name q" and i: "id_ok i"
  shows "inv (mb_backend m') \<and>
    (stored (mb_backend m') q i = stored (mb_backend m) q i \<or>
     (rs_ok resp \<and> stored (mb_backend m') q i = None \<and>
      (\<exists>k. payload_member L request ''messageKey'' = Some k \<and> after_last_colon k = Some i)))"
proof -
  have "handle_ack L B request m = (resp, m')" using run cmd by (simp add: handle_request_def)
  from ack_call [OF this] show ?thesis
  proof (elim disjE exE conjE)
    assume "mb_manager m' = mb_manager m"
    with inv show ?thesis by simp
  next
    fix lease
    assume h: "payload_member L request ''messageKey'' = Some (lt_message_key lease)"
      "mb_backend m' = snd (be_ack B lease (mb_backend m))"
      "rs_ok resp = fst (fst (be_ack B lease (mb_backend m)))"
    have "key_ok (lt_message_key lease)" using ok h(1) by (simp add: admissible_def)
    from ack [OF inv this prod.collapse [symmetric]] h q i show ?thesis by auto
  qed
qed

text \<open>Publishing: the message is stored when the answer is success, every other one is as before.\<close>

lemma publish_effect:
  assumes inv: "inv (mb_backend m)" and ok: "admissible L request m"
    and env: "guid_source m" "clock_ok m"
    and run: "handle_request L e B request m = (resp, m')" and cmd: "mr_command request = Publish"
  shows "inv (mb_backend m')"
    and "rs_ok resp \<Longrightarrow> \<exists>msg. published L request m = Some msg \<and>
      stored (mb_backend m') (m_queue msg) (m_message_id msg) = Some (msg_body msg)"
    and "queue_name q \<Longrightarrow> id_ok i \<Longrightarrow> stored (mb_backend m) q i \<noteq> None \<Longrightarrow>
      stored (mb_backend m') q i = stored (mb_backend m) q i"
proof -
  have call: "handle_publish L e B request m = (resp, m')"
    using run cmd by (simp add: handle_request_def)
  have "inv (mb_backend m') \<and>
    (rs_ok resp \<longrightarrow> (\<exists>msg. published L request m = Some msg \<and>
       stored (mb_backend m') (m_queue msg) (m_message_id msg) = Some (msg_body msg))) \<and>
    (queue_name q \<longrightarrow> id_ok i \<longrightarrow> stored (mb_backend m) q i \<noteq> None \<longrightarrow>
       stored (mb_backend m') q i = stored (mb_backend m) q i)"
    using publish_call [OF call]
  proof (elim disjE exE conjE)
    assume "mb_manager m' = mb_manager m" "\<not> rs_ok resp"
    with inv show ?thesis by simp
  next
    fix msg
    assume h: "published L request m = Some msg"
      "mb_backend m' = snd (be_enqueue B msg (mb_backend m))"
      "rs_ok resp = fst (fst (be_enqueue B msg (mb_backend m)))"
    note wf = published_well_formed [OF h(1) env]
    have q': "queue_name (m_queue msg)" using wf ok by (simp add: admissible_def)
    have i': "id_ok (m_message_id msg)" using wf unfolding well_formed_message_def by blast
    have fr: "fresh (mb_backend m) (m_queue msg) (m_message_id msg)"
      using ok cmd h(1) by (simp add: admissible_def)
    have none: "stored (mb_backend m) (m_queue msg) (m_message_id msg) = None"
      using fresh_stored [OF inv q' i' fr] .
    from enqueue [OF inv _ q' fr prod.collapse [symmetric]] wf
    have eff: "inv (mb_backend m') \<and>
      (\<forall>q i. queue_name q \<longrightarrow> id_ok i \<longrightarrow> (q, i) \<noteq> (m_queue msg, m_message_id msg) \<longrightarrow>
         stored (mb_backend m') q i = stored (mb_backend m) q i) \<and>
      (rs_ok resp \<longrightarrow> stored (mb_backend m') (m_queue msg) (m_message_id msg) = Some (msg_body msg))"
      using h(2,3) by simp
    with h(1) none show ?thesis by (cases "(q, i) = (m_queue msg, m_message_id msg)") auto
  qed
  then show "inv (mb_backend m')"
    and "rs_ok resp \<Longrightarrow> \<exists>msg. published L request m = Some msg \<and>
      stored (mb_backend m') (m_queue msg) (m_message_id msg) = Some (msg_body msg)"
    and "queue_name q \<Longrightarrow> id_ok i \<Longrightarrow> stored (mb_backend m) q i \<noteq> None \<Longrightarrow>
      stored (mb_backend m') q i = stored (mb_backend m) q i"
    by blast+
qed

end

end
