(* ===== verification/Daemon.thy ===== *)
theory Daemon
  imports Mailbox_Safety
begin

text \<open>
  The daemon as a whole: the mailbox worker, the two sweeps of the queue manager and the registration
  of queues act on one adapter. Each of them holds the adapter's lock during a call, so the daemon is
  a sequence of events. The main lemma holds for every adapter that fulfils the contract; the
  theories of the adapters instantiate it.
\<close>

section \<open>Events\<close>

datatype daemon_event =
    Request mailbox_request
  | Lease_Sweep
  | Retry_Sweep
  | Register_Queue string queue_policy

definition on_manager :: "('s queue_manager \<Rightarrow> 's queue_manager) \<Rightarrow> 's mailbox \<Rightarrow> 's mailbox" where
  "on_manager f m = m\<lparr>mb_manager := f (mb_manager m)\<rparr>"

fun daemon_step ::
  "json_lib \<Rightarrow> validator_env \<Rightarrow> int \<Rightarrow> 's backend \<Rightarrow> daemon_event \<Rightarrow> 's mailbox \<Rightarrow> 's mailbox" where
  "daemon_step L env undef B (Request r) m = snd (handle_request L env B r m)"
| "daemon_step L env undef B Lease_Sweep m =
     on_manager (\<lambda>q. snd (qm_recover_expired_leases B undef q)) m"
| "daemon_step L env undef B Retry_Sweep m = on_manager (qm_process_delayed_messages B) m"
| "daemon_step L env undef B (Register_Queue q p) m = on_manager (qm_register_queue B q p) m"

text \<open>A run in which every request satisfies \<open>ok\<close> where it is handled.\<close>

fun daemon_run ::
  "(mailbox_request \<Rightarrow> 's mailbox \<Rightarrow> bool) \<Rightarrow> json_lib \<Rightarrow> validator_env \<Rightarrow> int \<Rightarrow> 's backend \<Rightarrow>
     daemon_event list \<Rightarrow> 's mailbox \<Rightarrow> 's mailbox option" where
  "daemon_run ok L env undef B [] m = Some m"
| "daemon_run ok L env undef B (ev # evs) m =
     (if (case ev of Request r \<Rightarrow> ok r m | _ \<Rightarrow> True)
      then daemon_run ok L env undef B evs (daemon_step L env undef B ev m) else None)"

text \<open>The event acknowledges a message with the identifier \<open>i\<close>.\<close>

fun acknowledges :: "json_lib \<Rightarrow> string \<Rightarrow> daemon_event \<Rightarrow> bool" where
  "acknowledges L i (Request r) =
     (mr_command r = Ack \<and>
      (case payload_member L r ''messageKey'' of None \<Rightarrow> False | Some k \<Rightarrow> after_last_colon k = Some i))"
| "acknowledges L i _ = False"

section \<open>Clock and identifiers are those of the world\<close>

definition same_source :: "'s mailbox \<Rightarrow> 's mailbox \<Rightarrow> bool" where
  "same_source m m' \<longleftrightarrow> clock m' = clock m \<and> guids m' = guids m"

lemma source_on_backend: "same_source m (snd (on_backend f m))"
  by (simp add: same_source_def on_backend_eq)

lemma source_handle: "handle_request L env B r m = (resp, m') \<Longrightarrow> same_source m m'"
  by (cases "mr_command r")
    (auto simp: handle_request_def handle_publish_def handle_consume_next_def handle_ack_def
      handle_nack_def handle_extend_lease_def handle_status_def handle_health_def handle_metrics_def
      handle_list_dlq_def handle_reprocess_dlq_def plain_answer_def on_backend_eq Let_def
      same_source_def now_ms_def fresh_guid_def
      split: sum.splits option.splits if_splits prod.splits)

lemma source_step: "same_source m (daemon_step L env undef B ev m)"
proof (cases ev)
  case (Request r)
  then show ?thesis using source_handle [of L env B r m] by (simp add: prod_eq_iff)
qed (simp_all add: same_source_def on_manager_def)

section \<open>No stored message is lost\<close>

context message_store
begin

lemma daemon_step_stored:
  assumes inv: "inv (mb_backend m)" and src: "guid_source m" "clock_ok m"
    and ok: "case ev of Request r \<Rightarrow> admissible L r m | _ \<Rightarrow> True"
    and q: "queue_name q" and i: "id_ok i" and stored: "stored (mb_backend m) q i = Some b"
    and no_ack: "\<not> acknowledges L i ev"
  shows "inv (mb_backend (daemon_step L env undef B ev m)) \<and>
    stored (mb_backend (daemon_step L env undef B ev m)) q i = Some b"
proof (cases ev)
  case (Request r)
  obtain resp m' where run: "handle_request L env B r m = (resp, m')" by (metis prod.collapse)
  have adm: "admissible L r m" using ok Request by simp
  consider (ack) "mr_command r = Ack" | (publish) "mr_command r = Publish"
    | (other) "mr_command r \<noteq> Ack" "mr_command r \<noteq> Publish" by blast
  then show ?thesis
  proof cases
    case ack
    from ack_effect [OF inv adm run ack q i] no_ack ack Request run stored show ?thesis by auto
  next
    case publish
    from publish_effect(1,3) [OF inv adm src run publish] q i stored Request run show ?thesis by simp
  next
    case other
    from keeps_handle [OF inv adm run other(2,1)] q i stored Request run show ?thesis
      by (simp add: keeps_def)
  qed
next
  case Lease_Sweep
  from keeps_qm_recover [OF inv prod.collapse [symmetric]] q i stored Lease_Sweep
  show ?thesis by (simp add: keeps_def on_manager_def)
next
  case Retry_Sweep
  from keeps_qm_process_delayed [OF inv] q i stored Retry_Sweep
  show ?thesis by (simp add: keeps_def on_manager_def)
next
  case (Register_Queue queue p)
  from keeps_qm_register [OF inv] q i stored Register_Queue
  show ?thesis by (simp add: keeps_def on_manager_def)
qed

lemma daemon_run_stored:
  assumes "daemon_run (admissible L) L env undef B evs m = Some m'"
    "inv (mb_backend m)" "guid_source m" "clock_ok m" "queue_name q" "id_ok i"
    "stored (mb_backend m) q i = Some b" "\<forall>ev \<in> set evs. \<not> acknowledges L i ev"
  shows "stored (mb_backend m') q i = Some b"
  using assms
proof (induction evs arbitrary: m)
  case (Cons ev evs)
  let ?m = "daemon_step L env undef B ev m"
  have ok: "case ev of Request r \<Rightarrow> admissible L r m | _ \<Rightarrow> True"
    and run: "daemon_run (admissible L) L env undef B evs ?m = Some m'"
    using Cons.prems(1) by (auto split: if_splits)
  have step: "inv (mb_backend ?m) \<and> stored (mb_backend ?m) q i = Some b"
    using daemon_step_stored [OF Cons.prems(2-4) ok Cons.prems(5-7)] Cons.prems(8) by simp
  have "guid_source ?m" "clock_ok ?m"
    using source_step [of m L env undef B ev] Cons.prems(3,4)
    by (simp_all add: same_source_def guid_source_def clock_ok_def)
  then show ?case using Cons.IH [OF run] step Cons.prems(5,6,8) by simp
qed simp

lemma published_message_kept:
  assumes inv: "inv (mb_backend m)" and src: "guid_source m" "clock_ok m"
    and ok: "admissible L r m" and cmd: "mr_command r = Publish"
    and run: "handle_request L env B r m = (resp, m1)" and answered: "rs_ok resp"
    and msg: "published L r m = Some msg"
    and later: "daemon_run (admissible L) L env undef B evs m1 = Some m2"
    and no_ack: "\<forall>ev \<in> set evs. \<not> acknowledges L (m_message_id msg) ev"
  shows "stored (mb_backend m2) (m_queue msg) (m_message_id msg) = Some (msg_body msg)"
proof -
  have wf: "well_formed_message msg" "payload_member L r ''queue'' = Some (m_queue msg)"
    using published_well_formed [OF msg src] by blast+
  have stored: "stored (mb_backend m1) (m_queue msg) (m_message_id msg) = Some (msg_body msg)"
    using publish_effect(2) [OF inv ok src run cmd answered] msg by auto
  have "guid_source m1" "clock_ok m1"
    using source_handle [OF run] src by (simp_all add: same_source_def guid_source_def clock_ok_def)
  moreover have "queue_name (m_queue msg)" using ok wf(2) by (simp add: admissible_def)
  moreover have "id_ok (m_message_id msg)" using wf(1) by (simp add: well_formed_message_def)
  ultimately show ?thesis
    using daemon_run_stored [OF later publish_effect(1) [OF inv ok src run cmd]] stored no_ack by blast
qed

end

end
