(* ===== verification/FileSystem_Contract.thy ===== *)
theory FileSystem_Contract
  imports FileSystem_Progress Daemon
begin

text \<open>
  The file system adapter fulfils the contract of \<open>Backend_Contract\<close>: the interpretation of
  \<open>message_store\<close> on \<open>fs_backend\<close>, from the steps of \<open>FileSystem_Lifecycle\<close>.
\<close>

definition fs_stored :: "json_lib \<Rightarrow> fs_adapter \<Rightarrow> string \<Rightarrow> string \<Rightarrow> message option" where
  "fs_stored L s q i =
     (case fs_view L s q i of None \<Rightarrow> None | Some (st, b) \<Rightarrow> if st = Archived then None else b)"

definition slash_free :: "string \<Rightarrow> bool" where
  "slash_free k \<longleftrightarrow> CHR ''/'' \<notin> set k"

definition fs_ok :: "json_lib \<Rightarrow> fs_config \<Rightarrow> fs_adapter \<Rightarrow> bool" where
  "fs_ok L cfg s \<longleftrightarrow> fs_inv L s \<and> fsa_config s = cfg"

lemma fs_okD: "fs_ok L cfg s \<Longrightarrow> fs_inv L s" "fs_ok L cfg s \<Longrightarrow> fsa_config s = cfg"
  by (simp_all add: fs_ok_def)

definition live_edges :: "edge set \<Rightarrow> bool" where
  "live_edges E \<longleftrightarrow> (\<forall>(q, i, st, st') \<in> E. st \<noteq> Archived \<and> st' \<noteq> Archived)"

lemma live_edges_simps [simp]:
  "live_edges {}"
  "st \<noteq> Archived \<Longrightarrow> st' \<noteq> Archived \<Longrightarrow> live_edges (key_edges k st st')"
  "st \<noteq> Archived \<Longrightarrow> st' \<noteq> Archived \<Longrightarrow> live_edges (any_edges st st')"
  "st \<noteq> Archived \<Longrightarrow> st' \<noteq> Archived \<Longrightarrow> live_edges (queue_edges q st st')"
  by (auto simp: live_edges_def key_edges_def any_edges_def queue_edges_def)

lemma fs_step_keeps:
  assumes "fs_ok L cfg s" "fs_step L E s s'" "live_edges E"
  shows "fs_ok L cfg s' \<and>
    (\<forall>q i. queue_ok cfg q \<longrightarrow> id_ok i \<longrightarrow> fs_stored L s' q i = fs_stored L s q i)"
proof -
  have "fs_stored L s' q i = fs_stored L s q i" if "queue_ok cfg q" "id_ok i" for q i
    using fs_step_view [OF assms(2), of q i] that assms(1,3)
    by (auto simp: moves_def fs_stored_def fs_ok_def live_edges_def)
  then show ?thesis
    using fs_step_inv [OF fs_okD(1) [OF assms(1)] assms(2)] fs_step_config [OF assms(2)] assms(1)
    by (simp add: fs_ok_def)
qed

text \<open>The keys of the reported leases come from lease files.\<close>

lemma expired_info_key:
  assumes "good_lease L c" "expired_info L now c = Inr (Some info)"
  shows "slash_free (el_message_key info)"
  using assms
  by (auto simp: good_lease_def expired_info_def json_parse_def ebind_Inr_conv slash_free_def
      split: if_splits)

lemma collect_expired_keys:
  "collect_expired L now es s = (infos, s') \<Longrightarrow> fs_inv L s \<Longrightarrow>
     \<forall>e \<in> set es. entry_of (lease_dir (fsa_config s)) e \<Longrightarrow>
     \<forall>info \<in> set infos. slash_free (el_message_key info)"
proof (induction es arbitrary: s infos)
  case (Cons e es)
  obtain c x s1 where rd: "read_file e s = ((c, x), s1)" by (metis prod.collapse)
  have s1: "fs_step L {} s s1" using step_read_file [OF Cons.prems(2) rd] .
  note inv1 = fs_step_inv [OF Cons.prems(2) s1] and cfg1 = fs_step_config [OF s1]
  obtain rest where rest: "collect_expired L now es s1 = (rest, s')"
    and mem: "infos = rest \<or> (\<exists>content info. c = Some content \<and>
        expired_info L now content = Inr (Some info) \<and> infos = info # rest)"
    using Cons.prems(1) rd by (auto split: option.splits sum.splits prod.splits)
  have tail: "\<forall>info \<in> set rest. slash_free (el_message_key info)"
    using Cons.IH [OF rest inv1] Cons.prems(3) cfg1 by simp
  have "good_lease L content" if "c = Some content" for content
    using read_file_effect [OF rd] that fs_invD(3) [OF Cons.prems(2)] Cons.prems(3)
    by (auto simp: entry_of_def intro: fm_leasesD)
  with mem tail show ?case by (auto intro: expired_info_key)
qed simp

lemma fs_get_expired_keys:
  assumes inv: "fs_inv L s" and run: "fs_get_expired_inflight_messages L s = ((infos, err), s')"
  shows "\<forall>info \<in> set infos. slash_free (el_message_key info)"
proof -
  obtain now s1 where n: "now_ms s = (now, s1)" by (cases "now_ms s")
  have s1: "fs_step L {} s s1" using step_now_ms [OF inv n] .
  note inv1 = fs_step_inv [OF inv s1]
  obtain es s2 where l: "os_list_files (build_meta_path (fsa_config s1) ''leases'') s1 = (es, s2)"
    by (metis prod.collapse)
  have s2: "fs_step L {} s1 s2" using step_os_list_files [OF inv1 l] .
  note inv2 = fs_step_inv [OF inv1 s2]
  have "\<forall>e \<in> set es. entry_of (lease_dir (fsa_config s2)) e"
    using os_list_files_effect [OF l] lease_dir_eq [OF fs_invD(2) [OF inv1]] fs_step_config [OF s2]
    by simp
  then have "\<forall>info \<in> set (fst (collect_expired L now es s2)). slash_free (el_message_key info)"
    using collect_expired_keys [OF _ inv2] by (metis prod.collapse)
  then show ?thesis
    using run n l
    by (auto simp: fs_get_expired_inflight_messages_def Let_def split: if_splits prod.splits)
qed

lemma well_formed_new:
  "well_formed_message e \<Longrightarrow> queue_ok cfg (m_queue e) \<Longrightarrow> new_message cfg e (m_queue e) (m_message_id e)"
  by (simp add: well_formed_message_def new_message_def)

lemma fs_enqueue_keeps:
  assumes ok: "fs_ok L cfg s" and e: "well_formed_message e" "queue_ok cfg (m_queue e)"
    and fresh: "fs_view L s (m_queue e) (m_message_id e) = None" and run: "fs_enqueue L e s = (r, s')"
  shows "fs_ok L cfg s' \<and>
    (\<forall>q i. queue_ok cfg q \<longrightarrow> id_ok i \<longrightarrow> (q, i) \<noteq> (m_queue e, m_message_id e) \<longrightarrow>
       fs_stored L s' q i = fs_stored L s q i) \<and>
    (fst r \<longrightarrow> fs_stored L s' (m_queue e) (m_message_id e) = Some (msg_body e))"
proof -
  have new: "new_message (fsa_config s) e (m_queue e) (m_message_id e)"
    using well_formed_new [OF e] ok by (simp add: fs_ok_def)
  from fs_enqueue_adds [OF fs_okD(1) [OF ok] new fresh run] obtain st
    where "st \<in> {Ready, Delayed}" "fs_adds L (m_queue e) (m_message_id e) st e (fst r) s s'" by blast
  then show ?thesis using ok by (auto simp: fs_adds_def fs_stored_def fs_ok_def)
qed

lemma fs_ack_keeps:
  assumes ok: "fs_ok L cfg s" and key: "slash_free (lt_message_key l)" and run: "fs_ack L l s = (r, s')"
  shows "fs_ok L cfg s' \<and>
    (\<forall>q i. queue_ok cfg q \<longrightarrow> id_ok i \<longrightarrow> fs_stored L s' q i = fs_stored L s q i \<or>
       (fst r \<and> after_last_colon (lt_message_key l) = Some i \<and> fs_stored L s' q i = None))"
proof -
  have step: "fs_step L (key_edges (lt_message_key l) Inflight Archived) s s'"
    using fs_ack_step [OF fs_okD(1) [OF ok] _ run] key by (simp add: slash_free_def)
  have ok': "fs_ok L cfg s'"
    using fs_step_inv [OF fs_okD(1) [OF ok] step] fs_step_config [OF step] ok by (simp add: fs_ok_def)
  have "fs_stored L s' q i = fs_stored L s q i \<or>
       (fst r \<and> after_last_colon (lt_message_key l) = Some i \<and> fs_stored L s' q i = None)"
    if q: "queue_ok cfg q" and i: "id_ok i" for q i
  proof (cases "fst r")
    case True
    have "queue_ok (fsa_config s) q" using q ok by (simp add: fs_ok_def)
    from fs_step_view [OF step this i] True show ?thesis
      by (auto simp: moves_def key_edges_def fs_stored_def)
  next
    case False
    then have "fget s' = fget s" using fs_ack_cases [OF run] by simp
    then show ?thesis using ok ok' by (simp add: fs_stored_def fs_view_def fs_ok_def)
  qed
  with ok' show ?thesis by blast
qed

interpretation fs: message_store "fs_backend L" "fs_ok L cfg" "fs_stored L"
  "\<lambda>s q i. fs_view L s q i = None" "queue_ok cfg" slash_free for L cfg
proof (unfold_locales, goal_cases)
  case (1 s q i)
  then show ?case by (simp add: fs_stored_def)
next
  case (2 s e r s')
  then show ?case using fs_enqueue_keeps [of L cfg s e r s'] by (simp add: fs_backend_def)
next
  case (3 s queue c t lr s')
  then have "fs_step L (queue_edges queue Ready Inflight) s s'"
    using fs_lease_next_step [OF fs_okD(1)] by (simp add: fs_backend_def fs_ok_def)
  with 3(1) show ?case by (rule fs_step_keeps) simp
next
  case (4 s l r s')
  then show ?case using fs_ack_keeps [of L cfg s l r s'] by (simp add: fs_backend_def)
next
  case (5 s l reason requeue r s')
  then have "fs_step L (key_edges (lt_message_key l) Inflight (if requeue then Ready else Dlq)) s s'"
    using fs_nack_step [OF fs_okD(1)] by (simp add: fs_backend_def slash_free_def)
  with 5(1) show ?case by (rule fs_step_keeps) simp
next
  case (6 s l t r s')
  then have "fs_step L {} s s'"
    using fs_extend_lease_step [OF fs_okD(1)] by (simp add: fs_backend_def slash_free_def)
  with 6(1) show ?case by (rule fs_step_keeps) simp
next
  case (7 s queue pr s')
  then have "fs_step L {} s s'"
    using fs_load_policy_step [OF fs_okD(1)] by (simp add: fs_backend_def)
  with 7(1) show ?case by (rule fs_step_keeps) simp
next
  case (8 s queue p r s')
  then have "fs_step L {} s s'"
    using fs_save_policy_step [OF fs_okD(1)] by (simp add: fs_backend_def)
  with 8(1) show ?case by (rule fs_step_keeps) simp
next
  case (9 s queue mr s')
  then have "fs_step L {} s s'" using fs_metrics_step [OF fs_okD(1)] by (simp add: fs_backend_def)
  with 9(1) show ?case by (rule fs_step_keeps) simp
next
  case (10 s nr s')
  then have "fs_step L (any_edges Inflight Ready) s s'"
    using fs_recover_step [OF fs_okD(1)] by (simp add: fs_backend_def)
  with 10(1) show ?case by (rule fs_step_keeps) simp
next
  case (11 s nr s')
  then have "fs_step L (any_edges Delayed Ready) s s'"
    using fs_process_delayed_step [OF fs_okD(1)] by (simp add: fs_backend_def)
  with 11(1) show ?case by (rule fs_step_keeps) simp
next
  case (12 s infos err s')
  then have run: "fs_get_expired_inflight_messages L s = ((infos, err), s')"
    by (simp add: fs_backend_def)
  have "fs_step L {} s s'" using fs_get_expired_step [OF fs_okD(1) [OF 12(1)] run] .
  from fs_step_keeps [OF 12(1) this] fs_get_expired_keys [OF fs_okD(1) [OF 12(1)] run]
  show ?case by simp
next
  case (13 s key d r s')
  then have "fs_step L (key_edges key Inflight (if d \<le> 0 then Ready else Delayed)) s s'"
    using fs_delay_message_step [OF fs_okD(1)] by (simp add: fs_backend_def slash_free_def)
  with 13(1) show ?case by (rule fs_step_keeps) simp
next
  case (14 s key reason r s')
  then have "fs_step L (key_edges key Inflight Dlq) s s'"
    using fs_move_to_dlq_step [OF fs_okD(1)] by (simp add: fs_backend_def slash_free_def)
  with 14(1) show ?case by (rule fs_step_keeps) simp
next
  case (15 s queue n dr s')
  then have "fs_step L {} s s'" using fs_list_dlq_step [OF fs_okD(1)] by (simp add: fs_backend_def)
  with 15(1) show ?case by (rule fs_step_keeps) simp
next
  case (16 s key r s')
  then have "fs_step L (key_edges key Dlq Ready) s s'"
    using fs_reprocess_step [OF fs_okD(1)] by (simp add: fs_backend_def slash_free_def)
  with 16(1) show ?case by (rule fs_step_keeps) simp
qed

end
