(* ===== verification/FileSystem_Delivery.thy ===== *)
theory FileSystem_Delivery
  imports FileSystem_Progress
begin

text \<open>
  A lease request that no system call disturbs delivers: when some message of the queue is ready
  for the consumer, \<open>lease_next\<close> hands one out and stores its lease; when there is none, it says so.
\<close>

section \<open>Steps that succeed\<close>

text \<open>The directory of the lease files exists and holds files only.\<close>

definition lease_files_only :: "fs_config \<Rightarrow> 'a world_scheme \<Rightarrow> bool" where
  "lease_files_only cfg s \<longleftrightarrow> is_dir s (lease_dir cfg) \<and> (\<forall>f. \<not> is_dir s (lease_dir cfg @ [f]))"

lemma lease_files_only_dirs: "dirs s' = dirs s \<Longrightarrow> lease_files_only cfg s' = lease_files_only cfg s"
  using is_dir_dirs [of s' s] by (simp add: lease_files_only_def)

lemma os_write_succeeds:
  assumes "no_faults s" "p \<noteq> []" "is_dir s (butlast p)" "\<not> is_dir s p"
  shows "\<exists>s'. os_write p c s = (True, s') \<and> fget s' = (fget s)(p \<mapsto> c) \<and> same_env s s' \<and> dirs s' = dirs s"
  using assms
  by (auto simp: os_write_def os_io_def no_faults_def is_dir_def same_env_def Let_def fget_def update_conv')

lemma atomic_write_succeeds:
  assumes nf: "no_faults s" and dir: "is_dir s d" "\<not> is_dir s (d @ [f])" "\<not> is_dir s (d @ [f @ ''.tmp''])"
  shows "\<exists>s'. atomic_write (d @ [f]) c s = (ok_res, s') \<and>
    fget s' = (fget s)(d @ [f @ ''.tmp''] := None, d @ [f] \<mapsto> c) \<and> same_env s s' \<and> dirs s' = dirs s"
proof -
  obtain s1 where w: "os_write (d @ [f @ ''.tmp'']) c s = (True, s1)"
      "fget s1 = (fget s)(d @ [f @ ''.tmp''] \<mapsto> c)" "same_env s s1" "dirs s1 = dirs s"
    using os_write_succeeds [of s "d @ [f @ ''.tmp'']" c] assms by auto
  obtain s2 where r: "os_rename (d @ [f @ ''.tmp'']) (d @ [f]) s1 = (None, s2)"
      "fget s2 = (fget s1)(d @ [f @ ''.tmp''] := None, d @ [f] \<mapsto> c)" "same_env s1 s2" "dirs s2 = dirs s1"
    using os_rename_ok [of s1 "d @ [f @ ''.tmp'']" c "d @ [f]"] no_faults_same [OF w(3) nf] dir w
      is_dir_dirs [OF w(4)] by auto
  have "same_env s s2" using w(3) r(3) by (rule same_env_trans)
  with w r show ?thesis by (simp add: atomic_write_def Let_def)
qed

text \<open>A lease that was written is what is stored.\<close>

lemma write_lease_meta_ok:
  assumes inv: "fs_inv L s" and nf: "no_faults s" and area: "lease_files_only (fsa_config s) s"
    and key: "CHR ''/'' \<notin> set key"
    and ranges: "in_i64 (lm_lease_until_ms meta)" "in_i32 (lm_attempt meta)"
  shows "\<exists>s'. write_lease_meta L key meta s = (ok_res, s') \<and> stored_lease L s' key = Some meta \<and> same_env s s'"
proof -
  let ?cfg = "fsa_config s"
  note cfg = fs_invD(2) [OF inv]
  note p = lease_meta_path_eq [OF cfg key]
  have d: "build_meta_path ?cfg ''leases'' = lease_dir ?cfg" using lease_dir_eq [of ?cfg] cfg by simp
  have e: "ensure_meta_dir (lease_dir ?cfg) s = s"
    using area by (simp add: ensure_meta_dir_def fexists_def lease_files_only_def)
  let ?j = "jobj [(''messageKey'', JStr key), (''consumerId'', JStr (lm_consumer_id meta)),
      (''leaseId'', JStr (lm_lease_id meta)), (''leaseUntil'', JInt (lm_lease_until_ms meta)),
      (''attempt'', JInt (lm_attempt meta)), (''queue'', JStr (lm_queue meta))]"
  obtain s' where s': "atomic_write (lease_meta_path ?cfg key) (jl_dump L 2 ?j) s = (ok_res, s')"
      "fget s' (lease_meta_path ?cfg key) = Some (jl_dump L 2 ?j)" "same_env s s'"
    using atomic_write_succeeds [OF nf, of "lease_dir ?cfg" "safe_key key @ ''.json''" "jl_dump L 2 ?j"]
      area p by (auto simp: lease_files_only_def)
  have "ebind (json_parse L (jl_dump L 2 ?j)) (lease_meta_of_json L) = Inr meta"
    using ranges fs_invD(1) [OF inv]
    by (simp add: lease_meta_of_json_def jobj_def in_i32_def in_i64_def)
  then have "stored_lease L s' key = Some meta"
    using s'(2) same_env_fs [OF s'(3)] by (simp add: stored_lease_def)
  with s' d e show ?thesis by (simp add: write_lease_meta_def Let_def)
qed

text \<open>The scan finds a message when there is one for the consumer.\<close>

lemma find_match_dirs: "find_match L c fs s = (r, s') \<Longrightarrow> dirs s' = dirs s"
proof (induction fs arbitrary: s)
  case (Cons f fs)
  obtain x e s1 where rd: "read_file f s = ((x, e), s1)" by (metis prod.collapse)
  have "s' = s1 \<or> find_match L c fs s1 = (r, s')"
    using Cons.prems rd by (auto split: option.splits prod.splits if_splits)
  then show ?case using Cons.IH [of s1] read_file_effect [OF rd] by auto
qed simp

lemma find_match_ok:
  assumes "no_faults s" "f \<in> set fs" "fget s f = Some content"
    and "fst (deserialize_envelope L content) = Some e"
    and "m_target_consumer_id e = [] \<or> m_target_consumer_id e = c"
  shows "fst (find_match L c fs s) \<noteq> None"
  using assms
proof (induction fs arbitrary: s)
  case (Cons g fs)
  obtain x y s1 where rd: "read_file g s = ((x, y), s1)" by (metis prod.collapse)
  note eff = read_file_effect [OF rd]
  have nf: "no_faults s1" using eff Cons.prems(1) no_faults_same by blast
  have "fst (find_match L c fs s1) \<noteq> None" if "f \<in> set fs"
    using Cons.IH [OF nf that] Cons.prems eff by simp
  moreover have "x = Some content" if "g = f"
    using read_file_ok [OF Cons.prems(1,3)] rd that by auto
  ultimately show ?case
    using Cons.prems rd by (auto split: option.splits prod.splits)
qed simp

section \<open>A lease that is granted\<close>

text \<open>The lease file names the consumer, the token, its end and the attempt that was handed out.\<close>

definition lease_stored :: "json_lib \<Rightarrow> string \<Rightarrow> string \<Rightarrow> lease_result \<Rightarrow> fs_adapter \<Rightarrow> bool" where
  "lease_stored L q consumer r s' \<longleftrightarrow>
     (\<exists>e l. lr_message r = Some e \<and> lr_lease r = Some l \<and>
        stored_lease L s' (lt_message_key l) = Some
          \<lparr>lm_consumer_id = consumer, lm_lease_id = lt_lease_id l,
           lm_lease_until_ms = lt_lease_until_ms l, lm_attempt = m_attempt e, lm_queue = q\<rparr>)"

text \<open>A ready message whose target is nobody or the consumer.\<close>

definition ready_for :: "json_lib \<Rightarrow> string \<Rightarrow> string \<Rightarrow> fs_adapter \<Rightarrow> bool" where
  "ready_for L q consumer s \<longleftrightarrow>
     (\<exists>i b. id_ok i \<and> fs_view L s q i = Some (Ready, Some b) \<and>
        (m_target_consumer_id b = [] \<or> m_target_consumer_id b = consumer))"

lemma ready_for_match:
  assumes inv: "fs_inv L s" and nf: "no_faults s" and qk: "queue_ok (fsa_config s) q"
    and dirs: "queue_dirs (fsa_config s) q s" and del: "ready_for L q consumer s"
    and l: "list_json_files (build_queue_path (fsa_config s) q (fc_inbox_dir (fsa_config s)) []) s = (fs, s1)"
  shows "fst (find_match L consumer fs s1) \<noteq> None"
proof -
  obtain i b where i: "id_ok i" and view: "fs_view L s q i = Some (Ready, Some b)"
    and target: "m_target_consumer_id b = [] \<or> m_target_consumer_id b = consumer"
    using del by (auto simp: ready_for_def)
  note q = qk i
  let ?cfg = "fsa_config s" and ?p = "mpath (fsa_config s) Ready q (json_name i)"
  note cfg = fs_invD(2) [OF inv]
  obtain c where c: "fget s ?p = Some c" "body_of L c = Some b"
    using view fm_view_Some [OF fs_invD(3) [OF inv] q] by (auto simp: fs_view_def)
  then obtain e where e: "fst (deserialize_envelope L c) = Some e" "b = msg_body e"
    by (auto simp: body_of_def)
  have "plain_name (fc_inbox_dir ?cfg)" using plain_state_dir [OF cfg, of Ready] by simp
  then have d: "build_queue_path ?cfg q (fc_inbox_dir ?cfg) [] = root_path ?cfg @ [q, state_dir ?cfg Ready]"
    using build_queue_dir_eq [of "fc_inbox_dir ?cfg" ?cfg q] q by simp
  have "is_dir s (root_path ?cfg @ [q, state_dir ?cfg Ready])"
    using dirs unfolding queue_dirs_def by blast
  moreover have "entry_of (root_path ?cfg @ [q, state_dir ?cfg Ready]) ?p" "has_json_ext (last ?p)"
    using q(2) plain_json_name [of i]
    by (simp_all add: entry_of_iff mpath_def id_ok_def json_name_def)
  ultimately have "?p \<in> set fs" using list_json_files_ok [OF nf c(1) _ _ _ l] d by simp
  moreover have "fget s1 = fget s" "no_faults s1"
    using list_json_files_effect [OF l] no_faults_same nf by auto
  ultimately show ?thesis
    using find_match_ok [of s1 ?p fs c L e consumer] c e target by (simp add: msg_body_def)
qed

lemma fs_lease_next_stored:
  assumes inv: "fs_inv L s" and nf: "no_faults s" and op: "fsa_is_open s"
    and q: "queue_ok (fsa_config s) q" and dirs: "queue_dirs (fsa_config s) q s"
    and area: "lease_files_only (fsa_config s) s"
    and l: "list_json_files (build_queue_path (fsa_config s) q (fc_inbox_dir (fsa_config s)) []) s = (fs, s1)"
    and fm: "find_match L consumer fs s1 = (Some (f, e), s2)"
    and run: "fs_lease_next L q consumer t s = (r, s')"
  shows "lr_leased r \<and> lease_stored L q consumer r s'"
proof -
  let ?cfg = "fsa_config s"
  note cfg = fs_invD(2) [OF inv]
  have env2: "same_env s s2" "fget s1 = fget s" "fget s2 = fget s" "dirs s2 = dirs s"
    using list_json_files_effect [OF l] find_match_same [OF fm] find_match_dirs [OF fm]
    by (auto intro: same_env_trans)
  have s2: "fs_step L {} s s2" using inv env2(1,3) by (simp add: fs_step_same)
  note inv2 = fs_step_inv [OF inv s2] and cfg2 = fs_step_config [OF s2]
  obtain content where f: "f \<in> set fs" and c: "fget s f = Some content"
      "fst (deserialize_envelope L content) = Some e"
    using find_match_Some [OF fm] env2 by auto
  have "plain_name (fc_inbox_dir ?cfg)" using plain_state_dir [OF cfg, of Ready] by simp
  note entry = entry_path [OF l this f]
  then have fq: "f = mpath ?cfg Ready q (last f)" "has_json_ext (last f)" using q by (simp_all add: mpath_def)
  then obtain i where i: "last f = json_name i" "id_ok i" "good_content L q i content"
    using fm_contentsD [OF fs_invD(3) [OF inv] q fq(2)] c(1) by metis
  have key: "m_key e = msg_key q i" "CHR ''/'' \<notin> set (m_key e)"
    using i(3) c(2) q i(2) by (auto simp: good_content_def deserialize_envelope_def json_parse_def
        queue_ok_def plain_name_def id_ok_def)
  let ?ready = "mpath ?cfg Ready q (json_name i)" and ?proc = "mpath ?cfg Inflight q (json_name i)"
  note paths = message_paths [OF cfg q i(2)]
  obtain s3 where mv: "move_file ?ready ?proc s2 = (ok_res, s3)" "same_env s2 s3" "dirs s3 = dirs s2"
    using move_message_ok [OF no_faults_same [OF env2(1) nf], of ?cfg q Ready i content Inflight]
      dirs c(1) env2 fq(1) i(1) queue_dirs_dirs [of s2 s] by auto
  have inv3: "fs_inv L s3"
    using fs_step_inv [OF inv2 step_move_file [OF inv2, of "queue_base ?cfg q" Ready "json_name i" Inflight]]
      mv(1) cfg2 q by (simp add: mpath_def)
  obtain lid s4 where gid: "fresh_guid s3 = (lid, s4)" by (metis prod.collapse)
  obtain now s5 where n: "now_ms s4 = (now, s5)" by (metis prod.collapse)
  have inv5: "fs_inv L s5"
    using fs_step_inv [OF inv3 step_fresh_guid [OF inv3 gid]] step_now_ms n fs_step_inv by metis
  have env5: "same_env s s5" "dirs s5 = dirs s"
    using gid n env2 mv by (auto simp: fresh_guid_def now_ms_def same_env_def)
  note cfg5 = same_env_fs [OF env5(1)]
  define meta where "meta = \<lparr>lm_consumer_id = consumer, lm_lease_id = lid,
    lm_lease_until_ms = i64 (now + t * 1000), lm_attempt = i32 (m_attempt e + 1), lm_queue = q\<rparr>"
  obtain s6 where w: "write_lease_meta L (m_key e) meta s5 = (ok_res, s6)"
      "stored_lease L s6 (m_key e) = Some meta" "same_env s5 s6"
    using write_lease_meta_ok [OF inv5 no_faults_same [OF env5(1) nf], of "m_key e" meta]
      area cfg5 lease_files_only_dirs [OF env5(2)] key(2) by (auto simp: meta_def)
  let ?e = "e\<lparr>m_attempt := lm_attempt meta\<rparr>"
  obtain z s7 where wr: "atomic_write ?proc (serialize_envelope L ?e) s6 = (z, s7)"
    by (metis prod.collapse)
  have st: "stored_lease L s7 (m_key e) = Some meta"
  proof -
    let ?p = "lease_meta_path ?cfg (m_key e)"
    have "with_suffix ?proc ''.tmp'' = mpath ?cfg Inflight q (json_name i @ ''.tmp'')"
      using with_suffix_snoc [of "root_path ?cfg @ [q, state_dir ?cfg Inflight]" "json_name i" "''.tmp''"]
      by (simp add: mpath_def)
    moreover have "mpath ?cfg Inflight q g \<noteq> ?p" for g
      using lease_meta_path_eq [OF cfg key(2)] mpath_not_lease [OF cfg, of Inflight q g] by auto
    ultimately have "?proc \<noteq> ?p" "with_suffix ?proc ''.tmp'' \<noteq> ?p" by simp_all
    moreover obtain x where "fget s7 = (if fst z
          then ((fget s6)(with_suffix ?proc ''.tmp'' := None))(?proc \<mapsto> serialize_envelope L ?e)
          else (fget s6)(with_suffix ?proc ''.tmp'' := x))" and "same_env s6 s7"
      by (rule atomic_write_effect [OF wr])
    ultimately have "fget s7 ?p = fget s6 ?p" "same_env s6 s7" by (simp_all split: if_splits)
    then show ?thesis using w(2,3) cfg5 same_env_fs [of s6 s7] same_env_fs [OF w(3)]
      by (simp add: stored_lease_def)
  qed
  have "r = \<lparr>lr_leased = True, lr_message = Some ?e, lr_lease = Some \<lparr>lt_lease_id = lid,
      lt_message_key = m_key e, lt_consumer_id = consumer, lt_lease_until_ms = i64 (now + t * 1000)\<rparr>,
      lr_error = None\<rparr> \<and> s' = s7"
    using run op l fm fq(1) i(1) mv(1) gid n w(1) wr paths
    by (simp add: fs_lease_next_def Let_def meta_def)
  with st show ?thesis by (simp add: lease_stored_def meta_def)
qed

lemma fs_lease_next_exact:
  assumes inv: "fs_inv L s" and nf: "no_faults s" and op: "fsa_is_open s"
    and q: "queue_ok (fsa_config s) q" and dirs: "queue_dirs (fsa_config s) q s"
    and area: "lease_files_only (fsa_config s) s"
    and run: "fs_lease_next L q consumer t s = (r, s')"
  shows "if ready_for L q consumer s
    then lr_leased r \<and> lease_given L q consumer r s s' \<and> lease_stored L q consumer r s'
    else r = no_lease \<and> fget s' = fget s"
proof -
  obtain fs s1 where l: "list_json_files (build_queue_path (fsa_config s) q (fc_inbox_dir (fsa_config s)) []) s
      = (fs, s1)" by (metis prod.collapse)
  obtain m s2 where fm: "find_match L consumer fs s1 = (m, s2)" by (metis prod.collapse)
  show ?thesis
  proof (cases m)
    case None
    then have "\<not> ready_for L q consumer s"
      using ready_for_match [where consumer = consumer, OF inv nf q dirs _ l] fm by auto
    moreover have "r = no_lease \<and> s' = s2"
      using run op l fm None by (simp add: fs_lease_next_def Let_def)
    moreover have "fget s2 = fget s"
      using list_json_files_effect [OF l] find_match_same [OF fm] by simp
    ultimately show ?thesis by simp
  next
    case (Some fe)
    then have "lr_leased r \<and> lease_stored L q consumer r s'"
      using fs_lease_next_stored [OF inv nf op q dirs area l _ run, of "fst fe" "snd fe" s2] fm by simp
    moreover from this have "lease_given L q consumer r s s'"
      using fs_lease_next_full [OF inv q run] by blast
    moreover from this have "ready_for L q consumer s"
      by (auto simp: lease_given_def ready_for_def) (auto simp: msg_body_def)
    ultimately show ?thesis by simp
  qed
qed

end
