(* ===== verification/FileSystem_Properties.thy ===== *)
theory FileSystem_Properties
  imports FileSystem_Delivery
begin

text \<open>
  Properties of the file system adapter, each with a run on a concrete store. The run is evaluated
  for every JSON library that satisfies \<open>json_ok\<close>: what was printed is parsed back by that
  hypothesis, the rest of the run is computed.
\<close>

section \<open>A concrete store\<close>

definition demo_fs_config :: fs_config where
  "demo_fs_config = \<lparr>fc_root = ''/mq'', fc_inbox_dir = ''inbox'', fc_processing_dir = ''processing'',
     fc_archive_dir = ''archive'', fc_dlq_dir = ''dlq'', fc_meta_dir = ''meta''\<rparr>"

definition demo_adapter :: fs_adapter where
  "demo_adapter = \<lparr>files = [],
     dirs = map (\<lambda>d. [''/'', ''mq''] @ d) [[''jobs''], [''jobs'', ''inbox''], [''jobs'', ''processing''],
       [''jobs'', ''archive''], [''jobs'', ''dlq''], [''jobs'', ''delayed''], [''meta''], [''meta'', ''leases''],
       [''meta'', ''delayed'']],
     clock = (\<lambda>n. 1000 * int n), clock_n = 0,
     guids = (\<lambda>n. replicate n (CHR ''g'')), guid_n = 0, fault = (\<lambda>_. None), io_n = 0,
     fsa_is_open = True, fsa_config = demo_fs_config, fsa_policies = Map.empty\<rparr>"

definition demo_message :: message where
  "demo_message = \<lparr>m_key = ''msg:jobs:m1'', m_message_id = ''m1'', m_queue = ''jobs'',
     m_payload_json = ''1'', m_attributes_json = ''{}'', m_priority = 0, m_attempt = 0,
     m_created_at_ms = 0, m_available_at_ms = 0, m_target_consumer_id = ''''\<rparr>"

definition demo_lease :: lease_token where
  "demo_lease = \<lparr>lt_lease_id = '''', lt_message_key = ''msg:jobs:m1'', lt_consumer_id = ''c'',
     lt_lease_until_ms = 0\<rparr>"

lemmas demo_defs = demo_fs_config_def demo_adapter_def demo_message_def demo_lease_def

lemma fs_inv_empty: "json_ok L \<Longrightarrow> fs_cfg_ok (fsa_config s) \<Longrightarrow> files s = [] \<Longrightarrow> fs_inv L s"
  by (simp add: fs_inv_def fm_inv_def fm_unique_def fm_contents_def fm_leases_def fget_def)

lemma demo_cfg_ok: "fs_cfg_ok demo_fs_config" "queue_ok demo_fs_config ''jobs''" "id_ok ''m1''"
  by (simp_all add: fs_cfg_ok_def queue_ok_def id_ok_def plain_name_def demo_fs_config_def)

lemma demo_inv: "json_ok L \<Longrightarrow> fs_inv L demo_adapter"
  using demo_cfg_ok by (intro fs_inv_empty) (simp_all add: demo_adapter_def)

text \<open>Rules that evaluate a run: members of printed objects are read back.\<close>

lemma ebind_parse_dump [simp]: "json_ok L \<Longrightarrow> ebind (json_parse L (jl_dump L n j)) f = f j"
  by simp

lemmas eval_rules = envelope_json_def jobj_def envelope_of_json_def Let_def in_i32_def in_i64_def

definition demo_enqueued :: "json_lib \<Rightarrow> fs_adapter" where
  "demo_enqueued L = \<lparr>
     files = [([''/'', ''mq'', ''jobs'', ''inbox'', ''m1.json''], serialize_envelope L demo_message)],
     dirs = dirs demo_adapter,
     clock = (\<lambda>n. 1000 * int n), clock_n = Suc 0,
     guids = (\<lambda>n. replicate n (CHR ''g'')), guid_n = 0, fault = (\<lambda>_. None), io_n = 2,
     fsa_is_open = True, fsa_config = demo_fs_config, fsa_policies = Map.empty\<rparr>"

lemma demo_op_ok:  "json_ok L \<Longrightarrow> op_ok L demo_adapter (Op_Enqueue demo_message)"
  using demo_cfg_ok
  by (simp add: op_ok_def new_message_def msg_ranges_def msg_key_def demo_message_def in_i32_def in_i64_def
    demo_adapter_def fs_view_def fm_view_def fget_def)

lemma demo_enqueue: "fs_enqueue L demo_message demo_adapter = (ok_res, demo_enqueued L)"
  by (simp add: demo_enqueued_def model_defs demo_defs eval_rules cong: weak_congs)


definition demo_leased :: "json_lib \<Rightarrow> fs_adapter" where
  "demo_leased L = (demo_enqueued L)\<lparr>
     files := [([''/'', ''mq'', ''jobs'', ''processing'', ''m1.json''],
          serialize_envelope L (demo_message\<lparr>m_attempt := 1\<rparr>)),
        ([''/'', ''mq'', ''meta'', ''leases'', ''msg_jobs_m1.json''],
          jl_dump L 2 (jobj
            [(''messageKey'', JStr ''msg:jobs:m1''), (''consumerId'', JStr ''c''), (''leaseId'', JStr []),
             (''leaseUntil'', JInt 31000), (''attempt'', JInt 1), (''queue'', JStr ''jobs'')]))],
     clock_n := 2, guid_n := 1, io_n := 9\<rparr>"

lemma demo_leasing: "json_ok L \<Longrightarrow> fs_lease_next L ''jobs'' ''c'' 30 (demo_enqueued L) =
   (\<lparr>lr_leased = True, lr_message = Some (demo_message\<lparr>m_attempt := 1\<rparr>),
      lr_lease = Some (demo_lease\<lparr>lt_lease_until_ms := 31000\<rparr>), lr_error = None\<rparr>, demo_leased L)"
  by (simp add: model_defs demo_defs demo_enqueued_def demo_leased_def eval_rules cong: weak_congs)

lemma demo_ack: "json_ok L \<Longrightarrow> fs_ack L demo_lease (demo_leased L) =
  (ok_res, (demo_leased L)\<lparr>files := [([''/'', ''mq'', ''jobs'', ''archive'', ''m1.json''],
          serialize_envelope L (demo_message\<lparr>m_attempt := 1\<rparr>))], clock_n := 3, io_n := 12\<rparr>)"
  by (simp add: model_defs demo_defs demo_enqueued_def demo_leased_def eval_rules cong: weak_congs)
text \<open>The facts about the two stores that the hypotheses of the properties ask for.\<close>

lemma demo_adapter_config: "fsa_config demo_adapter = demo_fs_config"
  by (simp add: demo_adapter_def)

lemma demo_enqueued_inv: "json_ok L \<Longrightarrow> fs_inv L (demo_enqueued L)"
  using fs_exec_view(1) [OF demo_inv demo_op_ok, of L "''jobs''" "''m1''"] demo_cfg_ok
  by (simp add: demo_enqueue demo_adapter_config)

lemma demo_leased_step:
  "json_ok L \<Longrightarrow> fs_step L (queue_edges ''jobs'' Ready Inflight) (demo_enqueued L) (demo_leased L)"
  using fs_lease_next_step [OF demo_enqueued_inv _ demo_leasing, of L] demo_cfg_ok
  by (simp add: demo_enqueued_def)

lemma demo_leased_inv: "json_ok L \<Longrightarrow> fs_inv L (demo_leased L)"
  using demo_leased_step demo_enqueued_inv by (blast intro: fs_step_inv)

lemma demo_leased_simps:
  "fsa_config (demo_leased L) = demo_fs_config" "fsa_is_open (demo_leased L)"
  "no_faults (demo_leased L)" "clock (demo_leased L) = (\<lambda>n. 1000 * int n)"
  "clock_n (demo_leased L) = 2" "dirs (demo_leased L) = dirs demo_adapter"
  by (simp_all add: demo_leased_def demo_enqueued_def no_faults_def)

lemma demo_msg_ranges: "msg_ranges (demo_message\<lparr>m_attempt := k\<rparr>) \<longleftrightarrow> in_i32 k"
  by (simp add: msg_ranges_def demo_message_def in_i32_def in_i64_def)

lemma demo_leased_view:
  assumes "json_ok L"
  shows "fs_view L (demo_leased L) ''jobs'' ''m1'' = Some (Inflight, Some demo_message)"
proof -
  let ?e = "demo_message\<lparr>m_attempt := 1\<rparr>"
  have "fget (demo_leased L) (mpath demo_fs_config Inflight ''jobs'' (json_name ''m1'')) =
      Some (serialize_envelope L ?e)"
    by (simp add: demo_leased_def fget_def mpath_def root_path_def demo_fs_config_def model_defs
        cong: weak_congs)
  moreover have "msg_ranges ?e" by (simp add: demo_msg_ranges in_i32_def)
  then have "body_of L (serialize_envelope L ?e) = Some (msg_body ?e)"
    using assms by (intro good_content_serialize(2) [of L ?e "''jobs''" "''m1''"])
      (simp_all add: demo_message_def msg_key_def)
  moreover have "msg_body ?e = demo_message" by (simp add: demo_message_def msg_body_def)
  ultimately show ?thesis
    using fm_view_Some [OF fs_invD(3) [OF demo_leased_inv [OF assms]], of "''jobs''" "''m1''"]
      demo_cfg_ok by (simp add: fs_view_def demo_leased_simps)
qed

lemma demo_queue_dirs: "dirs s = dirs demo_adapter \<Longrightarrow> queue_dirs demo_fs_config ''jobs'' s"
proof -
  assume d: "dirs s = dirs demo_adapter"
  have "is_dir s (root_path demo_fs_config @ [''jobs'', state_dir demo_fs_config st])" for st
    by (cases st) (simp_all add: is_dir_def d demo_adapter_def demo_fs_config_def root_path_def model_defs
        cong: weak_congs)
  moreover have "\<not> is_dir s (mpath demo_fs_config st ''jobs'' f)" for st f
    by (simp add: is_dir_def d demo_adapter_def demo_fs_config_def root_path_def mpath_def model_defs
        cong: weak_congs)
  ultimately show ?thesis by (simp add: queue_dirs_def)
qed

lemma demo_stored_lease:
  "json_ok L \<Longrightarrow> stored_lease L (demo_leased L) ''msg:jobs:m1'' = Some
     \<lparr>lm_consumer_id = ''c'', lm_lease_id = [], lm_lease_until_ms = 31000, lm_attempt = 1,
      lm_queue = ''jobs''\<rparr>"
  by (simp add: stored_lease_def demo_leased_def demo_enqueued_def demo_fs_config_def model_defs eval_rules
      cong: weak_congs)

section \<open>Properties\<close>


lemma demo_run:
  "json_ok L \<Longrightarrow> fs_run L [Op_Ack demo_lease, Op_Metrics ''jobs''] (demo_leased L) \<noteq> None"
  by (simp add: op_ok_def) (simp add: demo_lease_def)


text \<open>C4: A leased message is not handed out again while it is held: after a successful lease, and
  any sequence of operations none of which hands a message back (a requeueing nack, a delay, a
  recovery sweep, a dead letter reprocessing), a second successful lease on the same queue gives
  another message.\<close>

theorem fs_no_double_delivery:
  assumes "fs_inv L s" "queue_ok (fsa_config s) q"
    and "fs_lease_next L q c1 t1 s = (r1, s1)" "lr_leased r1" "lr_lease r1 = Some l1"
    and "fs_run L ops s1 = Some s2" "\<forall>op \<in> set ops. \<not> releases op"
    and "fs_lease_next L q c2 t2 s2 = (r2, s3)" "lr_leased r2" "lr_lease r2 = Some l2"
  shows "lt_message_key l2 \<noteq> lt_message_key l1"
proof
  assume same: "lt_message_key l2 = lt_message_key l1"
  note first = fs_lease_next_full [OF assms(1-3)]
  from first assms(4,5) obtain i e where i: "id_ok i" "lt_message_key l1 = msg_key q i"
      and v1: "fs_view L s1 q i = Some (Inflight, Some (msg_body e))"
    by (auto simp: lease_given_def)
  have inv1: "fs_inv L s1" and cfg1: "fsa_config s1 = fsa_config s"
    using first fs_step_inv [OF assms(1)] fs_step_config by blast+
  have q1: "queue_ok (fsa_config s1) q" using assms(2) cfg1 by simp
  obtain st where v2: "st \<in> {Inflight, Archived, Dlq}" "fs_view L s2 q i = Some (st, Some (msg_body e))"
    using fs_run_held [OF assms(6) inv1 q1 i(1) v1 _ assms(7)] by auto
  have inv2: "fs_inv L s2" "fsa_config s2 = fsa_config s1"
    using fs_run_inv [OF assms(6) inv1 q1 i(1)] by auto
  have q2: "queue_ok (fsa_config s2) q" using q1 inv2 by simp
  from fs_lease_next_full [OF inv2(1) q2 assms(8)] assms(9,10) obtain j e2
    where j: "id_ok j" "lt_message_key l2 = msg_key q j" "fs_view L s2 q j = Some (Ready, Some (msg_body e2))"
    by (auto simp: lease_given_def)
  have "j = i"
    using same i j msg_key_last [of i q] msg_key_last [of j q] by (simp add: id_ok_def)
  with j(3) v2 show False by auto
qed

text \<open>Two messages of one queue, leased one after the other.\<close>

definition demo_second :: message where
  "demo_second = demo_message\<lparr>m_key := ''msg:jobs:m2'', m_message_id := ''m2''\<rparr>"

definition demo_pair :: "json_lib \<Rightarrow> fs_adapter" where
  "demo_pair L = snd (fs_enqueue L demo_second (demo_enqueued L))"

lemma demo_second_ok: "json_ok L \<Longrightarrow> op_ok L (demo_enqueued L) (Op_Enqueue demo_second)"
  using demo_cfg_ok
  by (simp add: op_ok_def new_message_def msg_ranges_def msg_key_def demo_second_def demo_message_def
    in_i32_def in_i64_def demo_enqueued_def fs_view_def fm_view_def fget_def id_ok_def mpath_def root_path_def demo_fs_config_def model_defs)

lemma demo_pair_inv: "json_ok L \<Longrightarrow> fs_inv L (demo_pair L)"
  using fs_exec_view(1) [OF demo_enqueued_inv demo_second_ok, of L "''jobs''" "''m1''"] demo_cfg_ok
  by (simp add: demo_pair_def demo_enqueued_def)

lemma demo_pair_eq: "fs_enqueue L demo_second (demo_enqueued L) = (ok_res, (demo_enqueued L)\<lparr>
     files := [([''/'', ''mq'', ''jobs'', ''inbox'', ''m1.json''], serialize_envelope L demo_message),
       ([''/'', ''mq'', ''jobs'', ''inbox'', ''m2.json''], serialize_envelope L demo_second)],
     clock_n := 2, io_n := 4\<rparr>)"
  by (simp add: model_defs demo_enqueued_def demo_second_def demo_defs eval_rules cong: weak_congs)

lemma demo_pair_config: "fsa_config (demo_pair L) = demo_fs_config"
  by (simp add: demo_pair_def demo_pair_eq) (simp add: demo_enqueued_def)

definition demo_pair_leased :: "json_lib \<Rightarrow> fs_adapter" where
  "demo_pair_leased L = (demo_enqueued L)\<lparr>
     files := [([''/'', ''mq'', ''jobs'', ''inbox'', ''m2.json''], serialize_envelope L demo_second),
        ([''/'', ''mq'', ''jobs'', ''processing'', ''m1.json''],
          serialize_envelope L (demo_message\<lparr>m_attempt := 1\<rparr>)),
        ([''/'', ''mq'', ''meta'', ''leases'', ''msg_jobs_m1.json''],
          jl_dump L 2 (jobj
            [(''messageKey'', JStr ''msg:jobs:m1''), (''consumerId'', JStr ''c''), (''leaseId'', JStr []),
             (''leaseUntil'', JInt 32000), (''attempt'', JInt 1), (''queue'', JStr ''jobs'')]))],
     clock_n := 3, guid_n := 1, io_n := 11\<rparr>"

lemma demo_pair_first: "json_ok L \<Longrightarrow> fs_lease_next L ''jobs'' ''c'' 30 (demo_pair L) =
   (\<lparr>lr_leased = True, lr_message = Some (demo_message\<lparr>m_attempt := 1\<rparr>),
      lr_lease = Some (demo_lease\<lparr>lt_lease_until_ms := 32000\<rparr>), lr_error = None\<rparr>, demo_pair_leased L)"
  by (simp add: demo_pair_def demo_pair_eq) (simp add: model_defs demo_enqueued_def demo_pair_leased_def demo_second_def demo_defs eval_rules cong: weak_congs)

lemma demo_pair_second: "json_ok L \<Longrightarrow> \<exists>s l. fs_lease_next L ''jobs'' ''c'' 30 (demo_pair_leased L) =
   (\<lparr>lr_leased = True, lr_message = Some (demo_second\<lparr>m_attempt := 1\<rparr>),
      lr_lease = Some l, lr_error = None\<rparr>, s)"
  by (simp add: model_defs demo_enqueued_def demo_pair_leased_def demo_second_def demo_defs eval_rules cong: weak_congs)

theorem fs_no_double_delivery_witness:
  "\<exists>l1 l2 s1 s2. fs_lease_next ref_json ''jobs'' ''c'' 30 (demo_pair ref_json) = (l1, s1) \<and>
     fs_lease_next ref_json ''jobs'' ''c'' 30 s1 = (l2, s2) \<and> lr_leased l1 \<and> lr_leased l2 \<and>
     (\<exists>t1 t2. lr_lease l1 = Some t1 \<and> lr_lease l2 = Some t2 \<and> lt_message_key t2 \<noteq> lt_message_key t1)"
proof -
  have cfg: "queue_ok (fsa_config (demo_pair ref_json)) ''jobs''"
    using demo_cfg_ok(2) by (simp add: demo_pair_config)
  obtain s2 t2 where second: "fs_lease_next ref_json ''jobs'' ''c'' 30 (demo_pair_leased ref_json) =
      (\<lparr>lr_leased = True, lr_message = Some (demo_second\<lparr>m_attempt := 1\<rparr>), lr_lease = Some t2, lr_error = None\<rparr>, s2)"
    using demo_pair_second [OF json_ok_ref] by blast
  note first = demo_pair_first [OF json_ok_ref]
  have "lt_message_key t2 \<noteq> lt_message_key (demo_lease\<lparr>lt_lease_until_ms := 32000\<rparr>)"
    by (rule fs_no_double_delivery [OF demo_pair_inv [OF json_ok_ref] cfg first _ _ _ _ second,
          where ops = "[]"]) simp_all
  with first second show ?thesis by auto
qed

text \<open>C5: A lease request that no system call disturbs answers exactly: when a message of the
  queue is ready whose target is nobody or the consumer, one such message is handed out with its
  content, it is in flight afterwards, and the stored lease names the consumer, the token, its end
  and the attempt, whatever unreadable files or messages for others lie before it; when there is
  none, the answer is the empty one and no file changes.\<close>

theorem fs_lease_delivers:
  assumes "fs_inv L s" "no_faults s" "fsa_is_open s"
    and "queue_ok (fsa_config s) q" "queue_dirs (fsa_config s) q s"
    and "lease_files_only (fsa_config s) s" "fs_lease_next L q consumer t s = (r, s')"
  shows "if ready_for L q consumer s
    then lr_leased r \<and> lease_given L q consumer r s s' \<and> lease_stored L q consumer r s'
    else r = no_lease \<and> fget s' = fget s"
  using assms by (rule fs_lease_next_exact)

lemma demo_lease_files: "dirs s = dirs demo_adapter \<Longrightarrow> lease_files_only demo_fs_config s"
  by (simp add: lease_files_only_def is_dir_def demo_adapter_def lease_dir_def root_path_def
      demo_fs_config_def model_defs cong: weak_congs)

text \<open>The enqueued message is delivered; a second request finds nothing.\<close>

theorem fs_lease_delivers_witness:
  "ready_for ref_json ''jobs'' ''c'' (demo_enqueued ref_json) \<and>
   (\<exists>s'. fs_lease_next ref_json ''jobs'' ''c'' 30 (demo_leased ref_json) = (no_lease, s'))"
proof -
  let ?s = "demo_enqueued ref_json"
  have s: "fsa_config ?s = demo_fs_config" "no_faults ?s" "fsa_is_open ?s" "dirs ?s = dirs demo_adapter"
    by (simp_all add: demo_enqueued_def no_faults_def)
  have first: "if ready_for ref_json ''jobs'' ''c'' ?s
      then lr_leased r \<and> lease_given ref_json ''jobs'' ''c'' r ?s s' \<and> lease_stored ref_json ''jobs'' ''c'' r s'
      else r = no_lease \<and> fget s' = fget ?s"
    if "fs_lease_next ref_json ''jobs'' ''c'' 30 ?s = (r, s')" for r s'
    using that s demo_cfg_ok demo_queue_dirs demo_lease_files
    by (intro fs_lease_delivers) (simp_all add: demo_enqueued_inv)
  have one: "ready_for ref_json ''jobs'' ''c'' ?s"
    using first [OF demo_leasing] by (simp add: no_lease_def split: if_splits)
  let ?t = "demo_leased ref_json"
  obtain r s' where run: "fs_lease_next ref_json ''jobs'' ''c'' 30 ?t = (r, s')" by (metis prod.collapse)
  have "fst (list_json_files (build_queue_path demo_fs_config ''jobs'' ''inbox'' []) ?t) = []"
    by (simp add: demo_leased_def demo_enqueued_def demo_adapter_def demo_fs_config_def model_defs cong: weak_congs)
  then have "r = no_lease"
    using run by (auto simp: fs_lease_next_def Let_def demo_leased_simps demo_fs_config_def split: prod.splits)
  with run one show ?thesis by blast
qed

text \<open>C6: An acknowledgement succeeds only on an open adapter, for the consumer the stored lease
  names, and not after the lease has ended; an acknowledgement that fails leaves every file as it
  was.\<close>

theorem fs_ack_only_by_holder:
  assumes "fs_ack L lease s = (r, s')"
  shows "if fst r then fsa_is_open s \<and>
      (\<exists>m. stored_lease L s (lt_message_key lease) = Some m \<and>
         lm_consumer_id m = lt_consumer_id lease \<and> clock s (clock_n s) \<le> lm_lease_until_ms m)
    else fget s' = fget s"
  using assms by (rule fs_ack_cases)

theorem fs_ack_only_by_holder_witness:
  "\<exists>r s'. fs_ack ref_json demo_lease (demo_leased ref_json) = (r, s') \<and> fst r \<and>
     (\<exists>m. stored_lease ref_json (demo_leased ref_json) ''msg:jobs:m1'' = Some m \<and> lm_consumer_id m = ''c'')"
  using demo_ack [of ref_json] fs_ack_only_by_holder [OF demo_ack [of ref_json]]
  by (auto simp: demo_lease_def)

text \<open>C7: When no system call fails, the holder's acknowledgement before the end of the lease
  succeeds: the message is archived and its lease is gone.\<close>

theorem fs_ack_archives:
  assumes "fs_inv L s" "no_faults s" "fsa_is_open s"
    and "queue_ok (fsa_config s) q" "id_ok i" "queue_dirs (fsa_config s) q s"
    and "lt_message_key lease = msg_key q i" "stored_lease L s (msg_key q i) = Some m"
    and "lm_queue m = q" "lm_consumer_id m = lt_consumer_id lease"
    and "clock s (clock_n s) \<le> lm_lease_until_ms m" "fs_view L s q i = Some (Inflight, b)"
  shows "\<exists>s'. fs_ack L lease s = (ok_res, s') \<and> fs_view L s' q i = Some (Archived, b) \<and>
    stored_lease L s' (msg_key q i) = None"
  using assms by (rule fs_ack_ok)

theorem fs_ack_archives_witness:
  "\<exists>s'. fs_ack ref_json demo_lease (demo_leased ref_json) = (ok_res, s') \<and>
     fs_view ref_json s' ''jobs'' ''m1'' = Some (Archived, Some demo_message) \<and>
     stored_lease ref_json s' (msg_key ''jobs'' ''m1'') = None"
proof (rule fs_ack_archives)
  show "fs_inv ref_json (demo_leased ref_json)" by (simp add: demo_leased_inv)
  show "fs_view ref_json (demo_leased ref_json) ''jobs'' ''m1'' = Some (Inflight, Some demo_message)"
    by (simp add: demo_leased_view)
  show "stored_lease ref_json (demo_leased ref_json) (msg_key ''jobs'' ''m1'') = Some
     \<lparr>lm_consumer_id = ''c'', lm_lease_id = [], lm_lease_until_ms = 31000, lm_attempt = 1,
      lm_queue = ''jobs''\<rparr>"
    using demo_stored_lease [of ref_json] by (simp add: msg_key_def)
  show "queue_dirs (fsa_config (demo_leased ref_json)) ''jobs'' (demo_leased ref_json)"
    using demo_queue_dirs [of "demo_leased ref_json"] by (simp add: demo_leased_simps)
qed (use demo_cfg_ok in \<open>simp_all add: demo_leased_simps demo_lease_def msg_key_def\<close>)

text \<open>C8: When no system call fails, the recovery sweep finds every expired lease: a message in
  flight whose lease file names it and has run out is ready again afterwards, whatever other leases
  and files there are.\<close>

theorem fs_expired_lease_recovered:
  assumes "fs_inv L s" "no_faults s" "fsa_is_open s"
    and "queue_ok (fsa_config s) q" "id_ok i" "queue_dirs (fsa_config s) q s"
    and "is_dir s (lease_dir (fsa_config s))"
    and "fget s (lease_meta_path (fsa_config s) (msg_key q i)) = Some c"
    and "expired_entry L (clock s (clock_n s)) c = Inr (Some (msg_key q i, q))"
    and "fs_view L s q i = Some (Inflight, b)"
    and "fs_recover_expired_leases L s = (r, s')"
  shows "fs_view L s' q i = Some (Ready, b)"
  using assms by (rule fs_recover_ok)

definition demo_expired :: "json_lib \<Rightarrow> fs_adapter" where
  "demo_expired L = (demo_leased L)\<lparr>clock := \<lambda>n. 40000\<rparr>"

lemma fget_clock [simp]: "fget (s\<lparr>clock := c\<rparr>) = fget s"
  by (simp add: fget_def fun_eq_iff)

definition demo_lease_content :: "json_lib \<Rightarrow> string" where
  "demo_lease_content L = jl_dump L 2 (jobj
     [(''messageKey'', JStr ''msg:jobs:m1''), (''consumerId'', JStr ''c''), (''leaseId'', JStr []),
      (''leaseUntil'', JInt 31000), (''attempt'', JInt 1), (''queue'', JStr ''jobs'')])"

theorem fs_expired_lease_recovered_witness:
  "fs_view ref_json (snd (fs_recover_expired_leases ref_json (demo_expired ref_json))) ''jobs'' ''m1'' =
     Some (Ready, Some demo_message)"
proof (rule fs_expired_lease_recovered)
  let ?s = "demo_expired ref_json"
  show "fs_inv ref_json ?s"
    using demo_leased_inv [of ref_json] by (simp add: demo_expired_def fs_inv_def)
  show "fs_view ref_json ?s ''jobs'' ''m1'' = Some (Inflight, Some demo_message)"
    using demo_leased_view [of ref_json] by (simp add: demo_expired_def fs_view_def)
  show "queue_dirs (fsa_config ?s) ''jobs'' ?s"
    using demo_queue_dirs [of ?s] by (simp add: demo_expired_def demo_leased_simps)
  show "is_dir ?s (lease_dir (fsa_config ?s))"
    by (simp add: demo_expired_def demo_leased_simps is_dir_def demo_adapter_def lease_dir_def
        root_path_def demo_fs_config_def model_defs cong: weak_congs)
  show "fget ?s (lease_meta_path (fsa_config ?s) (msg_key ''jobs'' ''m1'')) = Some (demo_lease_content ref_json)"
    by (simp add: demo_expired_def demo_leased_def demo_enqueued_def demo_lease_content_def
        msg_key_def demo_fs_config_def model_defs eval_rules cong: weak_congs)
  show "expired_entry ref_json (clock ?s (clock_n ?s)) (demo_lease_content ref_json) =
      Inr (Some (msg_key ''jobs'' ''m1'', ''jobs''))"
    by (simp add: demo_expired_def demo_lease_content_def expired_entry_def msg_key_def eval_rules
        cong: weak_congs)
  show "fs_recover_expired_leases ref_json ?s =
      (fst (fs_recover_expired_leases ref_json ?s), snd (fs_recover_expired_leases ref_json ?s))" by simp
qed (use demo_cfg_ok in \<open>simp_all add: demo_expired_def demo_leased_simps no_faults_def [symmetric]\<close>,
     use demo_leased_simps(3) in \<open>simp add: no_faults_def\<close>)

text \<open>C9: When no system call fails, the delay sweep finds every due message: a delayed message of a
  queue whose directory exists is ready afterwards as soon as its availability time has come,
  whatever other queues and files there are.\<close>

theorem fs_due_message_ready:
  assumes "fsa_is_open s" "waiting L (clock s (clock_n s)) s q i b"
    and "root_path (fsa_config s) @ [q] \<in> set (dirs s)"
    and "fs_process_delayed_messages L s = (r, s')"
  shows "fs_view L s' q i = Some (Ready, b)"
  using assms by (rule fs_process_delayed_ok)

definition demo_late :: message where
  "demo_late = demo_message\<lparr>m_available_at_ms := 500\<rparr>"

definition demo_delayed :: "json_lib \<Rightarrow> fs_adapter" where
  "demo_delayed L = snd (fs_enqueue L demo_late demo_adapter)"

lemma demo_late_ok: "json_ok L \<Longrightarrow> op_ok L demo_adapter (Op_Enqueue demo_late)"
  using demo_op_ok [of L]
  by (simp add: op_ok_def new_message_def msg_ranges_def demo_late_def in_i64_def)

lemma demo_delaying:
  "\<exists>s. fs_enqueue L demo_late demo_adapter = (ok_res, s) \<and>
     fget s (mpath demo_fs_config Delayed ''jobs'' (json_name ''m1'')) = Some (serialize_envelope L demo_late) \<and>
     fsa_is_open s \<and> fault s = (\<lambda>_. None) \<and> dirs s = dirs demo_adapter \<and> clock s = (\<lambda>n. 1000 * int n) \<and>
     clock_n s = 1"
  by (simp add: demo_late_def mpath_def root_path_def model_defs demo_defs eval_rules cong: weak_congs)

lemma demo_delayed_facts:
  "fget (demo_delayed L) (mpath demo_fs_config Delayed ''jobs'' (json_name ''m1'')) =
     Some (serialize_envelope L demo_late)"
  "fsa_is_open (demo_delayed L)" "no_faults (demo_delayed L)"
  "dirs (demo_delayed L) = dirs demo_adapter" "clock (demo_delayed L) (clock_n (demo_delayed L)) = 1000"
  using demo_delaying [of L] by (auto simp: demo_delayed_def no_faults_def)

lemma demo_waiting:
  assumes "json_ok L"
  shows "waiting L 1000 (demo_delayed L) ''jobs'' ''m1'' (Some (msg_body demo_late))"
    "fsa_config (demo_delayed L) = demo_fs_config"
proof -
  have inv: "fs_inv L (demo_delayed L)" and cfg: "fsa_config (demo_delayed L) = demo_fs_config"
    using fs_exec_view(1,2) [OF demo_inv demo_late_ok, of L "''jobs''" "''m1''"] demo_cfg_ok assms
    by (simp_all add: demo_delayed_def demo_adapter_config)
  show "fsa_config (demo_delayed L) = demo_fs_config" by (rule cfg)
  have r: "msg_ranges demo_late"
    by (simp add: demo_late_def demo_message_def msg_ranges_def in_i32_def in_i64_def)
  have body: "body_of L (serialize_envelope L demo_late) = Some (msg_body demo_late)"
    using assms r by (intro good_content_serialize(2) [of L demo_late "''jobs''" "''m1''"])
      (simp_all add: demo_late_def demo_message_def msg_key_def)
  have view: "fs_view L (demo_delayed L) ''jobs'' ''m1'' = Some (Delayed, Some (msg_body demo_late))"
    using fm_view_Some [OF fs_invD(3) [OF inv], of "''jobs''" "''m1''"] demo_cfg_ok cfg body
      demo_delayed_facts(1) [of L] by (simp add: fs_view_def)
  have due: "due_at L 1000 (serialize_envelope L demo_late)"
    using assms by (simp add: due_at_def serialize_envelope_def envelope_json_def jobj_def demo_late_def
        in_i64_def)
  show "waiting L 1000 (demo_delayed L) ''jobs'' ''m1'' (Some (msg_body demo_late))"
    using inv cfg view due demo_delayed_facts [of L] demo_cfg_ok demo_queue_dirs [of "demo_delayed L"]
    by (simp add: waiting_def)
qed

theorem fs_due_message_ready_witness:
  "fs_view ref_json (snd (fs_process_delayed_messages ref_json (demo_delayed ref_json))) ''jobs'' ''m1'' =
     Some (Ready, Some (msg_body demo_late))"
proof (rule fs_due_message_ready)
  let ?s = "demo_delayed ref_json"
  show "fs_process_delayed_messages ref_json ?s =
      (fst (fs_process_delayed_messages ref_json ?s), snd (fs_process_delayed_messages ref_json ?s))"
    by simp
  show "root_path (fsa_config ?s) @ [''jobs''] \<in> set (dirs ?s)"
    using demo_waiting(2) [of ref_json]
    by (simp add: demo_delayed_facts demo_adapter_def demo_fs_config_def root_path_def model_defs
        cong: weak_congs)
qed (use demo_waiting(1) [of ref_json] in \<open>simp_all add: demo_delayed_facts\<close>)

end
