(* ===== verification/Daemon_Properties.thy ===== *)
theory Daemon_Properties
  imports FileSystem_Contract FileSystem_Properties
begin

text \<open>
  Properties of the daemon on the file system adapter: the lemmas of \<open>Daemon\<close> through the
  interpretation \<open>fs\<close> of the contract.
\<close>

section \<open>The file system adapter\<close>

text \<open>What a request must satisfy where the daemon on a file system adapter handles it.\<close>

definition fs_request_ok ::
  "json_lib \<Rightarrow> fs_config \<Rightarrow> mailbox_request \<Rightarrow> fs_adapter mailbox \<Rightarrow> bool" where
  "fs_request_ok L cfg r m \<longleftrightarrow>
     (case payload_member L r ''queue'' of None \<Rightarrow> True | Some q \<Rightarrow> queue_ok cfg q) \<and>
     (case payload_member L r ''messageKey'' of None \<Rightarrow> True | Some k \<Rightarrow> slash_free k) \<and>
     (mr_command r = Publish \<longrightarrow>
        (case published L r m of None \<Rightarrow> True
         | Some e \<Rightarrow> fs_view L (mb_backend m) (m_queue e) (m_message_id e) = None))"

lemma fs_request_ok_admissible: "fs_request_ok L cfg = fs.admissible L cfg L"
  by (auto simp: fun_eq_iff fs_request_ok_def fs.admissible_def split: option.splits)


section \<open>A concrete daemon\<close>

definition demo_mailbox :: "fs_adapter mailbox" where
  "demo_mailbox = \<lparr>files = [], dirs = [], clock = (\<lambda>n. 5000), clock_n = 0,
     guids = (\<lambda>n. guid (\<lambda>k. word_of_nat n)), guid_n = 0, fault = (\<lambda>_. None), io_n = 0,
     mb_running = True,
     mb_config = \<lparr>mc_root = ''/ipc'', mc_requests_dir = ''requests'', mc_processing_dir = ''processing'',
       mc_responses_dir = ''responses'', mc_dead_dir = ''dead'', mc_stale_timeout_ms = 30000,
       mc_poll_interval_ms = 100, mc_use_folder_watcher = False\<rparr>,
     mb_validator = \<lparr>mv_schemas = Map.empty, mv_custom = Map.empty\<rparr>,
     mb_metrics = zero_mailbox_metrics, mb_pending = [], mb_has_manager = True,
     mb_manager = \<lparr>qm_running = True, qm_policies = Map.empty, qm_backend = demo_adapter\<rparr>\<rparr>"

definition demo_request :: "mailbox_command \<Rightarrow> json \<Rightarrow> mailbox_request" where
  "demo_request cmd payload = \<lparr>mr_request_id = ''r1'', mr_client_id = ''c'', mr_command = cmd,
     mr_timestamp_ms = 0, mr_deadline_ms = 0, mr_payload_json = jl_dump ref_json (- 1) payload,
     mr_file_path = []\<rparr>"

definition demo_publish :: mailbox_request where
  "demo_publish = demo_request Publish (jobj [(''queue'', JStr ''jobs''), (''message'', JStr ''1'')])"

definition demo_consume :: mailbox_request where
  "demo_consume = demo_request ConsumeNext (jobj [(''queue'', JStr ''jobs'')])"

definition demo_published :: message where
  "demo_published = demo_message\<lparr>m_key := ''msg:jobs:0000-0000-0000-0000-0000'',
     m_message_id := ''0000-0000-0000-0000-0000'', m_created_at_ms := 5000, m_available_at_ms := 5000\<rparr>"

definition demo_env :: validator_env where
  "demo_env = \<lparr>ve_regex = (\<lambda>p. None), ve_double_text = (\<lambda>d. ''0'')\<rparr>"

lemmas mailbox_model_defs = handle_request_def handle_publish_def publish_content_def publish_routing_def
  publish_envelope_def on_backend_def published_def fs_backend_def json_parse_def payload_member_def
  has_schema_def string_member_def jvalue_def

lemma demo_guid: "guid (\<lambda>k. 0) = ''0000-0000-0000-0000-0000''"
  by (simp add: guid_def hex4_def hex_digit_def hex_digits_def Let_def)

lemma demo_guid_source: "guid_source demo_mailbox" "clock_ok demo_mailbox"
  by (auto simp: guid_source_def clock_ok_def demo_mailbox_def in_i64_def)

lemma demo_publish_message: "published ref_json demo_publish demo_mailbox = Some demo_published"
  by (simp add: mailbox_model_defs demo_publish_def demo_request_def demo_mailbox_def demo_published_def
      demo_message_def msg_key_def demo_guid eval_rules cong: weak_congs)

lemma demo_publish_run:
  "rs_ok (fst (handle_request ref_json env (fs_backend ref_json) demo_publish demo_mailbox))"
  by (simp add: mailbox_model_defs model_defs demo_publish_def demo_request_def demo_mailbox_def
      demo_defs build_success_response_def msg_key_def demo_guid eval_rules cong: weak_congs)

lemma demo_request_payload: "mr_payload_json (demo_request c j) = jl_dump ref_json (- 1) j"
  "mr_command (demo_request c j) = c"
  by (simp_all add: demo_request_def)

lemma demo_request_ok:
  "fs_request_ok ref_json demo_fs_config demo_publish demo_mailbox"
  "fs_request_ok ref_json demo_fs_config demo_consume m"
proof -
  have "queue_ok demo_fs_config ''jobs''" by (rule demo_cfg_ok(2))
  then show "fs_request_ok ref_json demo_fs_config demo_publish demo_mailbox"
    by (simp add: fs_request_ok_def demo_publish_message)
       (simp add: payload_member_def demo_publish_def demo_request_payload jobj_def string_member_def
         demo_mailbox_def demo_adapter_def fs_view_def fm_view_def fget_def)
  show "fs_request_ok ref_json demo_fs_config demo_consume m"
    using demo_cfg_ok(2)
    by (simp add: fs_request_ok_def demo_consume_def demo_request_payload payload_member_def jobj_def
        string_member_def)
qed


end
