(* ===== verification/SQL_Store.thy ===== *)
theory SQL_Store
  imports OS_World Json "HOL-Library.Multiset" "HOL-Library.Product_Lexorder"
begin

text \<open>
  \<open>CommonLibrary/DataBase/SQLite.cpp\<close> and the two tables of \<open>sqlite_schema.sql\<close>: a connection to a
  database of a key-value table and a message index. A statement of the program is the function on
  the tables its SQL text denotes; the wrapper class runs it on the connection.

  The SQL library is not part of the repository. What it decides is left to parameters: every call
  may fail at the point and with the text the fault schedule of the world names; the record
  \<open>sql_engine\<close> says whether a failed statement has ended the transaction, how many rows a failed
  query had delivered, in which order the rows of a table are visited, and which schema texts are
  accepted. \<open>engine_ok\<close> is what the program relies on: visiting a table visits each row once.
\<close>

section \<open>Tables\<close>

record kv_row =
  kv_key :: string
  kv_value :: string
  kv_type :: string
  kv_created_at :: int
  kv_updated_at :: int

record index_row =
  ix_queue :: string
  ix_state :: string
  ix_priority :: int
  ix_available_at :: int
  ix_lease_until :: "int option"
  ix_attempt :: int
  ix_message_key :: string
  ix_target :: string
  ix_dlq_reason :: "string option"
  ix_dlq_at :: "int option"

record database =
  db_kv :: "kv_row list"
  db_idx :: "index_row list"

record sql_engine =
  se_scan :: "nat \<Rightarrow> index_row list \<Rightarrow> index_row list"
  se_partial :: "nat \<Rightarrow> nat"
  se_aborts :: "nat \<Rightarrow> bool"
  se_schema :: "string \<Rightarrow> string option"
  se_constraint :: string

definition engine_ok :: "sql_engine \<Rightarrow> bool" where
  "engine_ok E \<longleftrightarrow> (\<forall>n rows. mset (se_scan E n rows) = mset rows)"

lemma engine_scan_set: "engine_ok E \<Longrightarrow> set (se_scan E n rows) = set rows"
  unfolding engine_ok_def by (metis mset_eq_setD)

lemma engine_scan_length: "engine_ok E \<Longrightarrow> length (se_scan E n rows) = length rows"
  unfolding engine_ok_def by (metis mset_eq_length)

section \<open>Statements\<close>

text \<open>\<open>INSERT INTO kv\<close>: the key is the primary key.\<close>

definition kv_insert :: "kv_row \<Rightarrow> database \<Rightarrow> database option" where
  "kv_insert r d =
     (if list_ex (\<lambda>x. kv_key x = kv_key r) (db_kv d) then None
      else Some (d\<lparr>db_kv := db_kv d @ [r]\<rparr>))"

text \<open>\<open>DELETE FROM kv WHERE key = ?\<close>: the foreign key of the index is \<open>ON DELETE CASCADE\<close>.\<close>

definition kv_delete :: "string \<Rightarrow> database \<Rightarrow> database option" where
  "kv_delete key d =
     Some (if list_ex (\<lambda>x. kv_key x = key) (db_kv d)
           then d\<lparr>db_kv := filter (\<lambda>x. kv_key x \<noteq> key) (db_kv d),
                  db_idx := filter (\<lambda>x. ix_message_key x \<noteq> key) (db_idx d)\<rparr>
           else d)"

text \<open>\<open>INSERT OR REPLACE INTO kv\<close>: a row with the same key is deleted first.\<close>

definition kv_replace :: "kv_row \<Rightarrow> database \<Rightarrow> database option" where
  "kv_replace r d = Option.bind (kv_delete (kv_key r) d) (kv_insert r)"

text \<open>\<open>UPDATE kv SET value = ?, updated_at = ? WHERE key = ?\<close>.\<close>

definition kv_update :: "string \<Rightarrow> string \<Rightarrow> int \<Rightarrow> database \<Rightarrow> database option" where
  "kv_update key v now d =
     Some (d\<lparr>db_kv := map (\<lambda>x. if kv_key x = key then x\<lparr>kv_value := v, kv_updated_at := now\<rparr> else x)
             (db_kv d)\<rparr>)"

definition kv_values :: "string \<Rightarrow> database \<Rightarrow> string list" where
  "kv_values key d = map kv_value (filter (\<lambda>x. kv_key x = key) (db_kv d))"

text \<open>\<open>INSERT INTO msg_index\<close>: the message key is the primary key and references \<open>kv\<close>.\<close>

definition idx_insert :: "index_row \<Rightarrow> database \<Rightarrow> database option" where
  "idx_insert r d =
     (if list_ex (\<lambda>x. ix_message_key x = ix_message_key r) (db_idx d) \<or>
         \<not> list_ex (\<lambda>x. kv_key x = ix_message_key r) (db_kv d) then None
      else Some (d\<lparr>db_idx := db_idx d @ [r]\<rparr>))"

definition idx_update :: "(index_row \<Rightarrow> bool) \<Rightarrow> (index_row \<Rightarrow> index_row) \<Rightarrow> database \<Rightarrow> database option"
where
  "idx_update p f d = Some (d\<lparr>db_idx := map (\<lambda>x. if p x then f x else x) (db_idx d)\<rparr>)"

definition idx_delete :: "(index_row \<Rightarrow> bool) \<Rightarrow> database \<Rightarrow> database option" where
  "idx_delete p d = Some (d\<lparr>db_idx := filter (\<lambda>x. \<not> p x) (db_idx d)\<rparr>)"

text \<open>The text of a column as the program gets it: a C string ends at the first zero byte, and NULL
  is the empty text.\<close>

definition column_text :: "string \<Rightarrow> string" where
  "column_text s = takeWhile (\<lambda>c. c \<noteq> CHR 0x00) s"

lemma column_text_id [simp]: "CHR 0x00 \<notin> set s \<Longrightarrow> column_text s = s"
  by (auto simp: column_text_def)

text \<open>\<open>lease_until < t\<close> does not hold for NULL, nor does \<open>lease_until > t\<close>.\<close>

definition sql_less :: "int option \<Rightarrow> int \<Rightarrow> bool" where
  "sql_less x t = (case x of None \<Rightarrow> False | Some u \<Rightarrow> u < t)"

definition sql_greater :: "int option \<Rightarrow> int \<Rightarrow> bool" where
  "sql_greater x t = (case x of None \<Rightarrow> False | Some u \<Rightarrow> u > t)"

text \<open>\<open>LIMIT n\<close>: a negative limit is no limit.\<close>

definition sql_limit :: "int \<Rightarrow> 'a list \<Rightarrow> 'a list" where
  "sql_limit n xs = (if n < 0 then xs else take (nat n) xs)"

section \<open>The connection\<close>

text \<open>The open transaction keeps the tables as they were when it began.\<close>

record sql_db = world +
  sd_open :: bool
  sd_db :: database
  sd_saved :: "database option"

text \<open>The committed content: what another connection, or this one after a crash, finds.\<close>

definition committed :: "'a sql_db_scheme \<Rightarrow> database" where
  "committed s = (case sd_saved s of None \<Rightarrow> sd_db s | Some d \<Rightarrow> d)"

definition sql_close :: "'a sql_db_scheme \<Rightarrow> 'a sql_db_scheme" where
  "sql_close s = (if \<not> sd_open s then s else s\<lparr>sd_open := False, sd_db := committed s, sd_saved := None\<rparr>)"

definition sql_open :: "string \<Rightarrow> 'a sql_db_scheme \<Rightarrow> res \<times> 'a sql_db_scheme" where
  "sql_open path s =
     (let s1 = sql_close s
      in if path = [] then (err_res ''db path is empty'', s1)
         else
           (case os_io s1 of
              (Some m, s2) \<Rightarrow> (err_res (if m = [] then ''cannot open database'' else m), s2)
            | (None, s2) \<Rightarrow> (ok_res, s2\<lparr>sd_open := True\<rparr>)))"

text \<open>A failed statement may have rolled the whole transaction back.\<close>

definition sql_failed :: "sql_engine \<Rightarrow> nat \<Rightarrow> 'a sql_db_scheme \<Rightarrow> 'a sql_db_scheme" where
  "sql_failed E n s = (if se_aborts E n then s\<lparr>sd_db := committed s, sd_saved := None\<rparr> else s)"

definition sql_execute ::
  "sql_engine \<Rightarrow> (database \<Rightarrow> database option) \<Rightarrow> 'a sql_db_scheme \<Rightarrow> res \<times> 'a sql_db_scheme" where
  "sql_execute E f s =
     (if \<not> sd_open s then (err_res ''database is not open'', s)
      else
        case os_io s of
          (Some m, s1) \<Rightarrow> (err_res m, sql_failed E (io_n s) s1)
        | (None, s1) \<Rightarrow>
            (case f (sd_db s1) of
               None \<Rightarrow> (err_res (se_constraint E), s1)
             | Some d \<Rightarrow> (ok_res, s1\<lparr>sd_db := d\<rparr>)))"

text \<open>\<open>execute\<close> of the three transaction statements.\<close>

definition begin_transaction :: "'a sql_db_scheme \<Rightarrow> res \<times> 'a sql_db_scheme" where
  "begin_transaction s =
     (if \<not> sd_open s then (err_res ''database is not open'', s)
      else
        case os_io s of
          (Some m, s1) \<Rightarrow> (err_res m, s1)
        | (None, s1) \<Rightarrow>
            if sd_saved s1 \<noteq> None then (err_res ''cannot start a transaction within a transaction'', s1)
            else (ok_res, s1\<lparr>sd_saved := Some (sd_db s1)\<rparr>))"

definition sql_commit :: "sql_engine \<Rightarrow> 'a sql_db_scheme \<Rightarrow> res \<times> 'a sql_db_scheme" where
  "sql_commit E s =
     (if \<not> sd_open s then (err_res ''database is not open'', s)
      else
        case os_io s of
          (Some m, s1) \<Rightarrow> (err_res m, sql_failed E (io_n s) s1)
        | (None, s1) \<Rightarrow>
            if sd_saved s1 = None then (err_res ''cannot commit - no transaction is active'', s1)
            else (ok_res, s1\<lparr>sd_saved := None\<rparr>))"

definition sql_rollback :: "'a sql_db_scheme \<Rightarrow> res \<times> 'a sql_db_scheme" where
  "sql_rollback s =
     (if \<not> sd_open s then (err_res ''database is not open'', s)
      else
        case os_io s of
          (Some m, s1) \<Rightarrow> (err_res m, s1)
        | (None, s1) \<Rightarrow>
            (case sd_saved s1 of
               None \<Rightarrow> (err_res ''cannot rollback - no transaction is active'', s1)
             | Some d \<Rightarrow> (ok_res, s1\<lparr>sd_db := d, sd_saved := None\<rparr>)))"

text \<open>\<open>prepare\<close>: None, or the text of the error.\<close>

definition sql_prepare :: "'a sql_db_scheme \<Rightarrow> string option \<times> 'a sql_db_scheme" where
  "sql_prepare s =
     (if \<not> sd_open s then (Some ''database is not open'', s)
      else
        case os_io s of
          (Some m, s1) \<Rightarrow> (Some (''cannot prepare statement : '' @ m), s1)
        | (None, s1) \<Rightarrow> (None, s1))"

text \<open>\<open>step\<close> of a prepared statement that changes the tables: whether it returned \<open>SQLITE_DONE\<close>.\<close>

definition sql_step ::
  "sql_engine \<Rightarrow> (database \<Rightarrow> database option) \<Rightarrow> 'a sql_db_scheme \<Rightarrow> bool \<times> 'a sql_db_scheme" where
  "sql_step E f s = (case sql_execute E f s of (r, s1) \<Rightarrow> (fst r, s1))"

text \<open>The first \<open>step\<close> of a query: the first row, or None when it did not return \<open>SQLITE_ROW\<close>. The query
  is a function of the order in which the index is visited and of the tables.\<close>

definition sql_first ::
  "sql_engine \<Rightarrow> ((index_row list \<Rightarrow> index_row list) \<Rightarrow> database \<Rightarrow> 'b list) \<Rightarrow> 'a sql_db_scheme \<Rightarrow>
     'b option \<times> 'a sql_db_scheme" where
  "sql_first E q s =
     (case os_io s of
        (Some m, s1) \<Rightarrow> (None, sql_failed E (io_n s) s1)
      | (None, s1) \<Rightarrow>
          (case q (se_scan E (io_n s)) (sd_db s1) of [] \<Rightarrow> (None, s1) | r # _ \<Rightarrow> (Some r, s1)))"

text \<open>A loop over \<open>step\<close>: the rows delivered before it stops returning \<open>SQLITE_ROW\<close>, which a failure
  ends like the last row.\<close>

definition sql_rows ::
  "sql_engine \<Rightarrow> ((index_row list \<Rightarrow> index_row list) \<Rightarrow> database \<Rightarrow> 'b list) \<Rightarrow> 'a sql_db_scheme \<Rightarrow>
     'b list \<times> 'a sql_db_scheme" where
  "sql_rows E q s =
     (let rows = q (se_scan E (io_n s)) (sd_db s)
      in case os_io s of
           (Some m, s1) \<Rightarrow> (take (se_partial E (io_n s)) rows, sql_failed E (io_n s) s1)
         | (None, s1) \<Rightarrow> (rows, s1))"

text \<open>\<open>query\<close>: all rows, or the error.\<close>

definition sql_query ::
  "sql_engine \<Rightarrow> ((index_row list \<Rightarrow> index_row list) \<Rightarrow> database \<Rightarrow> 'b list) \<Rightarrow> 'a sql_db_scheme \<Rightarrow>
     ('b list option \<times> string option) \<times> 'a sql_db_scheme" where
  "sql_query E q s =
     (if \<not> sd_open s then ((None, Some ''database is not open''), s)
      else
        case os_io s of
          (Some m, s1) \<Rightarrow> ((None, Some m), sql_failed E (io_n s) s1)
        | (None, s1) \<Rightarrow> ((Some (q (se_scan E (io_n s)) (sd_db s1)), None), s1))"

end
