(* ===== verification/SQLite_Adapter.thy ===== *)
theory SQLite_Adapter
  imports SQL_Store FileSystem_Adapter
begin

text \<open>
  \<open>MainMQ/BackendAdapter/SQLiteAdapter.cpp\<close>: the adapter that keeps messages in a key-value table and
  a message index. The fields of the object and of its connection extend the operating system state.
  The blocks every method repeats (prepare, bind, step, and roll back when that fails) are the
  combinators \<open>in_tx\<close>, \<open>tx_write\<close> and \<open>tx_commit\<close>, with the rest of the method as continuation; the
  argument \<open>failure\<close> makes the method's result from an error text.
\<close>

record sql_adapter = sql_db +
  sqa_is_open :: bool
  sqa_schema_path :: string
  sqa_config :: sqlite_config

section \<open>Transactions\<close>

definition in_tx ::
  "(string option \<Rightarrow> 'r) \<Rightarrow> ('a sql_db_scheme \<Rightarrow> 'r \<times> 'a sql_db_scheme) \<Rightarrow> 'a sql_db_scheme \<Rightarrow>
     'r \<times> 'a sql_db_scheme" where
  "in_tx failure k s =
     (case begin_transaction s of (r, s1) \<Rightarrow> if \<not> fst r then (failure (snd r), s1) else k s1)"

text \<open>Roll back and give up.\<close>

definition tx_abort ::
  "(string option \<Rightarrow> 'r) \<Rightarrow> string option \<Rightarrow> 'a sql_db_scheme \<Rightarrow> 'r \<times> 'a sql_db_scheme" where
  "tx_abort failure e s = (failure e, snd (sql_rollback s))"

definition tx_write ::
  "sql_engine \<Rightarrow> (string option \<Rightarrow> 'r) \<Rightarrow> string \<Rightarrow> (database \<Rightarrow> database option) \<Rightarrow>
     ('a sql_db_scheme \<Rightarrow> 'r \<times> 'a sql_db_scheme) \<Rightarrow> 'a sql_db_scheme \<Rightarrow> 'r \<times> 'a sql_db_scheme" where
  "tx_write E failure msg f k s =
     (case sql_prepare s of
        (Some e, s1) \<Rightarrow> tx_abort failure (Some e) s1
      | (None, s1) \<Rightarrow>
          (case sql_step E f s1 of
             (False, s2) \<Rightarrow> tx_abort failure (Some msg) s2
           | (True, s2) \<Rightarrow> k s2))"

definition tx_commit ::
  "sql_engine \<Rightarrow> (string option \<Rightarrow> 'r) \<Rightarrow> ('a sql_db_scheme \<Rightarrow> 'r \<times> 'a sql_db_scheme) \<Rightarrow> 'a sql_db_scheme \<Rightarrow>
     'r \<times> 'a sql_db_scheme" where
  "tx_commit E failure k s =
     (case sql_commit E s of
        (r, s1) \<Rightarrow> if \<not> fst r then tx_abort failure (snd r) s1 else k s1)"

abbreviation fail_res :: "string option \<Rightarrow> res" where
  "fail_res e \<equiv> (False, e)"

abbreviation return_ok :: "'s \<Rightarrow> res \<times> 's" where
  "return_ok s \<equiv> (ok_res, s)"

section \<open>Opening\<close>

text \<open>\<open>replace_all\<close>: the search goes on behind the inserted text.\<close>

function replace_all :: "string \<Rightarrow> string \<Rightarrow> string \<Rightarrow> string" where
  "replace_all from to s =
     (if from = [] then s
      else if s = [] then []
      else if take (length from) s = from then to @ replace_all from to (drop (length from) s)
      else hd s # replace_all from to (tl s))"
  by pat_completeness auto

termination by (relation "measure (\<lambda>(from, to, s). length s)") auto

declare replace_all.simps [simp del]

definition state_to_string :: "message_state \<Rightarrow> string" where
  "state_to_string st =
     (case st of Ready \<Rightarrow> ''ready'' | Inflight \<Rightarrow> ''inflight'' | Delayed \<Rightarrow> ''delayed''
      | Dlq \<Rightarrow> ''dlq'' | Archived \<Rightarrow> ''archived'')"

definition string_to_state :: "string \<Rightarrow> message_state" where
  "string_to_state s =
     (if s = ''ready'' then Ready else if s = ''inflight'' then Inflight
      else if s = ''delayed'' then Delayed else if s = ''dlq'' then Dlq
      else if s = ''archived'' then Archived else Ready)"

text \<open>A pragma: it changes no table.\<close>

definition sql_pragma :: "sql_engine \<Rightarrow> 'a sql_db_scheme \<Rightarrow> res \<times> 'a sql_db_scheme" where
  "sql_pragma E s = sql_execute E Some s"

definition valid_journal_modes :: "string list" where
  "valid_journal_modes = [''DELETE'', ''WAL'', ''MEMORY'', ''TRUNCATE'', ''PERSIST'', ''OFF'']"

definition valid_synchronous_modes :: "string list" where
  "valid_synchronous_modes = [''OFF'', ''NORMAL'', ''FULL'', ''EXTRA'']"

definition apply_pragmas :: "sql_engine \<Rightarrow> sql_adapter \<Rightarrow> res \<times> sql_adapter" where
  "apply_pragmas E s =
     (let cfg = sqa_config s; (r, s1) = sql_pragma E s
      in if \<not> fst r then ((False, snd r), s1)
         else if sc_journal_mode cfg \<noteq> [] \<and> sc_journal_mode cfg \<notin> set valid_journal_modes
         then (err_res (''invalid journal_mode: '' @ sc_journal_mode cfg), s1)
         else
           let (r, s2) = (if sc_journal_mode cfg \<noteq> [] then sql_pragma E s1 else (ok_res, s1))
           in if \<not> fst r then ((False, snd r), s2)
              else if sc_synchronous cfg \<noteq> [] \<and> sc_synchronous cfg \<notin> set valid_synchronous_modes
              then (err_res (''invalid synchronous mode: '' @ sc_synchronous cfg), s2)
              else
                let (r, s3) = (if sc_synchronous cfg \<noteq> [] then sql_pragma E s2 else (ok_res, s2))
                in if \<not> fst r then ((False, snd r), s3) else (ok_res, s3))"

text \<open>\<open>File::open\<close> creates the parent directory with the throwing overload: the exception leaves
  \<open>open\<close> of the adapter, which has no handler; its text stands for it.\<close>

definition load_schema_sql :: "sql_adapter \<Rightarrow> (string option \<times> string option) \<times> sql_adapter" where
  "load_schema_sql s =
     (let p = to_path (sqa_schema_path s);
          (e, s1) = (if butlast p = [] then (None, s) else os_mkdirs (butlast p) s)
      in case e of
           Some m \<Rightarrow> ((None, Some (''filesystem_error: '' @ m)), s1)
         | None \<Rightarrow>
         (case os_read p s1 of
           (None, s2) \<Rightarrow>
             ((None, Some ((if fexists s2 p then ''cannot open file : '' else ''there is no file : '') @
                           sqa_schema_path s)), s2)
         | (Some content, s2) \<Rightarrow>
             let sql = bytes_to_string content
             in if sql = [] then ((None, Some ''schema sql is empty''), s2)
                else
                  ((Some (replace_all ''{{msg_index_table}}'' (sc_message_index_table (sqa_config s2))
                            (replace_all ''{{kv_table}}'' (sc_kv_table (sqa_config s2)) sql)), None), s2)))"

text \<open>The schema only creates what does not exist.\<close>

definition ensure_schema :: "sql_engine \<Rightarrow> sql_adapter \<Rightarrow> res \<times> sql_adapter" where
  "ensure_schema E s =
     (if sqa_schema_path s = [] then (err_res ''schema path is empty'', s)
      else
        case load_schema_sql s of
          ((None, e), s1) \<Rightarrow> ((False, e), s1)
        | ((Some sql, _), s1) \<Rightarrow>
            (case se_schema E sql of
               Some m \<Rightarrow> (err_res m, s1)
             | None \<Rightarrow> sql_execute E Some s1))"

definition sq_open :: "sql_engine \<Rightarrow> backend_config \<Rightarrow> sql_adapter \<Rightarrow> res \<times> sql_adapter" where
  "sq_open E config s =
     (if bc_type config \<noteq> SQLite then (err_res ''backend type mismatch'', s)
      else
        let c0 = bc_sqlite config;
            c1 = (if sc_kv_table c0 = [] then c0\<lparr>sc_kv_table := ''kv''\<rparr> else c0);
            cfg = (if sc_message_index_table c1 = [] then c1\<lparr>sc_message_index_table := ''msg_index''\<rparr>
                   else c1);
            s1 = s\<lparr>sqa_config := cfg\<rparr>
        in if sc_db_path cfg = [] then (err_res ''sqlite db path is empty'', s1)
           else
             let parent = butlast (to_path (sc_db_path cfg));
                 (e, s2) = (if parent = [] then (None, s1) else os_mkdirs parent s1)
             in case e of
                  Some m \<Rightarrow> (err_res m, s2)
                | None \<Rightarrow>
                    let (r, s3) = sql_open (sc_db_path cfg) s2
                    in if \<not> fst r then ((False, snd r), s3)
                       else
                         let (t, s4) = (if sc_busy_timeout_ms cfg > 0 then os_io s3 else (None, s3))
                         in if t \<noteq> None
                            then (err_res (''cannot set busy timeout : '' @ value_or t []), s4)
                            else
                              let (r, s5) = apply_pragmas E s4
                              in if \<not> fst r then ((False, snd r), s5)
                                 else
                                   let (r, s6) = ensure_schema E s5
                                   in if \<not> fst r then ((False, snd r), s6)
                                      else (ok_res, s6\<lparr>sqa_is_open := True\<rparr>))"

definition sq_close :: "sql_adapter \<Rightarrow> sql_adapter" where
  "sq_close s = sql_close (s\<lparr>sqa_is_open := False\<rparr>)"

section \<open>Enqueue\<close>

text \<open>The value stored under a message key.\<close>

definition kv_envelope_json :: "int \<Rightarrow> message \<Rightarrow> json" where
  "kv_envelope_json now e = jobj
     [(''messageId'', JStr (m_message_id e)), (''queue'', JStr (m_queue e)),
      (''payload'', JStr (m_payload_json e)), (''attributes'', JStr (m_attributes_json e)),
      (''priority'', JInt (m_priority e)), (''attempt'', JInt (m_attempt e)),
      (''createdAt'', JInt (if m_created_at_ms e > 0 then m_created_at_ms e else now))]"

definition new_index_row :: "int \<Rightarrow> message \<Rightarrow> index_row" where
  "new_index_row now e =
     (let available_at = (if m_available_at_ms e > 0 then m_available_at_ms e else now)
      in \<lparr>ix_queue = m_queue e,
          ix_state = state_to_string (if available_at > now then Delayed else Ready),
          ix_priority = m_priority e, ix_available_at = available_at, ix_lease_until = None,
          ix_attempt = m_attempt e, ix_message_key = m_key e, ix_target = m_target_consumer_id e,
          ix_dlq_reason = None, ix_dlq_at = None\<rparr>)"

definition sq_enqueue ::
  "json_lib \<Rightarrow> sql_engine \<Rightarrow> message \<Rightarrow> sql_adapter \<Rightarrow> res \<times> sql_adapter" where
  "sq_enqueue L E message s =
     (if \<not> sd_open s then (err_res ''database is not open'', s)
      else
        let (now, s1) = now_ms s;
            row = \<lparr>kv_key = m_key message,
                   kv_value = jl_dump L (- 1) (kv_envelope_json now message),
                   kv_type = ''message'', kv_created_at = now, kv_updated_at = now\<rparr>
        in in_tx fail_res
             (tx_write E fail_res ''failed to insert into kv table'' (kv_insert row)
             (tx_write E fail_res ''failed to insert into msg_index table''
                (idx_insert (new_index_row now message))
             (tx_commit E fail_res return_ok))) s1)"

section \<open>Leasing\<close>

text \<open>The query for the next message: the row it gives, the highest priority first.\<close>

definition ready_rows ::
  "string \<Rightarrow> int \<Rightarrow> string \<Rightarrow> (index_row list \<Rightarrow> index_row list) \<Rightarrow> database \<Rightarrow> index_row list" where
  "ready_rows queue now consumer scan d =
     take 1 (sort_key (\<lambda>r. (- ix_priority r, ix_available_at r))
       (filter (\<lambda>r. ix_queue r = queue \<and> ix_state r = ''ready'' \<and> ix_available_at r \<le> now \<and>
          (ix_target r = [] \<or> ix_target r = consumer)) (scan (db_idx d))))"

definition leased_message ::
  "json_lib \<Rightarrow> string \<Rightarrow> string \<Rightarrow> int \<Rightarrow> int \<Rightarrow> json \<Rightarrow> json_exc + message" where
  "leased_message L queue key priority attempt j =
     ebind (jvalue get_string j ''messageId'' '''') (\<lambda>message_id.
     ebind (jvalue get_string j ''queue'' queue) (\<lambda>q.
     ebind (jvalue get_string j ''payload'' '''') (\<lambda>payload.
     ebind (jvalue get_string j ''attributes'' '''') (\<lambda>attributes.
     ebind (jvalue (get_i64 L) j ''createdAt'' 0) (\<lambda>created.
       Inr (empty_message\<lparr>m_key := key, m_message_id := message_id, m_queue := q,
              m_payload_json := payload, m_attributes_json := attributes, m_priority := priority,
              m_attempt := attempt, m_created_at_ms := created\<rparr>))))))"

definition set_inflight :: "string \<Rightarrow> int \<Rightarrow> int \<Rightarrow> database \<Rightarrow> database option" where
  "set_inflight key lease_until attempt =
     idx_update (\<lambda>r. ix_message_key r = key)
       (\<lambda>r. r\<lparr>ix_state := ''inflight'', ix_lease_until := Some lease_until, ix_attempt := attempt\<rparr>)"

text \<open>The part of \<open>lease_next\<close> after the row was updated: fetch the value, commit, parse.\<close>

definition fetch_leased ::
  "json_lib \<Rightarrow> sql_engine \<Rightarrow> string \<Rightarrow> string \<Rightarrow> int \<Rightarrow> string \<Rightarrow> int \<Rightarrow> int \<Rightarrow> sql_adapter \<Rightarrow>
     lease_result \<times> sql_adapter" where
  "fetch_leased L E queue consumer_id lease_until key priority attempt s =
     (case sql_prepare s of
        (Some e, s1) \<Rightarrow> tx_abort lease_error (Some e) s1
      | (None, s1) \<Rightarrow>
          (case sql_first E (\<lambda>_. kv_values key) s1 of
             (None, s2) \<Rightarrow> tx_abort lease_error (Some ''message not found in kv table'') s2
           | (Some v, s2) \<Rightarrow>
               tx_commit E lease_error
                 (\<lambda>s3. case ebind (json_parse L (column_text v))
                              (leased_message L queue key priority attempt) of
                    Inl e \<Rightarrow> (lease_error (Some (''failed to parse message: '' @ jl_what L e)), s3)
                  | Inr msg \<Rightarrow>
                      let (lease_id, s4) = fresh_guid s3
                      in (\<lparr>lr_leased = True, lr_message = Some msg,
                           lr_lease = Some \<lparr>lt_lease_id = lease_id, lt_message_key = key,
                             lt_consumer_id = consumer_id, lt_lease_until_ms = lease_until\<rparr>,
                           lr_error = None\<rparr>, s4)) s2))"

definition sq_lease_next ::
  "json_lib \<Rightarrow> sql_engine \<Rightarrow> string \<Rightarrow> string \<Rightarrow> int \<Rightarrow> sql_adapter \<Rightarrow> lease_result \<times> sql_adapter" where
  "sq_lease_next L E queue consumer_id visibility_timeout_sec s =
     (if \<not> sd_open s then (lease_error (Some ''database is not open''), s)
      else
        let (now, s1) = now_ms s;
            lease_until = i64 (now + visibility_timeout_sec * 1000)
        in in_tx lease_error
             (\<lambda>s2. case sql_prepare s2 of
                (Some e, s3) \<Rightarrow> tx_abort lease_error (Some e) s3
              | (None, s3) \<Rightarrow>
                  (case sql_first E (ready_rows queue now consumer_id) s3 of
                     (None, s4) \<Rightarrow> tx_abort lease_error None s4
                   | (Some r, s4) \<Rightarrow>
                       let key = column_text (ix_message_key r); attempt = i32 (ix_attempt r + 1)
                       in tx_write E lease_error ''failed to update message state''
                            (set_inflight key lease_until attempt)
                            (fetch_leased L E queue consumer_id lease_until key (i32 (ix_priority r))
                               attempt) s4)) s1)"

section \<open>Acknowledgement and return\<close>

definition sq_ack :: "sql_engine \<Rightarrow> lease_token \<Rightarrow> sql_adapter \<Rightarrow> res \<times> sql_adapter" where
  "sq_ack E lease s =
     (if \<not> sd_open s then (err_res ''database is not open'', s)
      else
        in_tx fail_res
          (tx_write E fail_res ''failed to delete from msg_index''
             (idx_delete (\<lambda>r. ix_message_key r = lt_message_key lease \<and> ix_state r = ''inflight''))
          (tx_write E fail_res ''failed to delete from kv table'' (kv_delete (lt_message_key lease))
          (tx_commit E fail_res return_ok))) s)"

text \<open>The block that edits the JSON value of a key; every exception and every failure is swallowed.
  It runs after the \<open>SELECT\<close> was prepared.\<close>

definition edit_value ::
  "json_lib \<Rightarrow> sql_engine \<Rightarrow> string \<Rightarrow> int \<Rightarrow> (json \<Rightarrow> json_exc + json) \<Rightarrow> 'a sql_db_scheme \<Rightarrow> 'a sql_db_scheme"
where
  "edit_value L E key now edit s =
     (case sql_first E (\<lambda>_. kv_values key) s of
        (None, s1) \<Rightarrow> s1
      | (Some v, s1) \<Rightarrow>
          (case ebind (json_parse L (column_text v)) edit of
             Inl _ \<Rightarrow> s1
           | Inr j \<Rightarrow>
               (case sql_prepare s1 of
                  (Some _, s2) \<Rightarrow> s2
                | (None, s2) \<Rightarrow> snd (sql_step E (kv_update key (jl_dump L (- 1) j) now) s2))))"

definition stamp_dlq :: "string \<Rightarrow> int \<Rightarrow> json \<Rightarrow> json_exc + json" where
  "stamp_dlq reason now j = ebind (jset ''dlqReason'' (JStr reason) j) (jset ''dlqAt'' (JInt now))"

definition sq_nack ::
  "json_lib \<Rightarrow> sql_engine \<Rightarrow> lease_token \<Rightarrow> string \<Rightarrow> bool \<Rightarrow> sql_adapter \<Rightarrow> res \<times> sql_adapter" where
  "sq_nack L E lease reason requeue s =
     (if \<not> sd_open s then (err_res ''database is not open'', s)
      else
        let (now, s1) = now_ms s; key = lt_message_key lease
        in if requeue then
             in_tx fail_res
               (tx_write E fail_res ''failed to requeue message''
                  (idx_update (\<lambda>r. ix_message_key r = key \<and> ix_state r = ''inflight'')
                     (\<lambda>r. r\<lparr>ix_state := ''ready'', ix_lease_until := None, ix_available_at := now\<rparr>))
               (tx_commit E fail_res return_ok)) s1
           else
             in_tx fail_res
               (tx_write E fail_res ''failed to move message to dlq''
                  (idx_update (\<lambda>r. ix_message_key r = key \<and> ix_state r = ''inflight'')
                     (\<lambda>r. r\<lparr>ix_state := ''dlq'', ix_lease_until := None\<rparr>))
               (\<lambda>s2. case sql_prepare s2 of
                  (Some e, s3) \<Rightarrow> tx_abort fail_res (Some e) s3
                | (None, s3) \<Rightarrow>
                    tx_commit E fail_res return_ok (edit_value L E key now (stamp_dlq reason now) s3))) s1)"

definition sq_extend_lease :: "sql_engine \<Rightarrow> lease_token \<Rightarrow> int \<Rightarrow> sql_adapter \<Rightarrow> res \<times> sql_adapter" where
  "sq_extend_lease E lease visibility_timeout_sec s =
     (if \<not> sd_open s then (err_res ''database is not open'', s)
      else
        in_tx fail_res
          (\<lambda>s1. let (now, s2) = now_ms s1
             in tx_write E fail_res ''failed to extend lease''
                  (idx_update (\<lambda>r. ix_message_key r = lt_message_key lease \<and> ix_state r = ''inflight'' \<and>
                       sql_greater (ix_lease_until r) now)
                     (\<lambda>r. r\<lparr>ix_lease_until := Some (i64 (now + visibility_timeout_sec * 1000))\<rparr>))
                  (tx_commit E fail_res return_ok) s2) s)"

section \<open>Policies and metrics\<close>

definition policy_key :: "string \<Rightarrow> string" where
  "policy_key queue = ''policy:'' @ queue"

text \<open>As in the file system adapter, but a block is read whatever its type: one that is not an object
  is an error.\<close>

definition sq_policy_of_json :: "json_lib \<Rightarrow> json \<Rightarrow> json_exc + queue_policy" where
  "sq_policy_of_json L j =
     ebind (jvalue (get_i32 L) j ''visibilityTimeoutSec'' 30) (\<lambda>visibility.
     ebind (case jmember j ''retry'' of
              Some r \<Rightarrow> retry_of_json L r
            | None \<Rightarrow> Inr (qp_retry default_policy)) (\<lambda>retry.
     ebind (case jmember j ''dlq'' of
              Some d \<Rightarrow> dlq_of_json L d
            | None \<Rightarrow> Inr (qp_dlq default_policy)) (\<lambda>dlq.
       Inr \<lparr>qp_visibility_timeout_sec = visibility, qp_retry = retry, qp_dlq = dlq\<rparr>)))"

definition sq_load_policy ::
  "json_lib \<Rightarrow> sql_engine \<Rightarrow> string \<Rightarrow> sql_adapter \<Rightarrow>
     (queue_policy option \<times> string option) \<times> sql_adapter" where
  "sq_load_policy L E queue s =
     (if \<not> sd_open s then ((None, Some ''database is not open''), s)
      else
        case sql_prepare s of
          (Some e, s1) \<Rightarrow> ((None, Some e), s1)
        | (None, s1) \<Rightarrow>
            (case sql_first E (\<lambda>_. kv_values (policy_key queue)) s1 of
               (None, s2) \<Rightarrow> ((None, None), s2)
             | (Some v, s2) \<Rightarrow>
                 (case ebind (json_parse L (column_text v)) (sq_policy_of_json L) of
                    Inl e \<Rightarrow> ((None, Some (''failed to parse policy: '' @ jl_what L e)), s2)
                  | Inr p \<Rightarrow> ((Some p, None), s2))))"

definition sq_save_policy ::
  "json_lib \<Rightarrow> sql_engine \<Rightarrow> string \<Rightarrow> queue_policy \<Rightarrow> sql_adapter \<Rightarrow> res \<times> sql_adapter" where
  "sq_save_policy L E queue policy s =
     (if \<not> sd_open s then (err_res ''database is not open'', s)
      else
        let (now, s1) = now_ms s
        in case sql_prepare s1 of
             (Some e, s2) \<Rightarrow> (err_res e, s2)
           | (None, s2) \<Rightarrow>
               (case sql_step E (kv_replace
                      \<lparr>kv_key = policy_key queue, kv_value = jl_dump L (- 1) (policy_json policy),
                       kv_type = ''policy'', kv_created_at = now, kv_updated_at = now\<rparr>) s2 of
                  (False, s3) \<Rightarrow> (err_res ''failed to save policy'', s3)
                | (True, s3) \<Rightarrow> (ok_res, s3)))"

text \<open>\<open>SELECT state, COUNT( * ) ... GROUP BY state\<close> and the loop over its rows.\<close>

definition state_counts ::
  "string \<Rightarrow> (index_row list \<Rightarrow> index_row list) \<Rightarrow> database \<Rightarrow> (string \<times> nat) list" where
  "state_counts queue scan d =
     (let states = map ix_state (filter (\<lambda>r. ix_queue r = queue) (scan (db_idx d)))
      in map (\<lambda>st. (st, length (filter (\<lambda>x. x = st) states))) (remdups states))"

definition count_state :: "string \<times> nat \<Rightarrow> queue_metrics \<Rightarrow> queue_metrics" where
  "count_state row m =
     (let (st, n) = (column_text (fst row), snd row)
      in if st = ''ready'' then m\<lparr>qm_ready := n\<rparr>
         else if st = ''inflight'' then m\<lparr>qm_inflight := n\<rparr>
         else if st = ''delayed'' then m\<lparr>qm_delayed := n\<rparr>
         else if st = ''dlq'' then m\<lparr>qm_dlq := n\<rparr> else m)"

definition sq_metrics ::
  "sql_engine \<Rightarrow> string \<Rightarrow> sql_adapter \<Rightarrow> (queue_metrics \<times> string option) \<times> sql_adapter" where
  "sq_metrics E queue s =
     (if \<not> sd_open s then ((zero_metrics, Some ''database is not open''), s)
      else
        case sql_prepare s of
          (Some e, s1) \<Rightarrow> ((zero_metrics, Some e), s1)
        | (None, s1) \<Rightarrow>
            let (rows, s2) = sql_rows E (state_counts queue) s1
            in ((fold count_state rows zero_metrics, None), s2))"

section \<open>Sweeps\<close>

text \<open>One \<open>UPDATE\<close> of the index and the number of rows it changed, as \<open>SELECT changes()\<close> gives it.\<close>

definition sweep_update ::
  "sql_engine \<Rightarrow> string \<Rightarrow> (int \<Rightarrow> index_row \<Rightarrow> bool) \<Rightarrow> (index_row \<Rightarrow> index_row) \<Rightarrow> sql_adapter \<Rightarrow>
     (int \<times> string option) \<times> sql_adapter" where
  "sweep_update E msg p f s =
     (if \<not> sd_open s then ((0, Some ''database is not open''), s)
      else
        in_tx (Pair 0)
          (\<lambda>s1. let (now, s2) = now_ms s1;
                   changes = int (length (filter (p now) (db_idx (sd_db s2))))
             in tx_write E (Pair 0) msg (idx_update (p now) f)
                  (\<lambda>s3. case sql_prepare s3 of
                     (Some e, s4) \<Rightarrow> tx_abort (Pair 0) (Some e) s4
                   | (None, s4) \<Rightarrow>
                       let (row, s5) = sql_first E (\<lambda>_ _. [i32 changes]) s4; count = value_or row 0
                       in tx_commit E (Pair 0) (\<lambda>s6. ((count, None), s6)) s5) s2) s)"

definition lease_expired :: "int \<Rightarrow> index_row \<Rightarrow> bool" where
  "lease_expired now r \<longleftrightarrow> ix_state r = ''inflight'' \<and> sql_less (ix_lease_until r) now"

definition sq_recover_expired_leases ::
  "sql_engine \<Rightarrow> sql_adapter \<Rightarrow> (int \<times> string option) \<times> sql_adapter" where
  "sq_recover_expired_leases E =
     sweep_update E ''failed to recover expired leases'' lease_expired
       (\<lambda>r. r\<lparr>ix_state := ''ready'', ix_lease_until := None\<rparr>)"

definition delay_over :: "int \<Rightarrow> index_row \<Rightarrow> bool" where
  "delay_over now r \<longleftrightarrow> ix_state r = ''delayed'' \<and> ix_available_at r \<le> now"

definition sq_process_delayed_messages ::
  "sql_engine \<Rightarrow> sql_adapter \<Rightarrow> (int \<times> string option) \<times> sql_adapter" where
  "sq_process_delayed_messages E =
     sweep_update E ''failed to process delayed messages'' delay_over (\<lambda>r. r\<lparr>ix_state := ''ready''\<rparr>)"

definition expired_rows ::
  "int \<Rightarrow> (index_row list \<Rightarrow> index_row list) \<Rightarrow> database \<Rightarrow> expired_lease_info list" where
  "expired_rows now scan d =
     map (\<lambda>r. \<lparr>el_message_key = column_text (ix_message_key r), el_queue = column_text (ix_queue r),
               el_attempt = i32 (ix_attempt r)\<rparr>)
       (filter (lease_expired now) (scan (db_idx d)))"

definition sq_get_expired_inflight_messages ::
  "sql_engine \<Rightarrow> sql_adapter \<Rightarrow> (expired_lease_info list \<times> string option) \<times> sql_adapter" where
  "sq_get_expired_inflight_messages E s =
     (if \<not> sd_open s then (([], Some ''database is not open''), s)
      else
        let (now, s1) = now_ms s
        in case sql_prepare s1 of
             (Some e, s2) \<Rightarrow> (([], Some e), s2)
           | (None, s2) \<Rightarrow>
               let (rows, s3) = sql_rows E (expired_rows now) s2 in ((rows, None), s3))"

section \<open>Retry and dead letters\<close>

definition sq_delay_message ::
  "sql_engine \<Rightarrow> string \<Rightarrow> int \<Rightarrow> sql_adapter \<Rightarrow> res \<times> sql_adapter" where
  "sq_delay_message E key delay_ms s =
     (if \<not> sd_open s then (err_res ''database is not open'', s)
      else
        in_tx fail_res
          (\<lambda>s1. let (now, s2) = now_ms s1
             in tx_write E fail_res ''failed to delay message''
                  (idx_update (\<lambda>r. ix_message_key r = key)
                     (\<lambda>r. r\<lparr>ix_state := ''delayed'', ix_lease_until := None,
                            ix_available_at := i64 (now + delay_ms)\<rparr>))
                  (tx_commit E fail_res return_ok) s2) s)"

text \<open>The value is edited only when the \<open>SELECT\<close> could be prepared.\<close>

definition try_edit_value ::
  "json_lib \<Rightarrow> sql_engine \<Rightarrow> string \<Rightarrow> int \<Rightarrow> (json \<Rightarrow> json_exc + json) \<Rightarrow> 'a sql_db_scheme \<Rightarrow> 'a sql_db_scheme"
where
  "try_edit_value L E key now edit s =
     (case sql_prepare s of
        (Some _, s1) \<Rightarrow> s1
      | (None, s1) \<Rightarrow> edit_value L E key now edit s1)"

definition sq_move_to_dlq ::
  "json_lib \<Rightarrow> sql_engine \<Rightarrow> string \<Rightarrow> string \<Rightarrow> sql_adapter \<Rightarrow> res \<times> sql_adapter" where
  "sq_move_to_dlq L E key reason s =
     (if \<not> sd_open s then (err_res ''database is not open'', s)
      else
        in_tx fail_res
          (\<lambda>s1. let (now, s2) = now_ms s1
             in tx_write E fail_res ''failed to move message to dlq''
                  (idx_update (\<lambda>r. ix_message_key r = key)
                     (\<lambda>r. r\<lparr>ix_state := ''dlq'', ix_lease_until := None, ix_dlq_reason := Some reason,
                            ix_dlq_at := Some now\<rparr>))
                  (\<lambda>s3. tx_commit E fail_res return_ok
                     (try_edit_value L E key now (stamp_dlq reason now) s3)) s2) s)"

text \<open>\<open>ORDER BY dlq_at DESC\<close>: NULL comes last.\<close>

definition dlq_rows ::
  "string \<Rightarrow> int \<Rightarrow> (index_row list \<Rightarrow> index_row list) \<Rightarrow> database \<Rightarrow> dlq_message_info list" where
  "dlq_rows queue limit scan d =
     map (\<lambda>r. \<lparr>di_message_key = column_text (ix_message_key r), di_queue = column_text (ix_queue r),
               di_reason = column_text (value_or (ix_dlq_reason r) []),
               di_dlq_at_ms = value_or (ix_dlq_at r) 0, di_attempt = i32 (ix_attempt r)\<rparr>)
       (sql_limit limit
          (sort_key (\<lambda>r. case ix_dlq_at r of Some t \<Rightarrow> (0::int, - t) | None \<Rightarrow> (1, 0))
             (filter (\<lambda>r. ix_queue r = queue \<and> ix_state r = ''dlq'') (scan (db_idx d)))))"

definition sq_list_dlq_messages ::
  "sql_engine \<Rightarrow> string \<Rightarrow> int \<Rightarrow> sql_adapter \<Rightarrow> (dlq_message_info list \<times> string option) \<times> sql_adapter"
where
  "sq_list_dlq_messages E queue limit s =
     (if \<not> sd_open s then (([], Some ''database is not open''), s)
      else
        case sql_prepare s of
          (Some e, s1) \<Rightarrow> (([], Some e), s1)
        | (None, s1) \<Rightarrow>
            let (rows, s2) = sql_rows E (dlq_rows queue limit) s1 in ((rows, None), s2))"

definition sq_reprocess_dlq_message ::
  "json_lib \<Rightarrow> sql_engine \<Rightarrow> string \<Rightarrow> sql_adapter \<Rightarrow> res \<times> sql_adapter" where
  "sq_reprocess_dlq_message L E key s =
     (if \<not> sd_open s then (err_res ''database is not open'', s)
      else
        in_tx fail_res
          (\<lambda>s1. let (now, s2) = now_ms s1
             in tx_write E fail_res ''failed to reprocess DLQ message''
                  (idx_update (\<lambda>r. ix_message_key r = key \<and> ix_state r = ''dlq'')
                     (\<lambda>r. r\<lparr>ix_state := ''ready'', ix_lease_until := None, ix_available_at := now,
                            ix_attempt := 0, ix_dlq_reason := None, ix_dlq_at := None\<rparr>))
                  (\<lambda>s3. tx_commit E fail_res return_ok
                     (try_edit_value L E key now clear_dlq_fields s3)) s2) s)"

section \<open>The adapter as an operation table\<close>

definition sq_backend :: "json_lib \<Rightarrow> sql_engine \<Rightarrow> sql_adapter backend" where
  "sq_backend L E = \<lparr>
     be_enqueue = sq_enqueue L E,
     be_lease_next = sq_lease_next L E,
     be_ack = sq_ack E,
     be_nack = sq_nack L E,
     be_extend_lease = sq_extend_lease E,
     be_load_policy = sq_load_policy L E,
     be_save_policy = sq_save_policy L E,
     be_metrics = sq_metrics E,
     be_recover_expired_leases = sq_recover_expired_leases E,
     be_process_delayed_messages = sq_process_delayed_messages E,
     be_get_expired_inflight_messages = sq_get_expired_inflight_messages E,
     be_delay_message = sq_delay_message E,
     be_move_to_dlq = sq_move_to_dlq L E,
     be_list_dlq_messages = sq_list_dlq_messages E,
     be_reprocess_dlq_message = sq_reprocess_dlq_message L E\<rparr>"

end
