(* ===== verification/SQLite_Tables.thy ===== *)
theory SQLite_Tables
  imports SQLite_Adapter Backend_Contract
begin

text \<open>
  What the operations of the SQLite adapter do to the committed content of the tables. A transaction
  is followed through its statements by rules, one per combinator: \<open>tx d P s\<close> says that a transaction
  that began on the content \<open>d\<close> is open and that its tables satisfy \<open>P\<close>.
\<close>

section \<open>Rules for transactions\<close>

lemma os_io_db [simp]:
  "os_io s = (e, s1) \<Longrightarrow> sd_db s1 = sd_db s \<and> sd_saved s1 = sd_saved s \<and> sd_open s1 = sd_open s"
  by (auto simp: os_io_def)

lemma os_io_committed: "os_io s = (e, s1) \<Longrightarrow> committed s1 = committed s"
  by (simp add: committed_def split: option.split)

lemma failed_committed [simp]: "committed (sql_failed E n s) = committed s"
  by (simp add: sql_failed_def committed_def split: option.split)

lemma now_ms_db [simp]:
  "sd_db (snd (now_ms s)) = sd_db s" "sd_saved (snd (now_ms s)) = sd_saved s"
  "committed (snd (now_ms s)) = committed s" "sd_open (snd (now_ms s)) = sd_open s"
  by (simp_all add: now_ms_def committed_def split: option.split)

lemma now_ms_committed: "now_ms s = (t, s1) \<Longrightarrow> committed s1 = committed s"
  using now_ms_db(3) [of s] by simp

lemma fresh_guid_committed [simp]: "committed (snd (fresh_guid s)) = committed s"
  by (simp add: fresh_guid_def committed_def split: option.split)

lemma begin_committed: "begin_transaction s = (r, s1) \<Longrightarrow> committed s1 = committed s"
  by (auto simp: begin_transaction_def committed_def split: if_splits prod.splits option.splits)

lemma rollback_committed [simp]: "committed (snd (sql_rollback s)) = committed s"
  by (auto simp: sql_rollback_def committed_def split: prod.splits option.splits)

lemma prepare_committed: "sql_prepare s = (e, s1) \<Longrightarrow>
    committed s1 = committed s \<and> sd_db s1 = sd_db s \<and> sd_saved s1 = sd_saved s"
  by (auto simp: sql_prepare_def committed_def split: if_splits prod.splits option.splits)

lemma first_committed: "sql_first E q s = (x, s1) \<Longrightarrow> committed s1 = committed s"
  by (auto simp: sql_first_def os_io_committed split: prod.splits option.splits list.splits)

lemma rows_committed: "sql_rows E q s = (x, s1) \<Longrightarrow> committed s1 = committed s"
  by (auto simp: sql_rows_def Let_def os_io_committed split: prod.splits option.splits)

definition tx :: "database \<Rightarrow> (database \<Rightarrow> bool) \<Rightarrow> 'a sql_db_scheme \<Rightarrow> bool" where
  "tx d P s \<longleftrightarrow> sd_saved s = Some d \<and> P (sd_db s)"

text \<open>The transaction may have been rolled back by a failure nobody looked at.\<close>

definition tx_lost :: "database \<Rightarrow> (database \<Rightarrow> bool) \<Rightarrow> 'a sql_db_scheme \<Rightarrow> bool" where
  "tx_lost d P s \<longleftrightarrow> tx d P s \<or> (sd_saved s = None \<and> sd_db s = d)"

lemma tx_committed: "tx d P s \<Longrightarrow> committed s = d"
  by (simp add: tx_def committed_def)

lemma tx_lost_committed: "tx_lost d P s \<Longrightarrow> committed s = d"
  by (auto simp: tx_lost_def tx_def committed_def)

lemma tx_imp_lost: "tx d P s \<Longrightarrow> tx_lost d P s"
  by (simp add: tx_lost_def)

lemma tx_now [simp]: "tx d P (snd (now_ms s)) = tx d P s"
  by (simp add: tx_def)

lemma tx_prepare: "sql_prepare s = (e, s1) \<Longrightarrow> tx d P s1 = tx d P s"
  by (auto simp: tx_def dest: prepare_committed)

lemma tx_failed: "tx d P s \<Longrightarrow> tx_lost d P (sql_failed E n s)"
  by (auto simp: tx_lost_def tx_def sql_failed_def committed_def)

lemma tx_first:
  assumes "tx d P s" "sql_first E q s = (x, s1)"
  shows "tx_lost d P s1" "x = Some r \<Longrightarrow> tx d P s1"
  using assms
  by (auto simp: sql_first_def tx_imp_lost intro!: tx_failed split: prod.splits option.splits list.splits)
    (auto simp: tx_def tx_lost_def)

text \<open>The postcondition: a relation between the result and the committed content.\<close>

definition post :: "('r \<Rightarrow> database \<Rightarrow> bool) \<Rightarrow> 'r \<times> 'a sql_db_scheme \<Rightarrow> bool" where
  "post Q x \<longleftrightarrow> Q (fst x) (committed (snd x))"

lemma postD: "post Q x \<Longrightarrow> x = (r, s') \<Longrightarrow> Q r (committed s')"
  by (simp add: post_def)

lemma post_in_tx:
  assumes "\<And>e. e \<noteq> None \<Longrightarrow> Q (failure e) d" "committed s = d" "\<And>s1. tx d ((=) d) s1 \<Longrightarrow> post Q (k s1)"
  shows "post Q (in_tx failure k s)"
proof -
  obtain r s1 where b: "begin_transaction s = (r, s1)" by (metis prod.collapse)
  have "fst r \<Longrightarrow> tx d ((=) d) s1"
    using b assms(2)
    by (auto simp: begin_transaction_def tx_def committed_def split: if_splits prod.splits option.splits)
  moreover have "\<not> fst r \<Longrightarrow> snd r \<noteq> None"
    using b by (auto simp: begin_transaction_def split: if_splits prod.splits option.splits)
  ultimately show ?thesis
    using assms b begin_committed [OF b] by (auto simp: in_tx_def post_def)
qed

lemma post_abort: "Q (failure e) d \<Longrightarrow> committed s = d \<Longrightarrow> post Q (tx_abort failure e s)"
  by (simp add: tx_abort_def post_def)

lemma step_tx:
  assumes "tx d P s" "sql_step E f s = (b, s1)"
  shows "committed s1 = d" "b \<Longrightarrow> \<exists>x d'. P x \<and> f x = Some d' \<and> sd_db s1 = d' \<and> sd_saved s1 = Some d"
    "\<not> b \<Longrightarrow> tx_lost d P s1"
  using assms
  by (auto simp: sql_step_def sql_execute_def tx_def committed_def tx_lost_def sql_failed_def
      split: if_splits prod.splits option.splits)

lemma post_write:
  assumes "\<And>e. e \<noteq> None \<Longrightarrow> Q (failure e) d" "tx d P s"
    and "\<And>x d'. P x \<Longrightarrow> f x = Some d' \<Longrightarrow> P' d'"
    and "\<And>s1. tx d P' s1 \<Longrightarrow> post Q (k s1)"
  shows "post Q (tx_write E failure msg f k s)"
proof -
  obtain e s1 where p: "sql_prepare s = (e, s1)" by (metis prod.collapse)
  have t1: "tx d P s1" using assms(2) tx_prepare [OF p] by simp
  obtain b s2 where st: "sql_step E f s1 = (b, s2)" by (metis prod.collapse)
  note t2 = step_tx [OF t1 st]
  have "b \<Longrightarrow> tx d P' s2" using t2(2) assms(3) by (auto simp: tx_def)
  then show ?thesis
    using p st t2(1) tx_committed [OF t1] assms(1,4)
    by (auto simp: tx_write_def intro: post_abort split: option.split bool.split)
qed

lemma post_commit:
  assumes "\<And>e. e \<noteq> None \<Longrightarrow> Q (failure e) d" "tx_lost d P s" "\<And>s1. P (committed s1) \<Longrightarrow> post Q (k s1)"
  shows "post Q (tx_commit E failure k s)"
proof -
  obtain r s1 where c: "sql_commit E s = (r, s1)" by (metis prod.collapse)
  have "fst r \<Longrightarrow> P (committed s1)" "\<not> fst r \<Longrightarrow> committed s1 = d \<and> snd r \<noteq> None"
    using c assms(2) tx_lost_committed [OF assms(2)]
    by (auto simp: sql_commit_def tx_lost_def tx_def committed_def sql_failed_def
        split: if_splits prod.splits option.splits)
  then show ?thesis using c assms(1,3) by (auto simp: tx_commit_def intro: post_abort)
qed

lemma post_prepare:
  assumes "\<And>e. e \<noteq> None \<Longrightarrow> Q (failure e) d" "tx d P s" "\<And>s1. tx d P s1 \<Longrightarrow> post Q (k s1)"
  shows "post Q
    (case sql_prepare s of (Some e, s1) \<Rightarrow> tx_abort failure (Some e) s1 | (None, s1) \<Rightarrow> k s1)"
proof -
  obtain e s1 where p: "sql_prepare s = (e, s1)" by (metis prod.collapse)
  have t: "tx d P s1" using assms(2) tx_prepare [OF p] by simp
  have "e' \<noteq> None \<Longrightarrow> post Q (tx_abort failure e' s1)" for e'
    by (rule post_abort [where Q = Q and failure = failure, OF assms(1) tx_committed [OF t]])
  then show ?thesis using p assms(3) [OF t] by (cases e) simp_all
qed

lemma post_first:
  assumes "Q (failure e) d" "tx d P s"
    and "\<And>r rest x n s1. tx d P s1 \<Longrightarrow> P x \<Longrightarrow> q (se_scan E n) x = r # rest \<Longrightarrow> post Q (k r s1)"
  shows "post Q
    (case sql_first E q s of (None, s1) \<Rightarrow> tx_abort failure e s1 | (Some r, s1) \<Rightarrow> k r s1)"
proof -
  obtain x s1 where f: "sql_first E q s = (x, s1)" by (metis prod.collapse)
  show ?thesis
  proof (cases x)
    case None
    have "post Q (tx_abort failure e s1)"
      using post_abort [where Q = Q and failure = failure, OF assms(1)
          tx_lost_committed [OF tx_first(1) [OF assms(2) f]]] .
    then show ?thesis using f None by simp
  next
    case (Some r)
    have "\<exists>rest. q (se_scan E (io_n s)) (sd_db s) = r # rest" "P (sd_db s)"
      using f Some assms(2)
      by (auto simp: sql_first_def tx_def split: prod.splits option.splits list.splits)
    then show ?thesis using f Some assms(3) [OF tx_first(2) [OF assms(2) f Some]] by auto
  qed
qed

section \<open>The messages of the tables\<close>

text \<open>The body of a message, as \<open>lease_next\<close> would hand it out, with its target.\<close>

definition row_body :: "json_lib \<Rightarrow> index_row \<Rightarrow> string \<Rightarrow> message option" where
  "row_body L r v =
     (case ebind (json_parse L (column_text v))
             (leased_message L (ix_queue r) (ix_message_key r) (ix_priority r) 0) of
        Inl _ \<Rightarrow> None
      | Inr m \<Rightarrow> Some (m\<lparr>m_target_consumer_id := ix_target r\<rparr>))"

definition db_row :: "database \<Rightarrow> string \<Rightarrow> index_row option" where
  "db_row d key = List.find (\<lambda>r. ix_message_key r = key) (db_idx d)"

definition db_value :: "database \<Rightarrow> string \<Rightarrow> string option" where
  "db_value d key = map_option kv_value (List.find (\<lambda>x. kv_key x = key) (db_kv d))"

definition db_body :: "json_lib \<Rightarrow> database \<Rightarrow> string \<Rightarrow> string \<Rightarrow> message option" where
  "db_body L d q i =
     (case (db_row d (msg_key q i), db_value d (msg_key q i)) of
        (Some r, Some v) \<Rightarrow> if ix_queue r = q then row_body L r v else None
      | _ \<Rightarrow> None)"

text \<open>The invariant of the tables: both keys are unique, every message row has its value, and the value
  is a JSON object.\<close>

definition object_value :: "json_lib \<Rightarrow> string \<Rightarrow> bool" where
  "object_value L v \<longleftrightarrow> (\<exists>m. json_parse L (column_text v) = Inr (JObj m))"

definition good_db :: "json_lib \<Rightarrow> database \<Rightarrow> bool" where
  "good_db L d \<longleftrightarrow>
     distinct (map kv_key (db_kv d)) \<and> distinct (map ix_message_key (db_idx d)) \<and>
     (\<forall>r \<in> set (db_idx d). \<exists>v. db_value d (ix_message_key r) = Some v \<and> object_value L v)"

lemma find_map_same: "(\<And>x. p (g x) = p x) \<Longrightarrow> List.find p (map g xs) = map_option g (List.find p xs)"
  by (induction xs) auto

lemma find_filter: "(\<And>x. p x \<Longrightarrow> q x) \<Longrightarrow> List.find p (filter q xs) = List.find p xs"
  by (induction xs) auto

lemma find_snoc:
  "List.find p (xs @ [x]) =
     (case List.find p xs of None \<Rightarrow> (if p x then Some x else None) | Some y \<Rightarrow> Some y)"
  by (induction xs) auto

lemma find_None: "\<not> list_ex p xs \<Longrightarrow> List.find p xs = None"
  by (induction xs) auto

lemma find_Some_mem: "List.find p xs = Some x \<Longrightarrow> x \<in> set xs \<and> p x"
  by (induction xs) (auto split: if_splits)

lemma find_distinct:
  "distinct (map f xs) \<Longrightarrow> x \<in> set xs \<Longrightarrow> List.find (\<lambda>y. f y = f x) xs = Some x"
  by (induction xs) auto

subsection \<open>Statements that keep the messages\<close>

definition row_frame :: "(index_row \<Rightarrow> index_row) \<Rightarrow> bool" where
  "row_frame f \<longleftrightarrow> (\<forall>r. ix_message_key (f r) = ix_message_key r \<and> ix_queue (f r) = ix_queue r \<and>
     ix_priority (f r) = ix_priority r \<and> ix_target (f r) = ix_target r)"

text \<open>The content \<open>d\<close> with the same messages.\<close>

definition same_msgs :: "json_lib \<Rightarrow> database \<Rightarrow> database \<Rightarrow> bool" where
  "same_msgs L d x \<longleftrightarrow> good_db L x \<and> db_body L x = db_body L d"

lemma idx_update_same:
  assumes "same_msgs L d x" "row_frame f" "idx_update p f x = Some x'"
  shows "same_msgs L d x'"
proof -
  define g where "g = (\<lambda>r. if p r then f r else r)"
  have x': "x' = x\<lparr>db_idx := map g (db_idx x)\<rparr>" using assms(3) by (simp add: idx_update_def g_def)
  have g: "ix_message_key (g r) = ix_message_key r" "ix_queue (g r) = ix_queue r"
    "row_body L (g r) v = row_body L r v" for r v
    using assms(2) by (auto simp: row_frame_def row_body_def g_def split: sum.split)
  have row: "db_row x' key = map_option g (db_row x key)" for key
    unfolding db_row_def x' using g(1) by (simp add: find_map_same)
  have val: "db_value x' = db_value x" by (simp add: db_value_def x' fun_eq_iff)
  have "db_body L x' = db_body L x"
    by (simp add: db_body_def row val fun_eq_iff g split: option.split)
  moreover have keys: "map ix_message_key (db_idx x') = map ix_message_key (db_idx x)"
    using g(1) by (simp add: x')
  have kv: "db_kv x' = db_kv x" and idx: "set (db_idx x') = g ` set (db_idx x)" by (simp_all add: x')
  have "good_db L x'"
    using assms(1) g(1) by (auto simp: same_msgs_def good_db_def keys kv idx val)
  ultimately show ?thesis using assms(1) by (simp add: same_msgs_def)
qed

text \<open>An edit of the value of a message that keeps the members \<open>lease_next\<close> reads.\<close>

definition value_frame :: "(json \<Rightarrow> json_exc + json) \<Rightarrow> bool" where
  "value_frame edit \<longleftrightarrow> (\<forall>m j. edit (JObj m) = Inr j \<longrightarrow> (\<exists>m'. j = JObj m' \<and>
     (\<forall>k \<in> {''messageId'', ''queue'', ''payload'', ''attributes'', ''createdAt''}.
        fmlookup m' k = fmlookup m k)))"

lemma value_frame_stamp: "value_frame (stamp_dlq reason now)"
  by (auto simp: value_frame_def stamp_dlq_def)

lemma value_frame_clear: "value_frame clear_dlq_fields"
  by (auto simp: value_frame_def clear_dlq_fields_def)

lemma row_body_edit:
  assumes "json_ok L" "value_frame edit" "object_value L v"
    and "ebind (json_parse L (column_text v)) edit = Inr j"
  shows "row_body L r (jl_dump L n j) = row_body L r v" "object_value L (jl_dump L n j)"
proof -
  obtain m where m: "json_parse L (column_text v) = Inr (JObj m)"
    using assms(3) by (auto simp: object_value_def)
  with assms(4) have "edit (JObj m) = Inr j" by simp
  with assms(2) obtain m' where j: "j = JObj m'"
    "\<forall>k \<in> {''messageId'', ''queue'', ''payload'', ''attributes'', ''createdAt''}.
        fmlookup m' k = fmlookup m k"
    by (auto simp: value_frame_def)
  then show "row_body L r (jl_dump L n j) = row_body L r v"
    using assms(1) m by (simp add: row_body_def leased_message_def)
  show "object_value L (jl_dump L n j)" using assms(1) j by (simp add: object_value_def)
qed

lemma kv_update_same:
  assumes ok: "json_ok L" "value_frame edit" and x: "same_msgs L d x"
    and v: "db_value x key = Some v" "ebind (json_parse L (column_text v)) edit = Inr j"
    and upd: "kv_update key (jl_dump L n j) now x = Some x'"
  shows "same_msgs L d x'"
proof -
  let ?w = "jl_dump L n j"
  have x': "x' = x\<lparr>db_kv := map (\<lambda>y. if kv_key y = key then y\<lparr>kv_value := ?w, kv_updated_at := now\<rparr> else y)
      (db_kv x)\<rparr>"
    using upd by (simp add: kv_update_def)
  have val: "db_value x' k = (if k = key then Some ?w else db_value x k)" for k
  proof (cases "List.find (\<lambda>y. kv_key y = k) (db_kv x)")
    case None
    then show ?thesis using v(1) by (auto simp: db_value_def x' find_map_same)
  next
    case (Some z)
    then show ?thesis using find_Some_mem [OF Some] by (auto simp: db_value_def x' find_map_same)
  qed
  have row: "db_row x' = db_row x" by (simp add: db_row_def x' fun_eq_iff)
  have mem: "object_value L v" if "db_row x key = Some r" for r
    using that x v(1) by (auto simp: same_msgs_def good_db_def db_row_def dest!: find_Some_mem)
  have "db_body L x' q i = db_body L x q i" for q i
    using row_body_edit(1) [OF ok mem v(2)] v(1) by (auto simp: db_body_def row val split: option.split)
  then have "db_body L x' = db_body L x" by (simp add: fun_eq_iff)
  moreover have keys: "map kv_key (db_kv x') = map kv_key (db_kv x)" by (simp add: x')
  have idx: "db_idx x' = db_idx x" by (simp add: x')
  have "good_db L x'"
  proof -
    have "\<exists>v. db_value x' (ix_message_key r) = Some v \<and> object_value L v" if r: "r \<in> set (db_idx x)" for r
    proof (cases "ix_message_key r = key")
      case True
      have "object_value L v" using x r v(1) True by (force simp: same_msgs_def good_db_def)
      then show ?thesis using row_body_edit(2) [OF ok _ v(2)] True by (simp add: val)
    next
      case False
      then show ?thesis using x r by (auto simp: same_msgs_def good_db_def val)
    qed
    then show ?thesis using x by (simp add: same_msgs_def good_db_def keys idx)
  qed
  ultimately show ?thesis using x by (simp add: same_msgs_def)
qed

lemma kv_values_value: "db_value d key = (case kv_values key d of [] \<Rightarrow> None | v # _ \<Rightarrow> Some v)"
proof -
  have "map_option kv_value (List.find p xs) =
      (case map kv_value (filter p xs) of [] \<Rightarrow> None | v # _ \<Rightarrow> Some v)" for p xs
    by (induction xs) auto
  then show ?thesis by (simp add: db_value_def kv_values_def)
qed

lemma tx_edit_value:
  assumes ok: "json_ok L" "value_frame edit" and t: "tx d (same_msgs L d) s"
  shows "tx_lost d (same_msgs L d) (edit_value L E key now edit s)"
proof -
  obtain x s1 where f: "sql_first E (\<lambda>_. kv_values key) s = (x, s1)" by (metis prod.collapse)
  note lost = tx_first(1) [OF t f]
  show ?thesis
  proof (cases x)
    case None
    then show ?thesis using f lost by (simp add: edit_value_def)
  next
    case (Some v)
    have t1: "tx d (same_msgs L d) s1" using tx_first(2) [OF t f Some] .
    have v: "db_value (sd_db s1) key = Some v"
      using f Some by (auto simp: sql_first_def kv_values_value split: prod.splits option.splits list.splits)
    show ?thesis
    proof (cases "ebind (json_parse L (column_text v)) edit")
      case (Inl e)
      then show ?thesis using f Some lost by (simp add: edit_value_def)
    next
      case (Inr j)
      obtain e s2 where p: "sql_prepare s1 = (e, s2)" by (metis prod.collapse)
      have t2: "tx d (\<lambda>y. y = sd_db s1 \<and> same_msgs L d y) s2"
        using t1 prepare_committed [OF p] by (simp add: tx_def)
      obtain b s3 where st: "sql_step E (kv_update key (jl_dump L (- 1) j) now) s2 = (b, s3)"
        by (metis prod.collapse)
      note r = step_tx [OF t2 st]
      have "tx_lost d (same_msgs L d) s3"
      proof (cases b)
        case True
        with r(2) obtain d' where "kv_update key (jl_dump L (- 1) j) now (sd_db s1) = Some d'"
            "sd_db s3 = d'" "sd_saved s3 = Some d" "same_msgs L d (sd_db s1)" by blast
        with kv_update_same [OF ok _ v Inr] show ?thesis by (auto simp: tx_lost_def tx_def)
      next
        case False
        with r(3) show ?thesis by (auto simp: tx_lost_def tx_def)
      qed
      moreover have "tx_lost d (same_msgs L d) s2" using t2 by (auto simp: tx_lost_def tx_def)
      ultimately show ?thesis using f Some Inr p st by (simp add: edit_value_def split: option.split)
    qed
  qed
qed

lemma tx_try_edit_value:
  assumes "json_ok L" "value_frame edit" "tx d (same_msgs L d) s"
  shows "tx_lost d (same_msgs L d) (try_edit_value L E key now edit s)"
proof -
  obtain e s1 where p: "sql_prepare s = (e, s1)" by (metis prod.collapse)
  have "tx d (same_msgs L d) s1" using assms(3) tx_prepare [OF p] by simp
  then have "tx_lost d (same_msgs L d) (edit_value L E key now edit s1)" "tx_lost d (same_msgs L d) s1"
    by (simp_all add: tx_edit_value [OF assms(1,2)] tx_imp_lost)
  then show ?thesis using p by (simp add: try_edit_value_def split: option.split)
qed

lemma step_auto:
  "sql_step E f s = (b, s1) \<Longrightarrow>
     committed s1 = committed s \<or> f (committed s) = Some (committed s1)"
  by (auto simp: sql_step_def sql_execute_def committed_def sql_failed_def
      split: if_splits prod.splits option.splits)

declare os_io_db [simp del]

end
