(* ===== verification/SQLite_Contract.thy ===== *)
theory SQLite_Contract
  imports SQLite_Tables Daemon
begin

text \<open>
  The SQLite adapter fulfils the contract of \<open>Backend_Contract\<close>: each operation either leaves the
  committed tables as they are or commits its whole effect, and only an acknowledgement removes a
  message; the interpretation of \<open>message_store\<close> on \<open>sq_backend\<close>.
\<close>

section \<open>The operations\<close>

text \<open>Operations that keep every message.\<close>

definition keeps_msgs :: "json_lib \<Rightarrow> database \<Rightarrow> 'r \<Rightarrow> database \<Rightarrow> bool" where
  "keeps_msgs L d r x \<longleftrightarrow> same_msgs L d x"

lemma same_refl: "good_db L d \<Longrightarrow> same_msgs L d d"
  by (simp add: same_msgs_def)

lemma post_keeps: "same_msgs L d (committed s) \<Longrightarrow> post (keeps_msgs L d) (r, s)"
  by (simp add: post_def keeps_msgs_def)

text \<open>A transaction that updates the index without touching what identifies a message.\<close>

lemma post_update:
  assumes "good_db L d" "tx d ((=) d) s" "row_frame f"
    and "\<And>s1. tx d (same_msgs L d) s1 \<Longrightarrow> post (keeps_msgs L d) (k s1)"
  shows "post (keeps_msgs L d) (tx_write E failure msg (idx_update p f) k s)"
proof (rule post_write)
  show "tx d ((=) d) s" by (rule assms(2))
  show "\<And>e. keeps_msgs L d (failure e) d" using assms(1) by (simp add: keeps_msgs_def same_refl)
  show "\<And>x d'. d = x \<Longrightarrow> idx_update p f x = Some d' \<Longrightarrow> same_msgs L d d'"
    using idx_update_same [OF same_refl [OF assms(1)] assms(3)] by blast
qed (rule assms(4))

lemma post_commit_same:
  assumes "good_db L d" "tx_lost d (same_msgs L d) s"
    and "\<And>s1. same_msgs L d (committed s1) \<Longrightarrow> post (keeps_msgs L d) (k s1)"
  shows "post (keeps_msgs L d) (tx_commit E failure k s)"
  using assms(2) by (rule post_commit [rotated]) (simp_all add: keeps_msgs_def same_refl assms(1,3))

lemma post_begin_same:
  assumes "good_db L d" "committed s = d"
    and "\<And>s1. tx d ((=) d) s1 \<Longrightarrow> post (keeps_msgs L d) (k s1)"
  shows "post (keeps_msgs L d) (in_tx failure k s)"
  by (rule post_in_tx [OF _ assms(2,3)]) (simp_all add: keeps_msgs_def same_refl assms)

lemma post_abort_same:
  "good_db L d \<Longrightarrow> committed s = d \<Longrightarrow> post (keeps_msgs L d) (tx_abort failure e s)"
  by (rule post_abort) (simp_all add: keeps_msgs_def same_refl)

lemma post_prepare_same:
  assumes "good_db L d" "tx d P s" "\<And>s1. tx d P s1 \<Longrightarrow> post (keeps_msgs L d) (k s1)"
  shows "post (keeps_msgs L d)
    (case sql_prepare s of (Some e, s1) \<Rightarrow> tx_abort failure (Some e) s1 | (None, s1) \<Rightarrow> k s1)"
  by (rule post_prepare [where d = d, OF _ assms(2,3)]) (simp_all add: keeps_msgs_def same_refl assms(1))

lemma post_done:
  "good_db L d \<Longrightarrow> tx_lost d (same_msgs L d) s \<Longrightarrow> post (keeps_msgs L d) (tx_commit E failure (Pair r) s)"
  by (rule post_commit_same) (simp_all add: post_keeps)

lemma post_now:
  "committed s = d \<Longrightarrow> (\<And>now s1. committed s1 = d \<Longrightarrow> post Q (k now s1)) \<Longrightarrow>
     post Q (case now_ms s of (now, s1) \<Rightarrow> k now s1)"
  using now_ms_db(3) [of s] by (cases "now_ms s") auto

lemma post_now_tx:
  "tx d P s \<Longrightarrow> (\<And>now s1. tx d P s1 \<Longrightarrow> post Q (k now s1)) \<Longrightarrow>
     post Q (case now_ms s of (now, s1) \<Rightarrow> k now s1)"
  using tx_now [of d P s] by (cases "now_ms s") auto

lemma nothing_kept: "good_db L d \<Longrightarrow> committed s = d \<Longrightarrow> post (keeps_msgs L d) (r, s)"
  by (simp add: post_def keeps_msgs_def same_refl)

lemma row_frames:
  "row_frame (\<lambda>r. r\<lparr>ix_state := st, ix_lease_until := u\<rparr>)"
  "row_frame (\<lambda>r. r\<lparr>ix_state := st, ix_lease_until := u, ix_available_at := a\<rparr>)"
  "row_frame (\<lambda>r. r\<lparr>ix_lease_until := u\<rparr>)" "row_frame (\<lambda>r. r\<lparr>ix_state := st\<rparr>)"
  "row_frame (\<lambda>r. r\<lparr>ix_state := st, ix_lease_until := u, ix_attempt := n\<rparr>)"
  "row_frame (\<lambda>r. r\<lparr>ix_state := st, ix_lease_until := u, ix_dlq_reason := x, ix_dlq_at := y\<rparr>)"
  "row_frame (\<lambda>r. r\<lparr>ix_state := st, ix_lease_until := u, ix_available_at := a, ix_attempt := n,
     ix_dlq_reason := x, ix_dlq_at := y\<rparr>)"
  by (simp_all add: row_frame_def)

lemmas post_rules = post_begin_same post_update post_prepare_same post_done post_now_tx nothing_kept
  row_frames tx_edit_value tx_try_edit_value value_frame_stamp value_frame_clear

lemma nack_keeps:
  assumes ok: "json_ok L" and g: "good_db L (committed s)"
  shows "post (keeps_msgs L (committed s)) (sq_nack L E lease reason requeue s)"
proof (cases "sd_open s")
  case True
  obtain now s1 where n: "now_ms s = (now, s1)" by (metis prod.collapse)
  have c: "committed s = committed s1" using n now_ms_db(3) [of s] by simp
  show ?thesis
    unfolding c using True n g [unfolded c]
    by (auto simp: sq_nack_def Let_def intro: tx_imp_lost intro!: post_rules ok)
qed (simp add: sq_nack_def nothing_kept g)

lemma delay_keeps:
  assumes g: "good_db L (committed s)"
  shows "post (keeps_msgs L (committed s)) (sq_delay_message E key delay s)"
  using g by (auto simp: sq_delay_message_def Let_def intro: tx_imp_lost intro!: post_rules)

lemma move_to_dlq_keeps:
  assumes ok: "json_ok L" and g: "good_db L (committed s)"
  shows "post (keeps_msgs L (committed s)) (sq_move_to_dlq L E key reason s)"
  using g by (auto simp: sq_move_to_dlq_def Let_def intro: tx_imp_lost intro!: post_rules ok)

lemma reprocess_keeps:
  assumes ok: "json_ok L" and g: "good_db L (committed s)"
  shows "post (keeps_msgs L (committed s)) (sq_reprocess_dlq_message L E key s)"
  using g by (auto simp: sq_reprocess_dlq_message_def Let_def intro: tx_imp_lost intro!: post_rules ok)

lemma extend_keeps:
  assumes g: "good_db L (committed s)"
  shows "post (keeps_msgs L (committed s)) (sq_extend_lease E lease t s)"
  using g by (auto simp: sq_extend_lease_def Let_def intro: tx_imp_lost intro!: post_rules)

lemma post_first_same:
  assumes "good_db L d" "tx d P s" "\<And>r s1. tx d P s1 \<Longrightarrow> post (keeps_msgs L d) (k r s1)"
  shows "post (keeps_msgs L d)
    (case sql_first E q s of (None, s1) \<Rightarrow> tx_abort failure e s1 | (Some r, s1) \<Rightarrow> k r s1)"
  by (rule post_first [where d = d, OF _ assms(2,3)]) (simp_all add: keeps_msgs_def same_refl assms(1))

lemma fetch_keeps:
  assumes g: "good_db L d" and t: "tx d (same_msgs L d) s"
  shows "post (keeps_msgs L d) (fetch_leased L E queue consumer_id lease_until key priority attempt s)"
  unfolding fetch_leased_def
proof (intro post_prepare_same [OF g t] post_first_same [OF g] post_commit_same [OF g])
  fix s3 :: sql_adapter and v
  assume s3: "same_msgs L d (committed s3)"
  then show "post (keeps_msgs L d)
       (case ebind (json_parse L (column_text v)) (leased_message L queue key priority attempt) of
          Inl e \<Rightarrow> (lease_error (Some (''failed to parse message: '' @ jl_what L e)), s3)
        | Inr msg \<Rightarrow>
            let (lease_id, s4) = fresh_guid s3
            in (\<lparr>lr_leased = True, lr_message = Some msg,
                 lr_lease = Some \<lparr>lt_lease_id = lease_id, lt_message_key = key,
                   lt_consumer_id = consumer_id, lt_lease_until_ms = lease_until\<rparr>,
                 lr_error = None\<rparr>, s4))"
    using fresh_guid_committed [of s3]
    by (cases "fresh_guid s3") (auto simp: post_keeps split: sum.split)
qed (auto simp: tx_imp_lost)

lemma lease_next_keeps:
  assumes g: "good_db L (committed s)"
  shows "post (keeps_msgs L (committed s)) (sq_lease_next L E queue c t s)"
  using g
  by (auto simp: sq_lease_next_def Let_def set_inflight_def
      intro!: post_rules post_now post_first_same fetch_keeps simp del: split_paired_All)

lemma sweep_keeps:
  assumes g: "good_db L (committed s)" and f: "row_frame f"
  shows "post (keeps_msgs L (committed s)) (sweep_update E msg p f s)"
proof (cases "sd_open s")
  case True
  have count: "post (keeps_msgs L d) (case sql_first E q s4 of
       (row, s5) \<Rightarrow> tx_commit E (Pair 0) (\<lambda>s6. ((value_or row 0, None), s6)) s5)"
    if "good_db L d" "tx d (same_msgs L d) s4" for d q and s4 :: sql_adapter
    using that tx_first(1) [OF that(2)] by (cases "sql_first E q s4") (auto intro!: post_commit_same post_keeps)
  then show ?thesis
    using True g f by (auto simp: sweep_update_def Let_def intro!: post_rules)
qed (simp add: sweep_update_def nothing_kept g)

lemma recover_keeps:
  "good_db L (committed s) \<Longrightarrow> post (keeps_msgs L (committed s)) (sq_recover_expired_leases E s)"
  by (simp add: sq_recover_expired_leases_def sweep_keeps row_frames)

lemma process_delayed_keeps:
  "good_db L (committed s) \<Longrightarrow> post (keeps_msgs L (committed s)) (sq_process_delayed_messages E s)"
  by (simp add: sq_process_delayed_messages_def sweep_keeps row_frames)

text \<open>Queries outside a transaction.\<close>

lemma query_committed:
  "committed (snd (sq_metrics E queue s)) = committed s"
  "committed (snd (sq_load_policy L E queue s)) = committed s"
  "committed (snd (sq_get_expired_inflight_messages E s)) = committed s"
  "committed (snd (sq_list_dlq_messages E queue n s)) = committed s"
  by (auto simp: sq_metrics_def sq_load_policy_def sq_get_expired_inflight_messages_def
      sq_list_dlq_messages_def split: prod.splits option.splits sum.splits
      dest!: prepare_committed rows_committed first_committed now_ms_committed)

section \<open>Policies\<close>

lemma msg_key_not_policy: "msg_key q i \<noteq> policy_key queue"
  by (simp add: msg_key_def policy_key_def)

lemma db_value_other:
  "k \<noteq> kv_key r \<Longrightarrow> db_value (d\<lparr>db_kv := filter (\<lambda>x. kv_key x \<noteq> kv_key r) kv @ [r], db_idx := xs\<rparr>) k =
     map_option kv_value (List.find (\<lambda>x. kv_key x = k) kv)"
  by (auto simp: db_value_def find_snoc find_filter split: option.split)

lemma kv_replace_eq:
  assumes "good_db L d" "kv_replace r d = Some x"
  shows "x = d\<lparr>db_kv := filter (\<lambda>y. kv_key y \<noteq> kv_key r) (db_kv d) @ [r],
               db_idx := filter (\<lambda>y. ix_message_key y \<noteq> kv_key r) (db_idx d)\<rparr>"
proof (cases "list_ex (\<lambda>y. kv_key y = kv_key r) (db_kv d)")
  case True
  then show ?thesis using assms(2) by (auto simp: kv_replace_def kv_delete_def kv_insert_def split: if_splits)
next
  case False
  have "filter (\<lambda>y. kv_key y \<noteq> kv_key r) (db_kv d) = db_kv d"
    using False by (auto simp: list_ex_iff filter_id_conv)
  moreover have "db_value d (kv_key r) = None" using False by (simp add: db_value_def find_None)
  then have "filter (\<lambda>y. ix_message_key y \<noteq> kv_key r) (db_idx d) = db_idx d"
    using assms(1) by (force simp: good_db_def filter_id_conv)
  ultimately show ?thesis
    using False assms(2) by (auto simp: kv_replace_def kv_delete_def kv_insert_def)
qed

lemma kv_replace_same:
  assumes g: "good_db L d" and r: "kv_replace r d = Some x" "\<And>q i. msg_key q i \<noteq> kv_key r"
  shows "same_msgs L d x"
proof -
  note x = kv_replace_eq [OF g r(1)]
  have val: "k \<noteq> kv_key r \<Longrightarrow> db_value x k = db_value d k" for k
    unfolding x by (simp add: db_value_other) (simp add: db_value_def)
  have row: "k \<noteq> kv_key r \<Longrightarrow> db_row x k = db_row d k" for k
    by (simp add: x db_row_def find_filter)
  have "db_body L x = db_body L d"
    using r(2) by (simp add: db_body_def val row fun_eq_iff)
  moreover have "good_db L x"
    using g val by (auto simp: good_db_def x distinct_map_filter)
  ultimately show ?thesis by (simp add: same_msgs_def)
qed

lemma save_policy_keeps:
  assumes g: "good_db L (committed s)"
  shows "post (keeps_msgs L (committed s)) (sq_save_policy L E queue policy s)"
proof -
  obtain now s1 where n: "now_ms s = (now, s1)" by (metis prod.collapse)
  obtain e s2 where p: "sql_prepare s1 = (e, s2)" by (metis prod.collapse)
  have c: "committed s1 = committed s" "committed s2 = committed s"
    using n now_ms_db(3) [of s] prepare_committed [OF p] by simp_all
  show ?thesis
    using n p c g msg_key_not_policy
    by (auto simp: sq_save_policy_def nothing_kept split: option.split prod.split bool.split
        dest!: step_auto intro!: post_keeps intro: same_refl kv_replace_same)
qed

section \<open>Acknowledgement\<close>

definition without_key :: "string \<Rightarrow> database \<Rightarrow> database" where
  "without_key key d =
     d\<lparr>db_kv := filter (\<lambda>x. kv_key x \<noteq> key) (db_kv d),
       db_idx := filter (\<lambda>x. ix_message_key x \<noteq> key) (db_idx d)\<rparr>"

lemma ack_content:
  assumes g: "good_db L d" and i: "idx_delete (\<lambda>r. ix_message_key r = key \<and> p r) d = Some x"
    and k: "kv_delete key x = Some y"
  shows "y = without_key key d"
proof (cases "list_ex (\<lambda>y. kv_key y = key) (db_kv d)")
  case True
  have "filter (\<lambda>x. (ix_message_key x = key \<longrightarrow> \<not> p x) \<and> ix_message_key x \<noteq> key) (db_idx d) =
      filter (\<lambda>x. ix_message_key x \<noteq> key) (db_idx d)"
    by (rule filter_cong) auto
  then show ?thesis using True i k by (auto simp: idx_delete_def kv_delete_def without_key_def)
next
  case False
  have "filter (\<lambda>y. kv_key y \<noteq> key) (db_kv d) = db_kv d"
    using False by (auto simp: list_ex_iff filter_id_conv)
  moreover have "db_value d key = None" using False by (simp add: db_value_def find_None)
  then have no: "\<forall>r \<in> set (db_idx d). ix_message_key r \<noteq> key" using g by (force simp: good_db_def)
  then have "filter (\<lambda>y. ix_message_key y \<noteq> key) (db_idx d) = db_idx d"
    "filter (\<lambda>y. \<not> (ix_message_key y = key \<and> p y)) (db_idx d) = db_idx d"
    by (auto simp: filter_id_conv)
  ultimately show ?thesis
    using False i k by (auto simp: idx_delete_def kv_delete_def without_key_def)
qed

lemma without_key_lookup:
  "db_value (without_key key d) k = (if k = key then None else db_value d k)"
  "db_row (without_key key d) k = (if k = key then None else db_row d k)"
  by (auto simp: without_key_def db_value_def db_row_def find_filter intro: find_None simp: list_ex_iff)

lemma without_key_body:
  "db_body L (without_key key d) q i = (if msg_key q i = key then None else db_body L d q i)"
  by (simp add: db_body_def without_key_lookup)

lemma without_key_good: "good_db L d \<Longrightarrow> good_db L (without_key key d)"
  by (auto simp: good_db_def without_key_lookup(1)) (auto simp: without_key_def distinct_map_filter)

lemma sq_ack_effect:
  assumes g: "good_db L (committed s)"
  shows "post (\<lambda>r x. x = (if fst r then without_key (lt_message_key lease) (committed s) else committed s))
    (sq_ack E lease s)"
proof (cases "sd_open s")
  case True
  let ?key = "lt_message_key lease"
  let ?Q = "\<lambda>r x. x = (if fst r then without_key ?key (committed s) else committed s)"
  have "post ?Q (in_tx fail_res
      (tx_write E fail_res ''failed to delete from msg_index''
         (idx_delete (\<lambda>r. ix_message_key r = ?key \<and> ix_state r = ''inflight''))
      (tx_write E fail_res ''failed to delete from kv table'' (kv_delete ?key)
      (tx_commit E fail_res return_ok))) s)"
  proof (rule post_in_tx [OF _ refl])
    fix s1 :: sql_adapter
    assume t: "tx (committed s) ((=) (committed s)) s1"
    show "post ?Q (tx_write E fail_res ''failed to delete from msg_index''
         (idx_delete (\<lambda>r. ix_message_key r = ?key \<and> ix_state r = ''inflight''))
        (tx_write E fail_res ''failed to delete from kv table'' (kv_delete ?key)
        (tx_commit E fail_res return_ok)) s1)"
    proof (rule post_write [OF _ t,
        where P' = "\<lambda>x. idx_delete (\<lambda>r. ix_message_key r = ?key \<and> ix_state r = ''inflight'') (committed s) = Some x"])
      fix s2 :: sql_adapter
      assume t2: "tx (committed s) (\<lambda>x. idx_delete (\<lambda>r. ix_message_key r = ?key \<and>
          ix_state r = ''inflight'') (committed s) = Some x) s2"
      show "post ?Q (tx_write E fail_res ''failed to delete from kv table'' (kv_delete ?key)
          (tx_commit E fail_res return_ok) s2)"
      proof (rule post_write [OF _ t2, where P' = "\<lambda>y. y = without_key ?key (committed s)"])
        fix s3 :: sql_adapter
        assume "tx (committed s) (\<lambda>y. y = without_key ?key (committed s)) s3"
        from tx_imp_lost [OF this] show "post ?Q (tx_commit E fail_res return_ok s3)"
          by (rule post_commit [rotated]) (simp_all add: post_def)
      qed (use ack_content [OF g] in simp_all)
    qed simp_all
  qed simp
  then show ?thesis using True by (simp add: sq_ack_def)
qed (simp add: sq_ack_def post_def)

section \<open>Enqueue\<close>

definition with_message :: "kv_row \<Rightarrow> index_row \<Rightarrow> database \<Rightarrow> database" where
  "with_message k r d = d\<lparr>db_kv := db_kv d @ [k], db_idx := db_idx d @ [r]\<rparr>"

definition message_kv :: "json_lib \<Rightarrow> int \<Rightarrow> message \<Rightarrow> kv_row" where
  "message_kv L now e = \<lparr>kv_key = m_key e, kv_value = jl_dump L (- 1) (kv_envelope_json now e),
     kv_type = ''message'', kv_created_at = now, kv_updated_at = now\<rparr>"

lemma enqueue_effect:
  "post (\<lambda>r x. if fst r
      then db_value (committed s) (m_key e) = None \<and> db_row (committed s) (m_key e) = None \<and>
        x = with_message (message_kv L (clock s (clock_n s)) e) (new_index_row (clock s (clock_n s)) e)
              (committed s)
      else x = committed s)
    (sq_enqueue L E e s)"
proof (cases "sd_open s")
  case True
  let ?now = "clock s (clock_n s)" and ?s = "snd (now_ms s)"
  let ?k = "message_kv L ?now e" and ?r = "new_index_row ?now e"
  let ?new = "\<lambda>x. db_value (committed s) (m_key e) = None \<and> db_row (committed s) (m_key e) = None \<and>
    x = with_message ?k ?r (committed s)"
  let ?Q = "\<lambda>r x. if fst r then ?new x else x = committed s"
  have keys: "kv_key ?k = m_key e" "ix_message_key ?r = m_key e"
    by (simp_all add: message_kv_def new_index_row_def Let_def)
  have "post ?Q (in_tx fail_res
      (tx_write E fail_res ''failed to insert into kv table'' (kv_insert ?k)
      (tx_write E fail_res ''failed to insert into msg_index table'' (idx_insert ?r)
      (tx_commit E fail_res return_ok))) ?s)"
  proof (rule post_in_tx [OF _ now_ms_db(3)])
    fix s1 :: sql_adapter
    assume t: "tx (committed s) ((=) (committed s)) s1"
    show "post ?Q (tx_write E fail_res ''failed to insert into kv table'' (kv_insert ?k)
        (tx_write E fail_res ''failed to insert into msg_index table'' (idx_insert ?r)
        (tx_commit E fail_res return_ok)) s1)"
    proof (rule post_write [OF _ t, where P' = "\<lambda>x. kv_insert ?k (committed s) = Some x"])
      fix s2 :: sql_adapter
      assume t2: "tx (committed s) (\<lambda>x. kv_insert ?k (committed s) = Some x) s2"
      show "post ?Q (tx_write E fail_res ''failed to insert into msg_index table'' (idx_insert ?r)
          (tx_commit E fail_res return_ok) s2)"
      proof (rule post_write [OF _ t2, where P' = ?new])
        fix x y
        assume "kv_insert ?k (committed s) = Some x" "idx_insert ?r x = Some y"
        then show "?new y"
          using keys by (auto simp: kv_insert_def idx_insert_def with_message_def db_value_def db_row_def
              find_None split: if_splits)
      next
        fix s3 :: sql_adapter
        assume "tx (committed s) ?new s3"
        from tx_imp_lost [OF this] show "post ?Q (tx_commit E fail_res return_ok s3)"
          by (rule post_commit [rotated]) (simp_all add: post_def)
      qed simp
    qed simp_all
  qed simp
  then show ?thesis
    using True by (simp add: sq_enqueue_def now_ms_def message_kv_def)
qed (simp add: sq_enqueue_def post_def)

lemma with_message_lookup:
  assumes "db_value d (kv_key k) = None" "db_row d (kv_key k) = None" "ix_message_key r = kv_key k"
  shows "db_value (with_message k r d) key = (if key = kv_key k then Some (kv_value k) else db_value d key)"
    "db_row (with_message k r d) key = (if key = kv_key k then Some r else db_row d key)"
  using assms
  by (auto simp: with_message_def db_value_def db_row_def find_snoc split: option.split)

lemma find_None_iff_mem: "List.find p xs = None \<longleftrightarrow> (\<forall>x \<in> set xs. \<not> p x)"
  by (induction xs) auto

lemma with_message_good:
  assumes g: "good_db L d" and n: "db_value d (kv_key k) = None" "db_row d (kv_key k) = None"
    and r: "ix_message_key r = kv_key k" and v: "object_value L (kv_value k)"
  shows "good_db L (with_message k r d)"
proof -
  have fresh: "kv_key k \<notin> kv_key ` set (db_kv d)" "kv_key k \<notin> ix_message_key ` set (db_idx d)"
    using n by (auto simp: db_value_def db_row_def find_None_iff_mem)
  have "\<exists>v. db_value (with_message k r d) (ix_message_key x) = Some v \<and> object_value L v"
    if "x \<in> set (db_idx d) \<or> x = r" for x
    using that g v r fresh(2) with_message_lookup(1) [OF n r]
    by (auto simp: good_db_def intro: imageI)
  moreover have "distinct (map kv_key (db_kv (with_message k r d)))"
    "distinct (map ix_message_key (db_idx (with_message k r d)))"
    "set (db_idx (with_message k r d)) = insert r (set (db_idx d))"
    using g fresh r by (auto simp: good_db_def with_message_def)
  ultimately show ?thesis by (simp add: good_db_def)
qed

lemma message_row_body:
  assumes L: "json_ok L" and e: "well_formed_message e"
  shows "row_body L (new_index_row now e) (kv_value (message_kv L now e)) = Some (msg_body e)"
    "object_value L (kv_value (message_kv L now e))"
  using assms
  by (simp_all add: row_body_def object_value_def message_kv_def kv_envelope_json_def jobj_def
      leased_message_def new_index_row_def Let_def well_formed_message_def msg_ranges_def msg_body_def
      empty_message_def)

section \<open>The contract\<close>

definition sq_stored :: "json_lib \<Rightarrow> sql_adapter \<Rightarrow> string \<Rightarrow> string \<Rightarrow> message option" where
  "sq_stored L s = db_body L (committed s)"

definition sq_ok :: "json_lib \<Rightarrow> sql_adapter \<Rightarrow> bool" where
  "sq_ok L s \<longleftrightarrow> json_ok L \<and> good_db L (committed s)"

lemma keeps_law:
  assumes "sq_ok L s" "good_db L (committed s) \<Longrightarrow> post (keeps_msgs L (committed s)) x" "x = (r, s')"
  shows "sq_ok L s' \<and> (\<forall>q i. True \<longrightarrow> id_ok i \<longrightarrow> sq_stored L s' q i = sq_stored L s q i)"
  using assms by (auto simp: sq_ok_def sq_stored_def keeps_msgs_def same_msgs_def dest: postD)

lemma query_law:
  assumes "sq_ok L s" "committed s' = committed s"
  shows "sq_ok L s' \<and> (\<forall>q i. True \<longrightarrow> id_ok i \<longrightarrow> sq_stored L s' q i = sq_stored L s q i)"
  using assms by (simp add: sq_ok_def sq_stored_def)

lemma msg_key_inj: "id_ok i \<Longrightarrow> id_ok j \<Longrightarrow> msg_key q i = msg_key p j \<longleftrightarrow> q = p \<and> i = j"
proof
  assume ids: "id_ok i" "id_ok j" and eq: "msg_key q i = msg_key p j"
  have "i = j" using msg_key_last [of i q] msg_key_last [of j p] ids eq by (simp add: id_ok_def)
  with eq show "q = p \<and> i = j" by (simp add: msg_key_def)
qed simp

lemma enqueue_law:
  assumes ok: "sq_ok L s" and e: "well_formed_message e" and run: "sq_enqueue L E e s = (r, s')"
  shows "sq_ok L s' \<and>
    (\<forall>q i. True \<longrightarrow> id_ok i \<longrightarrow> (q, i) \<noteq> (m_queue e, m_message_id e) \<longrightarrow>
       sq_stored L s' q i = sq_stored L s q i) \<and>
    (fst r \<longrightarrow> sq_stored L s' (m_queue e) (m_message_id e) = Some (msg_body e))"
proof (cases "fst r")
  case False
  with postD [OF enqueue_effect run] ok show ?thesis by (simp add: sq_ok_def sq_stored_def)
next
  case True
  let ?now = "clock s (clock_n s)"
  let ?k = "message_kv L ?now e" and ?r = "new_index_row ?now e"
  have key: "kv_key ?k = m_key e" "ix_message_key ?r = m_key e" "ix_queue ?r = m_queue e"
    by (simp_all add: message_kv_def new_index_row_def Let_def)
  from postD [OF enqueue_effect run] True
  have new: "db_value (committed s) (m_key e) = None" "db_row (committed s) (m_key e) = None"
    "committed s' = with_message ?k ?r (committed s)" by simp_all
  have L: "json_ok L" and g: "good_db L (committed s)" using ok by (simp_all add: sq_ok_def)
  note look = with_message_lookup [of "committed s" ?k ?r, unfolded key, OF new(1,2) refl]
  have mk: "m_key e = msg_key (m_queue e) (m_message_id e)" "id_ok (m_message_id e)"
    using e by (simp_all add: well_formed_message_def)
  have body: "db_body L (committed s') q i =
      (if (q, i) = (m_queue e, m_message_id e) then Some (msg_body e) else db_body L (committed s) q i)"
    if "id_ok i" for q i
    using msg_key_inj [OF that mk(2), of q "m_queue e"] key(3) message_row_body(1) [OF L e]
    by (simp add: db_body_def new(3) look mk(1))
  have "good_db L (committed s')"
    unfolding new(3) by (rule with_message_good [OF g]) (simp_all add: key new message_row_body(2) [OF L e])
  then show ?thesis using True L body mk(2) by (simp add: sq_ok_def sq_stored_def)
qed

lemma ack_law:
  assumes ok: "sq_ok L s" and run: "sq_ack E l s = (r, s')"
  shows "sq_ok L s' \<and>
    (\<forall>q i. True \<longrightarrow> id_ok i \<longrightarrow> sq_stored L s' q i = sq_stored L s q i \<or>
       (fst r \<and> after_last_colon (lt_message_key l) = Some i \<and> sq_stored L s' q i = None))"
proof -
  have g: "good_db L (committed s)" using ok by (simp add: sq_ok_def)
  have "after_last_colon (lt_message_key l) = Some i" if "msg_key q i = lt_message_key l" "id_ok i" for q i
    using msg_key_last [of i q] that by (simp add: id_ok_def)
  with postD [OF sq_ack_effect [OF g] run] ok show ?thesis
    by (auto simp: sq_ok_def sq_stored_def without_key_good without_key_body)
qed

interpretation sq: message_store "sq_backend L E" "sq_ok L" "sq_stored L"
  "\<lambda>s q i. sq_stored L s q i = None" "\<lambda>q. True" "\<lambda>k. True" for L E
proof (unfold_locales, goal_cases)
  case (2 s e r s')
  then show ?case using enqueue_law [of L s e E r s'] by (simp add: sq_backend_def)
next
  case (3 s queue c t lr s')
  then show ?case by (intro keeps_law [OF 3(1) lease_next_keeps]) (simp_all add: sq_backend_def)
next
  case (4 s l r s')
  then show ?case using ack_law [of L s E l r s'] by (simp add: sq_backend_def)
next
  case (5 s l reason requeue r s')
  then show ?case by (intro keeps_law [OF 5(1) nack_keeps]) (simp_all add: sq_backend_def sq_ok_def)
next
  case (6 s l t r s')
  then show ?case by (intro keeps_law [OF 6(1) extend_keeps]) (simp_all add: sq_backend_def)
next
  case (7 s queue pr s')
  then show ?case using query_committed(2) [of L E queue s] by (intro query_law) (simp_all add: sq_backend_def)
next
  case (8 s queue p r s')
  then show ?case by (intro keeps_law [OF 8(1) save_policy_keeps]) (simp_all add: sq_backend_def)
next
  case (9 s queue mr s')
  then show ?case using query_committed(1) [of E queue s] by (intro query_law) (simp_all add: sq_backend_def)
next
  case (10 s nr s')
  then show ?case by (intro keeps_law [OF 10(1) recover_keeps]) (simp_all add: sq_backend_def)
next
  case (11 s nr s')
  then show ?case by (intro keeps_law [OF 11(1) process_delayed_keeps]) (simp_all add: sq_backend_def)
next
  case (12 s infos err s')
  then have "committed s' = committed s"
    using query_committed(3) [of E s] by (simp add: sq_backend_def)
  from query_law [OF 12(1) this] show ?case by simp
next
  case (13 s key d r s')
  then show ?case by (intro keeps_law [OF 13(1) delay_keeps]) (simp_all add: sq_backend_def)
next
  case (14 s key reason r s')
  then show ?case by (intro keeps_law [OF 14(1) move_to_dlq_keeps]) (simp_all add: sq_backend_def sq_ok_def)
next
  case (15 s queue n dr s')
  then show ?case using query_committed(4) [of E queue n s] by (intro query_law) (simp_all add: sq_backend_def)
next
  case (16 s key r s')
  then show ?case by (intro keeps_law [OF 16(1) reprocess_keeps]) (simp_all add: sq_backend_def sq_ok_def)
qed simp

end
