(* ===== verification/SQLite_Effects.thy ===== *)
theory SQLite_Effects
  imports SQLite_Contract FileSystem_Progress
begin

text \<open>
  The effect of single operations of the SQLite adapter. Runs without failures are followed by a second
  set of rules for the transaction combinators: \<open>calm d x s\<close> says that a transaction that began on
  \<open>d\<close> is open and its tables are \<open>x\<close>. The definitions before the lemmas state what an operation
  should do, without transactions, statements or cursors.
\<close>

section \<open>Enqueue\<close>

lemma idle_tx: "sd_saved s = None \<Longrightarrow> committed s = sd_db s"
  by (simp add: committed_def)

text \<open>Runs without faults: \<open>calm d x s\<close> says that a transaction that began on \<open>d\<close> is open and its
  tables are \<open>x\<close>.\<close>

definition idle :: "'a sql_db_scheme \<Rightarrow> bool" where
  "idle s \<longleftrightarrow> no_faults s \<and> sd_open s \<and> sd_saved s = None"

definition calm :: "database \<Rightarrow> database \<Rightarrow> 'a sql_db_scheme \<Rightarrow> bool" where
  "calm d x s \<longleftrightarrow> no_faults s \<and> sd_open s \<and> sd_saved s = Some d \<and> sd_db s = x"

lemmas calm_defs = calm_def idle_def no_faults_def os_io_def committed_def

lemma idle_now: "idle s \<Longrightarrow> idle (snd (now_ms s))"
  by (simp add: calm_defs now_ms_def)

lemma calm_now: "calm d x s \<Longrightarrow> calm d x (snd (now_ms s))"
  by (simp add: calm_defs now_ms_def)

lemma calm_in_tx:
  assumes "idle s" "\<And>s1. calm (committed s) (committed s) s1 \<Longrightarrow> Q (k s1)"
  shows "Q (in_tx failure k s)"
proof -
  have "in_tx failure k s = k (s\<lparr>io_n := Suc (io_n s), sd_saved := Some (sd_db s)\<rparr>)"
    using assms(1) by (simp add: in_tx_def begin_transaction_def calm_defs)
  moreover have "calm (committed s) (committed s) (s\<lparr>io_n := Suc (io_n s), sd_saved := Some (sd_db s)\<rparr>)"
    using assms(1) by (simp add: calm_defs)
  ultimately show ?thesis using assms(2) by presburger
qed

lemma calm_in_tx_now:
  assumes "idle s" "\<And>s1. calm (committed s) (committed s) s1 \<Longrightarrow> Q (k (clock s (clock_n s)) s1)"
  shows "Q (in_tx failure (\<lambda>s1. let (now, s2) = now_ms s1 in k now s2) s)"
proof -
  let ?s = "s\<lparr>io_n := Suc (io_n s), sd_saved := Some (sd_db s), clock_n := Suc (clock_n s)\<rparr>"
  have "in_tx failure (\<lambda>s1. let (now, s2) = now_ms s1 in k now s2) s = k (clock s (clock_n s)) ?s"
    using assms(1) by (simp add: in_tx_def begin_transaction_def calm_defs now_ms_def)
  moreover have "calm (committed s) (committed s) ?s" using assms(1) by (simp add: calm_defs)
  ultimately show ?thesis using assms(2) by presburger
qed

lemma calm_prepare:
  assumes "calm d x s" "\<And>s1. calm d x s1 \<Longrightarrow> Q (k s1)"
  shows "Q (case sql_prepare s of (Some e, s1) \<Rightarrow> f e s1 | (None, s1) \<Rightarrow> k s1)"
proof -
  have "sql_prepare s = (None, s\<lparr>io_n := Suc (io_n s)\<rparr>)" "calm d x (s\<lparr>io_n := Suc (io_n s)\<rparr>)"
    using assms(1) by (simp_all add: sql_prepare_def calm_defs)
  with assms(2) show ?thesis by simp
qed

lemma calm_write:
  assumes "calm d x s" "\<And>y s1. g x = Some y \<Longrightarrow> calm d y s1 \<Longrightarrow> Q (k s1)"
    and "\<And>s1. g x = None \<Longrightarrow> idle s1 \<Longrightarrow> committed s1 = d \<Longrightarrow> Q (failure (Some msg), s1)"
  shows "Q (tx_write E failure msg g k s)"
proof (cases "g x")
  case (Some y)
  let ?s = "s\<lparr>io_n := Suc (Suc (io_n s)), sd_db := y\<rparr>"
  have "tx_write E failure msg g k s = k ?s" "calm d y ?s"
    using assms(1) Some
    by (simp_all add: tx_write_def sql_prepare_def sql_step_def sql_execute_def calm_defs)
  then show ?thesis using assms(2) [OF Some] by presburger
next
  case None
  let ?s = "s\<lparr>io_n := Suc (Suc (Suc (io_n s))), sd_db := d, sd_saved := None\<rparr>"
  have "tx_write E failure msg g k s = (failure (Some msg), ?s)" "idle ?s" "committed ?s = d"
    using assms(1) None
    by (simp_all add: tx_write_def sql_prepare_def sql_step_def sql_execute_def tx_abort_def
        sql_rollback_def calm_defs)
  then show ?thesis using assms(3) [OF None] by presburger
qed

lemma calm_first:
  assumes "calm d x s" "\<And>r rest n s1. q (se_scan E n) x = r # rest \<Longrightarrow> calm d x s1 \<Longrightarrow> Q (k r s1)"
    and "\<And>n s1. q (se_scan E n) x = [] \<Longrightarrow> calm d x s1 \<Longrightarrow> Q (f s1)"
  shows "Q (case sql_first E q s of (None, s1) \<Rightarrow> f s1 | (Some r, s1) \<Rightarrow> k r s1)"
proof -
  let ?s = "s\<lparr>io_n := Suc (io_n s)\<rparr>"
  have c: "calm d x ?s" using assms(1) by (simp add: calm_defs)
  show ?thesis
  proof (cases "q (se_scan E (io_n s)) x")
    case Nil
    with assms(1) have "sql_first E q s = (None, ?s)" by (simp add: sql_first_def calm_defs)
    then show ?thesis using assms(3) [OF Nil c] by simp
  next
    case (Cons r rest)
    with assms(1) have "sql_first E q s = (Some r, ?s)" by (simp add: sql_first_def calm_defs)
    then show ?thesis using assms(2) [OF Cons c] by simp
  qed
qed

lemma calm_commit:
  assumes "calm d x s" "\<And>s1. idle s1 \<Longrightarrow> committed s1 = x \<Longrightarrow> Q (k s1)"
  shows "Q (tx_commit E failure k s)"
proof -
  let ?s = "s\<lparr>io_n := Suc (io_n s), sd_saved := None\<rparr>"
  have "tx_commit E failure k s = k ?s" "idle ?s" "committed ?s = x"
    using assms(1) by (simp_all add: tx_commit_def sql_commit_def calm_defs)
  then show ?thesis using assms(2) by presburger
qed

lemma enqueue_succeeds:
  assumes "idle s" "db_value (committed s) (m_key e) = None" "db_row (committed s) (m_key e) = None"
  shows "fst (fst (sq_enqueue L E e s))"
proof -
  let ?now = "clock s (clock_n s)"
  have fresh: "kv_insert (message_kv L ?now e) (committed s) \<noteq> None"
    "kv_insert (message_kv L ?now e) (committed s) = Some x \<Longrightarrow> idx_insert (new_index_row ?now e) x \<noteq> None" for x
    using assms(2,3)
    by (auto simp: kv_insert_def idx_insert_def message_kv_def new_index_row_def Let_def db_value_def
        db_row_def find_None_iff_mem list_ex_iff split: if_splits)
  have "fst (fst (in_tx fail_res
      (tx_write E fail_res ''failed to insert into kv table'' (kv_insert (message_kv L ?now e))
      (tx_write E fail_res ''failed to insert into msg_index table'' (idx_insert (new_index_row ?now e))
      (tx_commit E fail_res return_ok))) (snd (now_ms s))))"
  proof (rule calm_in_tx [OF idle_now [OF assms(1)]], erule calm_write, erule calm_write)
    fix y z and s2 :: sql_adapter
    assume "calm (committed (snd (now_ms s))) z s2"
    then show "fst (fst (tx_commit E fail_res return_ok s2))" by (rule calm_commit) simp
  qed (use fresh in simp_all)
  then show ?thesis using assms(1) by (simp add: sq_enqueue_def now_ms_def message_kv_def idle_def)
qed

section \<open>Leasing\<close>

definition deliverable :: "string \<Rightarrow> int \<Rightarrow> string \<Rightarrow> index_row \<Rightarrow> bool" where
  "deliverable queue now consumer r \<longleftrightarrow> ix_queue r = queue \<and> ix_state r = ''ready'' \<and>
     ix_available_at r \<le> now \<and> (ix_target r = [] \<or> ix_target r = consumer)"

definition before :: "index_row \<Rightarrow> index_row \<Rightarrow> bool" where
  "before r r' \<longleftrightarrow> ix_priority r' < ix_priority r \<or>
     ix_priority r' = ix_priority r \<and> ix_available_at r \<le> ix_available_at r'"

lemma ready_rows_best:
  assumes "engine_ok E" "ready_rows queue now consumer (se_scan E n) d = r # rest"
  shows "r \<in> set (db_idx d) \<and> deliverable queue now consumer r \<and>
    (\<forall>r' \<in> set (db_idx d). deliverable queue now consumer r' \<longrightarrow> before r r')"
proof -
  let ?key = "\<lambda>r. (- ix_priority r, ix_available_at r)"
  let ?rows = "filter (deliverable queue now consumer) (se_scan E n (db_idx d))"
  have f: "filter (\<lambda>r. ix_queue r = queue \<and> ix_state r = ''ready'' \<and> ix_available_at r \<le> now \<and>
      (ix_target r = [] \<or> ix_target r = consumer)) (se_scan E n (db_idx d)) = ?rows"
    by (simp add: deliverable_def [abs_def])
  obtain rs where s: "sort_key ?key ?rows = r # rs"
    using assms(2) f by (cases "sort_key ?key ?rows") (auto simp: ready_rows_def)
  have "set (sort_key ?key ?rows) = set ?rows" by simp
  then have rows: "set ?rows = insert r (set rs)" using s by simp
  have "sorted (map ?key (sort_key ?key ?rows))" by simp
  then have "\<forall>r' \<in> set ?rows. ?key r \<le> ?key r'" unfolding rows using s by auto
  then have "\<forall>r' \<in> set ?rows. before r r'" by (auto simp: before_def less_eq_prod_def)
  moreover have "set ?rows = {r \<in> set (db_idx d). deliverable queue now consumer r}"
    using engine_scan_set [OF assms(1)] by auto
  ultimately show ?thesis using rows by blast
qed

definition leased_content :: "index_row \<Rightarrow> int \<Rightarrow> database \<Rightarrow> database" where
  "leased_content r lease_until d = d\<lparr>db_idx := map (\<lambda>x. if ix_message_key x = ix_message_key r
     then x\<lparr>ix_state := ''inflight'', ix_lease_until := Some lease_until,
            ix_attempt := i32 (ix_attempt r + 1)\<rparr> else x) (db_idx d)\<rparr>"

definition delivered :: "json_lib \<Rightarrow> database \<Rightarrow> index_row \<Rightarrow> string \<Rightarrow> int \<Rightarrow> lease_result \<Rightarrow> bool" where
  "delivered L d r consumer lease_until lr \<longleftrightarrow>
     (\<exists>msg token. lr_message lr = Some msg \<and> lr_lease lr = Some token \<and>
        Some (msg\<lparr>m_attempt := 0, m_target_consumer_id := ix_target r\<rparr>) =
          Option.bind (db_value d (ix_message_key r)) (row_body L r) \<and>
        m_attempt msg = i32 (ix_attempt r + 1) \<and>
        lt_message_key token = ix_message_key r \<and> lt_consumer_id token = consumer \<and>
        lt_lease_until_ms token = lease_until)"

lemma filter_hd_find: "filter p xs = z # zs \<Longrightarrow> List.find p xs = Some z"
  by (induction xs) (auto split: if_splits)

lemma kv_values_first: "kv_values key d = v # rest \<Longrightarrow> db_value d key = Some v"
  by (auto simp: kv_values_def db_value_def map_eq_Cons_conv filter_hd_find)

lemma fetch_best:
  assumes t: "tx d ((=) x) s" and v: "db_value x key = db_value d key"
    and r: "key = ix_message_key r" "queue = ix_queue r" "priority = ix_priority r"
  shows "post (\<lambda>lr y. (lr_leased lr \<longrightarrow> y = x \<and> delivered L d r c u lr) \<and> (y = x \<or> y = d))
    (fetch_leased L E queue c u key priority (i32 (ix_attempt r + 1)) s)"
  unfolding fetch_leased_def
proof (intro post_prepare [where d = d and P = "(=) x"] post_first [where d = d and P = "(=) x"] post_commit)
  show "tx d ((=) x) s" by (rule t)
next
  fix s1 :: sql_adapter
  assume "tx d ((=) x) s1"
  then show "tx d ((=) x) s1" .
next
  fix w rest y n and s1 :: sql_adapter
  assume t1: "tx d ((=) x) s1" 
  then show "tx_lost d ((=) x) s1" by (rule tx_imp_lost)
next
  fix w rest y n and s1 s3 :: sql_adapter
  assume w: "x = y" "kv_values key y = w # rest" and s3: "x = committed s3"
  have "db_value d (ix_message_key r) = Some w" using kv_values_first [OF w(2)] w(1) v r(1) by simp
  moreover obtain i s4 where g: "fresh_guid s3 = (i, s4)" "committed s4 = committed s3"
    by (metis prod.collapse fresh_guid_committed)
  ultimately show "post (\<lambda>lr y. (lr_leased lr \<longrightarrow> y = x \<and> delivered L d r c u lr) \<and> (y = x \<or> y = d))
       (case ebind (json_parse L (column_text w)) (leased_message L queue key priority (i32 (ix_attempt r + 1))) of
          Inl e \<Rightarrow> (lease_error (Some (''failed to parse message: '' @ jl_what L e)), s3)
        | Inr msg \<Rightarrow>
            let (lease_id, s4) = fresh_guid s3
            in (\<lparr>lr_leased = True, lr_message = Some msg,
                 lr_lease = Some \<lparr>lt_lease_id = lease_id, lt_message_key = key,
                   lt_consumer_id = c, lt_lease_until_ms = u\<rparr>,
                 lr_error = None\<rparr>, s4))"
    using s3 r
    by (auto simp: post_def delivered_def row_body_def leased_message_def ebind_def split: sum.split)
qed simp_all


lemma leased_content_lookup:
  "db_value (leased_content r u d) key = db_value d key"
  by (simp add: leased_content_def db_value_def)

lemma set_inflight_content:
  "set_inflight (ix_message_key r) u (i32 (ix_attempt r + 1)) d = Some (leased_content r u d)"
  by (simp add: set_inflight_def idx_update_def leased_content_def)

text \<open>What \<open>lease_next\<close> does to the content \<open>d\<close>.\<close>

definition leases_best :: "json_lib \<Rightarrow> string \<Rightarrow> string \<Rightarrow> int \<Rightarrow> int \<Rightarrow> database \<Rightarrow> lease_result \<Rightarrow> database \<Rightarrow> bool"
where
  "leases_best L queue consumer now lease_until d lr x \<longleftrightarrow>
     x = d \<and> \<not> lr_leased lr \<or>
     (\<exists>r \<in> set (db_idx d). deliverable queue now consumer r \<and>
        (\<forall>r' \<in> set (db_idx d). deliverable queue now consumer r' \<longrightarrow> before r r') \<and>
        x = leased_content r lease_until d \<and>
        (lr_leased lr \<longrightarrow> delivered L d r consumer lease_until lr))"

lemma lease_next_effect:
  assumes E: "engine_ok E"
    and keys: "\<forall>r \<in> set (db_idx d). CHR 0x00 \<notin> set (ix_message_key r) \<and> in_i32 (ix_priority r)"
    and s: "committed s = d"
  shows "post (leases_best L queue consumer now u d) (in_tx lease_error
     (\<lambda>s2. case sql_prepare s2 of
        (Some e, s3) \<Rightarrow> tx_abort lease_error (Some e) s3
      | (None, s3) \<Rightarrow>
          (case sql_first E (ready_rows queue now consumer) s3 of
             (None, s4) \<Rightarrow> tx_abort lease_error None s4
           | (Some r, s4) \<Rightarrow>
               let key = column_text (ix_message_key r); attempt = i32 (ix_attempt r + 1)
               in tx_write E lease_error ''failed to update message state'' (set_inflight key u attempt)
                    (fetch_leased L E queue consumer u key (i32 (ix_priority r)) attempt) s4)) s)"
proof (intro post_in_tx [where d = d] post_prepare [where d = d and P = "(=) d"]
      post_first [where d = d and P = "(=) d"], unfold Let_def)
  fix r rest x n and s3 :: sql_adapter
  assume t: "tx d ((=) d) s3" and x: "d = x" "ready_rows queue now consumer (se_scan E n) x = r # rest"
  note best = ready_rows_best [OF E x(2) [folded x(1)]]
  have r: "column_text (ix_message_key r) = ix_message_key r" "i32 (ix_priority r) = ix_priority r"
    "queue = ix_queue r"
    using best keys by (auto simp: deliverable_def)
  show "post (leases_best L queue consumer now u d) (tx_write E lease_error ''failed to update message state''
      (set_inflight (column_text (ix_message_key r)) u (i32 (ix_attempt r + 1)))
      (fetch_leased L E queue consumer u (column_text (ix_message_key r)) (i32 (ix_priority r))
         (i32 (ix_attempt r + 1))) s3)"
    unfolding r(1,2)
  proof (rule post_write [OF _ t, where P' = "(=) (leased_content r u d)"])
    fix s4 :: sql_adapter
    assume t4: "tx d ((=) (leased_content r u d)) s4"
    from fetch_best [OF t4 leased_content_lookup refl r(3) refl, of L consumer u E] best
    show "post (leases_best L queue consumer now u d) (fetch_leased L E queue consumer u (ix_message_key r)
         (ix_priority r) (i32 (ix_attempt r + 1)) s4)"
      by (auto simp: post_def leases_best_def)
  qed (simp_all add: set_inflight_content leases_best_def)
qed (simp_all add: leases_best_def s)

section \<open>Acknowledgement\<close>

lemma ack_succeeds:
  assumes "idle s" "good_db L (committed s)"
  shows "fst (fst (sq_ack E lease s))"
proof -
  have "fst (fst (in_tx fail_res
      (tx_write E fail_res ''failed to delete from msg_index''
         (idx_delete (\<lambda>r. ix_message_key r = lt_message_key lease \<and> ix_state r = ''inflight''))
      (tx_write E fail_res ''failed to delete from kv table'' (kv_delete (lt_message_key lease))
      (tx_commit E fail_res return_ok))) s))"
  proof (rule calm_in_tx [OF assms(1)], erule calm_write, erule calm_write)
    fix y z and s2 :: sql_adapter
    assume "calm (committed s) z s2"
    then show "fst (fst (tx_commit E fail_res return_ok s2))" by (rule calm_commit) simp
  qed (simp_all add: idx_delete_def kv_delete_def)
  then show ?thesis using assms(1) by (simp add: sq_ack_def idle_def)
qed

section \<open>Sweeps\<close>

definition swept :: "(index_row \<Rightarrow> bool) \<Rightarrow> (index_row \<Rightarrow> index_row) \<Rightarrow> database \<Rightarrow> database" where
  "swept p f d = d\<lparr>db_idx := map (\<lambda>r. if p r then f r else r) (db_idx d)\<rparr>"

lemma post_in_tx_now:
  assumes "\<And>e. e \<noteq> None \<Longrightarrow> Q (failure e) d" "committed s = d"
    and "\<And>s1. tx d ((=) d) s1 \<Longrightarrow> post Q (k (clock s (clock_n s)) s1)"
  shows "post Q (in_tx failure (\<lambda>s1. let (now, s2) = now_ms s1 in k now s2) s)"
proof -
  obtain r s1 where b: "begin_transaction s = (r, s1)" by (metis prod.collapse)
  have "fst r \<Longrightarrow> tx d ((=) d) (snd (now_ms s1)) \<and> fst (now_ms s1) = clock s (clock_n s)"
    using b assms(2)
    by (auto simp: begin_transaction_def tx_def committed_def os_io_def now_ms_def split: if_splits prod.splits option.splits)
  moreover have "\<not> fst r \<Longrightarrow> snd r \<noteq> None"
    using b by (auto simp: begin_transaction_def split: if_splits prod.splits option.splits)
  ultimately show ?thesis
    using assms(1,3) b begin_committed [OF b] assms(2)
    by (cases "now_ms s1") (auto simp: in_tx_def post_def)
qed

lemma sweep_effect:
  assumes "sweep_update E msg p f s = ((n, err), s')"
  shows "committed s' = (if err = None then swept (p (clock s (clock_n s))) f (committed s) else committed s)"
proof (cases "sd_open s")
  case True
  let ?now = "clock s (clock_n s)"
  let ?Q = "\<lambda>r x. x = (if snd r = None then swept (p ?now) f (committed s) else committed s)"
  let ?k = "\<lambda>now s2. tx_write E (Pair 0) msg (idx_update (p now) f)
     (\<lambda>s3. case sql_prepare s3 of
        (Some e, s4) \<Rightarrow> tx_abort (Pair 0) (Some e) s4
      | (None, s4) \<Rightarrow>
          let (row, s5) = sql_first E (\<lambda>_ _. [i32 (int (length (filter (p now) (db_idx (sd_db s2)))))]) s4;
              count = value_or row 0
          in tx_commit E (Pair 0) (\<lambda>s6. ((count, None), s6)) s5) s2"
  have "post ?Q (in_tx (Pair 0) (\<lambda>s1. let (now, s2) = now_ms s1 in ?k now s2) s)"
  proof (rule post_in_tx_now [OF _ refl])
    fix s1 :: sql_adapter
    assume t: "tx (committed s) ((=) (committed s)) s1"
    show "post ?Q (?k ?now s1)"
    proof (rule post_write [OF _ t, where P' = "(=) (swept (p ?now) f (committed s))"])
      fix s2 :: sql_adapter
      assume "tx (committed s) ((=) (swept (p ?now) f (committed s))) s2"
      then show "post ?Q (case sql_prepare s2 of
        (Some e, s4) \<Rightarrow> tx_abort (Pair 0) (Some e) s4
      | (None, s4) \<Rightarrow>
          let (row, s5) = sql_first E (\<lambda>_ _. [i32 (int (length (filter (p ?now) (db_idx (sd_db s1)))))]) s4;
              count = value_or row 0
          in tx_commit E (Pair 0) (\<lambda>s6. ((count, None), s6)) s5)"
      proof (rule post_prepare [rotated])
        fix s4 :: sql_adapter
        assume t4: "tx (committed s) ((=) (swept (p ?now) f (committed s))) s4"
        obtain row s5 where f: "sql_first E (\<lambda>_ _. [i32 (int (length (filter (p ?now) (db_idx (sd_db s1)))))]) s4 =
          (row, s5)" by (metis prod.collapse)
        have "post ?Q (tx_commit E (Pair 0) (\<lambda>s6. ((value_or row 0, None), s6)) s5)"
          by (rule post_commit [OF _ tx_first(1) [OF t4 f]]) (auto simp: post_def)
        then show "post ?Q (let (row, s5) = sql_first E (\<lambda>_ _. [i32 (int (length (filter (p ?now) (db_idx (sd_db s1)))))]) s4;
              count = value_or row 0
          in tx_commit E (Pair 0) (\<lambda>s6. ((count, None), s6)) s5)"
          by (simp add: f)
      qed auto
    qed (auto simp: idx_update_def swept_def)
  qed auto
  moreover have "in_tx (Pair 0) (\<lambda>s1. let (now, s2) = now_ms s1 in ?k now s2) s = ((n, err), s')"
    using assms True by (simp add: sweep_update_def Let_def)
  ultimately show ?thesis by (auto dest: postD)
qed (use assms in \<open>auto simp: sweep_update_def\<close>)


lemma sweep_succeeds:
  assumes "idle s"
  shows "fst (sweep_update E msg p f s) =
    (i32 (int (length (filter (p (clock s (clock_n s))) (db_idx (committed s))))), None)"
proof -
  let ?now = "clock s (clock_n s)"
  let ?n = "length (filter (p ?now) (db_idx (committed s)))"
  let ?k = "\<lambda>now s2. tx_write E (Pair 0) msg (idx_update (p now) f)
     (\<lambda>s3. case sql_prepare s3 of
        (Some e, s4) \<Rightarrow> tx_abort (Pair 0) (Some e) s4
      | (None, s4) \<Rightarrow>
          let (row, s5) = sql_first E (\<lambda>_ _. [i32 (int (length (filter (p now) (db_idx (sd_db s2)))))]) s4;
              count = value_or row 0
          in tx_commit E (Pair 0) (\<lambda>s6. ((count, None), s6)) s5) s2"
  have "fst (in_tx (Pair 0) (\<lambda>s1. let (now, s2) = now_ms s1 in ?k now s2) s) = (i32 (int ?n), None)"
  proof (rule calm_in_tx_now [OF assms])
    fix s2 :: sql_adapter
    assume c: "calm (committed s) (committed s) s2"
    then have db: "sd_db s2 = committed s" by (simp add: calm_def)
    show "fst (?k ?now s2) = (i32 (int ?n), None)"
      unfolding db
    proof (rule calm_write [OF c], rule calm_prepare, assumption)
      fix y and s4 :: sql_adapter
      assume c4: "calm (committed s) y s4"
      have f: "sql_first E (\<lambda>_ _. [i32 (int ?n)]) s4 = (Some (i32 (int ?n)), s4\<lparr>io_n := Suc (io_n s4)\<rparr>)"
        "calm (committed s) y (s4\<lparr>io_n := Suc (io_n s4)\<rparr>)"
        using c4 by (simp_all add: sql_first_def calm_defs)
      from calm_commit [OF f(2), of "\<lambda>x. fst x = (i32 (int ?n), None)" "\<lambda>s6. ((i32 (int ?n), None), s6)" E "Pair 0"]
      show "fst (let (row, s5) = sql_first E (\<lambda>_ _. [i32 (int ?n)]) s4; count = value_or row 0
          in tx_commit E (Pair 0) (\<lambda>s6. ((count, None), s6)) s5) = (i32 (int ?n), None)"
        by (simp add: f)
    qed (simp add: idx_update_def)
  qed
  then show ?thesis using assms by (simp add: sweep_update_def Let_def idle_def)
qed

section \<open>Metrics\<close>

definition state_size :: "string \<Rightarrow> string \<Rightarrow> database \<Rightarrow> nat" where
  "state_size queue st d = length (filter (\<lambda>r. ix_queue r = queue \<and> ix_state r = st) (db_idx d))"
section \<open>Metrics\<close>

definition known_states :: "string list" where
  "known_states = [''ready'', ''inflight'', ''delayed'', ''dlq'', ''archived'']"

lemma count_state_simps [simp]:
  "count_state (''ready'', n) m = m\<lparr>qm_ready := n\<rparr>"
  "count_state (''inflight'', n) m = m\<lparr>qm_inflight := n\<rparr>"
  "count_state (''delayed'', n) m = m\<lparr>qm_delayed := n\<rparr>"
  "count_state (''dlq'', n) m = m\<lparr>qm_dlq := n\<rparr>"
  "count_state (''archived'', n) m = m"
  by (simp_all add: count_state_def)

lemma fold_count_state:
  assumes "distinct xs" "set xs \<subseteq> set known_states"
  shows "fold count_state (map (\<lambda>st. (st, c st)) xs) m =
    \<lparr>qm_ready = (if ''ready'' \<in> set xs then c ''ready'' else qm_ready m),
     qm_inflight = (if ''inflight'' \<in> set xs then c ''inflight'' else qm_inflight m),
     qm_delayed = (if ''delayed'' \<in> set xs then c ''delayed'' else qm_delayed m),
     qm_dlq = (if ''dlq'' \<in> set xs then c ''dlq'' else qm_dlq m)\<rparr>"
  using assms
proof (induction xs arbitrary: m)
  case (Cons st xs)
  then have "st = ''ready'' \<or> st = ''inflight'' \<or> st = ''delayed'' \<or> st = ''dlq'' \<or> st = ''archived''"
    by (auto simp: known_states_def)
  moreover have "distinct xs" "set xs \<subseteq> set known_states" "st \<notin> set xs" using Cons.prems by simp_all
  ultimately show ?case by (elim disjE; simp add: Cons.IH)
qed simp

section \<open>Policies\<close>

definition policy_ranges :: "queue_policy \<Rightarrow> bool" where
  "policy_ranges p \<longleftrightarrow> in_i32 (qp_visibility_timeout_sec p) \<and> in_i32 (rp_limit (qp_retry p)) \<and>
     in_i32 (rp_initial_delay_sec (qp_retry p)) \<and> in_i32 (rp_max_delay_sec (qp_retry p)) \<and>
     in_i32 (dp_retention_days (qp_dlq p))"

lemma policy_of_policy_json:
  assumes "policy_ranges p"
  shows "sq_policy_of_json L (policy_json p) = Inr p" "fs_policy_of_json L (policy_json p) = Inr p"
  using assms
  by (simp_all add: sq_policy_of_json_def fs_policy_of_json_def policy_json_def policy_ranges_def jobj_def
      retry_of_json_def dlq_of_json_def)

lemma kv_insert_values:
  assumes "kv_insert r d = Some d'"
  shows "kv_values (kv_key r) d' = [kv_value r]"
proof -
  have "filter (\<lambda>x. kv_key x = kv_key r) (db_kv d) = []" "d' = d\<lparr>db_kv := db_kv d @ [r]\<rparr>"
    using assms by (auto simp: kv_insert_def list_ex_iff filter_empty_conv split: if_splits)
  then show ?thesis by (simp add: kv_values_def)
qed

lemma kv_replace_values: "kv_replace r d = Some d' \<Longrightarrow> kv_values (kv_key r) d' = [kv_value r]"
  by (auto simp: kv_replace_def bind_eq_Some_conv dest: kv_insert_values)

lemma save_step:
  "sql_step E f s = (True, s1) \<Longrightarrow> \<exists>d. f (sd_db s) = Some d \<and> sd_db s1 = d \<and> sd_open s1"
  by (auto simp: sql_step_def sql_execute_def os_io_def split: if_splits option.splits)

section \<open>Dead letters\<close>

end
