(* ===== verification/SQLite_Properties.thy ===== *)
theory SQLite_Properties
  imports SQLite_Effects Daemon_Properties
begin

text \<open>
  Properties of the SQLite adapter and of the daemon on it, each with a run on concrete tables.
\<close>

section \<open>The daemon on the SQLite adapter\<close>

definition sq_request_ok :: "json_lib \<Rightarrow> mailbox_request \<Rightarrow> sql_adapter mailbox \<Rightarrow> bool" where
  "sq_request_ok L r m \<longleftrightarrow>
     (mr_command r = Publish \<longrightarrow>
        (case published L r m of None \<Rightarrow> True
         | Some e \<Rightarrow> sq_stored L (mb_backend m) (m_queue e) (m_message_id e) = None))"

lemma sq_request_ok_admissible: "sq_request_ok L = sq.admissible L L"
  by (auto simp: fun_eq_iff sq_request_ok_def sq.admissible_def split: option.splits)

text \<open>C13: No published message is lost on the SQLite adapter: after a publish request answered with
  success, the message is in the committed tables with the published content after any further
  sequence of requests, sweeps and registrations in which no acknowledgement names it, whatever
  statements of the database fail and whether or not a failure rolls its transaction back. (The
  identifier drawn for the message does not occur in its queue yet.)\<close>

theorem sq_daemon_keeps_published_message:
  assumes "sq_ok L (mb_backend m)" "guid_source m" "clock_ok m"
    and "sq_request_ok L r m" "mr_command r = Publish"
    and "handle_request L env (sq_backend L E) r m = (resp, m1)" "rs_ok resp"
    and "published L r m = Some msg"
    and "daemon_run (sq_request_ok L) L env undef (sq_backend L E) evs m1 = Some m2"
    and "\<forall>ev \<in> set evs. \<not> acknowledges L (m_message_id msg) ev"
  shows "sq_stored L (mb_backend m2) (m_queue msg) (m_message_id msg) = Some (msg_body msg)"
  using assms unfolding sq_request_ok_admissible by (rule sq.published_message_kept)

section \<open>A concrete database\<close>

definition demo_engine :: sql_engine where
  "demo_engine = \<lparr>se_scan = (\<lambda>n rows. rows), se_partial = (\<lambda>n. 0), se_aborts = (\<lambda>n. False),
     se_schema = (\<lambda>sql. None), se_constraint = ''constraint failed''\<rparr>"

definition empty_database :: database where
  "empty_database = \<lparr>db_kv = [], db_idx = []\<rparr>"

definition demo_sql_config :: sqlite_config where
  "demo_sql_config = \<lparr>sc_db_path = ''/mq/q.db'', sc_kv_table = ''kv'', sc_message_index_table = ''msg_index'',
     sc_busy_timeout_ms = 0, sc_journal_mode = '''', sc_synchronous = ''''\<rparr>"

definition demo_sql :: "database \<Rightarrow> sql_adapter" where
  "demo_sql d = \<lparr>files = [], dirs = [], clock = (\<lambda>n. 5000), clock_n = 0,
     guids = (\<lambda>n. guid (\<lambda>k. word_of_nat n)), guid_n = 0, fault = (\<lambda>_. None), io_n = 0,
     sd_open = True, sd_db = d, sd_saved = None, sqa_is_open = True, sqa_schema_path = [],
     sqa_config = demo_sql_config\<rparr>"

definition demo_sql_mailbox :: "sql_adapter mailbox" where
  "demo_sql_mailbox = \<lparr>files = [], dirs = [], clock = (\<lambda>n. 5000), clock_n = 0,
     guids = (\<lambda>n. guid (\<lambda>k. word_of_nat n)), guid_n = 0, fault = (\<lambda>_. None), io_n = 0,
     mb_running = True, mb_config = mb_config demo_mailbox, mb_validator = mb_validator demo_mailbox,
     mb_metrics = zero_mailbox_metrics, mb_pending = [], mb_has_manager = True,
     mb_manager = \<lparr>qm_running = True, qm_policies = Map.empty, qm_backend = demo_sql empty_database\<rparr>\<rparr>"

lemmas sql_model_defs = sq_backend_def in_tx_def tx_write_def tx_commit_def tx_abort_def begin_transaction_def
  sql_commit_def sql_rollback_def sql_prepare_def sql_step_def sql_execute_def sql_first_def sql_rows_def
  sql_failed_def committed_def os_io_def now_ms_def fresh_guid_def
  kv_insert_def kv_delete_def kv_replace_def kv_update_def kv_values_def
  idx_insert_def idx_update_def idx_delete_def

lemmas demo_sql_defs = demo_engine_def empty_database_def demo_sql_config_def demo_sql_def demo_sql_mailbox_def
  demo_mailbox_def

lemma demo_sql_source: "guid_source demo_sql_mailbox" "clock_ok demo_sql_mailbox"
  by (auto simp: guid_source_def clock_ok_def demo_sql_defs in_i64_def)

lemma demo_sql_published: "published ref_json demo_publish demo_sql_mailbox = Some demo_published"
  by (simp add: mailbox_model_defs demo_publish_def demo_request_def demo_sql_defs demo_published_def
      demo_message_def msg_key_def demo_guid eval_rules cong: weak_congs)

lemma good_empty: "good_db L empty_database"
  by (simp add: good_db_def empty_database_def)

lemma demo_sql_ok: "json_ok L \<Longrightarrow> sq_ok L (demo_sql empty_database)"
  by (simp add: sq_ok_def good_empty committed_def demo_sql_def)

lemma demo_sql_request_ok:
  "sq_request_ok L demo_publish demo_sql_mailbox" "sq_request_ok L demo_consume m"
proof -
  have "sq_stored L (mb_backend demo_sql_mailbox) q i = None" for q i
    by (simp add: sq_stored_def demo_sql_defs db_body_def db_row_def committed_def)
  then show "sq_request_ok L demo_publish demo_sql_mailbox"
    by (simp add: sq_request_ok_def split: option.split)
qed (simp add: sq_request_ok_def demo_consume_def demo_request_payload)

lemma demo_sql_publish_run:
  "rs_ok (fst (handle_request ref_json env (sq_backend ref_json demo_engine) demo_publish demo_sql_mailbox))"
  by (simp add: mailbox_model_defs demo_publish_def demo_request_def demo_sql_defs sql_model_defs
      sq_enqueue_def new_index_row_def kv_envelope_json_def value_or_def
      build_success_response_def msg_key_def demo_guid eval_rules cong: weak_congs)

theorem sq_daemon_keeps_published_message_witness:
  "\<exists>m2. daemon_run (sq_request_ok ref_json) ref_json demo_env 0 (sq_backend ref_json demo_engine)
       [Request demo_publish, Request demo_consume, Lease_Sweep, Retry_Sweep] demo_sql_mailbox = Some m2 \<and>
     sq_stored ref_json (mb_backend m2) ''jobs'' ''0000-0000-0000-0000-0000'' = Some (msg_body demo_published)"
proof -
  let ?B = "sq_backend ref_json demo_engine"
  let ?evs = "[Request demo_consume, Lease_Sweep, Retry_Sweep]"
  obtain resp m1 where run: "handle_request ref_json demo_env ?B demo_publish demo_sql_mailbox = (resp, m1)"
    by (metis prod.collapse)
  have answered: "rs_ok resp" using demo_sql_publish_run [of demo_env] run by simp
  have ok: "sq_ok ref_json (mb_backend demo_sql_mailbox)"
    using demo_sql_ok [OF json_ok_ref] by (simp add: demo_sql_mailbox_def)
  obtain m2 where later: "daemon_run (sq_request_ok ref_json) ref_json demo_env 0 ?B ?evs m1 = Some m2"
    by (simp add: demo_sql_request_ok)
  have "sq_stored ref_json (mb_backend m2) (m_queue demo_published) (m_message_id demo_published) =
      Some (msg_body demo_published)"
    by (rule sq_daemon_keeps_published_message
        [OF ok demo_sql_source demo_sql_request_ok(1) _ run answered demo_sql_published later])
      (simp_all add: demo_publish_def demo_consume_def demo_request_payload)
  moreover have "daemon_run (sq_request_ok ref_json) ref_json demo_env 0 ?B
      (Request demo_publish # ?evs) demo_sql_mailbox = Some m2"
    using later run demo_sql_request_ok(1) by simp
  ultimately show ?thesis by (auto simp: demo_published_def demo_message_def)
qed

definition demo_row :: "string \<Rightarrow> int \<Rightarrow> string \<Rightarrow> int option \<Rightarrow> index_row" where
  "demo_row i priority st lease_until = \<lparr>ix_queue = ''jobs'', ix_state = st, ix_priority = priority,
     ix_available_at = 1000, ix_lease_until = lease_until, ix_attempt = 0, ix_message_key = ''msg:jobs:'' @ i,
     ix_target = [], ix_dlq_reason = None, ix_dlq_at = None\<rparr>"

definition demo_kv :: "string \<Rightarrow> kv_row" where
  "demo_kv i = message_kv ref_json 1000 (demo_message\<lparr>m_key := ''msg:jobs:'' @ i, m_message_id := i\<rparr>)"

definition demo_db :: database where
  "demo_db = \<lparr>db_kv = [demo_kv ''a'', demo_kv ''b'', demo_kv ''c''],
     db_idx = [demo_row ''a'' 1 ''ready'' None, demo_row ''b'' 7 ''ready'' None,
       demo_row ''c'' 9 ''inflight'' (Some 4000)]\<rparr>"

lemmas demo_db_defs = demo_db_def demo_row_def demo_kv_def message_kv_def demo_message_def

lemma demo_idle: "idle (demo_sql d)" "committed (demo_sql d) = d" "clock (demo_sql d) n = 5000"
  by (simp_all add: calm_defs demo_sql_def)

lemma demo_engine_ok: "engine_ok demo_engine"
  by (simp add: engine_ok_def demo_engine_def)

lemma demo_db_good: "good_db ref_json demo_db"
  by (simp add: good_db_def demo_db_defs db_value_def object_value_def kv_envelope_json_def jobj_def)

definition demo_policy :: queue_policy where
  "demo_policy = \<lparr>qp_visibility_timeout_sec = 30,
     qp_retry = \<lparr>rp_limit = 3, rp_backoff = ''linear'', rp_initial_delay_sec = 2, rp_max_delay_sec = 60\<rparr>,
     qp_dlq = \<lparr>dp_enabled = True, dp_queue = ''dead'', dp_retention_days = 7\<rparr>\<rparr>"

section \<open>Single operations\<close>

text \<open>C15: \<open>enqueue\<close> is all or nothing: it succeeds only on a key neither table has and
  then commits the value and the index row together; on any failure the committed tables are as
  before. Without failures it succeeds on every new key.\<close>

theorem sq_enqueue_all_or_nothing:
  assumes "sq_enqueue L E e s = (r, s')"
  shows "if fst r
    then db_value (committed s) (m_key e) = None \<and> db_row (committed s) (m_key e) = None \<and>
      committed s' = with_message (message_kv L (clock s (clock_n s)) e)
        (new_index_row (clock s (clock_n s)) e) (committed s)
    else committed s' = committed s \<and>
      (idle s \<longrightarrow> db_value (committed s) (m_key e) \<noteq> None \<or> db_row (committed s) (m_key e) \<noteq> None)"
  using postD [OF enqueue_effect assms] enqueue_succeeds [of s e L E] assms by auto

theorem sq_enqueue_all_or_nothing_witness:
  "\<exists>s'. sq_enqueue ref_json demo_engine demo_message (demo_sql empty_database) = (ok_res, s') \<and>
     committed s' = with_message (message_kv ref_json 5000 demo_message) (new_index_row 5000 demo_message)
       empty_database"
proof -
  obtain r s' where run: "sq_enqueue ref_json demo_engine demo_message (demo_sql empty_database) = (r, s')"
    by (metis prod.collapse)
  have fresh: "db_value empty_database k = None" "db_row empty_database k = None" for k
    by (simp_all add: db_value_def db_row_def empty_database_def)
  note sq_enqueue_all_or_nothing [OF run]
  then have "fst r" "committed s' = with_message (message_kv ref_json 5000 demo_message)
      (new_index_row 5000 demo_message) empty_database"
    by (auto simp: demo_idle fresh split: if_splits)
  moreover have "r = ok_res"
    using run by (simp add: sq_enqueue_def sql_model_defs demo_sql_defs demo_message_def new_index_row_def eval_rules cong: weak_congs)
  ultimately show ?thesis using run by blast
qed

text \<open>C16: \<open>lease_next\<close> delivers the best message: either nothing changed and nothing was
  delivered, or the row it committed as in flight was ready, due and meant for this consumer, and
  no such row has a higher priority, or the same priority and an earlier due time; the message and
  the lease handed out are those of that row. (A row can be in flight without a delivery: the
  transaction is committed before the value is parsed.)\<close>

theorem sq_lease_next_best:
  assumes "engine_ok E" "\<forall>r \<in> set (db_idx (committed s)). CHR 0x00 \<notin> set (ix_message_key r) \<and> in_i32 (ix_priority r)"
    and "sq_lease_next L E queue consumer visibility s = (lr, s')"
  shows "leases_best L queue consumer (clock s (clock_n s)) (i64 (clock s (clock_n s) + visibility * 1000))
    (committed s) lr (committed s')"
proof (cases "sd_open s")
  case True
  then show ?thesis
    using assms(3) lease_next_effect [OF assms(1,2) now_ms_db(3), of L queue consumer "clock s (clock_n s)"
        "i64 (clock s (clock_n s) + visibility * 1000)"]
    unfolding sq_lease_next_def now_ms_def Let_def by (simp add: post_def)
qed (use assms(3) in \<open>auto simp: sq_lease_next_def leases_best_def\<close>)

theorem sq_lease_next_best_witness:
  "\<exists>lr s'. sq_lease_next ref_json demo_engine ''jobs'' ''c'' 30 (demo_sql demo_db) = (lr, s') \<and>
     committed s' = leased_content (demo_row ''b'' 7 ''ready'' None) 35000 demo_db"
proof -
  obtain lr s' where run: "sq_lease_next ref_json demo_engine ''jobs'' ''c'' 30 (demo_sql demo_db) = (lr, s')"
    by (metis prod.collapse)
  have "\<forall>r \<in> set (db_idx (committed (demo_sql demo_db))). CHR 0x00 \<notin> set (ix_message_key r) \<and> in_i32 (ix_priority r)"
    by (simp add: demo_idle demo_db_def demo_row_def in_i32_def)
  note best = sq_lease_next_best [OF demo_engine_ok this run]
  have "lr_leased (fst (sq_lease_next ref_json demo_engine ''jobs'' ''c'' 30 (demo_sql demo_db)))"
    by (simp add: sq_lease_next_def fetch_leased_def ready_rows_def set_inflight_def
      leased_message_def kv_envelope_json_def sql_model_defs demo_sql_defs demo_db_defs i32_def i64_def
      jvalue_def eval_rules cong: weak_congs)
  with best show ?thesis
    using run by (auto simp: leases_best_def demo_idle demo_db_def before_def deliverable_def demo_row_def i64_def)
qed

text \<open>C17: \<open>ack\<close> removes the key whatever it stands for: a successful acknowledgement
  deletes the value and the index row of the key it names, in every state and for every consumer,
  and without failures it always succeeds; a failed one changes nothing. The condition
  \<open>state = inflight\<close> of its first statement has no effect, because deleting the value
  cascades to the index.\<close>

theorem sq_ack_removes_any_state:
  assumes "good_db L (committed s)" "sq_ack E lease s = (r, s')"
  shows "committed s' = (if fst r then without_key (lt_message_key lease) (committed s) else committed s) \<and>
    (idle s \<longrightarrow> fst r)"
  using postD [OF sq_ack_effect [OF assms(1)] assms(2)] ack_succeeds [OF _ assms(1), of E lease] assms(2) by simp

theorem sq_ack_removes_any_state_witness:
  "\<exists>r s'. sq_ack demo_engine (demo_lease\<lparr>lt_message_key := ''msg:jobs:a''\<rparr>) (demo_sql demo_db) = (r, s') \<and>
     fst r \<and> db_row demo_db ''msg:jobs:a'' = Some (demo_row ''a'' 1 ''ready'' None) \<and>
     db_row (committed s') ''msg:jobs:a'' = None"
proof -
  obtain r s' where run: "sq_ack demo_engine (demo_lease\<lparr>lt_message_key := ''msg:jobs:a''\<rparr>) (demo_sql demo_db) = (r, s')"
    by (metis prod.collapse)
  have "good_db ref_json (committed (demo_sql demo_db))" by (simp add: demo_idle demo_db_good)
  from sq_ack_removes_any_state [OF this run]
  have "fst r" "committed s' = without_key ''msg:jobs:a'' demo_db" by (simp_all add: demo_idle)
  with run show ?thesis
    by (auto simp: without_key_lookup) (simp add: db_row_def demo_db_def demo_row_def)
qed

text \<open>C18: The lease sweep is exact: when it reports no error, the rows in flight whose lease ended
  before now are ready and without lease and every other row is as before; when it reports an
  error nothing changed; without failures it succeeds and counts those rows.\<close>

theorem sq_recover_exact:
  assumes "sq_recover_expired_leases E s = ((n, err), s')"
  shows "(if err = None
     then committed s' = swept (lease_expired (clock s (clock_n s)))
            (\<lambda>r. r\<lparr>ix_state := ''ready'', ix_lease_until := None\<rparr>) (committed s)
     else committed s' = committed s) \<and>
    (idle s \<longrightarrow> err = None \<and>
       n = i32 (int (length (filter (lease_expired (clock s (clock_n s))) (db_idx (committed s))))))"
  using sweep_effect [OF assms [unfolded sq_recover_expired_leases_def]] sweep_succeeds [of s E] assms
  by (auto simp: sq_recover_expired_leases_def dest: arg_cong [where f = fst])

theorem sq_recover_exact_witness:
  "\<exists>s'. sq_recover_expired_leases demo_engine (demo_sql demo_db) = ((1, None), s') \<and>
     db_row (committed s') ''msg:jobs:c'' = Some (demo_row ''c'' 9 ''ready'' None)"
proof -
  obtain n err s' where run: "sq_recover_expired_leases demo_engine (demo_sql demo_db) = ((n, err), s')"
    by (metis prod.collapse)
  from sq_recover_exact [OF run] show ?thesis
    using run by (simp add: demo_idle lease_expired_def sql_less_def demo_db_def demo_row_def swept_def
      db_row_def i32_def)
qed

text \<open>C19: The delay sweep is exact: when it reports no error, the delayed rows that are due are ready
  and every other row is as before; when it reports an error nothing changed; without failures it
  succeeds and counts those rows.\<close>

theorem sq_process_delayed_exact:
  assumes "sq_process_delayed_messages E s = ((n, err), s')"
  shows "(if err = None
     then committed s' = swept (delay_over (clock s (clock_n s))) (\<lambda>r. r\<lparr>ix_state := ''ready''\<rparr>) (committed s)
     else committed s' = committed s) \<and>
    (idle s \<longrightarrow> err = None \<and>
       n = i32 (int (length (filter (delay_over (clock s (clock_n s))) (db_idx (committed s))))))"
  using sweep_effect [OF assms [unfolded sq_process_delayed_messages_def]] sweep_succeeds [of s E] assms
  by (auto simp: sq_process_delayed_messages_def dest: arg_cong [where f = fst])

theorem sq_process_delayed_exact_witness:
  "\<exists>s'. sq_process_delayed_messages demo_engine
       (demo_sql (demo_db\<lparr>db_idx := [demo_row ''a'' 1 ''delayed'' None]\<rparr>)) = ((1, None), s') \<and>
     committed s' = demo_db\<lparr>db_idx := [demo_row ''a'' 1 ''ready'' None]\<rparr>"
proof -
  obtain n err s' where run: "sq_process_delayed_messages demo_engine
      (demo_sql (demo_db\<lparr>db_idx := [demo_row ''a'' 1 ''delayed'' None]\<rparr>)) = ((n, err), s')"
    by (metis prod.collapse)
  from sq_process_delayed_exact [OF run] show ?thesis
    using run by (simp add: demo_idle delay_over_def demo_db_def demo_row_def swept_def i32_def)
qed

text \<open>C20: Without failures \<open>metrics\<close> counts, for each of the four reported states, the
  rows of the queue in that state.\<close>

theorem sq_metrics_exact:
  assumes "engine_ok E" "no_faults s" "sd_open s" "\<forall>r \<in> set (db_idx (sd_db s)). ix_state r \<in> set known_states"
  shows "fst (sq_metrics E queue s) =
    (\<lparr>qm_ready = state_size queue ''ready'' (sd_db s), qm_inflight = state_size queue ''inflight'' (sd_db s),
      qm_delayed = state_size queue ''delayed'' (sd_db s), qm_dlq = state_size queue ''dlq'' (sd_db s)\<rparr>, None)"
proof -
  define states where "states = map ix_state (filter (\<lambda>r. ix_queue r = queue) (se_scan E (Suc (io_n s)) (db_idx (sd_db s))))"
  have scan: "mset (se_scan E n rows) = mset rows" for n rows using assms(1) by (simp add: engine_ok_def)
  have size: "length (filter (\<lambda>x. x = st) states) = state_size queue st (sd_db s)" for st
  proof -
    have "length (filter (\<lambda>x. x = st) states) =
        size (filter_mset (\<lambda>r. ix_queue r = queue \<and> ix_state r = st) (mset (se_scan E (Suc (io_n s)) (db_idx (sd_db s)))))"
      by (simp add: states_def filter_map comp_def conj_commute flip: mset_filter)
    also have "\<dots> = state_size queue st (sd_db s)"
      by (simp add: scan state_size_def flip: mset_filter)
    finally show ?thesis .
  qed
  have "set (remdups states) \<subseteq> set known_states"
    using assms(4) engine_scan_set [OF assms(1)] by (auto simp: states_def)
  note fold = fold_count_state [OF distinct_remdups this, where c = "\<lambda>st. length (filter (\<lambda>x. x = st) states)" and m = zero_metrics]
  have zero: "state_size queue st (sd_db s) = 0" if "st \<notin> set states" for st
  proof -
    have "filter (\<lambda>x. x = st) states = []" using that by (auto simp: filter_empty_conv)
    then show ?thesis using size [of st] by simp
  qed
  have "fst (sq_metrics E queue s) = (fold count_state (map (\<lambda>st. (st, length (filter (\<lambda>x. x = st) states))) (remdups states)) zero_metrics, None)"
    using assms(2,3) by (simp add: sq_metrics_def sql_prepare_def sql_rows_def os_io_def no_faults_def state_counts_def states_def Let_def)
  then show ?thesis
    unfolding fold by (auto simp: size zero zero_metrics_def)
qed

theorem sq_metrics_exact_witness:
  "fst (sq_metrics demo_engine ''jobs'' (demo_sql demo_db)) =
     (\<lparr>qm_ready = 2, qm_inflight = 1, qm_delayed = 0, qm_dlq = 0\<rparr>, None)"
  using sq_metrics_exact [of demo_engine "demo_sql demo_db" "''jobs''"]
  by (simp add: demo_engine_ok demo_sql_def no_faults_def demo_db_def demo_row_def known_states_def state_size_def)

text \<open>A policy that was saved with success is what \<open>load_policy\<close> then reads, whatever
  the key held before.\<close>

lemma sq_policy_roundtrip:
  assumes "json_ok L" "policy_ranges p" "sq_save_policy L E queue p s = (r, s1)" "fst r" "no_faults s1"
  shows "fst (sq_load_policy L E queue s1) = (Some p, None)"
proof -
  let ?row = "\<lparr>kv_key = policy_key queue, kv_value = jl_dump L (- 1) (policy_json p),
      kv_type = ''policy'', kv_created_at = clock s (clock_n s), kv_updated_at = clock s (clock_n s)\<rparr>"
  have "sd_open s1 \<and> (\<exists>x. kv_replace ?row x = Some (sd_db s1))"
    using assms(3,4)
    by (auto simp: sq_save_policy_def now_ms_def dest!: save_step
        split: if_splits option.splits prod.splits bool.splits)
  then obtain d x where s1: "sd_db s1 = d" "sd_open s1" and d: "kv_replace ?row x = Some d" by blast
  let ?v = "jl_dump L (- 1) (policy_json p)" and ?n = "io_n s1"
  have nf: "fault s1 = (\<lambda>_. None)" "sd_open s1" "sd_db s1 = d" using assms(5) s1 by (simp_all add: no_faults_def)
  have "sql_prepare s1 = (None, s1\<lparr>io_n := Suc ?n\<rparr>)" using nf by (simp add: sql_prepare_def os_io_def)
  moreover have "sql_first E (\<lambda>_. kv_values (policy_key queue)) (s1\<lparr>io_n := Suc ?n\<rparr>) =
      (Some ?v, s1\<lparr>io_n := Suc (Suc ?n)\<rparr>)"
    using nf kv_replace_values [OF d] by (simp add: sql_first_def os_io_def)
  ultimately show ?thesis
    using nf(2) by (simp add: sq_load_policy_def policy_of_policy_json assms(1,2))
qed

lemma sq_policy_roundtrip_run:
  "\<exists>s1. sq_save_policy ref_json demo_engine ''jobs'' demo_policy (demo_sql empty_database) = (ok_res, s1) \<and>
     fst (sq_load_policy ref_json demo_engine ''jobs'' s1) = (Some demo_policy, None)"
proof -
  obtain s1 where run: "sq_save_policy ref_json demo_engine ''jobs'' demo_policy (demo_sql empty_database) = (ok_res, s1)"
    and nf: "no_faults s1"
    by (simp add: sq_save_policy_def sql_model_defs demo_sql_defs no_faults_def eval_rules cong: weak_congs)
  have "policy_ranges demo_policy" by (simp add: policy_ranges_def demo_policy_def in_i32_def)
  from sq_policy_roundtrip [OF json_ok_ref this run _ nf] run show ?thesis by simp
qed

text \<open>C21: Without failures \<open>list_dlq_messages\<close> lists the dead letters of the queue, the
  newest first and those without a time last, up to the limit; a negative limit is no limit.\<close>

theorem sq_list_dlq_newest_first:
  assumes "engine_ok E" "no_faults s" "sd_open s"
    and "fst (sq_list_dlq_messages E queue limit s) = (infos, err)"
  shows "\<exists>rows. mset rows = filter_mset (\<lambda>r. ix_queue r = queue \<and> ix_state r = ''dlq'') (mset (db_idx (sd_db s))) \<and>
    sorted (map (\<lambda>r. case ix_dlq_at r of Some t \<Rightarrow> (0::int, - t) | None \<Rightarrow> (1, 0)) rows) \<and> err = None \<and>
    map di_message_key infos = map (column_text \<circ> ix_message_key)
      (if limit < 0 then rows else take (nat limit) rows)"
proof -
  let ?key = "\<lambda>r. case ix_dlq_at r of Some t \<Rightarrow> (0::int, - t) | None \<Rightarrow> (1, 0)"
  let ?scan = "se_scan E (Suc (io_n s)) (db_idx (sd_db s))"
  let ?rows = "sort_key ?key (filter (\<lambda>r. ix_queue r = queue \<and> ix_state r = ''dlq'') ?scan)"
  have "mset ?scan = mset (db_idx (sd_db s))" using assms(1) by (simp add: engine_ok_def)
  then have "mset ?rows = filter_mset (\<lambda>r. ix_queue r = queue \<and> ix_state r = ''dlq'') (mset (db_idx (sd_db s)))"
    by simp
  moreover have "sorted (map ?key ?rows)" by simp
  moreover have "err = None" "map di_message_key infos = map (column_text \<circ> ix_message_key)
      (if limit < 0 then ?rows else take (nat limit) ?rows)"
    using assms(2-4)
    by (auto simp: sq_list_dlq_messages_def sql_prepare_def sql_rows_def os_io_def no_faults_def dlq_rows_def
        sql_limit_def)
  ultimately show ?thesis by blast
qed

theorem sq_list_dlq_newest_first_witness:
  "\<exists>rows. mset rows = {#demo_row ''a'' 1 ''dlq'' None#} \<and>
     map di_message_key (fst (fst (sq_list_dlq_messages demo_engine ''jobs'' (- 1)
       (demo_sql \<lparr>db_kv = [], db_idx = [demo_row ''a'' 1 ''dlq'' None]\<rparr>)))) =
       map (column_text \<circ> ix_message_key) rows"
proof -
  let ?s = "demo_sql \<lparr>db_kv = [], db_idx = [demo_row ''a'' 1 ''dlq'' None]\<rparr>"
  obtain infos err where run: "fst (sq_list_dlq_messages demo_engine ''jobs'' (- 1) ?s) = (infos, err)"
    by (metis prod.collapse)
  have "no_faults ?s" "sd_open ?s" by (simp_all add: demo_sql_def no_faults_def)
  from sq_list_dlq_newest_first [OF demo_engine_ok this run] run show ?thesis
    by (auto simp: demo_sql_def demo_row_def)
qed

end
