(* ===== verification/Number_Text.thy ===== *)
theory Number_Text
  imports Prelude
begin

text \<open>
  Decimal numbers in texts, as the functions of the standard library the program calls read them:
  \<open>atoi\<close> and \<open>atol\<close>, which give zero for a text that is no number, and \<open>stoi\<close>, \<open>stoll\<close> and \<open>stoull\<close>,
  which throw (None) on it and on a number that is out of range.
\<close>

text \<open>\<open>isspace\<close> and \<open>isdigit\<close> of the C locale.\<close>

definition is_space :: "char \<Rightarrow> bool" where
  "is_space c \<longleftrightarrow> (let n = (of_char c :: nat) in n = 32 \<or> (9 \<le> n \<and> n \<le> 13))"

definition is_digit :: "char \<Rightarrow> bool" where
  "is_digit c \<longleftrightarrow> (let n = (of_char c :: nat) in 48 \<le> n \<and> n \<le> 57)"

text \<open>\<open>strtol\<close> in base ten: the longest number behind white space and a sign, cut to the range of a
  64-bit integer; zero when there is none.\<close>

definition digits_value :: "string \<Rightarrow> int" where
  "digits_value s = foldl (\<lambda>n c. 10 * n + (int (of_char c) - 48)) 0 (takeWhile is_digit s)"

definition clamp64 :: "int \<Rightarrow> int" where
  "clamp64 x = max (- (2 ^ 63)) (min x (2 ^ 63 - 1))"

definition strtol :: "string \<Rightarrow> int" where
  "strtol s =
     (case dropWhile is_space s of
        [] \<Rightarrow> 0
      | c # t \<Rightarrow>
          clamp64 (if c = CHR ''-'' then - digits_value t
                   else if c = CHR ''+'' then digits_value t else digits_value (c # t)))"

text \<open>\<open>atoi\<close> is \<open>strtol\<close> converted to \<open>int\<close>.\<close>

definition atoi :: "string \<Rightarrow> int" where
  "atoi s = i32 (strtol s)"

text \<open>The number \<open>stoi\<close> and its relatives read, before the range is checked.\<close>

definition read_number :: "string \<Rightarrow> int option" where
  "read_number s =
     (case dropWhile is_space s of
        [] \<Rightarrow> None
      | c # t \<Rightarrow>
          (let ds = (if c = CHR ''-'' \<or> c = CHR ''+'' then t else c # t)
           in if takeWhile is_digit ds = [] then None
              else Some (if c = CHR ''-'' then - digits_value ds else digits_value ds)))"

definition stoi :: "string \<Rightarrow> int option" where
  "stoi s = (case read_number s of None \<Rightarrow> None | Some n \<Rightarrow> if in_i32 n then Some n else None)"

definition stoll :: "string \<Rightarrow> int option" where
  "stoll s = (case read_number s of None \<Rightarrow> None | Some n \<Rightarrow> if in_i64 n then Some n else None)"

text \<open>A negative number is negated in 64 bits.\<close>

definition stoull :: "string \<Rightarrow> nat option" where
  "stoull s =
     (case read_number s of
        None \<Rightarrow> None
      | Some n \<Rightarrow> if \<bar>n\<bar> < 2 ^ 64 then Some (nat (n mod 2 ^ 64)) else None)"

section \<open>Printed numbers are read back\<close>

lemma of_char_digit: "d < 10 \<Longrightarrow> (of_char (char_of (48 + d) :: char) :: nat) = 48 + d"
  by simp

lemma nat_text_digits: "\<forall>c \<in> set (nat_text n). is_digit c"
proof (induction n rule: nat_text.induct)
  case (1 n)
  then show ?case
    by (subst nat_text.simps) (auto simp: is_digit_def Let_def)
qed

lemma nat_text_not_Nil [simp]: "nat_text n \<noteq> []"
  by (subst nat_text.simps) simp

lemma digits_value_snoc:
  "\<forall>c \<in> set s. is_digit c \<Longrightarrow> is_digit c \<Longrightarrow>
     digits_value (s @ [c]) = 10 * digits_value s + (int (of_char c) - 48)"
  by (simp add: digits_value_def takeWhile_eq_all_conv [THEN iffD2])

lemma digits_value_nat_text: "digits_value (nat_text n) = int n"
proof (induction n rule: nat_text.induct)
  case (1 n)
  show ?case
  proof (cases "n < 10")
    case True
    then show ?thesis
      by (subst nat_text.simps) (simp add: digits_value_def is_digit_def)
  next
    case False
    have d: "is_digit (char_of (48 + n mod 10))" by (simp add: is_digit_def Let_def)
    have "digits_value (nat_text n) = 10 * int (n div 10) + int (n mod 10)"
      by (subst nat_text.simps) (use 1 False in \<open>simp add: digits_value_snoc [OF nat_text_digits d]\<close>)
    then show ?thesis by (metis mult_div_mod_eq of_nat_add of_nat_mult of_nat_numeral)
  qed
qed

lemma digit_not_special: "is_digit c \<Longrightarrow> \<not> is_space c \<and> c \<noteq> CHR ''-'' \<and> c \<noteq> CHR ''+''"
  by (auto simp: is_digit_def is_space_def Let_def)

lemma read_number_int_text [simp]: "read_number (int_text i) = Some i"
proof -
  have all: "takeWhile is_digit (nat_text n) = nat_text n" for n
    using nat_text_digits by (simp add: takeWhile_eq_all_conv)
  obtain c t where ct: "nat_text (nat i) = c # t" by (cases "nat_text (nat i)") auto
  then have c: "\<not> is_space c \<and> c \<noteq> CHR ''-'' \<and> c \<noteq> CHR ''+''"
    using nat_text_digits [of "nat i"] digit_not_special [of c] by simp
  have m: "\<not> is_space (CHR ''-'')" by (simp add: is_space_def)
  show ?thesis
  proof (cases "i < 0")
    case True
    then show ?thesis
      by (simp add: read_number_def int_text_def m all digits_value_nat_text)
  next
    case False
    then have t: "int_text i = c # t" by (simp add: int_text_def ct)
    show ?thesis
      using False c all [of "nat i"] digits_value_nat_text [of "nat i"] unfolding ct
      by (simp add: read_number_def t)
  qed
qed

lemma read_number_nat_text [simp]: "read_number (nat_text n) = Some (int n)"
  using read_number_int_text [of "int n"] by (simp add: int_text_def)

lemma stoi_int_text [simp]: "in_i32 n \<Longrightarrow> stoi (int_text n) = Some n"
  by (simp add: stoi_def)

lemma stoll_int_text [simp]: "in_i64 n \<Longrightarrow> stoll (int_text n) = Some n"
  by (simp add: stoll_def)

lemma stoull_nat_text [simp]: "n < 2 ^ 64 \<Longrightarrow> stoull (nat_text n) = Some n"
  by (simp add: stoull_def nat_mod_distrib)

lemma int_text_not_Nil [simp]: "int_text n \<noteq> []"
  by (simp add: int_text_def)

end
