(* ===== verification/SQL_Text.thy ===== *)
theory SQL_Text
  imports SQL_Store Number_Text
begin

text \<open>
  Statements as the hybrid adapter issues them: SQL texts with the values of the program pasted between
  quotes, run by \<open>SQLite::execute\<close> and \<open>SQLite::query\<close>. A statement is its text, the texts pasted into it
  and what it does when it is read the way it was meant. It is, when no pasted text has a quote or a zero
  byte. Otherwise the library reads another statement: what that does to the tables and to the open
  transaction is a parameter, \<open>sql_reader\<close>, a function of the text.
\<close>

section \<open>Texts\<close>

definition quoted :: "string \<Rightarrow> string" where
  "quoted s = CHR 0x27 # s @ [CHR 0x27]"

definition plain_text :: "string \<Rightarrow> bool" where
  "plain_text s \<longleftrightarrow> CHR 0x27 \<notin> set s \<and> CHR 0x00 \<notin> set s"

record sql_statement =
  ss_sql :: string
  ss_texts :: "string list"
  ss_effect :: "database \<Rightarrow> database option"

text \<open>A query gives rows of texts, as the callback of \<open>query\<close> collects them.\<close>

record sql_select =
  sl_sql :: string
  sl_texts :: "string list"
  sl_rows :: "(index_row list \<Rightarrow> index_row list) \<Rightarrow> database \<Rightarrow> string list list"

type_synonym tables = "database \<times> database option"

record sql_reader =
  rd_execute :: "nat \<Rightarrow> string \<Rightarrow> tables \<Rightarrow> string option \<times> tables"
  rd_query :: "nat \<Rightarrow> string \<Rightarrow> tables \<Rightarrow> (string list list option \<times> string option) \<times> tables"
  rd_json_stamp :: "string \<Rightarrow> string \<Rightarrow> int \<Rightarrow> string option"
  rd_json_clear :: "string \<Rightarrow> string option"

section \<open>Running a statement\<close>

definition raw_execute ::
  "sql_engine \<Rightarrow> sql_reader \<Rightarrow> string \<Rightarrow> 'a sql_db_scheme \<Rightarrow> res \<times> 'a sql_db_scheme" where
  "raw_execute E T sql s =
     (if \<not> sd_open s then (err_res ''database is not open'', s)
      else
        case os_io s of
          (Some m, s1) \<Rightarrow> (err_res m, sql_failed E (io_n s) s1)
        | (None, s1) \<Rightarrow>
            (case rd_execute T (io_n s) sql (sd_db s1, sd_saved s1) of
               (e, d, saved) \<Rightarrow> ((e = None, e), s1\<lparr>sd_db := d, sd_saved := saved\<rparr>)))"

definition text_execute ::
  "sql_engine \<Rightarrow> sql_reader \<Rightarrow> sql_statement \<Rightarrow> 'a sql_db_scheme \<Rightarrow> res \<times> 'a sql_db_scheme" where
  "text_execute E T st s =
     (if list_all plain_text (ss_texts st) then sql_execute E (ss_effect st) s
      else raw_execute E T (ss_sql st) s)"

definition raw_query ::
  "sql_engine \<Rightarrow> sql_reader \<Rightarrow> string \<Rightarrow> 'a sql_db_scheme \<Rightarrow>
     (string list list option \<times> string option) \<times> 'a sql_db_scheme" where
  "raw_query E T sql s =
     (if \<not> sd_open s then ((None, Some ''database is not open''), s)
      else
        case os_io s of
          (Some m, s1) \<Rightarrow> ((None, Some m), sql_failed E (io_n s) s1)
        | (None, s1) \<Rightarrow>
            (case rd_query T (io_n s) sql (sd_db s1, sd_saved s1) of
               (rows, d, saved) \<Rightarrow> (rows, s1\<lparr>sd_db := d, sd_saved := saved\<rparr>)))"

definition text_query ::
  "sql_engine \<Rightarrow> sql_reader \<Rightarrow> sql_select \<Rightarrow> 'a sql_db_scheme \<Rightarrow>
     (string list list option \<times> string option) \<times> 'a sql_db_scheme" where
  "text_query E T q s =
     (if list_all plain_text (sl_texts q) then sql_query E (sl_rows q) s else raw_query E T (sl_sql q) s)"

text \<open>A statement of a method: what follows it when it succeeded, and when it failed.\<close>

definition run_statement ::
  "sql_engine \<Rightarrow> sql_reader \<Rightarrow> sql_statement \<Rightarrow> (string option \<Rightarrow> 'a sql_db_scheme \<Rightarrow> 'r \<times> 'a sql_db_scheme) \<Rightarrow>
     ('a sql_db_scheme \<Rightarrow> 'r \<times> 'a sql_db_scheme) \<Rightarrow> 'a sql_db_scheme \<Rightarrow> 'r \<times> 'a sql_db_scheme" where
  "run_statement E T st failed k s =
     (case text_execute E T st s of (r, s1) \<Rightarrow> if fst r then k s1 else failed (snd r) s1)"

text \<open>The first row of a query: None when the query failed or gave no row.\<close>

definition first_row ::
  "sql_engine \<Rightarrow> sql_reader \<Rightarrow> sql_select \<Rightarrow> 'a sql_db_scheme \<Rightarrow> string list option \<times> 'a sql_db_scheme" where
  "first_row E T q s =
     (case text_query E T q s of
        ((Some (row # _), _), s1) \<Rightarrow> (Some row, s1)
      | (_, s1) \<Rightarrow> (None, s1))"

text \<open>A column of a row; a row of another shape has none.\<close>

definition cell :: "string list \<Rightarrow> nat \<Rightarrow> string" where
  "cell row n = (if n < length row then column_text (row ! n) else [])"

section \<open>Tables without foreign keys\<close>

text \<open>The hybrid adapter does not switch foreign keys on: deleting a value leaves its index row, and an
  index row needs no value.\<close>

definition kv_remove :: "string \<Rightarrow> database \<Rightarrow> database option" where
  "kv_remove key d = Some (d\<lparr>db_kv := filter (\<lambda>x. kv_key x \<noteq> key) (db_kv d)\<rparr>)"

definition idx_add :: "index_row \<Rightarrow> database \<Rightarrow> database option" where
  "idx_add r d =
     (if list_ex (\<lambda>x. ix_message_key x = ix_message_key r) (db_idx d) then None
      else Some (d\<lparr>db_idx := db_idx d @ [r]\<rparr>))"

text \<open>\<open>INSERT OR IGNORE\<close>.\<close>

definition or_ignore :: "(database \<Rightarrow> database option) \<Rightarrow> database \<Rightarrow> database option" where
  "or_ignore f d = (case f d of None \<Rightarrow> Some d | Some d' \<Rightarrow> Some d')"

text \<open>\<open>INSERT ... ON CONFLICT(key) DO UPDATE SET value = ..., updated_at = ...\<close>.\<close>

definition kv_upsert :: "kv_row \<Rightarrow> database \<Rightarrow> database option" where
  "kv_upsert r d =
     (case kv_insert r d of
        Some d' \<Rightarrow> Some d'
      | None \<Rightarrow> kv_update (kv_key r) (kv_value r) (kv_updated_at r) d)"

text \<open>An update of a value by one of the JSON functions of the library, which fail on a text that is
  no JSON.\<close>

definition kv_rewrite :: "(string \<Rightarrow> string option) \<Rightarrow> string \<Rightarrow> int \<Rightarrow> database \<Rightarrow> database option" where
  "kv_rewrite f key now d =
     (if list_ex (\<lambda>x. kv_key x = key \<and> f (kv_value x) = None) (db_kv d) then None
      else Some (d\<lparr>db_kv := map (\<lambda>x. if kv_key x = key
             then x\<lparr>kv_value := value_or (f (kv_value x)) (kv_value x), kv_updated_at := now\<rparr> else x) (db_kv d)\<rparr>))"

end
