(* ===== verification/Hybrid_Statements.thy ===== *)
theory Hybrid_Statements
  imports SQL_Text SQLite_Adapter
begin

text \<open>
  The statements of \<open>MainMQ/BackendAdapter/HybridAdapter.cpp\<close>, one definition for each SQL text of the source:
  the text, the values pasted into it and what it does to the tables.
\<close>

definition insert_kv :: "sqlite_config \<Rightarrow> string \<Rightarrow> string \<Rightarrow> int \<Rightarrow> sql_statement" where
  "insert_kv cfg key v now = \<lparr>
     ss_sql = ''INSERT INTO '' @ sc_kv_table cfg @ '' (key, value, value_type, created_at, updated_at) VALUES ('' @
       quoted key @ '', '' @ quoted v @ '', '' @ quoted ''message'' @ '', '' @ int_text now @ '', '' @
       int_text now @ '')'',
     ss_texts = [key, v],
     ss_effect = kv_insert \<lparr>kv_key = key, kv_value = v, kv_type = ''message'', kv_created_at = now,
       kv_updated_at = now\<rparr>\<rparr>"

definition insert_idx :: "sqlite_config \<Rightarrow> string \<Rightarrow> message \<Rightarrow> sql_statement" where
  "insert_idx cfg state e = \<lparr>
     ss_sql = ''INSERT INTO '' @ sc_message_index_table cfg @
       '' (queue, state, priority, available_at, lease_until, attempt, target_consumer_id, message_key) VALUES ('' @
       quoted (m_queue e) @ '', '' @ quoted state @ '', '' @ int_text (m_priority e) @ '', '' @
       int_text (m_available_at_ms e) @ '', NULL, '' @ int_text (m_attempt e) @ '', '' @
       quoted (m_target_consumer_id e) @ '', '' @ quoted (m_key e) @ '')'',
     ss_texts = [m_queue e, m_target_consumer_id e, m_key e],
     ss_effect = idx_add \<lparr>ix_queue = m_queue e, ix_state = state, ix_priority = m_priority e,
       ix_available_at = m_available_at_ms e, ix_lease_until = None, ix_attempt = m_attempt e,
       ix_message_key = m_key e, ix_target = m_target_consumer_id e, ix_dlq_reason = None, ix_dlq_at = None\<rparr>\<rparr>"

definition select_ready :: "sqlite_config \<Rightarrow> string \<Rightarrow> int \<Rightarrow> string \<Rightarrow> sql_select" where
  "select_ready cfg queue now consumer = \<lparr>
     sl_sql = ''SELECT message_key, attempt FROM '' @ sc_message_index_table cfg @ '' WHERE queue = '' @
       quoted queue @ '' AND state = '' @ quoted ''ready'' @ '' AND available_at <= '' @ int_text now @
       '' AND (target_consumer_id = '' @ quoted [] @ '' OR target_consumer_id = '' @ quoted consumer @
       '') ORDER BY priority DESC, available_at ASC LIMIT 1'',
     sl_texts = [queue, consumer],
     sl_rows = (\<lambda>scan d. map (\<lambda>r. [ix_message_key r, int_text (ix_attempt r)])
       (ready_rows queue now consumer scan d))\<rparr>"

definition update_inflight :: "sqlite_config \<Rightarrow> string \<Rightarrow> int \<Rightarrow> int \<Rightarrow> sql_statement" where
  "update_inflight cfg key lease_until attempt = \<lparr>
     ss_sql = ''UPDATE '' @ sc_message_index_table cfg @ '' SET state = '' @ quoted ''inflight'' @
       '', lease_until = '' @ int_text lease_until @ '', attempt = '' @ int_text attempt @
       '' WHERE message_key = '' @ quoted key,
     ss_texts = [key],
     ss_effect = set_inflight key lease_until attempt\<rparr>"

definition select_value :: "sqlite_config \<Rightarrow> string \<Rightarrow> sql_select" where
  "select_value cfg key = \<lparr>
     sl_sql = ''SELECT value FROM '' @ sc_kv_table cfg @ '' WHERE key = '' @ quoted key,
     sl_texts = [key],
     sl_rows = (\<lambda>_ d. map (\<lambda>v. [v]) (kv_values key d))\<rparr>"

definition select_queue_of :: "sqlite_config \<Rightarrow> string \<Rightarrow> string option \<Rightarrow> sql_select" where
  "select_queue_of cfg key state = \<lparr>
     sl_sql = ''SELECT queue FROM '' @ sc_message_index_table cfg @ '' WHERE message_key = '' @ quoted key @
       (case state of None \<Rightarrow> [] | Some st \<Rightarrow> '' AND state = '' @ quoted st),
     sl_texts = [key],
     sl_rows = (\<lambda>scan d. map (\<lambda>r. [ix_queue r])
       (filter (\<lambda>r. ix_message_key r = key \<and> (\<forall>st \<in> set_option state. ix_state r = st)) (scan (db_idx d))))\<rparr>"

definition delete_idx :: "sqlite_config \<Rightarrow> string \<Rightarrow> sql_statement" where
  "delete_idx cfg key = \<lparr>
     ss_sql = ''DELETE FROM '' @ sc_message_index_table cfg @ '' WHERE message_key = '' @ quoted key,
     ss_texts = [key],
     ss_effect = idx_delete (\<lambda>r. ix_message_key r = key)\<rparr>"

definition delete_kv :: "sqlite_config \<Rightarrow> string \<Rightarrow> sql_statement" where
  "delete_kv cfg key = \<lparr>
     ss_sql = ''DELETE FROM '' @ sc_kv_table cfg @ '' WHERE key = '' @ quoted key,
     ss_texts = [key],
     ss_effect = kv_remove key\<rparr>"

definition update_requeue :: "sqlite_config \<Rightarrow> string \<Rightarrow> int \<Rightarrow> sql_statement" where
  "update_requeue cfg key now = \<lparr>
     ss_sql = ''UPDATE '' @ sc_message_index_table cfg @ '' SET state = '' @ quoted ''ready'' @
       '', lease_until = NULL, available_at = '' @ int_text now @ '' WHERE message_key = '' @ quoted key,
     ss_texts = [key],
     ss_effect = idx_update (\<lambda>r. ix_message_key r = key)
       (\<lambda>r. r\<lparr>ix_state := ''ready'', ix_lease_until := None, ix_available_at := now\<rparr>)\<rparr>"

definition update_dlq :: "sqlite_config \<Rightarrow> string \<Rightarrow> sql_statement" where
  "update_dlq cfg key = \<lparr>
     ss_sql = ''UPDATE '' @ sc_message_index_table cfg @ '' SET state = '' @ quoted ''dlq'' @
       '', lease_until = NULL WHERE message_key = '' @ quoted key,
     ss_texts = [key],
     ss_effect = idx_update (\<lambda>r. ix_message_key r = key) (\<lambda>r. r\<lparr>ix_state := ''dlq'', ix_lease_until := None\<rparr>)\<rparr>"

definition stamp_value :: "sqlite_config \<Rightarrow> sql_reader \<Rightarrow> string \<Rightarrow> string \<Rightarrow> int \<Rightarrow> sql_statement" where
  "stamp_value cfg T key reason now = \<lparr>
     ss_sql = ''UPDATE '' @ sc_kv_table cfg @ '' SET value = json_set(value, '' @ quoted ''$.dlqReason'' @ '', '' @
       quoted reason @ '', '' @ quoted ''$.dlqAt'' @ '', '' @ int_text now @ ''), updated_at = '' @ int_text now @
       '' WHERE key = '' @ quoted key,
     ss_texts = [reason, key],
     ss_effect = kv_rewrite (\<lambda>v. rd_json_stamp T v reason now) key now\<rparr>"

definition update_extend :: "sqlite_config \<Rightarrow> string \<Rightarrow> int \<Rightarrow> int \<Rightarrow> sql_statement" where
  "update_extend cfg key lease_until now = \<lparr>
     ss_sql = ''UPDATE '' @ sc_message_index_table cfg @ '' SET lease_until = '' @ int_text lease_until @
       '' WHERE message_key = '' @ quoted key @ '' AND state = '' @ quoted ''inflight'' @ '' AND lease_until > '' @
       int_text now,
     ss_texts = [key],
     ss_effect = idx_update (\<lambda>r. ix_message_key r = key \<and> ix_state r = ''inflight'' \<and>
         sql_greater (ix_lease_until r) now) (\<lambda>r. r\<lparr>ix_lease_until := Some lease_until\<rparr>)\<rparr>"

definition upsert_policy :: "sqlite_config \<Rightarrow> string \<Rightarrow> string \<Rightarrow> int \<Rightarrow> sql_statement" where
  "upsert_policy cfg key v now = \<lparr>
     ss_sql = ''INSERT INTO '' @ sc_kv_table cfg @ '' (key, value, value_type, created_at, updated_at) VALUES ('' @
       quoted key @ '', '' @ quoted v @ '', '' @ quoted ''policy'' @ '', '' @ int_text now @ '', '' @ int_text now @
       '') ON CONFLICT(key) DO UPDATE SET value = '' @ quoted v @ '', updated_at = '' @ int_text now,
     ss_texts = [key, v, v],
     ss_effect = kv_upsert \<lparr>kv_key = key, kv_value = v, kv_type = ''policy'', kv_created_at = now,
       kv_updated_at = now\<rparr>\<rparr>"

definition select_counts :: "sqlite_config \<Rightarrow> string \<Rightarrow> sql_select" where
  "select_counts cfg queue = \<lparr>
     sl_sql = ''SELECT state, COUNT(*) as cnt FROM '' @ sc_message_index_table cfg @ '' WHERE queue = '' @
       quoted queue @ '' GROUP BY state'',
     sl_texts = [queue],
     sl_rows = (\<lambda>scan d. map (\<lambda>(st, n). [st, nat_text n]) (state_counts queue scan d))\<rparr>"

text \<open>The two sweeps: a count, and an update of the rows counted.\<close>

definition select_expired_count :: "sqlite_config \<Rightarrow> int \<Rightarrow> sql_select" where
  "select_expired_count cfg now = \<lparr>
     sl_sql = ''SELECT COUNT(*) FROM '' @ sc_message_index_table cfg @ '' WHERE state = '' @ quoted ''inflight'' @
       '' AND lease_until < '' @ int_text now,
     sl_texts = [],
     sl_rows = (\<lambda>scan d. [[nat_text (length (filter (lease_expired now) (scan (db_idx d))))]])\<rparr>"

definition update_expired :: "sqlite_config \<Rightarrow> int \<Rightarrow> sql_statement" where
  "update_expired cfg now = \<lparr>
     ss_sql = ''UPDATE '' @ sc_message_index_table cfg @ '' SET state = '' @ quoted ''ready'' @
       '', lease_until = NULL, available_at = '' @ int_text now @ '' WHERE state = '' @ quoted ''inflight'' @
       '' AND lease_until < '' @ int_text now,
     ss_texts = [],
     ss_effect = idx_update (lease_expired now)
       (\<lambda>r. r\<lparr>ix_state := ''ready'', ix_lease_until := None, ix_available_at := now\<rparr>)\<rparr>"

definition select_due_count :: "sqlite_config \<Rightarrow> int \<Rightarrow> sql_select" where
  "select_due_count cfg now = \<lparr>
     sl_sql = ''SELECT COUNT(*) FROM '' @ sc_message_index_table cfg @ '' WHERE state = '' @ quoted ''delayed'' @
       '' AND available_at <= '' @ int_text now,
     sl_texts = [],
     sl_rows = (\<lambda>scan d. [[nat_text (length (filter (delay_over now) (scan (db_idx d))))]])\<rparr>"

definition update_due :: "sqlite_config \<Rightarrow> int \<Rightarrow> sql_statement" where
  "update_due cfg now = \<lparr>
     ss_sql = ''UPDATE '' @ sc_message_index_table cfg @ '' SET state = '' @ quoted ''ready'' @ '' WHERE state = '' @
       quoted ''delayed'' @ '' AND available_at <= '' @ int_text now,
     ss_texts = [],
     ss_effect = idx_update (delay_over now) (\<lambda>r. r\<lparr>ix_state := ''ready''\<rparr>)\<rparr>"

definition select_expired :: "sqlite_config \<Rightarrow> int \<Rightarrow> sql_select" where
  "select_expired cfg now = \<lparr>
     sl_sql = ''SELECT message_key, queue, attempt FROM '' @ sc_message_index_table cfg @ '' WHERE state = '' @
       quoted ''inflight'' @ '' AND lease_until < '' @ int_text now,
     sl_texts = [],
     sl_rows = (\<lambda>scan d. map (\<lambda>r. [ix_message_key r, ix_queue r, int_text (ix_attempt r)])
       (filter (lease_expired now) (scan (db_idx d))))\<rparr>"

definition update_delay :: "sqlite_config \<Rightarrow> string \<Rightarrow> string \<Rightarrow> int \<Rightarrow> sql_statement" where
  "update_delay cfg key state available_at = \<lparr>
     ss_sql = ''UPDATE '' @ sc_message_index_table cfg @ '' SET state = '' @ quoted state @
       '', lease_until = NULL, available_at = '' @ int_text available_at @ '' WHERE message_key = '' @ quoted key,
     ss_texts = [key],
     ss_effect = idx_update (\<lambda>r. ix_message_key r = key)
       (\<lambda>r. r\<lparr>ix_state := state, ix_lease_until := None, ix_available_at := available_at\<rparr>)\<rparr>"

definition select_dlq :: "sqlite_config \<Rightarrow> string \<Rightarrow> int \<Rightarrow> sql_select" where
  "select_dlq cfg queue limit = \<lparr>
     sl_sql = ''SELECT message_key, queue, dlq_reason, dlq_at, attempt FROM '' @ sc_message_index_table cfg @
       '' WHERE queue = '' @ quoted queue @ '' AND state = '' @ quoted ''dlq'' @ '' ORDER BY dlq_at DESC LIMIT '' @
       int_text limit,
     sl_texts = [queue],
     sl_rows = (\<lambda>scan d. map (\<lambda>r. [ix_message_key r, ix_queue r, value_or (ix_dlq_reason r) [],
          (case ix_dlq_at r of None \<Rightarrow> [] | Some t \<Rightarrow> int_text t), int_text (ix_attempt r)])
       (sql_limit limit (sort_key (\<lambda>r. case ix_dlq_at r of Some t \<Rightarrow> (0::int, - t) | None \<Rightarrow> (1, 0))
          (filter (\<lambda>r. ix_queue r = queue \<and> ix_state r = ''dlq'') (scan (db_idx d))))))\<rparr>"

definition update_reset :: "sqlite_config \<Rightarrow> string \<Rightarrow> int \<Rightarrow> sql_statement" where
  "update_reset cfg key now = \<lparr>
     ss_sql = ''UPDATE '' @ sc_message_index_table cfg @ '' SET state = '' @ quoted ''ready'' @
       '', lease_until = NULL, available_at = '' @ int_text now @
       '', attempt = 0, dlq_reason = NULL, dlq_at = NULL WHERE message_key = '' @ quoted key,
     ss_texts = [key],
     ss_effect = idx_update (\<lambda>r. ix_message_key r = key)
       (\<lambda>r. r\<lparr>ix_state := ''ready'', ix_lease_until := None, ix_available_at := now, ix_attempt := 0,
              ix_dlq_reason := None, ix_dlq_at := None\<rparr>)\<rparr>"

definition clear_value :: "sqlite_config \<Rightarrow> sql_reader \<Rightarrow> string \<Rightarrow> int \<Rightarrow> sql_statement" where
  "clear_value cfg T key now = \<lparr>
     ss_sql = ''UPDATE '' @ sc_kv_table cfg @ '' SET value = json_remove(json_set(value, '' @ quoted ''$.attempt'' @
       '', 0), '' @ quoted ''$.dlqReason'' @ '', '' @ quoted ''$.dlqAt'' @ ''), updated_at = '' @ int_text now @
       '' WHERE key = '' @ quoted key,
     ss_texts = [key],
     ss_effect = kv_rewrite (rd_json_clear T) key now\<rparr>"

end
