(* ===== verification/Hybrid_Adapter.thy ===== *)
theory Hybrid_Adapter
  imports Hybrid_Statements
begin

text \<open>
  \<open>MainMQ/BackendAdapter/HybridAdapter.cpp\<close>: the adapter that keeps the index and an envelope of a message
  in the database and its payload in a file. The methods follow in the order of the code. An exception a
  method does not catch leaves it with the state it had: its text stands for the error.
\<close>

record hybrid_adapter = sql_db +
  hya_is_open :: bool
  hya_schema_path :: string
  hya_payload_root :: string
  hya_config :: sqlite_config

section \<open>Opening\<close>

definition hybrid_new :: "string \<Rightarrow> hybrid_adapter \<Rightarrow> hybrid_adapter" where
  "hybrid_new schema_path s =
     s\<lparr>hya_is_open := False, hya_schema_path := schema_path, hya_payload_root := ''./data/payloads''\<rparr>"

text \<open>The values of the configuration are pasted into the pragmas: a value that is not one of the words
  the pragma takes is left to the library. Every failing pragma ends the opening.\<close>

definition hy_pragma ::
  "sql_engine \<Rightarrow> sql_reader \<Rightarrow> string \<Rightarrow> string \<Rightarrow> bool \<Rightarrow> hybrid_adapter \<Rightarrow> res \<times> hybrid_adapter" where
  "hy_pragma E T name v known s =
     (case (if known then sql_pragma E s
            else raw_execute E T (''PRAGMA '' @ name @ '' = '' @ v @ '';'') s) of
        (r, s1) \<Rightarrow>
          if fst r then (ok_res, s1)
          else (err_res (''failed to set '' @ name @ '': '' @ value_or (snd r) ''unknown''), s1))"

definition hy_apply_pragmas :: "sql_engine \<Rightarrow> sql_reader \<Rightarrow> hybrid_adapter \<Rightarrow> res \<times> hybrid_adapter" where
  "hy_apply_pragmas E T s =
     (let cfg = hya_config s; journal = sc_journal_mode cfg; sync = sc_synchronous cfg
      in case hy_pragma E T ''journal_mode'' journal (journal \<in> set valid_journal_modes) s of
           (r, s1) \<Rightarrow> if \<not> fst r then (r, s1)
           else (case hy_pragma E T ''synchronous'' sync (sync \<in> set valid_synchronous_modes) s1 of
             (r, s2) \<Rightarrow> if \<not> fst r then (r, s2)
             else hy_pragma E T ''busy_timeout'' (int_text (sc_busy_timeout_ms cfg)) True s2))"

definition hy_load_schema_sql :: "hybrid_adapter \<Rightarrow> (string option \<times> string option) \<times> hybrid_adapter" where
  "hy_load_schema_sql s =
     (let p = to_path (hya_schema_path s);
          (e, s1) = (if butlast p = [] then (None, s) else os_mkdirs (butlast p) s)
      in case e of
           Some m \<Rightarrow> ((None, Some (''filesystem_error: '' @ m)), s1)
         | None \<Rightarrow>
             (case os_read p s1 of
                (None, s2) \<Rightarrow>
                  ((None, Some (''cannot open schema file: '' @
                     (if fexists s2 p then ''cannot open file : '' else ''there is no file : '') @
                     hya_schema_path s)), s2)
              | (Some content, s2) \<Rightarrow> ((Some content, None), s2)))"

text \<open>\<open>string::find\<close>: where a text occurs first.\<close>

fun find_text :: "string \<Rightarrow> string \<Rightarrow> nat option" where
  "find_text pat s =
     (if take (length pat) s = pat then Some 0
      else case s of [] \<Rightarrow> None | _ # t \<Rightarrow> map_option Suc (find_text pat t))"

text \<open>The loops of \<open>ensure_schema\<close>. After a replacement the search goes on at the beginning of the inserted
  text, so that a loop may run forever: then it has no value.\<close>

partial_function (option) replace_in_place :: "string \<Rightarrow> string \<Rightarrow> string \<Rightarrow> string option" where
  "replace_in_place pat name s =
     (case find_text pat s of
        None \<Rightarrow> Some s
      | Some i \<Rightarrow>
          Option.bind (replace_in_place pat name (name @ drop (i + length pat) s)) (\<lambda>r. Some (take i s @ r)))"

declare replace_in_place.simps [code]

definition hy_ensure_schema ::
  "sql_engine \<Rightarrow> hybrid_adapter \<Rightarrow> (res \<times> hybrid_adapter) option" where
  "hy_ensure_schema E s =
     (case hy_load_schema_sql s of
        ((None, e), s1) \<Rightarrow> Some ((False, e), s1)
      | ((Some sql, _), s1) \<Rightarrow>
          Option.bind (replace_in_place ''{{kv_table}}'' (sc_kv_table (hya_config s1)) sql) (\<lambda>sql.
          Option.bind (replace_in_place ''{{msg_index_table}}'' (sc_message_index_table (hya_config s1)) sql) (\<lambda>sql.
            Some
              (case (case se_schema E sql of Some m \<Rightarrow> (err_res m, s1) | None \<Rightarrow> sql_execute E Some s1) of
                 (r, s2) \<Rightarrow>
                   if fst r then (ok_res, s2)
                   else (err_res (''schema execution failed: '' @ value_or (snd r) ''unknown''), s2)))))"

definition hy_open :: "sql_engine \<Rightarrow> sql_reader \<Rightarrow> backend_config \<Rightarrow> hybrid_adapter \<Rightarrow> (res \<times> hybrid_adapter) option" where
  "hy_open E T config s =
     (if hya_is_open s then Some (err_res ''already open'', s)
      else
        let cfg = bc_sqlite config;
            s1 = s\<lparr>hya_config := cfg\<rparr>;
            parent = butlast (to_path (sc_db_path cfg));
            s2 = (if parent = [] then s1 else snd (os_mkdirs parent s1));
            s3 = snd (os_mkdirs (to_path (hya_payload_root s2)) s2)
        in case sql_open (sc_db_path cfg) s3 of
             (r, s4) \<Rightarrow>
               if \<not> fst r then Some ((False, snd r), s4)
               else (case hy_apply_pragmas E T s4 of
                 (r, s5) \<Rightarrow>
                   if \<not> fst r then Some ((False, snd r), sql_close s5)
                   else
                     map_option (\<lambda>(r, s6). if \<not> fst r then ((False, snd r), sql_close s6)
                                           else (ok_res, s6\<lparr>hya_is_open := True\<rparr>)) (hy_ensure_schema E s5)))"

definition hy_close :: "hybrid_adapter \<Rightarrow> hybrid_adapter" where
  "hy_close s = (if \<not> hya_is_open s then s else (sql_close s)\<lparr>hya_is_open := False\<rparr>)"

section \<open>Payload files\<close>

definition payload_dir :: "string \<Rightarrow> string \<Rightarrow> string \<Rightarrow> string" where
  "payload_dir root queue sub = root @ ''/'' @ queue @ ''/'' @ sub"

definition payload_path :: "string \<Rightarrow> string \<Rightarrow> string \<Rightarrow> string \<Rightarrow> string" where
  "payload_path root queue sub message_id = payload_dir root queue sub @ ''/'' @ message_id @ ''.json''"

abbreviation build_payload_path :: "'a hybrid_adapter_scheme \<Rightarrow> string \<Rightarrow> string \<Rightarrow> string" where
  "build_payload_path s queue message_id \<equiv> payload_path (hya_payload_root s) queue ''active'' message_id"

abbreviation build_archive_path :: "'a hybrid_adapter_scheme \<Rightarrow> string \<Rightarrow> string \<Rightarrow> string" where
  "build_archive_path s queue message_id \<equiv> payload_path (hya_payload_root s) queue ''archive'' message_id"

abbreviation build_dlq_path :: "'a hybrid_adapter_scheme \<Rightarrow> string \<Rightarrow> string \<Rightarrow> string" where
  "build_dlq_path s queue message_id \<equiv> payload_path (hya_payload_root s) queue ''dlq'' message_id"

definition ensure_payload_directories :: "string \<Rightarrow> hybrid_adapter \<Rightarrow> res \<times> hybrid_adapter" where
  "ensure_payload_directories queue s =
     make_dirs (map (\<lambda>sub. to_path (payload_dir (hya_payload_root s) queue sub)) [''active'', ''archive'', ''dlq'']) s"

text \<open>\<open>remove\<close> without an error code: a failure throws.\<close>

definition remove_payload :: "string \<Rightarrow> res \<Rightarrow> hybrid_adapter \<Rightarrow> res \<times> hybrid_adapter" where
  "remove_payload path r s =
     (case os_remove (to_path path) s of
        (Some m, s1) \<Rightarrow> (err_res (''filesystem_error: '' @ m), s1)
      | (None, s1) \<Rightarrow> (r, s1))"

definition read_payload :: "string \<Rightarrow> string \<Rightarrow> hybrid_adapter \<Rightarrow> (string option \<times> string option) \<times> hybrid_adapter" where
  "read_payload queue message_id s =
     (let path = build_payload_path s queue message_id
      in case os_read (to_path path) s of
           (None, s1) \<Rightarrow> ((None, Some (''cannot open payload file: '' @ path)), s1)
         | (Some content, s1) \<Rightarrow> ((Some content, None), s1))"

definition rename_payload :: "string \<Rightarrow> string \<Rightarrow> hybrid_adapter \<Rightarrow> res \<times> hybrid_adapter" where
  "rename_payload src dest s =
     (case os_rename (to_path src) (to_path dest) s of
        (Some m, s1) \<Rightarrow> (err_res m, s1)
      | (None, s1) \<Rightarrow> (ok_res, s1))"

definition move_payload_to_archive :: "string \<Rightarrow> string \<Rightarrow> hybrid_adapter \<Rightarrow> res \<times> hybrid_adapter" where
  "move_payload_to_archive queue message_id s =
     rename_payload (build_payload_path s queue message_id) (build_archive_path s queue message_id) s"

definition move_payload_to_dlq :: "string \<Rightarrow> string \<Rightarrow> hybrid_adapter \<Rightarrow> res \<times> hybrid_adapter" where
  "move_payload_to_dlq queue message_id s =
     rename_payload (build_payload_path s queue message_id) (build_dlq_path s queue message_id) s"

definition write_payload :: "string \<Rightarrow> string \<Rightarrow> string \<Rightarrow> hybrid_adapter \<Rightarrow> res \<times> hybrid_adapter" where
  "write_payload queue message_id payload s =
     atomic_write (to_path (build_payload_path s queue message_id)) payload s"

text \<open>The part of a key between its first two colons; a key with fewer has none.\<close>

definition hy_extract_queue_from_key :: "string \<Rightarrow> string" where
  "hy_extract_queue_from_key key =
     (case dropWhile (\<lambda>c. c \<noteq> CHR '':'') key of
        [] \<Rightarrow> []
      | _ # rest \<Rightarrow> if CHR '':'' \<in> set rest then takeWhile (\<lambda>c. c \<noteq> CHR '':'') rest else [])"

definition extract_message_id_from_key :: "string \<Rightarrow> string" where
  "extract_message_id_from_key key = value_or (after_last_colon key) key"

section \<open>Enqueue\<close>

definition payload_json :: "message \<Rightarrow> json" where
  "payload_json e = jobj [(''payload'', JStr (m_payload_json e)), (''attributes'', JStr (m_attributes_json e))]"

definition hy_envelope_json :: "string \<Rightarrow> message \<Rightarrow> json" where
  "hy_envelope_json path e = jobj
     [(''messageId'', JStr (m_message_id e)), (''queue'', JStr (m_queue e)), (''payloadPath'', JStr path),
      (''priority'', JInt (m_priority e)), (''attempt'', JInt (m_attempt e)),
      (''createdAt'', JInt (m_created_at_ms e))]"

text \<open>A failing statement of \<open>enqueue\<close>: roll back, delete the payload file, report.\<close>

definition enqueue_failed ::
  "string \<Rightarrow> (string option \<Rightarrow> res) \<Rightarrow> string option \<Rightarrow> hybrid_adapter \<Rightarrow> res \<times> hybrid_adapter" where
  "enqueue_failed path failure e s = remove_payload path (failure e) (snd (sql_rollback s))"

definition hy_enqueue ::
  "json_lib \<Rightarrow> sql_engine \<Rightarrow> sql_reader \<Rightarrow> message \<Rightarrow> hybrid_adapter \<Rightarrow> res \<times> hybrid_adapter" where
  "hy_enqueue L E T message s =
     (if \<not> hya_is_open s then (err_res ''adapter not open'', s)
      else
        case ensure_payload_directories (m_queue message) s of
          (r, s1) \<Rightarrow>
            if \<not> fst r then ((False, snd r), s1)
            else
              let (now, s2) = now_ms s1;
                  cfg = hya_config s2;
                  state = (if m_available_at_ms message > now then ''delayed'' else ''ready'');
                  path = build_payload_path s2 (m_queue message) (m_message_id message)
              in in_tx fail_res
                   (\<lambda>s3. case atomic_write (to_path path) (jl_dump L 2 (payload_json message)) s3 of
                      (r, s4) \<Rightarrow>
                        if \<not> fst r then tx_abort fail_res (snd r) s4
                        else
                          run_statement E T
                            (insert_kv cfg (m_key message) (jl_dump L (- 1) (hy_envelope_json path message)) now)
                            (enqueue_failed path (\<lambda>e. err_res (''kv insert failed: '' @ value_or e ''unknown'')))
                            (run_statement E T (insert_idx cfg state message)
                              (enqueue_failed path (\<lambda>e. err_res (''index insert failed: '' @ value_or e ''unknown'')))
                              (\<lambda>s5. case sql_commit E s5 of
                                 (r, s6) \<Rightarrow>
                                   if \<not> fst r then enqueue_failed path fail_res (snd r) s6
                                   else (ok_res, s6))) s4) s2)"

section \<open>Leasing\<close>

definition hy_message :: "json_lib \<Rightarrow> string \<Rightarrow> int \<Rightarrow> json \<Rightarrow> json_exc + message" where
  "hy_message L key attempt j =
     ebind (jvalue get_string j ''messageId'' '''') (\<lambda>message_id.
     ebind (jvalue get_string j ''queue'' '''') (\<lambda>queue.
     ebind (jvalue (get_i32 L) j ''priority'' 0) (\<lambda>priority.
     ebind (jvalue (get_i64 L) j ''createdAt'' 0) (\<lambda>created.
       Inr (empty_message\<lparr>m_key := key, m_message_id := message_id, m_queue := queue, m_priority := priority,
              m_attempt := attempt, m_created_at_ms := created\<rparr>)))))"

definition with_payload :: "message \<Rightarrow> json \<Rightarrow> json_exc + message" where
  "with_payload msg j =
     ebind (jvalue get_string j ''payload'' ''{}'') (\<lambda>payload.
     ebind (jvalue get_string j ''attributes'' ''{}'') (\<lambda>attributes.
       Inr (msg\<lparr>m_payload_json := payload, m_attributes_json := attributes\<rparr>)))"

text \<open>The part of \<open>lease_next\<close> behind the commit: the envelope is parsed and the payload is read. A missing
  payload file leaves the payload empty.\<close>

definition hy_build_message ::
  "json_lib \<Rightarrow> string \<Rightarrow> int \<Rightarrow> string \<Rightarrow> hybrid_adapter \<Rightarrow> (json_exc + message) \<times> hybrid_adapter" where
  "hy_build_message L key attempt envelope s =
     (case ebind (json_parse L envelope) (hy_message L key attempt) of
        Inl e \<Rightarrow> (Inl e, s)
      | Inr msg \<Rightarrow>
          (case read_payload (m_queue msg) (m_message_id msg) s of
             ((None, _), s1) \<Rightarrow> (Inr msg, s1)
           | ((Some content, _), s1) \<Rightarrow> (ebind (json_parse L content) (with_payload msg), s1)))"

definition hy_leased ::
  "json_lib \<Rightarrow> lease_token \<Rightarrow> int \<Rightarrow> string \<Rightarrow> hybrid_adapter \<Rightarrow> lease_result \<times> hybrid_adapter" where
  "hy_leased L lease attempt envelope s =
     (case hy_build_message L (lt_message_key lease) attempt envelope s of
        (Inl e, s1) \<Rightarrow> (lease_error (Some (''envelope parse error: '' @ jl_what L e)), s1)
      | (Inr msg, s1) \<Rightarrow>
          (\<lparr>lr_leased = True, lr_message = Some msg, lr_lease = Some lease, lr_error = None\<rparr>, s1))"

definition hy_lease_next ::
  "json_lib \<Rightarrow> sql_engine \<Rightarrow> sql_reader \<Rightarrow> string \<Rightarrow> string \<Rightarrow> int \<Rightarrow> hybrid_adapter \<Rightarrow>
     lease_result \<times> hybrid_adapter" where
  "hy_lease_next L E T queue consumer_id visibility_timeout_sec s =
     (if \<not> hya_is_open s then (lease_error (Some ''adapter not open''), s)
      else
        let (now, s1) = now_ms s;
            lease_until = i64 (now + visibility_timeout_sec * 1000);
            (lease_id, s2) = fresh_guid s1;
            cfg = hya_config s2
        in in_tx lease_error
             (\<lambda>s3. case first_row E T (select_ready cfg queue now consumer_id) s3 of
                (None, s4) \<Rightarrow> tx_abort lease_error None s4
              | (Some row, s4) \<Rightarrow>
                  let key = cell row 0
                  in case stoi (cell row 1) of
                       None \<Rightarrow> (lease_error (Some ''stoi''), s4)
                     | Some a \<Rightarrow>
                         let attempt = i32 (a + 1)
                         in run_statement E T (update_inflight cfg key lease_until attempt) (tx_abort lease_error)
                              (\<lambda>s5. case first_row E T (select_value cfg key) s5 of
                                 (None, s6) \<Rightarrow> tx_abort lease_error (Some ''envelope not found'') s6
                               | (Some row, s6) \<Rightarrow>
                                   tx_commit E lease_error
                                     (hy_leased L
                                        \<lparr>lt_lease_id = lease_id, lt_message_key = key,
                                         lt_consumer_id = consumer_id, lt_lease_until_ms = lease_until\<rparr>
                                        attempt (cell row 0)) s6) s4) s2)"

section \<open>Acknowledgement and return\<close>

text \<open>The check both methods begin with: the queue of the message, if it is leased.\<close>

definition with_inflight ::
  "sql_engine \<Rightarrow> sql_reader \<Rightarrow> string \<Rightarrow> (string \<Rightarrow> hybrid_adapter \<Rightarrow> res \<times> hybrid_adapter) \<Rightarrow> hybrid_adapter \<Rightarrow>
     res \<times> hybrid_adapter" where
  "with_inflight E T key k s =
     in_tx fail_res
       (\<lambda>s1. case first_row E T (select_queue_of (hya_config s1) key (Some ''inflight'')) s1 of
          (None, s2) \<Rightarrow> tx_abort fail_res (Some ''message not found or not inflight'') s2
        | (Some row, s2) \<Rightarrow> k (cell row 0) s2) s"

definition hy_ack :: "sql_engine \<Rightarrow> sql_reader \<Rightarrow> lease_token \<Rightarrow> hybrid_adapter \<Rightarrow> res \<times> hybrid_adapter" where
  "hy_ack E T lease s =
     (if \<not> hya_is_open s then (err_res ''adapter not open'', s)
      else
        let key = lt_message_key lease; cfg = hya_config s
        in with_inflight E T key
             (\<lambda>queue.
                run_statement E T (delete_idx cfg key) (tx_abort fail_res)
                (run_statement E T (delete_kv cfg key) (tx_abort fail_res)
                (tx_commit E fail_res
                   (\<lambda>s1. (ok_res, snd (move_payload_to_archive queue (extract_message_id_from_key key) s1)))))) s)"

definition hy_nack ::
  "sql_engine \<Rightarrow> sql_reader \<Rightarrow> lease_token \<Rightarrow> string \<Rightarrow> bool \<Rightarrow> hybrid_adapter \<Rightarrow> res \<times> hybrid_adapter" where
  "hy_nack E T lease reason requeue s =
     (if \<not> hya_is_open s then (err_res ''adapter not open'', s)
      else
        let key = lt_message_key lease; cfg = hya_config s; (now, s0) = now_ms s
        in with_inflight E T key
             (\<lambda>queue s1.
                if requeue then
                  run_statement E T (update_requeue cfg key now) (tx_abort fail_res)
                    (tx_commit E fail_res return_ok) s1
                else
                  run_statement E T (update_dlq cfg key) (tx_abort fail_res)
                    (\<lambda>s2. let s3 = snd (text_execute E T (stamp_value cfg T key reason now) s2);
                              s4 = snd (move_payload_to_dlq queue (extract_message_id_from_key key) s3)
                          in tx_commit E fail_res return_ok s4) s1) s0)"

definition hy_extend_lease ::
  "sql_engine \<Rightarrow> sql_reader \<Rightarrow> lease_token \<Rightarrow> int \<Rightarrow> hybrid_adapter \<Rightarrow> res \<times> hybrid_adapter" where
  "hy_extend_lease E T lease visibility_timeout_sec s =
     (if \<not> hya_is_open s then (err_res ''adapter not open'', s)
      else
        let (now, s1) = now_ms s
        in text_execute E T (update_extend (hya_config s1) (lt_message_key lease)
             (i64 (now + visibility_timeout_sec * 1000)) now) s1)"

section \<open>Policies and metrics\<close>

definition hy_load_policy ::
  "json_lib \<Rightarrow> sql_engine \<Rightarrow> sql_reader \<Rightarrow> string \<Rightarrow> hybrid_adapter \<Rightarrow>
     (queue_policy option \<times> string option) \<times> hybrid_adapter" where
  "hy_load_policy L E T queue s =
     (if \<not> hya_is_open s then ((None, Some ''adapter not open''), s)
      else
        case first_row E T (select_value (hya_config s) (policy_key queue)) s of
          (None, s1) \<Rightarrow> ((None, None), s1)
        | (Some row, s1) \<Rightarrow>
            (case ebind (json_parse L (cell row 0)) (fs_policy_of_json L) of
               Inl e \<Rightarrow> ((None, Some (''policy parse error: '' @ jl_what L e)), s1)
             | Inr p \<Rightarrow> ((Some p, None), s1)))"

definition hy_save_policy ::
  "json_lib \<Rightarrow> sql_engine \<Rightarrow> sql_reader \<Rightarrow> string \<Rightarrow> queue_policy \<Rightarrow> hybrid_adapter \<Rightarrow> res \<times> hybrid_adapter" where
  "hy_save_policy L E T queue policy s =
     (if \<not> hya_is_open s then (err_res ''adapter not open'', s)
      else
        let (_, s1) = ensure_payload_directories queue s; (now, s2) = now_ms s1
        in text_execute E T (upsert_policy (hya_config s2) (policy_key queue)
             (jl_dump L (- 1) (policy_json policy)) now) s2)"

text \<open>The loop over the rows; a count that is no number throws.\<close>

fun read_counts :: "string list list \<Rightarrow> queue_metrics \<Rightarrow> queue_metrics option" where
  "read_counts [] m = Some m"
| "read_counts (row # rows) m =
     (if length row < 2 then read_counts rows m
      else
        case stoull (cell row 1) of
          None \<Rightarrow> None
        | Some n \<Rightarrow> read_counts rows (count_state (cell row 0, n) m))"

definition hy_metrics ::
  "sql_engine \<Rightarrow> sql_reader \<Rightarrow> string \<Rightarrow> hybrid_adapter \<Rightarrow> (queue_metrics \<times> string option) \<times> hybrid_adapter" where
  "hy_metrics E T queue s =
     (if \<not> hya_is_open s then ((zero_metrics, Some ''adapter not open''), s)
      else
        case text_query E T (select_counts (hya_config s) queue) s of
          ((None, e), s1) \<Rightarrow> ((zero_metrics, e), s1)
        | ((Some rows, _), s1) \<Rightarrow>
            (case read_counts rows zero_metrics of
               None \<Rightarrow> ((zero_metrics, Some ''stoull''), s1)
             | Some m \<Rightarrow> ((m, None), s1)))"

section \<open>Sweeps\<close>

text \<open>Both sweeps count first and update then, without a transaction; a failing count is taken for
  zero.\<close>

definition hy_sweep ::
  "sql_engine \<Rightarrow> sql_reader \<Rightarrow> (int \<Rightarrow> sql_select) \<Rightarrow> (int \<Rightarrow> sql_statement) \<Rightarrow> hybrid_adapter \<Rightarrow>
     (int \<times> string option) \<times> hybrid_adapter" where
  "hy_sweep E T count_sql update_sql s =
     (if \<not> hya_is_open s then ((0, Some ''adapter not open''), s)
      else
        let (now, s1) = now_ms s
        in case first_row E T (count_sql now) s1 of
             (row, s2) \<Rightarrow>
               (case (case row of None \<Rightarrow> Some 0 | Some r \<Rightarrow> stoi (cell r 0)) of
                  None \<Rightarrow> ((0, Some ''stoi''), s2)
                | Some n \<Rightarrow>
                    if n = 0 then ((0, None), s2)
                    else run_statement E T (update_sql now) (\<lambda>e s3. ((0, e), s3)) (\<lambda>s3. ((n, None), s3)) s2))"

definition hy_recover_expired_leases ::
  "sql_engine \<Rightarrow> sql_reader \<Rightarrow> hybrid_adapter \<Rightarrow> (int \<times> string option) \<times> hybrid_adapter" where
  "hy_recover_expired_leases E T s =
     hy_sweep E T (select_expired_count (hya_config s)) (update_expired (hya_config s)) s"

definition hy_process_delayed_messages ::
  "sql_engine \<Rightarrow> sql_reader \<Rightarrow> hybrid_adapter \<Rightarrow> (int \<times> string option) \<times> hybrid_adapter" where
  "hy_process_delayed_messages E T s =
     hy_sweep E T (select_due_count (hya_config s)) (update_due (hya_config s)) s"

fun read_expired :: "string list list \<Rightarrow> expired_lease_info list option" where
  "read_expired [] = Some []"
| "read_expired (row # rows) =
     (if length row < 3 then read_expired rows
      else
        case stoi (cell row 2) of
          None \<Rightarrow> None
        | Some n \<Rightarrow>
            map_option (Cons \<lparr>el_message_key = cell row 0, el_queue = cell row 1, el_attempt = n\<rparr>)
              (read_expired rows))"

definition hy_get_expired_inflight_messages ::
  "sql_engine \<Rightarrow> sql_reader \<Rightarrow> hybrid_adapter \<Rightarrow> (expired_lease_info list \<times> string option) \<times> hybrid_adapter" where
  "hy_get_expired_inflight_messages E T s =
     (if \<not> hya_is_open s then (([], Some ''adapter not open''), s)
      else
        let (now, s1) = now_ms s
        in case text_query E T (select_expired (hya_config s1) now) s1 of
             ((None, e), s2) \<Rightarrow> (([], e), s2)
           | ((Some rows, _), s2) \<Rightarrow>
               (case read_expired rows of
                  None \<Rightarrow> (([], Some ''stoi''), s2)
                | Some infos \<Rightarrow> ((infos, None), s2)))"

section \<open>Retry and dead letters\<close>

definition hy_delay_message ::
  "sql_engine \<Rightarrow> sql_reader \<Rightarrow> string \<Rightarrow> int \<Rightarrow> hybrid_adapter \<Rightarrow> res \<times> hybrid_adapter" where
  "hy_delay_message E T key delay_ms s =
     (if \<not> hya_is_open s then (err_res ''adapter not open'', s)
      else
        let (now, s1) = now_ms s; state = (if delay_ms > 0 then ''delayed'' else ''ready'')
        in text_execute E T (update_delay (hya_config s1) key state (i64 (now + delay_ms))) s1)"

definition hy_move_to_dlq ::
  "sql_engine \<Rightarrow> sql_reader \<Rightarrow> string \<Rightarrow> string \<Rightarrow> hybrid_adapter \<Rightarrow> res \<times> hybrid_adapter" where
  "hy_move_to_dlq E T key reason s =
     (if \<not> hya_is_open s then (err_res ''adapter not open'', s)
      else
        let (now, s0) = now_ms s; cfg = hya_config s0
        in in_tx fail_res
             (\<lambda>s1. case first_row E T (select_queue_of cfg key None) s1 of
                (row, s2) \<Rightarrow>
                  let queue = (case row of None \<Rightarrow> [] | Some r \<Rightarrow> cell r 0)
                  in run_statement E T (update_dlq cfg key) (tx_abort fail_res)
                       (\<lambda>s3. tx_commit E fail_res
                          (\<lambda>s4. (ok_res,
                             if queue = [] then s4
                             else snd (move_payload_to_dlq queue (extract_message_id_from_key key) s4)))
                          (snd (text_execute E T (stamp_value cfg T key reason now) s3))) s2) s0)"

fun read_dlq :: "string list list \<Rightarrow> dlq_message_info list option" where
  "read_dlq [] = Some []"
| "read_dlq (row # rows) =
     (if length row < 5 then read_dlq rows
      else
        case (if cell row 3 = [] then Some 0 else stoll (cell row 3),
              if cell row 4 = [] then Some 0 else stoi (cell row 4)) of
          (Some at, Some attempt) \<Rightarrow>
            map_option (Cons \<lparr>di_message_key = cell row 0, di_queue = cell row 1, di_reason = cell row 2,
                di_dlq_at_ms = at, di_attempt = attempt\<rparr>) (read_dlq rows)
        | _ \<Rightarrow> None)"

definition hy_list_dlq_messages ::
  "sql_engine \<Rightarrow> sql_reader \<Rightarrow> string \<Rightarrow> int \<Rightarrow> hybrid_adapter \<Rightarrow>
     (dlq_message_info list \<times> string option) \<times> hybrid_adapter" where
  "hy_list_dlq_messages E T queue limit s =
     (if \<not> hya_is_open s then (([], Some ''adapter not open''), s)
      else
        case text_query E T (select_dlq (hya_config s) queue limit) s of
          ((None, e), s1) \<Rightarrow> (([], e), s1)
        | ((Some rows, _), s1) \<Rightarrow>
            (case read_dlq rows of
               None \<Rightarrow> (([], Some ''stoll''), s1)
             | Some infos \<Rightarrow> ((infos, None), s1)))"

definition hy_reprocess_dlq_message ::
  "sql_engine \<Rightarrow> sql_reader \<Rightarrow> string \<Rightarrow> hybrid_adapter \<Rightarrow> res \<times> hybrid_adapter" where
  "hy_reprocess_dlq_message E T key s =
     (if \<not> hya_is_open s then (err_res ''adapter not open'', s)
      else
        let cfg = hya_config s
        in in_tx fail_res
             (\<lambda>s1. let (now, s2) = now_ms s1
                in case first_row E T (select_queue_of cfg key (Some ''dlq'')) s2 of
                     (None, s3) \<Rightarrow> tx_abort fail_res (Some ''DLQ message not found'') s3
                   | (Some row, s3) \<Rightarrow>
                       let queue = cell row 0; message_id = extract_message_id_from_key key
                       in run_statement E T (update_reset cfg key now) (tx_abort fail_res)
                            (\<lambda>s4. tx_commit E fail_res
                               (\<lambda>s5. (ok_res,
                                  if queue = [] \<or> \<not> fexists s5 (to_path (build_dlq_path s5 queue message_id)) then s5
                                  else snd (rename_payload (build_dlq_path s5 queue message_id)
                                              (build_payload_path s5 queue message_id) s5)))
                               (snd (text_execute E T (clear_value cfg T key now) s4))) s3) s)"

section \<open>The adapter as an operation table\<close>

definition hy_backend :: "json_lib \<Rightarrow> sql_engine \<Rightarrow> sql_reader \<Rightarrow> hybrid_adapter backend" where
  "hy_backend L E T = \<lparr>
     be_enqueue = hy_enqueue L E T,
     be_lease_next = hy_lease_next L E T,
     be_ack = hy_ack E T,
     be_nack = hy_nack E T,
     be_extend_lease = hy_extend_lease E T,
     be_load_policy = hy_load_policy L E T,
     be_save_policy = hy_save_policy L E T,
     be_metrics = hy_metrics E T,
     be_recover_expired_leases = hy_recover_expired_leases E T,
     be_process_delayed_messages = hy_process_delayed_messages E T,
     be_get_expired_inflight_messages = hy_get_expired_inflight_messages E T,
     be_delay_message = hy_delay_message E T,
     be_move_to_dlq = hy_move_to_dlq E T,
     be_list_dlq_messages = hy_list_dlq_messages E T,
     be_reprocess_dlq_message = hy_reprocess_dlq_message E T\<rparr>"

end
