(* ===== verification/Hybrid_Consistency.thy ===== *)
theory Hybrid_Consistency
  imports Hybrid_Adapter
begin

text \<open>
  The consistency check and repair of \<open>MainMQ/BackendAdapter/HybridAdapter.cpp\<close>, which compare the index with
  the payload files. The time a file was written, in milliseconds of the file clock, is a parameter: None
  when it cannot be read.
\<close>

datatype issue_type = OrphanPayload | MissingPayload | InvalidState | StaleArchive

record consistency_issue =
  ci_type :: issue_type
  ci_queue :: string
  ci_message_key :: string
  ci_payload_path :: string
  ci_description :: string

record consistency_report =
  cr_orphan_payloads :: int
  cr_missing_payloads :: int
  cr_invalid_states :: int
  cr_stale_archives :: int
  cr_issues :: "consistency_issue list"

definition empty_report :: consistency_report where
  "empty_report = \<lparr>cr_orphan_payloads = 0, cr_missing_payloads = 0, cr_invalid_states = 0,
     cr_stale_archives = 0, cr_issues = []\<rparr>"

section \<open>What is compared\<close>

definition select_distinct_queues :: "sqlite_config \<Rightarrow> sql_select" where
  "select_distinct_queues cfg = \<lparr>
     sl_sql = ''SELECT DISTINCT queue FROM '' @ sc_message_index_table cfg,
     sl_texts = [],
     sl_rows = (\<lambda>scan d. map (\<lambda>q. [q]) (remdups (map ix_queue (scan (db_idx d)))))\<rparr>"

definition add_queue :: "string \<Rightarrow> string list \<Rightarrow> string list" where
  "add_queue q queues = (if q \<in> set queues then queues else queues @ [q])"

definition get_all_queues ::
  "sql_engine \<Rightarrow> sql_reader \<Rightarrow> hybrid_adapter \<Rightarrow> string list \<times> hybrid_adapter" where
  "get_all_queues E T s =
     (case text_query E T (select_distinct_queues (hya_config s)) s of
        ((rows, _), s1) \<Rightarrow>
          let queues = filter (\<lambda>q. q \<noteq> []) (map (\<lambda>row. cell row 0) (value_or rows []));
              root = to_path (hya_payload_root s1)
          in if \<not> fexists s1 root then (queues, s1)
             else (case os_list_dirs root s1 of
                 (ds, s2) \<Rightarrow> (fold (\<lambda>d. add_queue (last d)) ds queues, s2)))"

text \<open>The identifiers of the payload files of a directory.\<close>

definition payload_ids :: "path list \<Rightarrow> string list" where
  "payload_ids ps =
     map (\<lambda>p. take (length (last p) - 5) (last p))
       (filter (\<lambda>p. length (last p) > 5 \<and> ends_with (last p) ''.json'') ps)"

definition list_payload_files :: "string \<Rightarrow> string \<Rightarrow> hybrid_adapter \<Rightarrow> string list \<times> hybrid_adapter" where
  "list_payload_files queue sub s =
     (let dir = to_path (payload_dir (hya_payload_root s) queue sub)
      in if \<not> fexists s dir then ([], s)
         else (case os_list_files dir s of (ps, s1) \<Rightarrow> (payload_ids ps, s1)))"

definition select_keys :: "sqlite_config \<Rightarrow> string \<Rightarrow> string list option \<Rightarrow> sql_select" where
  "select_keys cfg queue states = \<lparr>
     sl_sql = ''SELECT message_key FROM '' @ sc_message_index_table cfg @ '' WHERE queue = '' @ quoted queue @
       (case states of None \<Rightarrow> []
        | Some [st] \<Rightarrow> '' AND state = '' @ quoted st
        | Some sts \<Rightarrow> '' AND state IN ('' @ tl (concat (map (\<lambda>st. '', '' @ quoted st) sts)) @ '')''),
     sl_texts = [queue],
     sl_rows = (\<lambda>scan d. map (\<lambda>r. [ix_message_key r])
       (filter (\<lambda>r. ix_queue r = queue \<and> (\<forall>sts \<in> set_option states. ix_state r \<in> set sts)) (scan (db_idx d))))\<rparr>"

definition row_ids :: "string list list option \<Rightarrow> string list" where
  "row_ids rows = map (\<lambda>row. extract_message_id_from_key (cell row 0)) (filter (\<lambda>row. row \<noteq> []) (value_or rows []))"

definition get_indexed_message_ids ::
  "sql_engine \<Rightarrow> sql_reader \<Rightarrow> string \<Rightarrow> string \<Rightarrow> hybrid_adapter \<Rightarrow> (string list \<times> string option) \<times> hybrid_adapter"
where
  "get_indexed_message_ids E T queue state s =
     (case text_query E T (select_keys (hya_config s) queue (if state = [] then None else Some [state])) s of
        ((None, e), s1) \<Rightarrow> (([], e), s1)
      | ((Some rows, _), s1) \<Rightarrow>
          ((map (\<lambda>row. extract_message_id_from_key (cell row 0))
              (filter (\<lambda>row. row \<noteq> [] \<and> cell row 0 \<noteq> []) rows), None), s1))"

section \<open>The check\<close>

definition issue :: "issue_type \<Rightarrow> string \<Rightarrow> string \<Rightarrow> string \<Rightarrow> string \<Rightarrow> consistency_issue" where
  "issue t queue message_id path what = \<lparr>ci_type = t, ci_queue = queue,
     ci_message_key = ''msg:'' @ queue @ '':'' @ message_id, ci_payload_path = path,
     ci_description = what @ message_id\<rparr>"

definition add_issue :: "consistency_issue \<Rightarrow> consistency_report \<Rightarrow> consistency_report" where
  "add_issue i r =
     (let r = r\<lparr>cr_issues := cr_issues r @ [i]\<rparr>
      in case ci_type i of
           OrphanPayload \<Rightarrow> r\<lparr>cr_orphan_payloads := i32 (cr_orphan_payloads r + 1)\<rparr>
         | MissingPayload \<Rightarrow> r\<lparr>cr_missing_payloads := i32 (cr_missing_payloads r + 1)\<rparr>
         | InvalidState \<Rightarrow> r\<lparr>cr_invalid_states := i32 (cr_invalid_states r + 1)\<rparr>
         | StaleArchive \<Rightarrow> r\<lparr>cr_stale_archives := i32 (cr_stale_archives r + 1)\<rparr>)"

definition retention_ms :: int where
  "retention_ms = 7 * 24 * 60 * 60 * 1000"

text \<open>The issues of one queue: index rows and payload files compared both ways, and old archives.\<close>

definition queue_issues ::
  "string \<Rightarrow> string \<Rightarrow> int \<Rightarrow> (path \<Rightarrow> int option) \<Rightarrow> string list \<Rightarrow> string list \<Rightarrow> string list \<Rightarrow> string list \<Rightarrow>
     string list \<Rightarrow> consistency_issue list" where
  "queue_issues root q now written indexed_active indexed_dlq active_files dlq_files archive_files =
     map (\<lambda>i. issue OrphanPayload q i (payload_path root q ''active'' i) ''Orphan payload in active/: '')
       (filter (\<lambda>i. i \<notin> set indexed_active) active_files) @
     map (\<lambda>i. issue OrphanPayload q i (payload_path root q ''dlq'' i) ''Orphan payload in dlq/: '')
       (filter (\<lambda>i. i \<notin> set indexed_dlq) dlq_files) @
     map (\<lambda>i. issue MissingPayload q i (payload_path root q ''active'' i) ''Missing payload for indexed message: '')
       (filter (\<lambda>i. i \<notin> set active_files) indexed_active) @
     map (\<lambda>i. issue MissingPayload q i (payload_path root q ''dlq'' i) ''Missing DLQ payload for indexed message: '')
       (filter (\<lambda>i. i \<notin> set dlq_files) indexed_dlq) @
     map (\<lambda>i. issue StaleArchive q i (payload_path root q ''archive'' i) ''Stale archive (older than 7 days): '')
       (filter (\<lambda>i. case written (to_path (payload_path root q ''archive'' i)) of
            None \<Rightarrow> False | Some t \<Rightarrow> i64 (now - t) > retention_ms) archive_files)"

definition check_queue ::
  "sql_engine \<Rightarrow> sql_reader \<Rightarrow> (path \<Rightarrow> int option) \<Rightarrow> string \<Rightarrow> consistency_report \<times> hybrid_adapter \<Rightarrow>
     consistency_report \<times> hybrid_adapter" where
  "check_queue E T written q rs =
     (case rs of (report, s) \<Rightarrow>
       (case get_indexed_message_ids E T q [] s of
          ((_, Some e), s1) \<Rightarrow> (report, s1)
        | ((_, None), s1) \<Rightarrow>
            let ((active, _), s2) = text_query E T (select_keys (hya_config s1) q (Some [''ready'', ''inflight'', ''delayed''])) s1;
                ((dlq, _), s3) = text_query E T (select_keys (hya_config s2) q (Some [''dlq''])) s2;
                (active_files, s4) = list_payload_files q ''active'' s3;
                (dlq_files, s5) = list_payload_files q ''dlq'' s4;
                (archive_files, s6) = list_payload_files q ''archive'' s5;
                (now, s7) = now_ms s6
            in (fold add_issue (queue_issues (hya_payload_root s7) q now written (row_ids active) (row_ids dlq)
                  active_files dlq_files archive_files) report, s7)))"

definition hy_check_consistency ::
  "sql_engine \<Rightarrow> sql_reader \<Rightarrow> (path \<Rightarrow> int option) \<Rightarrow> string \<Rightarrow> hybrid_adapter \<Rightarrow>
     (consistency_report \<times> string option) \<times> hybrid_adapter" where
  "hy_check_consistency E T written queue s =
     (if \<not> hya_is_open s then ((empty_report, Some ''adapter not open''), s)
      else
        let (queues, s1) = (if queue = [] then get_all_queues E T s else ([queue], s))
        in case fold (check_queue E T written) queues (empty_report, s1) of
             (report, s2) \<Rightarrow> ((report, None), s2))"

section \<open>The repair\<close>

definition insert_kv_if_new :: "sqlite_config \<Rightarrow> string \<Rightarrow> string \<Rightarrow> int \<Rightarrow> sql_statement" where
  "insert_kv_if_new cfg key v now = \<lparr>
     ss_sql = ''INSERT OR IGNORE INTO '' @ sc_kv_table cfg @
       '' (key, value, value_type, created_at, updated_at) VALUES ('' @ quoted key @ '', '' @ quoted v @ '', '' @
       quoted ''message'' @ '', '' @ int_text now @ '', '' @ int_text now @ '')'',
     ss_texts = [key, v],
     ss_effect = or_ignore (kv_insert \<lparr>kv_key = key, kv_value = v, kv_type = ''message'', kv_created_at = now,
       kv_updated_at = now\<rparr>)\<rparr>"

definition insert_idx_if_new :: "sqlite_config \<Rightarrow> string \<Rightarrow> string \<Rightarrow> int \<Rightarrow> sql_statement" where
  "insert_idx_if_new cfg queue key now = \<lparr>
     ss_sql = ''INSERT OR IGNORE INTO '' @ sc_message_index_table cfg @
       '' (queue, state, priority, available_at, attempt, message_key) VALUES ('' @ quoted queue @ '', '' @
       quoted ''ready'' @ '', 0, '' @ int_text now @ '', 0, '' @ quoted key @ '')'',
     ss_texts = [queue, key],
     ss_effect = or_ignore (idx_add \<lparr>ix_queue = queue, ix_state = ''ready'', ix_priority = 0,
       ix_available_at = now, ix_lease_until = None, ix_attempt = 0, ix_message_key = key, ix_target = [],
       ix_dlq_reason = None, ix_dlq_at = None\<rparr>)\<rparr>"

definition update_missing :: "sqlite_config \<Rightarrow> string \<Rightarrow> int \<Rightarrow> sql_statement" where
  "update_missing cfg key now = \<lparr>
     ss_sql = ''UPDATE '' @ sc_message_index_table cfg @ '' SET state = '' @ quoted ''dlq'' @ '', dlq_reason = '' @
       quoted ''missing_payload'' @ '', dlq_at = '' @ int_text now @ '' WHERE message_key = '' @ quoted key,
     ss_texts = [key],
     ss_effect = idx_update (\<lambda>r. ix_message_key r = key)
       (\<lambda>r. r\<lparr>ix_state := ''dlq'', ix_dlq_reason := Some ''missing_payload'', ix_dlq_at := Some now\<rparr>)\<rparr>"

definition update_invalid :: "sqlite_config \<Rightarrow> string \<Rightarrow> int \<Rightarrow> sql_statement" where
  "update_invalid cfg key now = \<lparr>
     ss_sql = ''UPDATE '' @ sc_message_index_table cfg @ '' SET state = '' @ quoted ''ready'' @
       '', available_at = '' @ int_text now @ '' WHERE message_key = '' @ quoted key,
     ss_texts = [key],
     ss_effect = idx_update (\<lambda>r. ix_message_key r = key)
       (\<lambda>r. r\<lparr>ix_state := ''ready'', ix_available_at := now\<rparr>)\<rparr>"

definition repaired_envelope :: "int \<Rightarrow> consistency_issue \<Rightarrow> json" where
  "repaired_envelope now i = jobj
     [(''messageId'', JStr (extract_message_id_from_key (ci_message_key i))), (''queue'', JStr (ci_queue i)),
      (''payloadPath'', JStr (ci_payload_path i)), (''priority'', JInt 0), (''attempt'', JInt 0),
      (''createdAt'', JInt now), (''repairedAt'', JInt now)]"

text \<open>One issue: whether it counts as repaired.\<close>

definition repair_issue ::
  "json_lib \<Rightarrow> sql_engine \<Rightarrow> sql_reader \<Rightarrow> int \<Rightarrow> consistency_issue \<Rightarrow> hybrid_adapter \<Rightarrow> bool \<times> hybrid_adapter" where
  "repair_issue L E T now i s =
     (let cfg = hya_config s; key = ci_message_key i
      in case ci_type i of
           OrphanPayload \<Rightarrow>
             (case os_read (to_path (ci_payload_path i)) s of
                (None, s1) \<Rightarrow> (False, s1)
              | (Some content, s1) \<Rightarrow>
                  (case json_parse L content of
                     Inl _ \<Rightarrow> (False, s1)
                   | Inr _ \<Rightarrow>
                       let (kv, s2) = text_execute E T
                             (insert_kv_if_new cfg key (jl_dump L (- 1) (repaired_envelope now i)) now) s1;
                           (idx, s3) = text_execute E T (insert_idx_if_new cfg (ci_queue i) key now) s2
                       in (fst kv \<or> fst idx, s3)))
         | MissingPayload \<Rightarrow>
             (case text_execute E T (update_missing cfg key now) s of (r, s1) \<Rightarrow> (fst r, s1))
         | StaleArchive \<Rightarrow>
             (let there = fexists s (to_path (ci_payload_path i))
              in case os_remove (to_path (ci_payload_path i)) s of (e, s1) \<Rightarrow> (there \<and> e = None, s1))
         | InvalidState \<Rightarrow>
             (case text_execute E T (update_invalid cfg key now) s of (r, s1) \<Rightarrow> (fst r, s1)))"

fun repair_issues ::
  "json_lib \<Rightarrow> sql_engine \<Rightarrow> sql_reader \<Rightarrow> int \<Rightarrow> consistency_issue list \<Rightarrow> int \<Rightarrow> hybrid_adapter \<Rightarrow>
     int \<times> hybrid_adapter" where
  "repair_issues L E T now [] repaired s = (repaired, s)"
| "repair_issues L E T now (i # is) repaired s =
     (case repair_issue L E T now i s of
        (ok, s1) \<Rightarrow> repair_issues L E T now is (if ok then i32 (repaired + 1) else repaired) s1)"

definition hy_repair_consistency ::
  "json_lib \<Rightarrow> sql_engine \<Rightarrow> sql_reader \<Rightarrow> consistency_report \<Rightarrow> hybrid_adapter \<Rightarrow>
     (int \<times> string option) \<times> hybrid_adapter" where
  "hy_repair_consistency L E T report s =
     (if \<not> hya_is_open s then ((0, Some ''adapter not open''), s)
      else
        let (now, s1) = now_ms s
        in case repair_issues L E T now (cr_issues report) 0 s1 of (n, s2) \<Rightarrow> ((n, None), s2))"

end
