(* ===== verification/Hybrid_Effects.thy ===== *)
theory Hybrid_Effects
  imports Hybrid_Consistency SQLite_Effects
begin

text \<open>
  Rules for the methods of the hybrid adapter. A statement with plain texts runs as it was meant; a call of
  the database leaves the files alone, a call of the operating system leaves the tables alone.
\<close>

section \<open>Files and tables\<close>

text \<open>Everything a database call leaves as it is.\<close>

definition same_files :: "hybrid_adapter \<Rightarrow> hybrid_adapter \<Rightarrow> bool" where
  "same_files s s' \<longleftrightarrow> files s' = files s \<and> dirs s' = dirs s \<and> clock s' = clock s \<and> clock_n s' = clock_n s \<and>
     fault s' = fault s \<and> sd_open s' = sd_open s \<and>
     hya_is_open s' = hya_is_open s \<and> hya_payload_root s' = hya_payload_root s \<and> hya_config s' = hya_config s"

lemma same_files_refl [simp]: "same_files s s"
  by (simp add: same_files_def)

lemma same_files_trans [trans]: "same_files s s' \<Longrightarrow> same_files s' s'' \<Longrightarrow> same_files s s''"
  by (simp add: same_files_def)

lemma same_files_fget: "same_files s s' \<Longrightarrow> fget s' = fget s"
  by (simp add: same_files_def fget_def fun_eq_iff)

lemma same_files_dir: "same_files s s' \<Longrightarrow> is_dir s' p = is_dir s p"
  by (simp add: same_files_def is_dir_def)

lemma os_io_same: "os_io s = (e, s') \<Longrightarrow> same_files s s'"
  by (auto simp: os_io_def same_files_def)

lemma sql_failed_same: "same_files s s' \<Longrightarrow> same_files s (sql_failed E n s')"
  by (simp add: sql_failed_def same_files_def)

lemma begin_same: "begin_transaction s = (r, s') \<Longrightarrow> same_files s s'"
  by (auto simp: begin_transaction_def os_io_def same_files_def split: if_splits option.splits)

lemma rollback_same: "same_files s (snd (sql_rollback s))"
  by (simp add: sql_rollback_def os_io_def same_files_def split: option.split)

lemma commit_same: "sql_commit E s = (r, s') \<Longrightarrow> same_files s s'"
  by (auto simp: sql_commit_def os_io_def sql_failed_def same_files_def split: if_splits option.splits)

lemma execute_same: "sql_execute E f s = (r, s') \<Longrightarrow> same_files s s'"
  by (auto simp: sql_execute_def os_io_def sql_failed_def same_files_def split: if_splits option.splits)

lemma query_same: "sql_query E q s = (r, s') \<Longrightarrow> same_files s s'"
  by (auto simp: sql_query_def os_io_def sql_failed_def same_files_def split: if_splits option.splits)

lemma text_execute_same: "text_execute E T st s = (r, s') \<Longrightarrow> same_files s s'"
  unfolding text_execute_def raw_execute_def
  by (auto simp: os_io_def sql_failed_def same_files_def dest!: execute_same
      split: if_splits option.splits prod.splits)

lemma text_query_same: "text_query E T q s = (r, s') \<Longrightarrow> same_files s s'"
  unfolding text_query_def raw_query_def
  by (auto simp: os_io_def sql_failed_def same_files_def dest!: query_same
      split: if_splits option.splits prod.splits)

lemma first_row_same: "first_row E T q s = (r, s') \<Longrightarrow> same_files s s'"
  by (auto simp: first_row_def dest!: text_query_same split: prod.splits option.splits list.splits)

text \<open>The tables, and the fields of the adapter, under the calls of the operating system.\<close>

definition same_tables :: "hybrid_adapter \<Rightarrow> hybrid_adapter \<Rightarrow> bool" where
  "same_tables s s' \<longleftrightarrow> sd_db s' = sd_db s \<and> sd_saved s' = sd_saved s \<and> sd_open s' = sd_open s \<and>
     hya_is_open s' = hya_is_open s \<and> hya_payload_root s' = hya_payload_root s \<and> hya_config s' = hya_config s"

lemma same_env_tables: "same_env s s' \<Longrightarrow> same_tables s s'"
  by (cases s; cases s') (simp add: same_env_def same_tables_def)

lemma same_tables_committed: "same_tables s s' \<Longrightarrow> committed s' = committed s"
  by (simp add: same_tables_def committed_def split: option.split)

lemma same_tables_tx: "same_tables s s' \<Longrightarrow> tx d P s' = tx d P s"
  by (simp add: same_tables_def tx_def)

text \<open>What every call leaves as it is.\<close>

definition same_fields :: "hybrid_adapter \<Rightarrow> hybrid_adapter \<Rightarrow> bool" where
  "same_fields s s' \<longleftrightarrow> clock s' = clock s \<and> fault s' = fault s \<and> sd_open s' = sd_open s \<and>
     hya_is_open s' = hya_is_open s \<and> hya_payload_root s' = hya_payload_root s \<and> hya_config s' = hya_config s"

lemma same_fields_trans [trans]: "same_fields s s' \<Longrightarrow> same_fields s' s'' \<Longrightarrow> same_fields s s''"
  by (simp add: same_fields_def)

lemma same_files_fields: "same_files s s' \<Longrightarrow> same_fields s s'"
  by (simp add: same_files_def same_fields_def)

lemma same_env_fields: "same_env s s' \<Longrightarrow> same_fields s s'"
  using same_env_tables [of s s'] by (simp add: same_env_def same_fields_def same_tables_def)

section \<open>Statements in a transaction\<close>

lemma execute_tx:
  assumes "tx d P s" "sql_execute E f s = (r, s')"
  shows "committed s' = d" "fst r \<Longrightarrow> \<exists>x y. P x \<and> f x = Some y \<and> sd_db s' = y \<and> sd_saved s' = Some d"
    "\<not> fst r \<Longrightarrow> tx_lost d P s'"
  using assms
  by (auto simp: sql_execute_def tx_def committed_def tx_lost_def sql_failed_def os_io_def
      split: if_splits prod.splits option.splits)

text \<open>A statement with plain texts: it fails with nothing committed, or its effect is in the tables.\<close>

lemma run_cases:
  assumes "tx d P s" "list_all plain_text (ss_texts st)"
  obtains (failed) e s1 where "run_statement E T st failure k s = failure e s1" "committed s1 = d" "same_files s s1"
  | (ok) s1 where "run_statement E T st failure k s = k s1" "same_files s s1"
      "tx d (\<lambda>y. \<exists>x. P x \<and> ss_effect st x = Some y) s1"
proof -
  obtain r s1 where e: "sql_execute E (ss_effect st) s = (r, s1)" by (metis prod.collapse)
  have t: "text_execute E T st s = (r, s1)" using assms(2) e by (simp add: text_execute_def)
  note same = execute_same [OF e]
  note x = execute_tx [OF assms(1) e]
  show thesis
  proof (cases "fst r")
    case True
    then have "tx d (\<lambda>y. \<exists>x. P x \<and> ss_effect st x = Some y) s1" using x(2) by (auto simp: tx_def)
    then show thesis using ok [of s1] t True same by (simp add: run_statement_def)
  next
    case False
    then show thesis using failed [of "snd r" s1] t x(1) same by (simp add: run_statement_def)
  qed
qed

lemma in_tx_cases:
  obtains (failed) e where "fst (in_tx failure k s) = failure e" "committed (snd (in_tx failure k s)) = committed s"
      "same_files s (snd (in_tx failure k s))"
  | (ok) s1 where "in_tx failure k s = k s1" "same_files s s1" "tx (committed s) ((=) (committed s)) s1"
proof -
  obtain r s1 where b: "begin_transaction s = (r, s1)" by (metis prod.collapse)
  show thesis
  proof (cases "fst r")
    case True
    then have "tx (committed s) ((=) (committed s)) s1"
      using b by (auto simp: begin_transaction_def tx_def committed_def os_io_def split: if_splits prod.splits option.splits)
    then show thesis using ok [of s1] b True begin_same [OF b] by (simp add: in_tx_def)
  next
    case False
    then show thesis
      using failed [of "snd r"] b begin_committed [OF b] begin_same [OF b] by (simp add: in_tx_def)
  qed
qed

lemma commit_cases:
  assumes "tx d P s" "sql_commit E s = (r, s1)"
  shows "same_files s s1" "fst r \<Longrightarrow> P (committed s1)" "\<not> fst r \<Longrightarrow> committed s1 = d"
    "fst r \<Longrightarrow> sd_saved s1 = None"
  using assms(1) commit_same [OF assms(2)] assms(2) tx_committed [OF assms(1)]
  by (auto simp: sql_commit_def tx_def committed_def sql_failed_def os_io_def
      split: if_splits prod.splits option.splits)

section \<open>Enqueue\<close>

lemma ensure_payload_same: "ensure_payload_directories q s = (r, s') \<Longrightarrow> fget s' = fget s \<and> same_env s s'"
  unfolding ensure_payload_directories_def by (rule make_dirs_effect)

text \<open>The rows of an enqueued message.\<close>

definition hy_kv_row :: "json_lib \<Rightarrow> string \<Rightarrow> int \<Rightarrow> message \<Rightarrow> kv_row" where
  "hy_kv_row L path now e = \<lparr>kv_key = m_key e, kv_value = jl_dump L (- 1) (hy_envelope_json path e),
     kv_type = ''message'', kv_created_at = now, kv_updated_at = now\<rparr>"

definition hy_index_row :: "int \<Rightarrow> message \<Rightarrow> index_row" where
  "hy_index_row now e = \<lparr>ix_queue = m_queue e,
     ix_state = (if m_available_at_ms e > now then ''delayed'' else ''ready''),
     ix_priority = m_priority e, ix_available_at = m_available_at_ms e, ix_lease_until = None,
     ix_attempt = m_attempt e, ix_message_key = m_key e, ix_target = m_target_consumer_id e,
     ix_dlq_reason = None, ix_dlq_at = None\<rparr>"

definition plain_message :: "json_lib \<Rightarrow> string \<Rightarrow> message \<Rightarrow> bool" where
  "plain_message L path e \<longleftrightarrow> plain_text (m_key e) \<and> plain_text (m_queue e) \<and>
     plain_text (m_target_consumer_id e) \<and> plain_text (jl_dump L (- 1) (hy_envelope_json path e))"

lemma remove_payload_effect:
  "remove_payload path r s = (r', s') \<Longrightarrow> (r' = r \<or> \<not> fst r') \<and> committed s' = committed s"
  by (auto simp: remove_payload_def split: prod.splits option.splits
      dest!: os_remove_effect same_env_tables same_tables_committed)

lemma enqueue_failed_effect:
  assumes "\<And>e. \<not> fst (failure e)" "enqueue_failed path failure e s = (r, s')"
  shows "\<not> fst r \<and> committed s' = committed s"
  using assms remove_payload_effect [of path "failure e" "snd (sql_rollback s)" r s']
  by (auto simp: enqueue_failed_def)

text \<open>The part of \<open>enqueue\<close> in the transaction.\<close>

definition enqueue_tx ::
  "json_lib \<Rightarrow> sql_engine \<Rightarrow> sql_reader \<Rightarrow> message \<Rightarrow> sqlite_config \<Rightarrow> string \<Rightarrow> string \<Rightarrow> int \<Rightarrow> hybrid_adapter \<Rightarrow>
     res \<times> hybrid_adapter" where
  "enqueue_tx L E T message cfg state path now s3 =
     (case atomic_write (to_path path) (jl_dump L 2 (payload_json message)) s3 of
        (r, s4) \<Rightarrow>
          if \<not> fst r then tx_abort fail_res (snd r) s4
          else
            run_statement E T
              (insert_kv cfg (m_key message) (jl_dump L (- 1) (hy_envelope_json path message)) now)
              (enqueue_failed path (\<lambda>e. err_res (''kv insert failed: '' @ value_or e ''unknown'')))
              (run_statement E T (insert_idx cfg state message)
                (enqueue_failed path (\<lambda>e. err_res (''index insert failed: '' @ value_or e ''unknown'')))
                (\<lambda>s5. case sql_commit E s5 of
                   (r, s6) \<Rightarrow> if \<not> fst r then enqueue_failed path fail_res (snd r) s6 else (ok_res, s6))) s4)"

lemma hy_enqueue_split:
  assumes "hya_is_open s" "ensure_payload_directories (m_queue e) s = (r, s1)" "fst r" "now_ms s1 = (now, s2)"
  shows "hy_enqueue L E T e s =
    in_tx fail_res
      (enqueue_tx L E T e (hya_config s) (if m_available_at_ms e > now then ''delayed'' else ''ready'')
         (build_payload_path s (m_queue e) (m_message_id e)) now) s2"
proof -
  have c: "hya_config s2 = hya_config s" "hya_payload_root s2 = hya_payload_root s"
    using ensure_payload_same [OF assms(2)] same_env_tables [of s s1] assms(4)
    by (auto simp: same_tables_def now_ms_def)
  show ?thesis
    unfolding hy_enqueue_def enqueue_tx_def [abs_def] Let_def assms(2,4) prod.case c
    using assms(1,3) by simp
qed

lemma enqueue_tx_effect:
  assumes "tx d ((=) d) s" "plain_message L path e"
    and "enqueue_tx L E T e cfg (if m_available_at_ms e > now then ''delayed'' else ''ready'') path now s = (r, s')"
  shows "if fst r
    then (\<exists>x. kv_insert (hy_kv_row L path now e) d = Some x \<and>
              idx_add (hy_index_row now e) x = Some (committed s')) \<and>
         fget s' (to_path path) = Some (jl_dump L 2 (payload_json e)) \<and>
         sd_saved s' = None \<and> same_fields s s'
    else committed s' = d"
proof -
  let ?state = "if m_available_at_ms e > now then ''delayed'' else ''ready''"
  obtain w s1 where aw: "atomic_write (to_path path) (jl_dump L 2 (payload_json e)) s = (w, s1)"
    by (metis prod.collapse)
  obtain x where "fget s1 = (if fst w then ((fget s)(with_suffix (to_path path) ''.tmp'' := None))
      (to_path path \<mapsto> jl_dump L 2 (payload_json e)) else (fget s)(with_suffix (to_path path) ''.tmp'' := x))"
    and env: "same_env s s1"
    by (rule atomic_write_effect [OF aw]) blast
  then have wrote: "fst w \<Longrightarrow> fget s1 (to_path path) = Some (jl_dump L 2 (payload_json e))" by simp
  have t1: "tx d ((=) d) s1" using assms(1) same_tables_tx [OF same_env_tables [OF env]] by simp
  show ?thesis
  proof (cases "fst w")
    case False
    then have "r = fail_res (snd w)" "s' = snd (sql_rollback s1)"
      using assms(3) aw by (simp_all add: enqueue_tx_def tx_abort_def)
    then show ?thesis using tx_committed [OF t1] by simp
  next
    case True
    let ?kv = "insert_kv cfg (m_key e) (jl_dump L (- 1) (hy_envelope_json path e)) now"
    let ?idx = "insert_idx cfg ?state e"
    let ?g1 = "\<lambda>e. err_res (''kv insert failed: '' @ value_or e ''unknown'')"
    let ?g2 = "\<lambda>e. err_res (''index insert failed: '' @ value_or e ''unknown'')"
    let ?f1 = "enqueue_failed path ?g1"
    let ?f2 = "enqueue_failed path ?g2"
    let ?k2 = "\<lambda>s5. case sql_commit E s5 of
        (r, s6) \<Rightarrow> if \<not> fst r then enqueue_failed path fail_res (snd r) s6 else (ok_res, s6)"
    let ?k1 = "run_statement E T ?idx ?f2 ?k2"
    have run: "run_statement E T ?kv ?f1 ?k1 s1 = (r, s')"
      using assms(3) aw True by (simp add: enqueue_tx_def)
    have plain: "list_all plain_text (ss_texts ?kv)" "list_all plain_text (ss_texts ?idx)"
      using assms(2) by (simp_all add: plain_message_def insert_kv_def insert_idx_def)
    show ?thesis
    proof (cases rule: run_cases [OF t1 plain(1), of E T ?f1 ?k1, case_names failed ok])
      case (failed e' s2)
      then have "\<not> fst r \<and> committed s' = committed s2"
        by (intro enqueue_failed_effect [of ?g1 path e']) (simp_all only: run [symmetric], simp)
      then show ?thesis using failed(2) by simp
    next
      case (ok s2)
      note s2 = ok
      show ?thesis
      proof (cases rule: run_cases [OF ok(3) plain(2), of E T ?f2 ?k2, case_names failed ok])
        case (failed e' s3)
        then have "\<not> fst r \<and> committed s' = committed s3"
          by (intro enqueue_failed_effect [of ?g2 path e']) (simp_all only: run [symmetric] s2(1), simp)
        then show ?thesis using failed(2) by simp
      next
        case (ok s3)
        obtain c s4 where cm: "sql_commit E s3 = (c, s4)" by (metis prod.collapse)
        note c = commit_cases [OF ok(3) cm]
        show ?thesis
        proof (cases "fst c")
          case False
          then show ?thesis
            using run s2(1) ok(1) cm c(3) enqueue_failed_effect [of fail_res path "snd c" s4 r s'] by simp
        next
          case True
          then have "r = ok_res" "s' = s4" using run s2(1) ok(1) cm by simp_all
          moreover have "fget s4 (to_path path) = Some (jl_dump L 2 (payload_json e))"
            using wrote \<open>fst w\<close> same_files_fget [OF s2(2)] same_files_fget [OF ok(2)] same_files_fget [OF c(1)]
            by simp
          moreover have "same_fields s s4"
            using same_env_fields [OF env] same_files_fields [OF s2(2)] same_files_fields [OF ok(2)]
              same_files_fields [OF c(1)] by (blast intro: same_fields_trans)
          ultimately show ?thesis
            using c(2) [OF True] c(4) [OF True] by (auto simp: insert_kv_def insert_idx_def hy_kv_row_def hy_index_row_def)
        qed
      qed
    qed
  qed
qed

lemma hy_enqueue_effect:
  assumes "plain_message L (build_payload_path s (m_queue e) (m_message_id e)) e"
    and "hy_enqueue L E T e s = (r, s')"
  shows "if fst r
    then (\<exists>n x. kv_insert (hy_kv_row L (build_payload_path s (m_queue e) (m_message_id e)) (clock s n) e)
                (committed s) = Some x \<and>
              idx_add (hy_index_row (clock s n) e) x = Some (committed s')) \<and>
         fget s' (to_path (build_payload_path s (m_queue e) (m_message_id e))) = Some (jl_dump L 2 (payload_json e)) \<and>
         sd_saved s' = None \<and> same_fields s s'
    else committed s' = committed s"
proof (cases "hya_is_open s")
  case True
  let ?path = "build_payload_path s (m_queue e) (m_message_id e)"
  obtain d s1 where dirs: "ensure_payload_directories (m_queue e) s = (d, s1)" by (metis prod.collapse)
  note env = conjunct2 [OF ensure_payload_same [OF dirs]]
  obtain now s2 where n: "now_ms s1 = (now, s2)" by (metis prod.collapse)
  have same: "committed s2 = committed s" "same_fields s s2"
    using same_tables_committed [OF same_env_tables [OF env]] same_env_fields [OF env] n now_ms_committed [OF n]
    by (auto simp: now_ms_def same_fields_def)
  have now: "now = clock s (clock_n s1)" using n env by (simp add: now_ms_def same_env_def)
  show ?thesis
  proof (cases "fst d")
    case False
    then show ?thesis using assms(2) True dirs same_tables_committed [OF same_env_tables [OF env]]
      by (auto simp: hy_enqueue_def)
  next
    case ok: True
    let ?k = "enqueue_tx L E T e (hya_config s) (if m_available_at_ms e > now then ''delayed'' else ''ready'') ?path now"
    have run: "in_tx fail_res ?k s2 = (r, s')"
      using assms(2) hy_enqueue_split [OF True dirs ok n, of L E T] by simp
    show ?thesis
    proof (cases rule: in_tx_cases [of fail_res ?k s2, case_names failed ok])
      case (failed e')
      then show ?thesis using run same by simp
    next
      case (ok s3)
      have x: "?k s3 = (r, s')" using run ok(1) by simp
      have f: "same_fields s s3" using same(2) same_files_fields [OF ok(2)] by (rule same_fields_trans)
      show ?thesis
        using enqueue_tx_effect [OF ok(3) assms(1) x] same_fields_trans [OF f] same(1) now
        by (auto split: if_splits)
    qed
  qed
qed (use assms in \<open>auto simp: hy_enqueue_def\<close>)

section \<open>Runs without failures\<close>

lemma calm_begin:
  assumes "idle s"
  obtains s1 where "in_tx failure k s = k s1" "calm (sd_db s) (sd_db s) s1" "same_files s s1"
proof -
  let ?s = "s\<lparr>io_n := Suc (io_n s), sd_saved := Some (sd_db s)\<rparr>"
  have "in_tx failure k s = k ?s"
    using assms by (simp add: in_tx_def begin_transaction_def calm_defs)
  moreover have "calm (sd_db s) (sd_db s) ?s" "same_files s ?s"
    using assms by (simp_all add: calm_defs same_files_def)
  ultimately show thesis by (rule that)
qed

lemma calm_execute:
  assumes "calm d x s" "list_all plain_text (ss_texts st)" "ss_effect st x = Some y"
  obtains s1 where "text_execute E T st s = (ok_res, s1)" "calm d y s1" "same_files s s1"
proof -
  let ?s = "s\<lparr>io_n := Suc (io_n s), sd_db := y\<rparr>"
  have "text_execute E T st s = (ok_res, ?s)"
    using assms by (simp add: text_execute_def sql_execute_def calm_defs)
  moreover have "calm d y ?s" "same_files s ?s"
    using assms by (simp_all add: calm_defs same_files_def)
  ultimately show thesis by (rule that)
qed

lemma calm_run:
  assumes "calm d x s" "list_all plain_text (ss_texts st)" "ss_effect st x = Some y"
  obtains s1 where "run_statement E T st failed k s = k s1" "calm d y s1" "same_files s s1"
  by (rule calm_execute [OF assms, of E T]) (simp add: run_statement_def that)

lemma calm_row:
  assumes "calm d x s" "list_all plain_text (sl_texts q)"
  obtains n s1 where "first_row E T q s =
      ((case sl_rows q (se_scan E n) x of [] \<Rightarrow> None | row # _ \<Rightarrow> Some row), s1)"
    "calm d x s1" "same_files s s1"
proof -
  let ?s = "s\<lparr>io_n := Suc (io_n s)\<rparr>"
  have "first_row E T q s =
      ((case sl_rows q (se_scan E (io_n s)) x of [] \<Rightarrow> None | row # _ \<Rightarrow> Some row), ?s)"
    using assms by (simp add: first_row_def text_query_def sql_query_def calm_defs split: list.split)
  moreover have "calm d x ?s" "same_files s ?s"
    using assms by (simp_all add: calm_defs same_files_def)
  ultimately show thesis by (rule that)
qed

lemma calm_end:
  assumes "calm d x s"
  obtains s1 where "tx_commit E failure k s = k s1" "idle s1" "sd_db s1 = x" "same_files s s1"
proof -
  let ?s = "s\<lparr>io_n := Suc (io_n s), sd_saved := None\<rparr>"
  have "tx_commit E failure k s = k ?s"
    using assms by (simp add: tx_commit_def sql_commit_def calm_defs)
  moreover have "idle ?s" "sd_db ?s = x" "same_files s ?s"
    using assms by (simp_all add: calm_defs same_files_def)
  ultimately show thesis by (rule that)
qed

section \<open>Enqueue and lease\<close>

lemma zero_not_digit: "CHR 0x00 \<notin> set (int_text n)"
proof -
  have "\<not> is_digit (CHR 0x00)" by (simp add: is_digit_def)
  then have "CHR 0x00 \<notin> set (nat_text k)" for k using nat_text_digits [of k] by blast
  then show ?thesis by (simp add: int_text_def)
qed

lemma column_int_text [simp]: "column_text (int_text n) = int_text n"
  by (simp add: zero_not_digit)

lemma plain_column [simp]: "plain_text s \<Longrightarrow> column_text s = s"
  by (simp add: plain_text_def)

lemma ready_rows_single:
  assumes "engine_ok E" "filter (deliverable queue now consumer) (db_idx d) = [r]"
  shows "ready_rows queue now consumer (se_scan E n) d = [r]"
proof -
  have "mset (filter (deliverable queue now consumer) (se_scan E n (db_idx d))) =
      mset (filter (deliverable queue now consumer) (db_idx d))"
    using assms(1) by (simp add: engine_ok_def)
  then have f: "filter (deliverable queue now consumer) (se_scan E n (db_idx d)) = [r]"
    unfolding assms(2) by (simp del: mset_filter)
  have "ready_rows queue now consumer (se_scan E n) d =
      take 1 (sort_key (\<lambda>r. (- ix_priority r, ix_available_at r))
        (filter (deliverable queue now consumer) (se_scan E n (db_idx d))))"
    by (simp add: ready_rows_def deliverable_def [abs_def])
  then show ?thesis by (simp only: f) simp
qed

lemma hy_build_message_stored:
  assumes "json_ok L" "no_faults s" "in_i32 (m_priority e)" "in_i64 (m_created_at_ms e)"
    and "fget s (to_path (build_payload_path s (m_queue e) (m_message_id e))) = Some (jl_dump L 2 (payload_json e))"
  shows "fst (hy_build_message L (m_key e) attempt (jl_dump L (- 1) (hy_envelope_json path e)) s) =
    Inr (e\<lparr>m_attempt := attempt, m_available_at_ms := 0, m_target_consumer_id := []\<rparr>)"
proof -
  let ?msg = "empty_message\<lparr>m_key := m_key e, m_message_id := m_message_id e, m_queue := m_queue e,
      m_priority := m_priority e, m_attempt := attempt, m_created_at_ms := m_created_at_ms e\<rparr>"
  have "ebind (json_parse L (jl_dump L (- 1) (hy_envelope_json path e))) (hy_message L (m_key e) attempt) = Inr ?msg"
    using assms by (simp add: hy_envelope_json_def hy_message_def jobj_def)
  moreover have "read_payload (m_queue e) (m_message_id e) s =
      ((Some (jl_dump L 2 (payload_json e)), None), snd (os_io s))"
    using assms(2,5) by (simp add: read_payload_def os_read_def os_io_def no_faults_def fget_def Let_def)
  moreover have "ebind (json_parse L (jl_dump L 2 (payload_json e))) (with_payload ?msg) =
      Inr (e\<lparr>m_attempt := attempt, m_available_at_ms := 0, m_target_consumer_id := []\<rparr>)"
    using assms(1) by (cases e) (simp add: payload_json_def with_payload_def jobj_def empty_message_def)
  ultimately show ?thesis by (simp add: hy_build_message_def empty_message_def)
qed

text \<open>A lease without failures, when one row can be delivered.\<close>

lemma hy_lease_next_calm:
  assumes "idle s" "hya_is_open s" "engine_ok E" "plain_text queue" "plain_text consumer" "plain_text (ix_message_key r)"
    and one: "filter (deliverable queue (clock s (clock_n s)) consumer) (db_idx (sd_db s)) = [r]"
    and attempt: "in_i32 (ix_attempt r)"
    and "kv_values (ix_message_key r) (sd_db s) = v # rest"
  obtains lease s1 s2 where
    "hy_lease_next L E T queue consumer t s = hy_leased L lease (i32 (ix_attempt r + 1)) (column_text v) s1"
    "lt_message_key lease = ix_message_key r" "idle s1" "same_fields s s1" "fget s1 = fget s"
proof -
  let ?now = "clock s (clock_n s)" and ?key = "ix_message_key r"
  let ?until = "i64 (?now + t * 1000)" and ?cfg = "hya_config s"
  obtain sn where n: "now_ms s = (?now, sn)" by (simp add: now_ms_def)
  obtain g s0 where g: "fresh_guid sn = (g, s0)" by (metis prod.collapse)
  with n have s0: "idle s0" "sd_db s0 = sd_db s" "hya_config s0 = ?cfg" "same_fields s s0" "fget s0 = fget s"
    using assms(1) by (auto simp: fresh_guid_def now_ms_def calm_defs same_fields_def fget_def)
  let ?lease = "\<lparr>lt_lease_id = g, lt_message_key = ?key, lt_consumer_id = consumer, lt_lease_until_ms = ?until\<rparr>"
  let ?k3 = "\<lambda>a. tx_commit E lease_error (hy_leased L ?lease (i32 (ix_attempt r + 1)) a)"
  let ?k2 = "\<lambda>s5. case first_row E T (select_value ?cfg ?key) s5 of
      (None, s6) \<Rightarrow> tx_abort lease_error (Some ''envelope not found'') s6
    | (Some row, s6) \<Rightarrow> ?k3 (cell row 0) s6"
  let ?k1 = "\<lambda>s3. case first_row E T (select_ready ?cfg queue ?now consumer) s3 of
      (None, s4) \<Rightarrow> tx_abort lease_error None s4
    | (Some row, s4) \<Rightarrow>
        let key = cell row 0
        in case stoi (cell row 1) of
             None \<Rightarrow> (lease_error (Some ''stoi''), s4)
           | Some a \<Rightarrow>
               let attempt = i32 (a + 1)
               in run_statement E T (update_inflight ?cfg key ?until attempt) (tx_abort lease_error)
                    (\<lambda>s5. case first_row E T (select_value ?cfg key) s5 of
                       (None, s6) \<Rightarrow> tx_abort lease_error (Some ''envelope not found'') s6
                     | (Some row, s6) \<Rightarrow>
                         tx_commit E lease_error
                           (hy_leased L
                              \<lparr>lt_lease_id = g, lt_message_key = key, lt_consumer_id = consumer,
                               lt_lease_until_ms = ?until\<rparr> attempt (cell row 0)) s6) s4"
  have run: "hy_lease_next L E T queue consumer t s = in_tx lease_error ?k1 s0"
    unfolding hy_lease_next_def Let_def n prod.case g s0(3) using assms(2) by simp
  obtain s3 where s3: "in_tx lease_error ?k1 s0 = ?k1 s3" "calm (sd_db s) (sd_db s) s3" "same_files s0 s3"
    by (rule calm_begin [OF s0(1), of lease_error ?k1, unfolded s0(2)])
  have p1: "list_all plain_text (sl_texts (select_ready ?cfg queue ?now consumer))"
    using assms by (simp add: select_ready_def)
  obtain n s4 where s4: "first_row E T (select_ready ?cfg queue ?now consumer) s3 =
      (Some [?key, int_text (ix_attempt r)], s4)" "calm (sd_db s) (sd_db s) s4" "same_files s3 s4"
    by (rule calm_row [OF s3(2) p1, of E T])
      (simp add: select_ready_def ready_rows_single [OF assms(3) one])
  let ?upd = "update_inflight ?cfg ?key ?until (i32 (ix_attempt r + 1))"
  obtain d1 where d1: "ss_effect ?upd (sd_db s) = Some d1" "db_kv d1 = db_kv (sd_db s)"
    by (simp add: update_inflight_def set_inflight_def idx_update_def)
  have p2: "list_all plain_text (ss_texts ?upd)" using assms by (simp add: update_inflight_def)
  obtain s5 where s5: "run_statement E T ?upd (tx_abort lease_error) ?k2 s4 = ?k2 s5" "calm (sd_db s) d1 s5" "same_files s4 s5"
    by (rule calm_run [OF s4(2) p2 d1(1), of E T "tx_abort lease_error" ?k2])
  have p3: "list_all plain_text (sl_texts (select_value ?cfg ?key))" using assms by (simp add: select_value_def)
  have vs: "kv_values ?key d1 = v # rest" using assms(9) d1(2) by (simp add: kv_values_def)
  obtain s6 where s6: "first_row E T (select_value ?cfg ?key) s5 = (Some [v], s6)" "calm (sd_db s) d1 s6" "same_files s5 s6"
    by (rule calm_row [OF s5(2) p3, of E T]) (simp add: select_value_def vs)
  obtain s7 where s7: "?k3 (column_text v) s6 = hy_leased L ?lease (i32 (ix_attempt r + 1)) (column_text v) s7" "idle s7" "same_files s6 s7"
    by (rule calm_end [OF s6(2), of E lease_error "hy_leased L ?lease (i32 (ix_attempt r + 1)) (column_text v)"])
  have "?k1 s3 = run_statement E T ?upd (tx_abort lease_error) ?k2 s4"
    using s4(1) attempt assms(6) by (simp add: cell_def Let_def)
  then have "hy_lease_next L E T queue consumer t s = hy_leased L ?lease (i32 (ix_attempt r + 1)) (column_text v) s7"
    using run s3(1) s5(1) s6(1) s7(1) by (simp add: cell_def)
  moreover have "same_files s0 s7" using s3(3) s4(3) s5(3) s6(3) s7(3) by (blast intro: same_files_trans)
  ultimately show thesis
    using that [of ?lease s7] s7(2) s0(4,5) same_files_fields [of s0 s7] same_files_fget [of s0 s7]
    by (auto intro: same_fields_trans)
qed

lemma hy_leased_stored:
  assumes "fst (hy_build_message L (lt_message_key lease) attempt v s) = Inr m"
    and "hy_leased L lease attempt v s = (lr, s')"
  shows "lr_leased lr \<and> lr_message lr = Some m \<and> lr_lease lr = Some lease"
  using assms by (auto simp: hy_leased_def split: prod.splits)

lemma inserted_rows:
  "kv_insert r d = Some x \<Longrightarrow> idx_add q x = Some y \<Longrightarrow>
     db_idx y = db_idx d @ [q] \<and> db_kv y = db_kv d @ [r] \<and> \<not> list_ex (\<lambda>x. kv_key x = kv_key r) (db_kv d)"
  by (auto simp: kv_insert_def idx_add_def split: if_splits)


section \<open>A key that is already there\<close>

text \<open>The directories of a queue exist and no directory is in the way of a payload file.\<close>

definition payload_place :: "hybrid_adapter \<Rightarrow> string \<Rightarrow> string \<Rightarrow> bool" where
  "payload_place s q i \<longleftrightarrow>
     (\<forall>sub \<in> {''active'', ''archive'', ''dlq''}. is_dir s (to_path (payload_dir (hya_payload_root s) q sub)) \<and>
        butlast (to_path (payload_path (hya_payload_root s) q sub i)) = to_path (payload_dir (hya_payload_root s) q sub) \<and>
        to_path (payload_path (hya_payload_root s) q sub i) \<noteq> [] \<and>
        \<not> is_dir s (to_path (payload_path (hya_payload_root s) q sub i)) \<and>
        \<not> is_dir s (with_suffix (to_path (payload_path (hya_payload_root s) q sub i)) ''.tmp''))"

lemma make_dirs_there: "\<forall>d \<in> set ds. is_dir w d \<Longrightarrow> make_dirs ds w = (ok_res, w)"
  by (induction ds) (simp_all add: fexists_def)

lemma atomic_write_ok:
  assumes "no_faults s" "p \<noteq> []" "is_dir s (butlast p)" "\<not> is_dir s p" "\<not> is_dir s (with_suffix p ''.tmp'')"
  obtains s1 where "atomic_write p c s = (ok_res, s1)" "fget s1 p = Some c" "same_env s s1" "dirs s1 = dirs s"
proof -
  have "fst (fst (atomic_write p c s))"
    using assms
    by (auto simp: atomic_write_def os_write_def os_rename_def os_io_def no_faults_def Let_def is_dir_def
        with_suffix_def fget_def split: option.split if_splits)
  then obtain s1 where run: "atomic_write p c s = (ok_res, s1)"
    by (cases "atomic_write p c s")
      (auto simp: atomic_write_def Let_def split: prod.splits option.splits if_splits)
  then show thesis
    by (rule atomic_write_effect [where thesis = thesis]) (use run that in auto)
qed

lemma calm_env:
  fixes s s1 :: hybrid_adapter
  shows "calm d x s \<Longrightarrow> same_env s s1 \<Longrightarrow> calm d x s1"
  using same_env_tables [of s s1] by (simp add: calm_defs same_env_def same_tables_def)


text \<open>Without failures a new key is enqueued.\<close>

definition new_key :: "database \<Rightarrow> string \<Rightarrow> bool" where
  "new_key d key \<longleftrightarrow> \<not> list_ex (\<lambda>x. kv_key x = key) (db_kv d) \<and> \<not> list_ex (\<lambda>x. ix_message_key x = key) (db_idx d)"

lemma hy_enqueue_succeeds:
  assumes "idle s" "hya_is_open s"
    and "plain_message L (build_payload_path s (m_queue e) (m_message_id e)) e"
    and "payload_place s (m_queue e) (m_message_id e)" "new_key (sd_db s) (m_key e)"
  shows "fst (hy_enqueue L E T e s) = ok_res"
proof -
  let ?path = "build_payload_path s (m_queue e) (m_message_id e)"
  have dirs: "ensure_payload_directories (m_queue e) s = (ok_res, s)"
    unfolding ensure_payload_directories_def
    by (rule make_dirs_there) (use assms(4) in \<open>simp add: payload_place_def\<close>)
  obtain now s2 where n: "now_ms s = (now, s2)" by (metis prod.collapse)
  then have s2: "idle s2" "sd_db s2 = sd_db s" "dirs s2 = dirs s"
    using assms(1) by (auto simp: now_ms_def calm_defs)
  let ?state = "if m_available_at_ms e > now then ''delayed'' else ''ready''"
  let ?k = "enqueue_tx L E T e (hya_config s) ?state ?path now"
  obtain s3 where s3: "in_tx fail_res ?k s2 = ?k s3" "calm (sd_db s) (sd_db s) s3" "same_files s2 s3"
    by (rule calm_begin [OF s2(1), of fail_res ?k, unfolded s2(2)])
  have place: "to_path ?path \<noteq> []" "is_dir s3 (butlast (to_path ?path))" "\<not> is_dir s3 (to_path ?path)"
    "\<not> is_dir s3 (with_suffix (to_path ?path) ''.tmp'')"
    using assms(4) s3(3) s2(3) by (simp_all add: payload_place_def is_dir_def same_files_def)
  have "no_faults s3" using s3(2) by (simp add: calm_def)
  from atomic_write_ok [OF this place]
  obtain s4 where s4: "atomic_write (to_path ?path) (jl_dump L 2 (payload_json e)) s3 = (ok_res, s4)" "same_env s3 s4"
    by metis
  have c4: "calm (sd_db s) (sd_db s) s4" by (rule calm_env [OF s3(2) s4(2)])
  let ?kv = "insert_kv (hya_config s) (m_key e) (jl_dump L (- 1) (hy_envelope_json ?path e)) now"
  let ?idx = "insert_idx (hya_config s) ?state e"
  obtain d1 where d1: "ss_effect ?kv (sd_db s) = Some d1" "db_idx d1 = db_idx (sd_db s)"
    using assms(5) by (simp add: insert_kv_def kv_insert_def new_key_def)
  obtain d2 where d2: "ss_effect ?idx d1 = Some d2"
    using assms(5) d1(2) by (simp add: insert_idx_def idx_add_def new_key_def)
  have p: "list_all plain_text (ss_texts ?kv)" "list_all plain_text (ss_texts ?idx)"
    using assms(3) by (simp_all add: plain_message_def insert_kv_def insert_idx_def)
  obtain s5 where s5: "text_execute E T ?kv s4 = (ok_res, s5)" "calm (sd_db s) d1 s5"
    by (rule calm_execute [OF c4 p(1) d1(1), of E T])
  obtain s6 where s6: "text_execute E T ?idx s5 = (ok_res, s6)" "calm (sd_db s) d2 s6"
    by (rule calm_execute [OF s5(2) p(2) d2, of E T])
  have c: "sql_commit E s6 = (ok_res, s6\<lparr>io_n := Suc (io_n s6), sd_saved := None\<rparr>)"
    using s6(2) by (simp add: sql_commit_def calm_defs)
  have "hy_enqueue L E T e s = ?k s3" using hy_enqueue_split [OF assms(2) dirs _ n, of L E T] s3(1) by simp
  also have "?k s3 = (ok_res, s6\<lparr>io_n := Suc (io_n s6), sd_saved := None\<rparr>)"
    by (simp only: enqueue_tx_def s4(1) run_statement_def s5(1) s6(1) c prod.case fst_conv not_True_eq_False if_False if_True)
  finally show ?thesis by simp
qed

section \<open>Acknowledgement\<close>

lemma first_row_tx:
  assumes "tx d P s" "list_all plain_text (sl_texts q)" "first_row E T q s = (row, s1)"
  shows "committed s1 = d" "row = Some x \<Longrightarrow> tx d P s1 \<and> (\<exists>n y. P y \<and> x \<in> set (sl_rows q (se_scan E n) y))"
proof -
  obtain r s2 where q: "sql_query E (sl_rows q) s = (r, s2)" by (metis prod.collapse)
  then have t: "text_query E T q s = (r, s2)" using assms(2) by (simp add: text_query_def)
  have f: "row = (case fst r of Some (x # _) \<Rightarrow> Some x | _ \<Rightarrow> None)" "s1 = s2"
    using assms(3) t by (auto simp: first_row_def split: prod.splits option.splits list.splits)
  show "committed s1 = d"
    using q assms(1) f(2) by (auto simp: sql_query_def os_io_def sql_failed_def tx_def committed_def
        split: if_splits option.splits)
  assume "row = Some x"
  then obtain rest where "fst r = Some (x # rest)" using f(1) by (auto split: option.splits list.splits)
  then have "x # rest = sl_rows q (se_scan E (io_n s)) (sd_db s) \<and> tx d P s2 \<and> P (sd_db s)"
    using q assms(1) by (auto simp: sql_query_def os_io_def tx_def split: if_splits option.splits)
  then have "tx d P s2" "P (sd_db s)" "x \<in> set (sl_rows q (se_scan E (io_n s)) (sd_db s))"
    by (auto dest: sym [of "x # rest"])
  then show "tx d P s1 \<and> (\<exists>n y. P y \<and> x \<in> set (sl_rows q (se_scan E n) y))" using f(2) by blast
qed

lemma with_inflight_cases:
  assumes "engine_ok E" "plain_text key"
  obtains (failed) "\<not> fst (fst (with_inflight E T key k s))"
      "committed (snd (with_inflight E T key k s)) = committed s"
  | (ok) queue s1 where "with_inflight E T key k s = k queue s1" "tx (committed s) ((=) (committed s)) s1"
      "\<exists>r \<in> set (db_idx (committed s)). ix_message_key r = key \<and> ix_state r = ''inflight'' \<and> queue = column_text (ix_queue r)"
proof -
  let ?q = "\<lambda>s1. select_queue_of (hya_config s1) key (Some ''inflight'')"
  let ?k = "\<lambda>s1. case first_row E T (?q s1) s1 of
      (None, s2) \<Rightarrow> tx_abort fail_res (Some ''message not found or not inflight'') s2
    | (Some row, s2) \<Rightarrow> k (cell row 0) s2"
  show thesis
  proof (cases rule: in_tx_cases [of fail_res ?k s, case_names failed ok])
    case (failed e)
    then show thesis using that(1) by (simp add: with_inflight_def)
  next
    case (ok s1)
    obtain row s2 where f: "first_row E T (?q s1) s1 = (row, s2)" by (metis prod.collapse)
    have p: "list_all plain_text (sl_texts (?q s1))" using assms(2) by (simp add: select_queue_of_def)
    note t = first_row_tx [OF ok(3) p f]
    have run: "with_inflight E T key k s = ?k s1" using ok(1) by (simp add: with_inflight_def)
    show thesis
    proof (cases row)
      case None
      then show thesis using run f t(1) that(1) by (simp add: tx_abort_def)
    next
      case (Some x)
      with t(2) obtain n where tx: "tx (committed s) ((=) (committed s)) s2"
        and x: "x \<in> set (sl_rows (?q s1) (se_scan E n) (committed s))" by auto
      have "\<exists>r \<in> set (db_idx (committed s)). ix_message_key r = key \<and> ix_state r = ''inflight'' \<and>
          cell x 0 = column_text (ix_queue r)"
        using x engine_scan_set [OF assms(1)] by (auto simp: select_queue_of_def cell_def)
      moreover have "with_inflight E T key k s = k (cell x 0) s2" using run f Some by simp
      ultimately show thesis using tx that(2) by blast
    qed
  qed
qed


section \<open>One failing call\<close>

text \<open>The call with this number fails, no other one does.\<close>

definition only_fault :: "'a world_scheme \<Rightarrow> nat \<Rightarrow> string \<Rightarrow> bool" where
  "only_fault s n m \<longleftrightarrow> fault s = (\<lambda>k. if k = n then Some m else None)"

lemma only_fault_io:
  "only_fault s n m \<Longrightarrow> os_io s = (if io_n s = n then Some m else None, s\<lparr>io_n := Suc (io_n s)\<rparr>)"
  by (simp add: only_fault_def os_io_def)

lemma first_row_at:
  assumes "os_io s = (None, s1)" "sd_open s" "list_all plain_text (sl_texts q)"
  shows "first_row E T q s =
    ((case sl_rows q (se_scan E (io_n s)) (sd_db s1) of [] \<Rightarrow> None | row # _ \<Rightarrow> Some row), s1)"
  using assms by (simp add: first_row_def text_query_def sql_query_def split: list.split)

lemma queue_row:
  assumes "engine_ok E" "\<exists>r \<in> set (db_idx d). ix_message_key r = key \<and> ix_state r = st"
    and "\<forall>r \<in> set (db_idx d). ix_message_key r = key \<longrightarrow> ix_queue r = q"
  shows "(case sl_rows (select_queue_of cfg key (Some st)) (se_scan E n) d of [] \<Rightarrow> None | row # _ \<Rightarrow> Some row) =
    Some [q]"
proof -
  let ?rows = "filter (\<lambda>r. ix_message_key r = key \<and> ix_state r = st) (se_scan E n (db_idx d))"
  have "set ?rows = set (filter (\<lambda>r. ix_message_key r = key \<and> ix_state r = st) (db_idx d))"
    using engine_scan_set [OF assms(1)] by auto
  with assms(2,3) obtain r rest where "?rows = r # rest" "ix_queue r = q"
    by (cases ?rows) (auto simp: filter_empty_conv)
  then show ?thesis by (simp add: select_queue_of_def)
qed

section \<open>The consistency check\<close>

definition indexed_ids :: "database \<Rightarrow> string \<Rightarrow> string set \<Rightarrow> string set" where
  "indexed_ids d q sts = {extract_message_id_from_key (column_text (ix_message_key r)) | r.
     r \<in> set (db_idx d) \<and> ix_queue r = q \<and> ix_state r \<in> sts}"

definition payload_files :: "hybrid_adapter \<Rightarrow> string \<Rightarrow> string \<Rightarrow> string set" where
  "payload_files s q sub = {i. i \<noteq> [] \<and> CHR ''/'' \<notin> set i \<and>
     fget s (to_path (payload_dir (hya_payload_root s) q sub) @ [i @ ''.json'']) \<noteq> None}"

lemma issues_added: "cr_issues (fold add_issue is r) = cr_issues r @ is"
  by (induction "is" arbitrary: r) (simp_all add: add_issue_def Let_def split: issue_type.split)

lemma set_payload_ids:
  "set (payload_ids (filter (entry_of dir) (map fst (files s)))) =
     {i. i \<noteq> [] \<and> CHR ''/'' \<notin> set i \<and> fget s (dir @ [i @ ''.json'']) \<noteq> None}" (is "?l = ?r")
proof
  show "?l \<subseteq> ?r"
  proof
    fix i assume "i \<in> ?l"
    then obtain p where p: "p \<in> fst ` set (files s)" "entry_of dir p" "length (last p) > 5" "ends_with (last p) ''.json''"
        "i = take (length (last p) - 5) (last p)"
      by (auto simp: payload_ids_def)
    from ends_withE [OF p(4)] obtain j where j: "last p = j @ ''.json''" by blast
    with p have "i = j" "p = dir @ [j @ ''.json'']" "CHR ''/'' \<notin> set j" "j \<noteq> []"
      by (auto simp: entry_of_iff plain_name_def)
    then show "i \<in> ?r" using p(1) by (simp add: fget_def fst_set_map_of)
  qed
  show "?r \<subseteq> ?l"
  proof
    fix i assume i: "i \<in> ?r"
    let ?p = "dir @ [i @ ''.json'']"
    have "?p \<in> set (filter (entry_of dir) (map fst (files s)))"
      using i by (auto simp: fget_def fst_set_map_of entry_of_iff plain_name_def)
    then have "?p \<in> set (filter (\<lambda>p. length (last p) > 5 \<and> ends_with (last p) ''.json'')
        (filter (entry_of dir) (map fst (files s))))"
      using i by simp
    then have "(\<lambda>p. take (length (last p) - 5) (last p)) ?p \<in> ?l"
      unfolding payload_ids_def set_map by (rule imageI)
    then show "i \<in> ?l" by simp
  qed
qed

lemma idle_query:
  assumes "idle s" "list_all plain_text (sl_texts q)"
  obtains n s1 where "text_query E T q s = ((Some (sl_rows q (se_scan E n) (sd_db s)), None), s1)"
    "idle s1" "sd_db s1 = sd_db s" "same_files s s1"
proof -
  have "text_query E T q s = ((Some (sl_rows q (se_scan E (io_n s)) (sd_db s)), None), s\<lparr>io_n := Suc (io_n s)\<rparr>)"
    using assms by (simp add: text_query_def sql_query_def calm_defs)
  moreover have "idle (s\<lparr>io_n := Suc (io_n s)\<rparr>)" using assms(1) by (simp add: calm_defs)
  ultimately show thesis by (rule that) (simp_all add: same_files_def)
qed

lemma idle_list:
  assumes "idle s" "is_dir s (to_path (payload_dir (hya_payload_root s) q sub))"
  obtains ids s1 where "list_payload_files q sub s = (ids, s1)" "set ids = payload_files s q sub"
    "idle s1" "sd_db s1 = sd_db s" "same_files s s1"
proof -
  let ?dir = "to_path (payload_dir (hya_payload_root s) q sub)"
  have "list_payload_files q sub s =
      (payload_ids (filter (entry_of ?dir) (map fst (files s))), s\<lparr>io_n := Suc (io_n s)\<rparr>)"
    using assms by (simp add: list_payload_files_def os_list_files_def fexists_def Let_def calm_defs)
  moreover have "idle (s\<lparr>io_n := Suc (io_n s)\<rparr>)" using assms(1) by (simp add: calm_defs)
  ultimately show thesis
    using that [of _ "s\<lparr>io_n := Suc (io_n s)\<rparr>"]
    by (simp add: same_files_def payload_files_def set_payload_ids)
qed

lemma row_ids_keys:
  "engine_ok E \<Longrightarrow> set (row_ids (Some (sl_rows (select_keys cfg q (Some sts)) (se_scan E n) d))) = indexed_ids d q (set sts)"
  using engine_scan_set [of E n "db_idx d"]
  by (auto simp: row_ids_def select_keys_def indexed_ids_def cell_def image_iff)

lemma issue_type_of [simp]: "ci_type (issue t q i p w) = t"
  by (simp add: issue_def)

lemma no_file_issues:
  "(\<forall>x \<in> set (queue_issues base q now written ia iq af df rf). ci_type x \<notin> {OrphanPayload, MissingPayload}) \<longleftrightarrow>
     set ia = set af \<and> set iq = set df"
  by (simp only: queue_issues_def set_append ball_Un set_map Set.ball_simps issue_type_of set_filter) auto

lemma payload_files_same: "same_files s s' \<Longrightarrow> payload_files s' q sub = payload_files s q sub"
  using same_files_fget [of s s'] by (simp add: payload_files_def same_files_def)

end
