(* ===== verification/Hybrid_Properties.thy ===== *)
theory Hybrid_Properties
  imports Hybrid_Effects SQLite_Properties
begin

text \<open>
  Properties of the hybrid adapter, each with a run on concrete tables and files.
\<close>

section \<open>A concrete adapter\<close>

text \<open>The printer of the reference codec writes neither quotes nor zero bytes.\<close>

lemma quote_free_enc:
  "CHR 0x27 \<notin> set (enc_nat n)" "CHR 0x27 \<notin> set (enc_int i)" "CHR 0x27 \<notin> set (enc_str s)"
  by (auto simp: enc_nat_def enc_int_def enc_str_def)

lemma quote_free_json_enc: "CHR 0x27 \<notin> set (json_enc j)"
proof (induction j)
  case (JObj m)
  have "CHR 0x27 \<notin> set (enc_str k @ json_enc v)" if "(k, v) \<in> set (sorted_list_of_fmap m)" for k v
    using that JObj.IH fmran'I [OF sorted_list_of_fmap_lookup [OF that]] by (simp add: quote_free_enc)
  then show ?case by (auto simp: sorted_list_of_fmap_fmmap quote_free_enc)
qed (auto simp: quote_free_enc)

lemma plain_ref_dump [simp]: "plain_text (jl_dump ref_json n j)"
  by (simp add: plain_text_def ref_json_def quote_free_json_enc zero_free_json_enc)

definition demo_reader :: sql_reader where
  "demo_reader = \<lparr>rd_execute = (\<lambda>n sql t. (None, t)), rd_query = (\<lambda>n sql t. ((Some [], None), t)),
     rd_json_stamp = (\<lambda>v reason now. Some v), rd_json_clear = Some\<rparr>"

definition demo_hybrid :: "database \<Rightarrow> (path \<times> string) list \<Rightarrow> hybrid_adapter" where
  "demo_hybrid d fs = \<lparr>files = fs,
     dirs = map (\<lambda>sub. [''data'', ''payloads'', ''jobs'', sub]) [''active'', ''archive'', ''dlq''],
     clock = (\<lambda>n. 5000), clock_n = 0, guids = (\<lambda>n. ''g''), guid_n = 0, fault = (\<lambda>_. None), io_n = 0,
     sd_open = True, sd_db = d, sd_saved = None, hya_is_open = True, hya_schema_path = [],
     hya_payload_root = ''./data/payloads'', hya_config = demo_sql_config\<rparr>"

lemma demo_hybrid_simps [simp]:
  "idle (demo_hybrid d fs)" "hya_is_open (demo_hybrid d fs)" "committed (demo_hybrid d fs) = d"
  "sd_db (demo_hybrid d fs) = d" "hya_payload_root (demo_hybrid d fs) = ''./data/payloads''"
  "clock (demo_hybrid d fs) = (\<lambda>n. 5000)"
  by (simp_all add: demo_hybrid_def calm_defs)

lemma demo_hybrid_plain: "plain_message ref_json path demo_message"
  unfolding plain_message_def by (simp add: plain_ref_dump) (simp add: demo_message_def plain_text_def)

lemma demo_payload_paths:
  "to_path (payload_path ''./data/payloads'' ''jobs'' sub ''m1'') = [''data'', ''payloads'', ''jobs'', sub, ''m1.json'']"
  "to_path (payload_dir ''./data/payloads'' ''jobs'' sub) = [''data'', ''payloads'', ''jobs'', sub]"
  if "sub \<in> {''active'', ''archive'', ''dlq''}"
  using that by (auto simp: payload_path_def payload_dir_def to_path_def is_absolute_def components_def)

lemma demo_hybrid_place: "payload_place (demo_hybrid d fs) ''jobs'' ''m1''"
  by (simp add: payload_place_def demo_payload_paths is_dir_def with_suffix_def) (simp add: demo_hybrid_def)


abbreviation demo_payload_path :: path where
  "demo_payload_path \<equiv> [''data'', ''payloads'', ''jobs'', ''active'', ''m1.json'']"

lemma demo_message_simps [simp]:
  "m_queue demo_message = ''jobs''" "m_message_id demo_message = ''m1''" "m_key demo_message = ''msg:jobs:m1''"
  "m_priority demo_message = 0" "m_attempt demo_message = 0" "m_created_at_ms demo_message = 0"
  "m_available_at_ms demo_message = 0" "m_target_consumer_id demo_message = []"
  by (simp_all add: demo_message_def)

definition demo_new :: hybrid_adapter where
  "demo_new = demo_hybrid empty_database []"

lemma demo_new_enqueued: "fst (hy_enqueue ref_json demo_engine demo_reader demo_message demo_new) = ok_res"
  unfolding demo_new_def
  by (rule hy_enqueue_succeeds)
    (simp_all add: demo_hybrid_plain demo_hybrid_place new_key_def empty_database_def)

section \<open>The placeholder loops\<close>

declare find_text.simps [simp del]

lemma find_text_simps:
  "pat \<noteq> [] \<Longrightarrow> find_text pat [] = None"
  "find_text pat (c # s) = (if take (length pat) (c # s) = pat then Some 0 else map_option Suc (find_text pat s))"
  by (subst find_text.simps, simp)+

text \<open>A text without the first character of a pattern has no part in an occurrence.\<close>

lemma find_text_append:
  "pat = p # ps \<Longrightarrow> p \<notin> set name \<Longrightarrow>
     find_text pat (name @ s) = map_option ((+) (length name)) (find_text pat s)"
proof (induction name)
  case (Cons c name)
  then have "find_text pat ((c # name) @ s) = map_option Suc (find_text pat (name @ s))"
    by (auto simp: find_text_simps)
  then show ?case using Cons by (cases "find_text pat s") simp_all
next
  case Nil
  then show ?case by (cases "find_text pat s") simp_all
qed

lemma find_text_inside: "find_text pat name \<noteq> None \<Longrightarrow> find_text pat (name @ s) \<noteq> None"
proof (induction name)
  case Nil
  then have "pat = []" by (cases pat) (simp_all add: find_text_simps)
  then show ?case by (subst find_text.simps) simp
next
  case (Cons c name)
  have "take (length pat) ((c # name) @ s) = pat" if "take (length pat) (c # name) = pat"
  proof -
    have "length pat \<le> length (c # name)" using that by (metis length_take min.cobounded1)
    then show ?thesis using that by (simp only: take_append) simp
  qed
  then show ?case using Cons
    by (cases "take (length pat) (c # name) = pat") (simp_all add: find_text_simps)
qed

lemma replace_all_find:
  "pat \<noteq> [] \<Longrightarrow> replace_all pat name s =
     (case find_text pat s of None \<Rightarrow> s
      | Some i \<Rightarrow> take i s @ name @ replace_all pat name (drop (i + length pat) s))"
proof (induction s)
  case Nil
  then show ?case by (simp add: find_text_simps replace_all.simps)
next
  case (Cons c s)
  show ?case
  proof (cases "take (length pat) (c # s) = pat")
    case True
    then have "find_text pat (c # s) = Some 0" by (simp add: find_text_simps)
    then show ?thesis using True Cons.prems by (subst replace_all.simps) simp
  next
    case False
    then have "find_text pat (c # s) = map_option Suc (find_text pat s)" by (simp add: find_text_simps)
    then show ?thesis using False Cons by (subst replace_all.simps) (simp split: option.split)
  qed
qed

lemma replace_in_place_behind:
  assumes "pat = p # ps" "p \<notin> set name"
  shows "replace_in_place pat name (name @ s) = map_option ((@) name) (replace_in_place pat name s)"
  by (subst replace_in_place.simps, subst replace_in_place.simps [of pat name s])
    (simp add: find_text_append [OF assms] split: option.split bind_split)

lemma replace_in_place_all:
  assumes "pat = p # ps" "p \<notin> set name"
  shows "replace_in_place pat name s = Some (replace_all pat name s)"
proof (induction s rule: length_induct)
  case (1 s)
  show ?case
  proof (cases "find_text pat s")
    case None
    then show ?thesis
      using assms(1) replace_all_find [of pat name s] by (subst replace_in_place.simps) simp
  next
    case (Some i)
    let ?t = "drop (i + length pat) s"
    have "s \<noteq> []" using Some assms(1) by (auto simp: find_text_simps)
    then have "length ?t < length s" using assms(1) by simp
    with 1 have "replace_in_place pat name ?t = Some (replace_all pat name ?t)" by blast
    then have "replace_in_place pat name s = Some (take i s @ name @ replace_all pat name ?t)"
      by (subst replace_in_place.simps) (simp add: Some replace_in_place_behind [OF assms])
    then show ?thesis using assms(1) Some replace_all_find [of pat name s] by simp
  qed
qed

lemma replace_in_place_diverges:
  "replace_in_place pat name s = Some r \<Longrightarrow> find_text pat name \<noteq> None \<longrightarrow> find_text pat s = None"
proof (rule replace_in_place.raw_induct
    [of "\<lambda>pat name s r. find_text pat name \<noteq> None \<longrightarrow> find_text pat s = None"])
  fix f :: "string \<Rightarrow> string \<Rightarrow> string \<Rightarrow> string option" and pat name s r
  assume IH: "\<And>pat name s r. f pat name s = Some r \<Longrightarrow> find_text pat name \<noteq> None \<longrightarrow> find_text pat s = None"
    and run: "(case find_text pat s of None \<Rightarrow> Some s
      | Some i \<Rightarrow> Option.bind (f pat name (name @ drop (i + length pat) s)) (\<lambda>r. Some (take i s @ r))) = Some r"
  show "find_text pat name \<noteq> None \<longrightarrow> find_text pat s = None"
  proof (cases "find_text pat s")
    case (Some i)
    with run obtain r' where "f pat name (name @ drop (i + length pat) s) = Some r'"
      by (auto simp: bind_eq_Some_conv)
    from IH [OF this] show ?thesis using find_text_inside [of pat name] by blast
  qed simp
qed

definition placeholders :: "string set" where
  "placeholders = {''{{kv_table}}'', ''{{msg_index_table}}''}"

text \<open>C38: The placeholder loops of the hybrid adapter end, with every placeholder replaced, for each table name
  without an opening brace; they never end on a schema with a placeholder when the table name has that
  placeholder in it, since the search goes on in the inserted text.\<close>

theorem placeholder_loop_ends:
  assumes "pat \<in> placeholders"
  shows "(CHR 0x7B \<notin> set name \<longrightarrow> replace_in_place pat name s = Some (replace_all pat name s)) \<and>
    (find_text pat name \<noteq> None \<and> find_text pat s \<noteq> None \<longrightarrow> replace_in_place pat name s = None)"
proof -
  obtain ps where "pat = CHR 0x7B # ps" using assms by (auto simp: placeholders_def)
  then have "CHR 0x7B \<notin> set name \<Longrightarrow> replace_in_place pat name s = Some (replace_all pat name s)"
    by (rule replace_in_place_all)
  moreover have "replace_in_place pat name s = None" if "find_text pat name \<noteq> None \<and> find_text pat s \<noteq> None"
  proof (cases "replace_in_place pat name s")
    case (Some r)
    from conjunct2 [OF that] replace_in_place_diverges [OF Some, THEN mp, OF conjunct1 [OF that]]
    show ?thesis by (rule notE)
  qed
  ultimately show ?thesis by blast
qed

theorem placeholder_loop_ends_witness:
  "replace_in_place ''{{kv_table}}'' ''kv'' ''CREATE TABLE {{kv_table}} (key)'' = Some ''CREATE TABLE kv (key)'' \<and>
   replace_in_place ''{{kv_table}}'' ''x{{kv_table}}'' ''CREATE TABLE {{kv_table}} (key)'' = None"
proof -
  have p: "''{{kv_table}}'' \<in> placeholders" by (simp add: placeholders_def)
  have r: "replace_all ''{{kv_table}}'' ''kv'' ''CREATE TABLE {{kv_table}} (key)'' = ''CREATE TABLE kv (key)''"
    by (simp add: replace_all.simps)
  have f: "find_text ''{{kv_table}}'' ''x{{kv_table}}'' \<noteq> None"
    "find_text ''{{kv_table}}'' ''CREATE TABLE {{kv_table}} (key)'' \<noteq> None"
    by (simp_all add: find_text_simps)
  show ?thesis
    using placeholder_loop_ends [OF p, of "''kv''" "''CREATE TABLE {{kv_table}} (key)''"]
      placeholder_loop_ends [OF p, of "''x{{kv_table}}''" "''CREATE TABLE {{kv_table}} (key)''"] r f by simp
qed

section \<open>Enqueue and lease\<close>





text \<open>C34: An enqueue under a key that is already there destroys the stored message: without failures it
  reports an error and changes no table, but it has overwritten the payload file of the message that has the
  key and then deletes it.\<close>

theorem hy_enqueue_duplicate:
  assumes "idle s" "hya_is_open s"
    and "plain_message L (build_payload_path s (m_queue e) (m_message_id e)) e"
    and "payload_place s (m_queue e) (m_message_id e)"
    and "list_ex (\<lambda>x. kv_key x = m_key e) (db_kv (sd_db s))"
    and "hy_enqueue L E T e s = (r, s')"
  shows "\<not> fst r \<and> committed s' = committed s \<and>
    fget s' (to_path (build_payload_path s (m_queue e) (m_message_id e))) = None"
proof -
  let ?path = "build_payload_path s (m_queue e) (m_message_id e)"
  have dirs: "ensure_payload_directories (m_queue e) s = (ok_res, s)"
    unfolding ensure_payload_directories_def
    by (rule make_dirs_there) (use assms(4) in \<open>simp add: payload_place_def\<close>)
  obtain now s2 where n: "now_ms s = (now, s2)" by (metis prod.collapse)
  then have s2: "idle s2" "sd_db s2 = sd_db s" "dirs s2 = dirs s" "no_faults s2"
    using assms(1) by (auto simp: now_ms_def calm_defs)
  let ?k = "enqueue_tx L E T e (hya_config s) (if m_available_at_ms e > now then ''delayed'' else ''ready'') ?path now"
  obtain s3 where s3: "in_tx fail_res ?k s2 = ?k s3" "calm (sd_db s) (sd_db s) s3" "same_files s2 s3"
    by (rule calm_begin [OF s2(1), of fail_res ?k, unfolded s2(2)])
  have place: "to_path ?path \<noteq> []" "is_dir s3 (butlast (to_path ?path))" "\<not> is_dir s3 (to_path ?path)"
    "\<not> is_dir s3 (with_suffix (to_path ?path) ''.tmp'')"
    using assms(4) s3(3) s2(3) by (simp_all add: payload_place_def is_dir_def same_files_def)
  have "no_faults s3" using s3(2) by (simp add: calm_def)
  from atomic_write_ok [OF this place]
  obtain s4 where s4: "atomic_write (to_path ?path) (jl_dump L 2 (payload_json e)) s3 = (ok_res, s4)" "same_env s3 s4"
    by metis
  have c4: "calm (sd_db s) (sd_db s) s4" by (rule calm_env [OF s3(2) s4(2)])
  let ?st = "insert_kv (hya_config s) (m_key e) (jl_dump L (- 1) (hy_envelope_json ?path e)) now"
  have "ss_effect ?st (sd_db s) = None" using assms(5) by (simp add: insert_kv_def kv_insert_def)
  then have x: "text_execute E T ?st s4 = (err_res (se_constraint E), s4\<lparr>io_n := Suc (io_n s4)\<rparr>)"
    using assms(3) c4 by (simp add: text_execute_def sql_execute_def insert_kv_def plain_message_def calm_defs)
  define msg where "msg = err_res (''kv insert failed: '' @ value_or (Some (se_constraint E)) ''unknown'')"
  let ?s5 = "s4\<lparr>io_n := Suc (Suc (io_n s4)), sd_db := sd_db s, sd_saved := None\<rparr>"
  have rb: "snd (sql_rollback (s4\<lparr>io_n := Suc (io_n s4)\<rparr>)) = ?s5"
    using c4 by (simp add: sql_rollback_def calm_defs)
  have "(r, s') = remove_payload ?path msg ?s5"
    using assms(6) hy_enqueue_split [OF assms(2) dirs _ n, of L E T] s3(1) s4(1) x rb
    by (simp add: enqueue_tx_def run_statement_def enqueue_failed_def msg_def)
  moreover have "os_remove (to_path ?path) ?s5 =
      (None, ?s5\<lparr>io_n := Suc (Suc (Suc (io_n s4))), files := AList.delete (to_path ?path) (files s4)\<rparr>)"
    using c4 by (simp add: os_remove_def os_io_def Let_def calm_defs)
  ultimately have "r = msg \<and> s' = ?s5\<lparr>io_n := Suc (Suc (Suc (io_n s4))), files := AList.delete (to_path ?path) (files s4)\<rparr>"
    by (simp add: remove_payload_def)
  then show ?thesis using assms(1) by (simp add: msg_def committed_def fget_def idle_def)
qed

definition demo_stored :: hybrid_adapter where
  "demo_stored = demo_hybrid \<lparr>db_kv = [hy_kv_row ref_json [] 1000 demo_message],
       db_idx = [(hy_index_row 1000 demo_message)\<lparr>ix_state := ''inflight'', ix_lease_until := Some 9000\<rparr>]\<rparr>
     [(demo_payload_path, ''payload'')]"

theorem hy_enqueue_duplicate_witness:
  "fget demo_stored demo_payload_path = Some ''payload'' \<and>
   fget (snd (hy_enqueue ref_json demo_engine demo_reader demo_message demo_stored)) demo_payload_path = None"
proof -
  obtain r s' where run: "hy_enqueue ref_json demo_engine demo_reader demo_message demo_stored = (r, s')"
    by (metis prod.collapse)
  have "\<not> fst r \<and> committed s' = committed demo_stored \<and>
      fget s' (to_path (build_payload_path demo_stored (m_queue demo_message) (m_message_id demo_message))) = None"
    by (rule hy_enqueue_duplicate [OF _ _ demo_hybrid_plain _ _ run])
      (simp_all add: demo_stored_def demo_hybrid_place hy_kv_row_def)
  then show ?thesis
    using run by (simp add: demo_stored_def demo_payload_paths) (simp add: demo_hybrid_def fget_def)
qed

section \<open>Acknowledgement\<close>

text \<open>C35: A successful acknowledgement found the message leased, and removes exactly the rows of its key from
  both tables, whatever fails; one that reports an error changes no table.\<close>

theorem hy_ack_only_inflight:
  assumes "engine_ok E" "plain_text (lt_message_key lease)" "hy_ack E T lease s = (r, s')"
  shows "if fst r
    then (\<exists>x \<in> set (db_idx (committed s)). ix_message_key x = lt_message_key lease \<and> ix_state x = ''inflight'') \<and>
         committed s' = (committed s)
           \<lparr>db_idx := filter (\<lambda>x. ix_message_key x \<noteq> lt_message_key lease) (db_idx (committed s)),
            db_kv := filter (\<lambda>x. kv_key x \<noteq> lt_message_key lease) (db_kv (committed s))\<rparr>
    else committed s' = committed s"
proof (cases "hya_is_open s")
  case True
  let ?key = "lt_message_key lease"
  let ?k3 = "\<lambda>queue s1. (ok_res, snd (move_payload_to_archive queue (extract_message_id_from_key ?key) s1))"
  let ?k2 = "\<lambda>queue. tx_commit E fail_res (?k3 queue)"
  let ?k1 = "\<lambda>queue. run_statement E T (delete_kv (hya_config s) ?key) (tx_abort fail_res) (?k2 queue)"
  let ?k0 = "\<lambda>queue. run_statement E T (delete_idx (hya_config s) ?key) (tx_abort fail_res) (?k1 queue)"
  have run: "with_inflight E T ?key ?k0 s = (r, s')" using assms(3) True by (simp add: hy_ack_def Let_def)
  have plain: "list_all plain_text (ss_texts (delete_idx (hya_config s) ?key))"
    "list_all plain_text (ss_texts (delete_kv (hya_config s) ?key))"
    using assms(2) by (simp_all add: delete_idx_def delete_kv_def)
  show ?thesis
  proof (cases rule: with_inflight_cases [OF assms(1,2), of T ?k0 s, case_names failed ok])
    case failed
    then show ?thesis using run by simp
  next
    case (ok queue s1)
    note s1 = ok
    show ?thesis
    proof (cases rule: run_cases [OF ok(2) plain(1), of E T "tx_abort fail_res" "?k1 queue", case_names failed ok])
      case (failed e s2)
      then show ?thesis using run s1(1) by (auto simp: tx_abort_def)
    next
      case (ok s2)
      note s2 = ok
      show ?thesis
      proof (cases rule: run_cases [OF ok(3) plain(2), of E T "tx_abort fail_res" "?k2 queue", case_names failed ok])
        case (failed e s3)
        then show ?thesis using run s1(1) s2(1) by (auto simp: tx_abort_def)
      next
        case (ok s3)
        obtain c s4 where cm: "sql_commit E s3 = (c, s4)" by (metis prod.collapse)
        note c = commit_cases [OF ok(3) cm]
        have x: "(r, s') = (if \<not> fst c then tx_abort fail_res (snd c) s4 else ?k3 queue s4)"
          using run s1(1) s2(1) ok(1) cm by (simp add: tx_commit_def)
        have "committed (snd (?k3 queue s4)) = committed s4"
          by (auto simp: move_payload_to_archive_def rename_payload_def split: prod.splits option.splits
              dest!: os_rename_effect same_env_tables same_tables_committed)
        then show ?thesis
          using x c(2,3) s1(3) by (auto simp: tx_abort_def delete_idx_def delete_kv_def idx_delete_def kv_remove_def split: if_splits)
      qed
    qed
  qed
qed (use assms in \<open>auto simp: hy_ack_def\<close>)

lemmas text_model_defs = text_execute_def text_query_def sql_query_def run_statement_def first_row_def
  with_inflight_def rename_payload_def cell_def kv_remove_def idx_add_def kv_rewrite_def plain_text_def

lemma demo_ack_run: "fst (fst (hy_ack demo_engine demo_reader demo_lease demo_stored))"
  by (simp add: hy_ack_def demo_stored_def demo_hybrid_def demo_lease_def hy_kv_row_def hy_index_row_def
      demo_engine_def demo_reader_def text_model_defs sql_model_defs select_queue_of_def delete_idx_def delete_kv_def
      Let_def cong: weak_congs)

theorem hy_ack_only_inflight_witness:
  "committed (snd (hy_ack demo_engine demo_reader demo_lease demo_stored)) = empty_database"
proof -
  obtain r s' where run: "hy_ack demo_engine demo_reader demo_lease demo_stored = (r, s')" by (metis prod.collapse)
  have "plain_text (lt_message_key demo_lease)" by (simp add: demo_lease_def plain_text_def)
  note claim = hy_ack_only_inflight [OF demo_engine_ok this run]
  have "fst r" using demo_ack_run run by simp
  then show ?thesis
    using claim run
    by (simp add: demo_stored_def demo_lease_def hy_kv_row_def hy_index_row_def empty_database_def)
qed

text \<open>C36: A message that is returned to the dead letters can lose its payload: the payload file is moved before
  the transaction is committed. When the commit fails the method reports the error and the tables still
  have the message leased, but its payload file is gone from where the next lease looks for it.\<close>

theorem hy_nack_loses_payload:
  assumes "hya_is_open s" "sd_open s" "sd_saved s = None" "engine_ok E" "only_fault s (io_n s + 5) m"
    and "plain_text key" "plain_text reason" "plain_text q" "key = lt_message_key lease"
    and "\<exists>r \<in> set (db_idx (sd_db s)). ix_message_key r = key \<and> ix_state r = ''inflight''"
    and "\<forall>r \<in> set (db_idx (sd_db s)). ix_message_key r = key \<longrightarrow> ix_queue r = q"
    and "i = extract_message_id_from_key key" "payload_place s q i"
    and "fget s (to_path (build_payload_path s q i)) = Some c"
    and "to_path (build_payload_path s q i) \<noteq> to_path (build_dlq_path s q i)"
    and "hy_nack E T lease reason False s = (r, s')"
  shows "r = err_res m \<and> committed s' = committed s \<and> fget s' (to_path (build_payload_path s q i)) = None"
proof -
  let ?d = "sd_db s" and ?now = "clock s (clock_n s)" and ?cfg = "hya_config s"
  define at_io where "at_io = (\<lambda>k d. s\<lparr>clock_n := Suc (clock_n s), io_n := io_n s + k, sd_db := d, sd_saved := Some (sd_db s)\<rparr>)"
  have at: "os_io (at_io k d) = (if k = 5 then Some m else None, at_io (Suc k) d)" "sd_open (at_io k d)" "sd_db (at_io k d) = d"
    "io_n (at_io k d) = io_n s + k" "hya_config (at_io k d) = ?cfg" "hya_payload_root (at_io k d) = hya_payload_root s"
    "fget (at_io k d) = fget s" "dirs (at_io k d) = dirs s" "sd_saved (at_io k d) = Some ?d" "committed (at_io k d) = ?d"
    "(at_io k d)\<lparr>sd_db := d'\<rparr> = at_io k d'" for k d d'
    using assms(2,5) by (simp_all add: at_io_def only_fault_def os_io_def fget_def fun_eq_iff committed_def)
  have n: "now_ms s = (?now, s\<lparr>clock_n := Suc (clock_n s)\<rparr>)" by (simp add: now_ms_def)
  have b: "begin_transaction (s\<lparr>clock_n := Suc (clock_n s)\<rparr>) = (ok_res, at_io 1 ?d)"
    using assms(2,3,5) by (simp add: begin_transaction_def os_io_def only_fault_def at_io_def)
  have row: "first_row E T (select_queue_of ?cfg key (Some ''inflight'')) (at_io 1 ?d) = (Some [q], at_io 2 ?d)"
    using first_row_at [of "at_io 1 ?d" "at_io 2 ?d" "select_queue_of ?cfg key (Some ''inflight'')" E T]
      queue_row [OF assms(4,10,11), of ?cfg "io_n s + 1"] assms(6)
    by (simp add: select_queue_of_def eval_nat_numeral at)
  obtain d1 where upd: "text_execute E T (update_dlq ?cfg key) (at_io 2 ?d) = (ok_res, at_io 3 d1)"
    using assms(6)
    by (simp add: text_execute_def sql_execute_def update_dlq_def idx_update_def at eval_nat_numeral)
  obtain r2 d2 where stamp: "text_execute E T (stamp_value ?cfg T key reason ?now) (at_io 3 d1) = (r2, at_io 4 d2)"
    using assms(6,7)
    by (cases "ss_effect (stamp_value ?cfg T key reason ?now) d1")
      (simp_all add: text_execute_def sql_execute_def stamp_value_def at eval_nat_numeral)
  let ?src = "to_path (build_payload_path s q i)" and ?dst = "to_path (build_dlq_path s q i)"
  define s5 where "s5 = (at_io 5 d2)\<lparr>files := AList.update ?dst c (AList.delete ?src (files s))\<rparr>"
  have place: "?dst \<noteq> []" "is_dir (at_io 5 d2) (butlast ?dst)" "\<not> is_dir (at_io 5 d2) ?dst"
    using assms(13) by (simp_all add: payload_place_def is_dir_def at)
  have files: "files (at_io 5 d2) = files s" by (simp add: at_io_def)
  have "os_rename ?src ?dst (at_io 4 d2) = (None, s5)"
    using assms(14) place files by (simp add: os_rename_def at s5_def eval_nat_numeral)
  then have mv: "snd (move_payload_to_dlq q i (at_io 4 d2)) = s5"
    by (simp add: move_payload_to_dlq_def rename_payload_def at)
  have s5: "committed s5 = ?d" "fget s5 ?src = None" "sd_open s5" "os_io s5 = (Some m, s5\<lparr>io_n := io_n s + 6\<rparr>)"
    using assms(2,5,15) by (simp_all add: s5_def at_io_def committed_def fget_def os_io_def only_fault_def)
  obtain s6 where cm: "sql_commit E s5 = (err_res m, s6)" using s5(3,4) by (simp add: sql_commit_def)
  have t: "tx ?d (\<lambda>_. True) s5" by (simp add: tx_def s5_def at)
  have s6: "committed s6 = ?d" "fget s6 = fget s5"
    using commit_cases [OF t cm] same_files_fget [of s5 s6] by simp_all
  have "hy_nack E T lease reason False s = (err_res m, snd (sql_rollback s6))"
    using assms(1)
    by (simp add: hy_nack_def Let_def n with_inflight_def in_tx_def b assms(9) [symmetric] row cell_def
        plain_column [OF assms(8)] run_statement_def upd stamp assms(12) [symmetric] mv tx_commit_def cm tx_abort_def at(5)
        del: One_nat_def)
  then show ?thesis
    using assms(16,3) s6 s5(2) same_files_fget [OF rollback_same [of s6]] by (simp add: committed_def [of s])
qed

definition demo_broken :: hybrid_adapter where
  "demo_broken = demo_stored\<lparr>fault := (\<lambda>k. if k = 5 then Some ''disk full'' else None)\<rparr>"

theorem hy_nack_loses_payload_witness:
  "fst (hy_nack demo_engine demo_reader demo_lease ''bad'' False demo_broken) = err_res ''disk full'' \<and>
   fget (snd (hy_nack demo_engine demo_reader demo_lease ''bad'' False demo_broken)) demo_payload_path = None"
proof -
  obtain r s' where run: "hy_nack demo_engine demo_reader demo_lease ''bad'' False demo_broken = (r, s')"
    by (metis prod.collapse)
  have at: "hya_is_open demo_broken" "sd_open demo_broken" "sd_saved demo_broken = None"
    "only_fault demo_broken (io_n demo_broken + 5) ''disk full''"
    "hya_payload_root demo_broken = ''./data/payloads''"
    by (simp_all add: demo_broken_def demo_stored_def only_fault_def) (simp_all add: demo_hybrid_def)
  have place: "payload_place demo_broken ''jobs'' ''m1''"
    using demo_hybrid_place unfolding demo_broken_def demo_stored_def by (simp add: payload_place_def is_dir_def)
  have wrote: "fget demo_broken (to_path (build_payload_path demo_broken ''jobs'' ''m1'')) = Some ''payload''"
    by (simp add: at demo_payload_paths) (simp add: demo_broken_def demo_stored_def demo_hybrid_def fget_def)
  have "r = err_res ''disk full'' \<and> committed s' = committed demo_broken \<and>
      fget s' (to_path (build_payload_path demo_broken ''jobs'' ''m1'')) = None"
    by (rule hy_nack_loses_payload [OF at(1-3) demo_engine_ok at(4) _ _ _ refl _ _ _ place wrote _ run])
      (simp_all add: at demo_payload_paths demo_lease_def plain_text_def extract_message_id_from_key_def
        after_last_colon_def demo_broken_def demo_stored_def hy_index_row_def)
  then show ?thesis using run by (simp add: at demo_payload_paths)
qed

section \<open>Consistency\<close>

text \<open>C37: Without failures the consistency check of a queue is exact: it reports no orphan and no missing payload
  if and only if the identifiers of the rows that should have a payload under \<open>active\<close>, and under \<open>dlq\<close>, are
  those of the files there.\<close>

theorem hy_check_exact:
  assumes "idle s" "hya_is_open s" "engine_ok E" "plain_text q" "q \<noteq> []"
    and "\<forall>sub \<in> {''active'', ''archive'', ''dlq''}. is_dir s (to_path (payload_dir (hya_payload_root s) q sub))"
    and "hy_check_consistency E T written q s = ((report, err), s')"
  shows "(\<forall>x \<in> set (cr_issues report). ci_type x \<notin> {OrphanPayload, MissingPayload}) \<longleftrightarrow>
    indexed_ids (sd_db s) q {''ready'', ''inflight'', ''delayed''} = payload_files s q ''active'' \<and>
    indexed_ids (sd_db s) q {''dlq''} = payload_files s q ''dlq''"
proof -
  let ?q1 = "select_keys (hya_config s) q None"
  let ?q2 = "select_keys (hya_config s) q (Some [''ready'', ''inflight'', ''delayed''])"
  let ?q3 = "select_keys (hya_config s) q (Some [''dlq''])"
  have p: "list_all plain_text (sl_texts (select_keys cfg q sts))" for cfg sts
    using assms(4) by (simp add: select_keys_def)
  obtain n1 s1 where 1: "text_query E T ?q1 s = ((Some (sl_rows ?q1 (se_scan E n1) (sd_db s)), None), s1)"
      "idle s1" "sd_db s1 = sd_db s" "same_files s s1"
    by (rule idle_query [OF assms(1) p])
  obtain n2 s2 where 2: "text_query E T ?q2 s1 = ((Some (sl_rows ?q2 (se_scan E n2) (sd_db s1)), None), s2)"
      "idle s2" "sd_db s2 = sd_db s1" "same_files s1 s2"
    by (rule idle_query [OF 1(2) p])
  obtain n3 s3 where 3: "text_query E T ?q3 s2 = ((Some (sl_rows ?q3 (se_scan E n3) (sd_db s2)), None), s3)"
      "idle s3" "sd_db s3 = sd_db s2" "same_files s2 s3"
    by (rule idle_query [OF 2(2) p])
  have same: "same_files s s2" "same_files s s3" using 1(4) 2(4) 3(4) by (blast intro: same_files_trans)+
  have dir: "is_dir s3 (to_path (payload_dir (hya_payload_root s3) q ''active''))"
    using assms(6) same(2) same_files_dir [OF same(2)] by (simp add: same_files_def)
  obtain af s4 where 4: "list_payload_files q ''active'' s3 = (af, s4)" "set af = payload_files s3 q ''active''"
      "idle s4" "same_files s3 s4"
    by (rule idle_list [OF 3(2) dir])
  have same4: "same_files s s4" using same(2) 4(4) by (rule same_files_trans)
  have dir: "is_dir s4 (to_path (payload_dir (hya_payload_root s4) q ''dlq''))"
    using assms(6) same4 same_files_dir [OF same4] by (simp add: same_files_def)
  obtain df s5 where 5: "list_payload_files q ''dlq'' s4 = (df, s5)" "set df = payload_files s4 q ''dlq''"
      "idle s5" "same_files s4 s5"
    by (rule idle_list [OF 4(3) dir])
  obtain rf s6 where 6: "list_payload_files q ''archive'' s5 = (rf, s6)" by (metis prod.collapse)
  obtain now s7 where 7: "now_ms s6 = (now, s7)" by (metis prod.collapse)
  have cfg: "hya_config s1 = hya_config s" "hya_config s2 = hya_config s"
    using 1(4) same(1) by (simp_all add: same_files_def)
  obtain ids where ids: "get_indexed_message_ids E T q [] s = ((ids, None), s1)"
    using 1(1) by (simp add: get_indexed_message_ids_def)
  have "hy_check_consistency E T written q s =
      ((fold add_issue (queue_issues (hya_payload_root s7) q now written
          (row_ids (Some (sl_rows ?q2 (se_scan E n2) (sd_db s1))))
          (row_ids (Some (sl_rows ?q3 (se_scan E n3) (sd_db s2)))) af df rf) empty_report, None), s7)"
    using assms(2,5)
    by (simp add: hy_check_consistency_def check_queue_def Let_def ids cfg 2(1) 3(1) 4(1) 5(1) 6 7)
  then have issues: "cr_issues report = queue_issues (hya_payload_root s7) q now written
          (row_ids (Some (sl_rows ?q2 (se_scan E n2) (sd_db s1))))
          (row_ids (Some (sl_rows ?q3 (se_scan E n3) (sd_db s2)))) af df rf"
    using assms(7) by (auto simp: issues_added empty_report_def)
  show ?thesis
    unfolding issues no_file_issues row_ids_keys [OF assms(3)] 4(2) 5(2)
    using payload_files_same [OF same(2)] payload_files_same [OF same4] 1(3) 2(3) by simp
qed

theorem hy_check_exact_witness:
  "list_all (\<lambda>x. ci_type x \<notin> {OrphanPayload, MissingPayload})
     (cr_issues (fst (fst (hy_check_consistency demo_engine demo_reader (\<lambda>_. None) ''jobs'' demo_stored))))"
proof -
  obtain report err s' where run:
    "hy_check_consistency demo_engine demo_reader (\<lambda>_. None) ''jobs'' demo_stored = ((report, err), s')"
    by (metis prod.collapse)
  have idle: "idle demo_stored" "hya_is_open demo_stored" by (simp_all add: demo_stored_def)
  have dirs: "\<forall>sub \<in> {''active'', ''archive'', ''dlq''}.
      is_dir demo_stored (to_path (payload_dir (hya_payload_root demo_stored) ''jobs'' sub))"
    using demo_hybrid_place [unfolded payload_place_def] by (simp add: demo_stored_def)
  have rows: "indexed_ids (sd_db demo_stored) ''jobs'' {''ready'', ''inflight'', ''delayed''} = {''m1''}"
    "indexed_ids (sd_db demo_stored) ''jobs'' {''dlq''} = {}"
    by (auto simp: indexed_ids_def demo_stored_def hy_index_row_def extract_message_id_from_key_def
        after_last_colon_def column_text_def)
  have "payload_files demo_stored ''jobs'' ''active'' = {''m1''}" "payload_files demo_stored ''jobs'' ''dlq'' = {}"
    by (auto simp: payload_files_def demo_stored_def demo_payload_paths)
      (auto simp: demo_hybrid_def fget_def split: if_splits)
  then show ?thesis
    using hy_check_exact [OF idle demo_engine_ok _ _ dirs run] rows run
    by (simp add: plain_text_def list_all_iff)
qed

end
