(* ===== verification/Argument_Parser.thy ===== *)
theory Argument_Parser
  imports Number_Text
begin

text \<open>
  \<open>CommonLibrary/Utilities/ArgumentParser.cpp\<close>: the command line as a map from options to values. The
  operating system call that finds the executable is not modelled: the folder it gives is a field.
\<close>

record argument_parser =
  ap_program_folder :: string
  ap_arguments :: "string \<rightharpoonup> string"

section \<open>Parsing\<close>

definition is_option :: "string \<Rightarrow> bool" where
  "is_option s \<longleftrightarrow> take 2 s = ''--''"

text \<open>\<open>map::insert\<close> keeps a value that is already there.\<close>

definition insert_new :: "'k \<Rightarrow> 'v \<Rightarrow> ('k \<rightharpoonup> 'v) \<Rightarrow> ('k \<rightharpoonup> 'v)" where
  "insert_new k v m = (if m k = None then m(k \<mapsto> v) else m)"

fun parse_arguments :: "string list \<Rightarrow> (string \<rightharpoonup> string) \<Rightarrow> (string \<rightharpoonup> string)" where
  "parse_arguments [] result = result"
| "parse_arguments (argument_id # rest) result =
     (if \<not> is_option argument_id then parse_arguments rest result
      else if argument_id = ''--help'' then parse_arguments rest (insert_new argument_id ''display help'' result)
      else if argument_id = ''--version'' then parse_arguments rest (insert_new argument_id ''display version'' result)
      else
        (case rest of
           [] \<Rightarrow> result
         | v # rest' \<Rightarrow> parse_arguments rest' (result(argument_id \<mapsto> v))))"

definition argument_parser_new :: "string \<Rightarrow> string list \<Rightarrow> argument_parser" where
  "argument_parser_new folder args =
     \<lparr>ap_program_folder = folder, ap_arguments = parse_arguments args Map.empty\<rparr>"

section \<open>Reading an option\<close>

definition ap_to_string :: "argument_parser \<Rightarrow> string \<Rightarrow> string option" where
  "ap_to_string a key = ap_arguments a key"

definition ap_to_short :: "argument_parser \<Rightarrow> string \<Rightarrow> int option" where
  "ap_to_short a key = map_option (\<lambda>s. signed_take_bit 15 (atoi s)) (ap_to_string a key)"

definition ap_to_ushort :: "argument_parser \<Rightarrow> string \<Rightarrow> int option" where
  "ap_to_ushort a key = map_option (\<lambda>s. atoi s mod 2 ^ 16) (ap_to_string a key)"

definition ap_to_int :: "argument_parser \<Rightarrow> string \<Rightarrow> int option" where
  "ap_to_int a key = map_option atoi (ap_to_string a key)"

definition ap_to_uint :: "argument_parser \<Rightarrow> string \<Rightarrow> int option" where
  "ap_to_uint a key = map_option (\<lambda>s. atoi s mod 2 ^ 32) (ap_to_string a key)"

definition ap_to_long :: "argument_parser \<Rightarrow> string \<Rightarrow> int option" where
  "ap_to_long a key = map_option strtol (ap_to_string a key)"

definition ap_to_ulong :: "argument_parser \<Rightarrow> string \<Rightarrow> int option" where
  "ap_to_ulong a key = map_option (\<lambda>s. strtol s mod 2 ^ 64) (ap_to_string a key)"

definition ap_to_bool :: "argument_parser \<Rightarrow> string \<Rightarrow> bool option" where
  "ap_to_bool a key = map_option (\<lambda>s. map ascii_lower s = ''true'') (ap_to_string a key)"

text \<open>The matches of \<open>\s*([^,]+)\s*\<close>: the non-empty parts between commas without their leading white
  space; of a part that is all white space its last character is left.\<close>

fun split_comma :: "string \<Rightarrow> string \<Rightarrow> string list" where
  "split_comma acc [] = [rev acc]"
| "split_comma acc (c # s) =
     (if c = CHR '','' then rev acc # split_comma [] s else split_comma (c # acc) s)"

definition array_element :: "string \<Rightarrow> string" where
  "array_element s = (if list_all is_space s then [last s] else dropWhile is_space s)"

definition ap_to_array :: "argument_parser \<Rightarrow> string \<Rightarrow> string list option" where
  "ap_to_array a key =
     map_option (\<lambda>s. map array_element (filter (\<lambda>p. p \<noteq> []) (split_comma [] s))) (ap_to_string a key)"

section \<open>Properties\<close>

text \<open>The command line that gives options their values.\<close>

definition render_options :: "(string \<times> string) list \<Rightarrow> string list" where
  "render_options kvs = concat (map (\<lambda>(k, v). [k, v]) kvs)"

definition option_name :: "string \<Rightarrow> bool" where
  "option_name k \<longleftrightarrow> is_option k \<and> k \<noteq> ''--help'' \<and> k \<noteq> ''--version''"

lemma parse_render:
  "\<forall>(k, v) \<in> set kvs. option_name k \<Longrightarrow> parse_arguments (render_options kvs @ rest) m =
     parse_arguments rest (m ++ map_of (rev kvs))"
proof (induction kvs arbitrary: m)
  case (Cons kv kvs)
  obtain k v where kv: "kv = (k, v)" by (cases kv)
  have "m(k \<mapsto> v) ++ map_of (rev kvs) = m ++ map_of (rev kvs @ [(k, v)])"
    by (auto simp: map_add_def fun_eq_iff map_of_append split: option.split)
  with Cons kv show ?case by (auto simp: render_options_def option_name_def)
qed (simp add: render_options_def)

text \<open>The parser reads back what a command line says: of options rendered with their values, in
  any order, with repetitions and with values that look like options themselves, \<open>to_string\<close> gives the
  last value of each.\<close>

theorem argument_roundtrip:
  assumes "\<forall>(k, v) \<in> set kvs. option_name k"
  shows "ap_to_string (argument_parser_new folder (render_options kvs)) key = map_of (rev kvs) key"
  using parse_render [OF assms, of "[]" Map.empty]
  by (simp add: ap_to_string_def argument_parser_new_def)

theorem argument_roundtrip_witness:
  "ap_to_string (argument_parser_new ''/opt/'' (render_options
     [(''--backend'', ''fs''), (''--node-id'', ''--backend''), (''--backend'', ''sqlite'')])) ''--backend'' =
     Some ''sqlite''"
  using argument_roundtrip [of "[(''--backend'', ''fs''), (''--node-id'', ''--backend''), (''--backend'', ''sqlite'')]"]
  by (simp add: option_name_def is_option_def)

lemma in_i32_atoi: "ap_to_int a key = Some n \<Longrightarrow> in_i32 n"
  by (auto simp: ap_to_int_def atoi_def)

end
