(* ===== verification/Configurations.thy ===== *)
theory Configurations
  imports Argument_Parser Message_Validator Mailbox_Handler SQLite_Adapter
begin

text \<open>
  \<open>MainMQ/Configurations.cpp\<close>: the settings of the daemon, read from the configuration file, overridden
  from the command line and then repaired. The log is a field: the texts written, errors apart from
  information. What the file system answers comes from \<open>OS_World\<close>, what the JSON library answers from
  \<open>Json\<close>, and what the regular expression library answers from \<open>validator_env\<close>; \<open>re_what\<close> is the text
  of its exception for a pattern.
\<close>

datatype operation_mode = Mailbox_Sqlite | Mailbox_FileSystem | Hybrid_Mode

datatype log_entry = Log_Error string | Log_Info string

record queue_config =
  qc_name :: string
  qc_policy :: queue_policy
  qc_schema :: "message_schema option"

record configurations =
  cf_write_file :: int
  cf_write_console :: int
  cf_root_path :: string
  cf_data_root :: string
  cf_log_root :: string
  cf_schema_version :: string
  cf_node_id :: string
  cf_backend_type :: backend_type
  cf_operation_mode :: operation_mode
  cf_mailbox :: mailbox_config
  cf_sqlite :: sqlite_config
  cf_filesystem :: fs_config
  cf_visibility_timeout_sec :: int
  cf_sweep_interval_ms :: int
  cf_policy_defaults :: queue_policy
  cf_queues :: "queue_config list"
  cf_log :: "log_entry list"

definition log_error :: "string \<Rightarrow> configurations \<Rightarrow> configurations" where
  "log_error text c = c\<lparr>cf_log := cf_log c @ [Log_Error text]\<rparr>"

section \<open>Defaults\<close>

definition default_sqlite :: sqlite_config where
  "default_sqlite = \<lparr>sc_db_path = ''./data/yirangmq.db'', sc_kv_table = ''kv'',
     sc_message_index_table = ''msg_index'', sc_busy_timeout_ms = 5000, sc_journal_mode = ''WAL'',
     sc_synchronous = ''NORMAL''\<rparr>"

definition default_filesystem :: fs_config where
  "default_filesystem = \<lparr>fc_root = ''./data/fs'', fc_inbox_dir = ''inbox'',
     fc_processing_dir = ''processing'', fc_archive_dir = ''archive'', fc_dlq_dir = ''dlq'',
     fc_meta_dir = ''meta''\<rparr>"

definition default_mailbox :: mailbox_config where
  "default_mailbox = \<lparr>mc_root = ''./ipc'', mc_requests_dir = ''requests'',
     mc_processing_dir = ''processing'', mc_responses_dir = ''responses'', mc_dead_dir = ''dead'',
     mc_stale_timeout_ms = 30000, mc_poll_interval_ms = 100, mc_use_folder_watcher = True\<rparr>"

definition default_queue_policy :: queue_policy where
  "default_queue_policy = \<lparr>qp_visibility_timeout_sec = 30,
     qp_retry = \<lparr>rp_limit = 5, rp_backoff = ''exponential'', rp_initial_delay_sec = 1,
       rp_max_delay_sec = 60\<rparr>,
     qp_dlq = \<lparr>dp_enabled = True, dp_queue = '''', dp_retention_days = 14\<rparr>\<rparr>"

definition initial_configurations :: "string \<Rightarrow> configurations" where
  "initial_configurations folder =
     \<lparr>cf_write_file = 0, cf_write_console = 3, cf_root_path = folder, cf_data_root = ''./data'',
      cf_log_root = ''./logs'', cf_schema_version = ''0.1'', cf_node_id = ''local-01'',
      cf_backend_type = SQLite, cf_operation_mode = Mailbox_Sqlite, cf_mailbox = default_mailbox,
      cf_sqlite = default_sqlite, cf_filesystem = default_filesystem, cf_visibility_timeout_sec = 30,
      cf_sweep_interval_ms = 1000, cf_policy_defaults = default_queue_policy, cf_queues = [],
      cf_log = []\<rparr>"

section \<open>Members\<close>

text \<open>\<open>contains(k) && j[k].is_...()\<close>, and the value it then holds: the setting, or what it was.\<close>

definition string_or :: "json \<Rightarrow> string \<Rightarrow> string \<Rightarrow> string" where
  "string_or j k d = (case string_member j k of Some s \<Rightarrow> s | None \<Rightarrow> d)"

definition number_or :: "json_lib \<Rightarrow> json \<Rightarrow> string \<Rightarrow> int \<Rightarrow> int" where
  "number_or L j k d =
     (case jmember j k of
        Some (JInt i) \<Rightarrow> i32 i | Some (JFloat r) \<Rightarrow> i32 (jl_trunc32 L r) | _ \<Rightarrow> d)"

definition bool_or :: "json \<Rightarrow> string \<Rightarrow> bool \<Rightarrow> bool" where
  "bool_or j k d = (case jmember j k of Some (JBool b) \<Rightarrow> b | _ \<Rightarrow> d)"

text \<open>\<open>contains(k) && j[k].is_object()\<close>.\<close>

definition object_member :: "json \<Rightarrow> string \<Rightarrow> json option" where
  "object_member j k = (case jmember j k of Some (JObj m) \<Rightarrow> Some (JObj m) | _ \<Rightarrow> None)"

section \<open>Policies\<close>

definition load_retry_policy :: "json_lib \<Rightarrow> json \<Rightarrow> retry_policy \<Rightarrow> retry_policy" where
  "load_retry_policy L obj d =
     \<lparr>rp_limit = number_or L obj ''limit'' (rp_limit d),
      rp_backoff = string_or obj ''backoff'' (rp_backoff d),
      rp_initial_delay_sec = number_or L obj ''initialDelaySec'' (rp_initial_delay_sec d),
      rp_max_delay_sec = number_or L obj ''maxDelaySec'' (rp_max_delay_sec d)\<rparr>"

definition load_dlq_policy :: "json_lib \<Rightarrow> json \<Rightarrow> dlq_policy \<Rightarrow> dlq_policy" where
  "load_dlq_policy L obj d =
     \<lparr>dp_enabled = bool_or obj ''enabled'' (dp_enabled d),
      dp_queue = string_or obj ''queue'' (dp_queue d),
      dp_retention_days = number_or L obj ''retentionDays'' (dp_retention_days d)\<rparr>"

definition load_queue_policy :: "json_lib \<Rightarrow> json \<Rightarrow> queue_policy \<Rightarrow> queue_policy" where
  "load_queue_policy L obj d =
     \<lparr>qp_visibility_timeout_sec = number_or L obj ''visibilityTimeoutSec'' (qp_visibility_timeout_sec d),
      qp_retry = (case object_member obj ''retry'' of
                    Some r \<Rightarrow> load_retry_policy L r (qp_retry d) | None \<Rightarrow> qp_retry d),
      qp_dlq = (case object_member obj ''dlq'' of
                  Some q \<Rightarrow> load_dlq_policy L q (qp_dlq d) | None \<Rightarrow> qp_dlq d)\<rparr>"

section \<open>Message schemas\<close>

text \<open>A rule that cannot be read is None, with the log entry it leaves.\<close>

definition length_member :: "json_lib \<Rightarrow> json \<Rightarrow> int option" where
  "length_member L obj =
     (case jmember obj ''value'' of
        Some (JInt i) \<Rightarrow> Some (i64 i) | Some (JFloat r) \<Rightarrow> Some (i64 (jl_trunc64 L r)) | _ \<Rightarrow> None)"

definition double_member :: "json \<Rightarrow> rat option" where
  "double_member obj =
     (case jmember obj ''value'' of
        Some v \<Rightarrow> (if is_number v then Some (get_double v) else None) | None \<Rightarrow> None)"

definition enum_member :: "json \<Rightarrow> string list option" where
  "enum_member obj =
     (case jmember obj ''values'' of
        Some (JArr vs) \<Rightarrow>
          (case List.map_filter (\<lambda>v. case v of JStr s \<Rightarrow> Some s | _ \<Rightarrow> None) vs of
             [] \<Rightarrow> None
           | s # ss \<Rightarrow> Some (s # ss))
      | _ \<Rightarrow> None)"

definition typed_rule ::
  "json_lib \<Rightarrow> validator_env \<Rightarrow> (string \<Rightarrow> string) \<Rightarrow> json \<Rightarrow> string \<Rightarrow> string \<Rightarrow> string \<Rightarrow>
     validation_rule option \<times> log_entry list" where
  "typed_rule L env re_what obj field message ty =
     (let quiet = (\<lambda>r. (r, []))
      in if ty = ''required'' then quiet (Some (default_rule field Required message))
         else if ty = ''type'' then
           quiet (map_option (\<lambda>t. (default_rule field Type message)\<lparr>vr_expected_type := t\<rparr>)
                    (string_member obj ''expectedType''))
         else if ty = ''minLength'' then
           quiet (map_option (\<lambda>n. (default_rule field MinLength message)\<lparr>vr_min_length := n\<rparr>) (length_member L obj))
         else if ty = ''maxLength'' then
           quiet (map_option (\<lambda>n. (default_rule field MaxLength message)\<lparr>vr_max_length := n\<rparr>) (length_member L obj))
         else if ty = ''minValue'' then
           quiet (map_option (\<lambda>x. (default_rule field MinValue message)\<lparr>vr_min_value := x\<rparr>) (double_member obj))
         else if ty = ''maxValue'' then
           quiet (map_option (\<lambda>x. (default_rule field MaxValue message)\<lparr>vr_max_value := x\<rparr>) (double_member obj))
         else if ty = ''pattern'' then
           (case string_member obj ''value'' of
              None \<Rightarrow> (None, [])
            | Some p \<Rightarrow>
                if ve_regex env p = None
                then (None, [Log_Info (''invalid regex pattern '' @ quoted p @ '' for field '' @ quoted field @
                                '': '' @ re_what p)])
                else quiet (Some ((default_rule field Pattern message)\<lparr>vr_pattern := p\<rparr>)))
         else if ty = ''enum'' then
           quiet (map_option (\<lambda>vs. (default_rule field Enum message)\<lparr>vr_enum_values := vs\<rparr>) (enum_member obj))
         else if ty = ''custom'' then
           (case string_member obj ''validator'' of
              None \<Rightarrow> (None, [Log_Info (''custom rule for field '' @ quoted field @
                                '' missing '' @ quoted ''validator'' @ '' name'')])
            | Some v \<Rightarrow> quiet (Some ((default_rule field Custom message)\<lparr>vr_custom_validator_name := v\<rparr>)))
         else (None, [Log_Info (''unknown validation rule type '' @ quoted ty @ '' for field '' @ quoted field)]))"

text \<open>\<open>obj.value("errorMessage", "")\<close> throws when the member is not a string.\<close>

definition load_validation_rule ::
  "json_lib \<Rightarrow> validator_env \<Rightarrow> (string \<Rightarrow> string) \<Rightarrow> json \<Rightarrow>
     json_exc + validation_rule option \<times> log_entry list" where
  "load_validation_rule L env re_what obj =
     (case (string_member obj ''field'', string_member obj ''type'') of
        (Some field, Some ty) \<Rightarrow>
          ebind (jvalue get_string obj ''errorMessage'' '''')
            (\<lambda>message. Inr (typed_rule L env re_what obj field message ty))
      | _ \<Rightarrow> Inr (None, []))"

text \<open>The rules of a list, in order, up to the first that throws, and the log entries.\<close>

fun load_rules ::
  "json_lib \<Rightarrow> validator_env \<Rightarrow> (string \<Rightarrow> string) \<Rightarrow> json list \<Rightarrow>
     (json_exc + validation_rule list) \<times> log_entry list" where
  "load_rules L env re_what [] = (Inr [], [])"
| "load_rules L env re_what (j # js) =
     (case load_validation_rule L env re_what j of
        Inl e \<Rightarrow> (Inl e, [])
      | Inr (r, entries) \<Rightarrow>
          (case load_rules L env re_what js of
             (Inl e, entries') \<Rightarrow> (Inl e, entries @ entries')
           | (Inr rs, entries') \<Rightarrow> (Inr (case r of None \<Rightarrow> rs | Some x \<Rightarrow> x # rs), entries @ entries')))"

definition load_message_schema ::
  "json_lib \<Rightarrow> validator_env \<Rightarrow> (string \<Rightarrow> string) \<Rightarrow> json \<Rightarrow>
     (json_exc + message_schema option) \<times> log_entry list" where
  "load_message_schema L env re_what obj =
     (case (case jmember obj ''rules'' of
              Some (JArr js) \<Rightarrow> load_rules L env re_what js
            | _ \<Rightarrow> (Inr [], [])) of
        (Inl e, entries) \<Rightarrow> (Inl e, entries)
      | (Inr rules, entries) \<Rightarrow>
          (Inr (if rules = [] then None
                else Some \<lparr>ms_name = string_or obj ''name'' '''',
                           ms_description = string_or obj ''description'' '''', ms_rules = rules\<rparr>), entries))"

section \<open>The configuration file\<close>

definition load_backend :: "json \<Rightarrow> backend_type \<Rightarrow> backend_type" where
  "load_backend config d =
     (case string_member config ''backend'' of
        None \<Rightarrow> d
      | Some b \<Rightarrow>
          if b = ''sqlite'' then SQLite
          else if b = ''filesystem'' \<or> b = ''fs'' then FileSystem
          else if b = ''hybrid'' then Hybrid else d)"

definition load_mode :: "json \<Rightarrow> operation_mode \<Rightarrow> operation_mode" where
  "load_mode config d =
     (case string_member config ''mode'' of
        None \<Rightarrow> d
      | Some m \<Rightarrow>
          if m = ''mailbox_sqlite'' then Mailbox_Sqlite
          else if m = ''mailbox_fs'' \<or> m = ''mailbox_filesystem'' then Mailbox_FileSystem
          else if m = ''hybrid'' then Hybrid_Mode else d)"

text \<open>A section of the file: the settings of the object member, or what they were.\<close>

definition in_section :: "json \<Rightarrow> string \<Rightarrow> (json \<Rightarrow> 'a \<Rightarrow> 'a) \<Rightarrow> 'a \<Rightarrow> 'a" where
  "in_section config k f d = (case object_member config k of Some j \<Rightarrow> f j d | None \<Rightarrow> d)"

definition load_sqlite :: "json_lib \<Rightarrow> json \<Rightarrow> sqlite_config \<Rightarrow> sqlite_config" where
  "load_sqlite L j d =
     \<lparr>sc_db_path = string_or j ''dbPath'' (sc_db_path d),
      sc_kv_table = string_or j ''kvTable'' (sc_kv_table d),
      sc_message_index_table = string_or j ''messageIndexTable'' (sc_message_index_table d),
      sc_busy_timeout_ms = number_or L j ''busyTimeoutMs'' (sc_busy_timeout_ms d),
      sc_journal_mode = string_or j ''journalMode'' (sc_journal_mode d),
      sc_synchronous = string_or j ''synchronous'' (sc_synchronous d)\<rparr>"

definition load_filesystem :: "json \<Rightarrow> fs_config \<Rightarrow> fs_config" where
  "load_filesystem j d =
     \<lparr>fc_root = string_or j ''root'' (fc_root d),
      fc_inbox_dir = string_or j ''inboxDir'' (fc_inbox_dir d),
      fc_processing_dir = string_or j ''processingDir'' (fc_processing_dir d),
      fc_archive_dir = string_or j ''archiveDir'' (fc_archive_dir d),
      fc_dlq_dir = string_or j ''dlqDir'' (fc_dlq_dir d),
      fc_meta_dir = string_or j ''metaDir'' (fc_meta_dir d)\<rparr>"

definition load_mailbox :: "json_lib \<Rightarrow> json \<Rightarrow> mailbox_config \<Rightarrow> mailbox_config" where
  "load_mailbox L j d =
     \<lparr>mc_root = string_or j ''root'' (mc_root d),
      mc_requests_dir = string_or j ''requestsDir'' (mc_requests_dir d),
      mc_processing_dir = string_or j ''processingDir'' (mc_processing_dir d),
      mc_responses_dir = string_or j ''responsesDir'' (mc_responses_dir d),
      mc_dead_dir = string_or j ''deadDir'' (mc_dead_dir d),
      mc_stale_timeout_ms = number_or L j ''staleTimeoutMs'' (mc_stale_timeout_ms d),
      mc_poll_interval_ms = number_or L j ''pollIntervalMs'' (mc_poll_interval_ms d),
      mc_use_folder_watcher = bool_or j ''useFolderWatcher'' (mc_use_folder_watcher d)\<rparr>"

text \<open>The queues of the file, up to the first whose schema throws.\<close>

definition load_queue ::
  "json_lib \<Rightarrow> validator_env \<Rightarrow> (string \<Rightarrow> string) \<Rightarrow> queue_policy \<Rightarrow> json \<Rightarrow>
     (json_exc + queue_config) \<times> log_entry list" where
  "load_queue L env re_what defaults j =
     (case (case object_member j ''messageSchema'' of
              Some s \<Rightarrow> load_message_schema L env re_what s
            | None \<Rightarrow> (Inr None, [])) of
        (Inl e, entries) \<Rightarrow> (Inl e, entries)
      | (Inr schema, entries) \<Rightarrow>
          (Inr \<lparr>qc_name = string_or j ''name'' '''',
                qc_policy = in_section j ''policy'' (\<lambda>p _. load_queue_policy L p defaults) defaults,
                qc_schema = schema\<rparr>, entries))"

fun load_queues ::
  "json_lib \<Rightarrow> validator_env \<Rightarrow> (string \<Rightarrow> string) \<Rightarrow> queue_policy \<Rightarrow> json list \<Rightarrow>
     queue_config list \<times> log_entry list" where
  "load_queues L env re_what defaults [] = ([], [])"
| "load_queues L env re_what defaults (j # js) =
     (case load_queue L env re_what defaults j of
        (Inl e, entries) \<Rightarrow> ([], entries @ [Log_Error (''JSON parse error: '' @ jl_what L e)])
      | (Inr q, entries) \<Rightarrow>
          (let (qs, entries') = load_queues L env re_what defaults js in (q # qs, entries @ entries')))"

definition load_json ::
  "json_lib \<Rightarrow> validator_env \<Rightarrow> (string \<Rightarrow> string) \<Rightarrow> json \<Rightarrow> configurations \<Rightarrow> configurations" where
  "load_json L env re_what config c =
     (let defaults = in_section config ''policyDefaults'' (load_queue_policy L) (cf_policy_defaults c);
          (queues, entries) = (case jmember config ''queues'' of
                             Some (JArr js) \<Rightarrow> load_queues L env re_what defaults js
                           | _ \<Rightarrow> (cf_queues c, []))
      in c\<lparr>cf_schema_version := string_or config ''schemaVersion'' (cf_schema_version c),
           cf_node_id := string_or config ''nodeId'' (cf_node_id c),
           cf_backend_type := load_backend config (cf_backend_type c),
           cf_operation_mode := load_mode config (cf_operation_mode c),
           cf_data_root := in_section config ''paths'' (\<lambda>j. string_or j ''dataRoot'') (cf_data_root c),
           cf_log_root := in_section config ''paths'' (\<lambda>j. string_or j ''logRoot'') (cf_log_root c),
           cf_sqlite := in_section config ''sqlite'' (load_sqlite L) (cf_sqlite c),
           cf_filesystem := in_section config ''filesystem'' load_filesystem (cf_filesystem c),
           cf_mailbox := in_section config ''ipc'' (load_mailbox L) (cf_mailbox c),
           cf_visibility_timeout_sec := in_section config ''lease'' (\<lambda>j. number_or L j ''visibilityTimeoutSec'')
             (cf_visibility_timeout_sec c),
           cf_sweep_interval_ms := in_section config ''lease'' (\<lambda>j. number_or L j ''sweepIntervalMs'')
             (cf_sweep_interval_ms c),
           cf_policy_defaults := defaults, cf_queues := queues, cf_log := cf_log c @ entries\<rparr>)"

text \<open>Reading the file; \<open>File::open\<close> also fails when the file went away after the test.\<close>

definition configuration_load ::
  "json_lib \<Rightarrow> validator_env \<Rightarrow> (string \<Rightarrow> string) \<Rightarrow> configurations \<Rightarrow> 'a world_scheme \<Rightarrow>
     configurations \<times> 'a world_scheme" where
  "configuration_load L env re_what c w =
     (let name = cf_root_path c @ ''main_mq_configuration.json''; p = to_path name
      in if \<not> fexists w p
         then (log_error (''Configuration file does not exist: '' @ name) c, w)
         else
           (case os_read p w of
              (None, w1) \<Rightarrow>
                (log_error ((if fexists w1 p then ''cannot open file : '' else ''there is no file : '') @ name) c, w1)
            | (Some content, w1) \<Rightarrow>
                (case json_parse L (bytes_to_string content) of
                   Inl e \<Rightarrow> (log_error (''JSON parse error: '' @ jl_what L e) c, w1)
                 | Inr config \<Rightarrow> (load_json L env re_what config c, w1))))"

section \<open>The command line\<close>

definition configuration_parse :: "argument_parser \<Rightarrow> configurations \<Rightarrow> configurations" where
  "configuration_parse a c =
     (let text = (\<lambda>k d. case ap_to_string a k of Some s \<Rightarrow> s | None \<Rightarrow> d);
          number = (\<lambda>k d. case ap_to_int a k of Some n \<Rightarrow> n | None \<Rightarrow> d);
          kind = (\<lambda>k d. case ap_to_int a k of Some n \<Rightarrow> n mod 256 | None \<Rightarrow> d)
      in c\<lparr>cf_backend_type :=
             (case ap_to_string a ''--backend'' of
                None \<Rightarrow> cf_backend_type c
              | Some b \<Rightarrow>
                  if b = ''sqlite'' then SQLite
                  else if b = ''filesystem'' \<or> b = ''fs'' then FileSystem else cf_backend_type c),
           cf_sqlite := (cf_sqlite c)\<lparr>sc_db_path := text ''--db-path'' (sc_db_path (cf_sqlite c))\<rparr>,
           cf_data_root := text ''--data-root'' (cf_data_root c),
           cf_log_root := text ''--log-root'' (cf_log_root c),
           cf_node_id := text ''--node-id'' (cf_node_id c),
           cf_visibility_timeout_sec := number ''--visibility-timeout'' (cf_visibility_timeout_sec c),
           cf_write_console := kind ''--write-console-log'' (cf_write_console c),
           cf_write_file := kind ''--write-file-log'' (cf_write_file c)\<rparr>)"

section \<open>Repair\<close>

text \<open>\<open>is_valid_queue_name\<close>, with \<open>isalnum\<close> of the C locale.\<close>

definition is_valid_queue_name :: "string \<Rightarrow> bool" where
  "is_valid_queue_name name \<longleftrightarrow>
     name \<noteq> [] \<and> length name \<le> 256 \<and>
     list_all (\<lambda>c. (let n = (of_char c :: nat)
                    in (48 \<le> n \<and> n \<le> 57) \<or> (65 \<le> n \<and> n \<le> 90) \<or> (97 \<le> n \<and> n \<le> 122)) \<or>
                   c = CHR ''-'' \<or> c = CHR ''_'') name"

definition is_valid_backoff_type :: "string \<Rightarrow> bool" where
  "is_valid_backoff_type backoff \<longleftrightarrow> backoff \<in> set [''exponential'', ''linear'', ''fixed'']"

text \<open>A repair: the value and the log entry it leaves when the value was not accepted.\<close>

definition repair :: "bool \<Rightarrow> string \<Rightarrow> 'a \<Rightarrow> 'a \<Rightarrow> 'a \<times> log_entry list" where
  "repair bad text good x = (if bad then (good, [Log_Info text]) else (x, []))"

definition validate_retry_policy :: "string \<Rightarrow> retry_policy \<Rightarrow> retry_policy \<times> log_entry list" where
  "validate_retry_policy context p =
     (let (limit, l1) = repair (rp_limit p < 0)
            (context @ '': retry.limit ('' @ int_text (rp_limit p) @ '') must be >= 0, using 0'') 0 (rp_limit p);
          (backoff, l2) = repair (\<not> is_valid_backoff_type (rp_backoff p))
            (context @ '': invalid retry.backoff '' @ quoted (rp_backoff p) @ '', using '' @ quoted ''exponential'')
            ''exponential'' (rp_backoff p);
          (initial, l3) = repair (rp_initial_delay_sec p \<le> 0)
            (context @ '': retry.initialDelaySec ('' @ int_text (rp_initial_delay_sec p) @
             '') must be > 0, using 1'') 1 (rp_initial_delay_sec p);
          (maximum, l4) = repair (rp_max_delay_sec p \<le> 0)
            (context @ '': retry.maxDelaySec ('' @ int_text (rp_max_delay_sec p) @
             '') must be > 0, using 60'') 60 (rp_max_delay_sec p);
          ((initial', maximum'), l5) = repair (maximum < initial)
            (context @ '': retry.maxDelaySec ('' @ int_text maximum @ '') < initialDelaySec ('' @
             int_text initial @ ''), swapping values'') (maximum, initial) (initial, maximum)
      in (\<lparr>rp_limit = limit, rp_backoff = backoff, rp_initial_delay_sec = initial',
           rp_max_delay_sec = maximum'\<rparr>, l1 @ l2 @ l3 @ l4 @ l5))"

definition validate_queue_policy :: "string \<Rightarrow> queue_policy \<Rightarrow> queue_policy \<times> log_entry list" where
  "validate_queue_policy context p =
     (let (visibility, l1) = repair (qp_visibility_timeout_sec p \<le> 0)
            (context @ '': visibilityTimeoutSec ('' @ int_text (qp_visibility_timeout_sec p) @
             '') must be > 0, using 30'') 30 (qp_visibility_timeout_sec p);
          (retry, l2) = validate_retry_policy context (qp_retry p);
          (days, l3) = repair (dp_retention_days (qp_dlq p) \<le> 0)
            (context @ '': dlq.retentionDays ('' @ int_text (dp_retention_days (qp_dlq p)) @
             '') must be > 0, using 14'') 14 (dp_retention_days (qp_dlq p))
      in (\<lparr>qp_visibility_timeout_sec = visibility, qp_retry = retry,
           qp_dlq = (qp_dlq p)\<lparr>dp_retention_days := days\<rparr>\<rparr>, l1 @ l2 @ l3))"

text \<open>The loop over the queues: a bad or repeated name is only logged.\<close>

fun validate_queues :: "string set \<Rightarrow> queue_config list \<Rightarrow> queue_config list \<times> log_entry list" where
  "validate_queues seen [] = ([], [])"
| "validate_queues seen (q # qs) =
     (let l1 = (if is_valid_queue_name (qc_name q) then []
                else [Log_Error (''Invalid queue name '' @ quoted (qc_name q) @
                        '': must be 1-256 alphanumeric/hyphen/underscore characters'')]);
          l2 = (if qc_name q \<in> seen then [Log_Info (''Duplicate queue name: '' @ qc_name q)] else []);
          (p, l3) = validate_queue_policy (''queue '' @ quoted (qc_name q)) (qc_policy q);
          (qs', l4) = validate_queues (insert (qc_name q) seen) qs
      in (q\<lparr>qc_policy := p\<rparr> # qs', l1 @ l2 @ l3 @ l4))"

definition configuration_validate :: "configurations \<Rightarrow> configurations" where
  "configuration_validate c =
     (let (visibility, l1) = repair (cf_visibility_timeout_sec c \<le> 0)
            (''Invalid lease.visibilityTimeoutSec ('' @ int_text (cf_visibility_timeout_sec c) @
             ''), using default 30'') 30 (cf_visibility_timeout_sec c);
          (sweep, l2) = repair (cf_sweep_interval_ms c \<le> 0)
            (''Invalid lease.sweepIntervalMs ('' @ int_text (cf_sweep_interval_ms c) @
             ''), using default 1000'') 1000 (cf_sweep_interval_ms c);
          (defaults, l3) = validate_queue_policy ''policyDefaults'' (cf_policy_defaults c);
          (queues, l4) = validate_queues {} (cf_queues c)
      in c\<lparr>cf_visibility_timeout_sec := visibility, cf_sweep_interval_ms := sweep,
           cf_policy_defaults := defaults, cf_queues := queues, cf_log := cf_log c @ l1 @ l2 @ l3 @ l4\<rparr>)"

section \<open>The constructor and what the daemon asks for\<close>

definition configurations_new ::
  "json_lib \<Rightarrow> validator_env \<Rightarrow> (string \<Rightarrow> string) \<Rightarrow> argument_parser \<Rightarrow> 'a world_scheme \<Rightarrow>
     configurations \<times> 'a world_scheme" where
  "configurations_new L env re_what a w =
     (let (c, w1) = configuration_load L env re_what (initial_configurations (ap_program_folder a)) w
      in (configuration_validate (configuration_parse a c), w1))"

definition sqlite_schema_path :: "configurations \<Rightarrow> string" where
  "sqlite_schema_path c = cf_root_path c @ ''sqlite_schema.sql''"

definition cf_backend_config :: "configurations \<Rightarrow> backend_config" where
  "cf_backend_config c =
     \<lparr>bc_type = cf_backend_type c, bc_filesystem = cf_filesystem c, bc_sqlite = cf_sqlite c\<rparr>"

end
