(* ===== verification/Configuration_Properties.thy ===== *)
theory Configuration_Properties
  imports Configurations
begin

text \<open>
  What the settings the daemon starts with satisfy, whatever the configuration file and the command line
  say.
\<close>

section \<open>Valid settings\<close>

definition valid_retry :: "retry_policy \<Rightarrow> bool" where
  "valid_retry p \<longleftrightarrow> 0 \<le> rp_limit p \<and> is_valid_backoff_type (rp_backoff p) \<and>
     0 < rp_initial_delay_sec p \<and> rp_initial_delay_sec p \<le> rp_max_delay_sec p"

definition valid_policy :: "queue_policy \<Rightarrow> bool" where
  "valid_policy p \<longleftrightarrow> 0 < qp_visibility_timeout_sec p \<and> valid_retry (qp_retry p) \<and>
     0 < dp_retention_days (qp_dlq p)"

definition valid_settings :: "configurations \<Rightarrow> bool" where
  "valid_settings c \<longleftrightarrow> 0 < cf_visibility_timeout_sec c \<and> 0 < cf_sweep_interval_ms c \<and>
     valid_policy (cf_policy_defaults c) \<and> (\<forall>q \<in> set (cf_queues c). valid_policy (qc_policy q))"

definition valid_names :: "configurations \<Rightarrow> bool" where
  "valid_names c \<longleftrightarrow> distinct (map qc_name (cf_queues c)) \<and>
     (\<forall>q \<in> set (cf_queues c). is_valid_queue_name (qc_name q))"

section \<open>Repair\<close>

lemma repair_cases:
  "repair bad text good x = (y, l) \<longleftrightarrow>
     (if bad then y = good \<and> l = [Log_Info text] else y = x \<and> l = [])"
  by (auto simp: repair_def)

lemma validate_retry_valid: "valid_retry (fst (validate_retry_policy ctx p))"
  by (auto simp: validate_retry_policy_def repair_def valid_retry_def is_valid_backoff_type_def Let_def)

lemma validate_retry_same: "snd (validate_retry_policy ctx p) = [] \<longleftrightarrow> valid_retry p"
  "valid_retry p \<Longrightarrow> validate_retry_policy ctx p = (p, [])"
  by (auto simp: validate_retry_policy_def repair_def valid_retry_def Let_def)

lemma validate_queue_valid: "valid_policy (fst (validate_queue_policy ctx p))"
  using validate_retry_valid [of ctx "qp_retry p"]
  by (cases "validate_retry_policy ctx (qp_retry p)")
    (auto simp: validate_queue_policy_def repair_def valid_policy_def Let_def)

lemma validate_queue_same: "snd (validate_queue_policy ctx p) = [] \<longleftrightarrow> valid_policy p"
  "valid_policy p \<Longrightarrow> validate_queue_policy ctx p = (p, [])"
  using validate_retry_same [where p = "qp_retry p" and ctx = ctx]
  by (cases "validate_retry_policy ctx (qp_retry p)";
      auto simp: validate_queue_policy_def repair_def valid_policy_def Let_def)+

lemma validate_queues_valid: "\<forall>q \<in> set (fst (validate_queues seen qs)). valid_policy (qc_policy q)"
proof (induction qs arbitrary: seen)
  case (Cons q qs)
  show ?case
    using Cons [of "insert (qc_name q) seen"]
      validate_queue_valid [of "''queue '' @ quoted (qc_name q)" "qc_policy q"]
    by (auto simp: Let_def split: prod.split)
qed simp

definition queue_fine :: "string set \<Rightarrow> queue_config list \<Rightarrow> bool" where
  "queue_fine seen qs \<longleftrightarrow> distinct (map qc_name qs) \<and> (\<forall>q \<in> set qs. qc_name q \<notin> seen) \<and>
     (\<forall>q \<in> set qs. is_valid_queue_name (qc_name q) \<and> valid_policy (qc_policy q))"

lemma validate_queues_same:
  "snd (validate_queues seen qs) = [] \<longleftrightarrow> queue_fine seen qs"
  "queue_fine seen qs \<Longrightarrow> validate_queues seen qs = (qs, [])"
proof (induction qs arbitrary: seen)
  case (Cons q qs)
  note p = validate_queue_same [where p = "qc_policy q" and ctx = "''queue '' @ quoted (qc_name q)"]
  have f: "queue_fine seen (q # qs) \<longleftrightarrow> is_valid_queue_name (qc_name q) \<and> qc_name q \<notin> seen \<and>
      valid_policy (qc_policy q) \<and> queue_fine (insert (qc_name q) seen) qs" for seen
    by (auto simp: queue_fine_def image_iff)
  { case (1 seen) show ?case using Cons.IH(1) [of "insert (qc_name q) seen"] p(1)
      by (auto simp: f Let_def split: prod.splits if_splits) }
  { case (2 seen) then show ?case using Cons.IH(2) [of "insert (qc_name q) seen"] p(2)
      by (simp add: f) }
qed (simp_all add: queue_fine_def)

text \<open>C22: Whatever the configuration file, the command line and the file system give, the settings the
  constructor ends with are valid: the two lease times are positive, and the default policy and the
  policy of every queue have a positive visibility timeout, a retry limit that is not negative, one of
  the three backoff types, a positive initial delay that is at most the maximal one, and a positive
  retention.\<close>

theorem configurations_valid: "valid_settings (fst (configurations_new L env re_what a w))"
proof -
  have "valid_settings (configuration_validate c)" for c
    using validate_queues_valid [of "{}" "cf_queues c"]
      validate_queue_valid [of "''policyDefaults''" "cf_policy_defaults c"]
    by (auto simp: configuration_validate_def repair_def valid_settings_def Let_def split: prod.split)
  then show ?thesis by (simp add: configurations_new_def split: prod.split)
qed

text \<open>C23: The repair is exact: it leaves a configuration as it is and logs nothing if and only if the
  settings are valid and the names of the queues are valid and distinct.\<close>

theorem validate_exact: "configuration_validate c = c \<longleftrightarrow> valid_settings c \<and> valid_names c"
proof -
  note q = validate_queues_same [where seen = "{}" and qs = "cf_queues c"]
  note d = validate_queue_same [where ctx = "''policyDefaults''" and p = "cf_policy_defaults c"]
  have fine: "valid_settings c \<and> valid_names c \<longleftrightarrow> 0 < cf_visibility_timeout_sec c \<and>
      0 < cf_sweep_interval_ms c \<and> valid_policy (cf_policy_defaults c) \<and> queue_fine {} (cf_queues c)"
    by (auto simp: valid_settings_def valid_names_def queue_fine_def)
  show ?thesis
  proof
    assume "configuration_validate c = c"
    then have "cf_log (configuration_validate c) = cf_log c" by simp
    then show "valid_settings c \<and> valid_names c"
      using q(1) d(1) unfolding fine
      by (auto simp: configuration_validate_def repair_def Let_def split: prod.splits if_splits)
  next
    assume "valid_settings c \<and> valid_names c"
    then show "configuration_validate c = c"
      using q(2) d(2) unfolding fine by (simp add: configuration_validate_def repair_def)
  qed
qed

section \<open>Delays of a configured queue\<close>

definition policy_in_range :: "queue_policy \<Rightarrow> bool" where
  "policy_in_range p \<longleftrightarrow> in_i32 (rp_initial_delay_sec (qp_retry p)) \<and> in_i32 (rp_max_delay_sec (qp_retry p))"

lemma in_i32_number_or: "in_i32 d \<Longrightarrow> in_i32 (number_or L j k d)"
  by (auto simp: number_or_def split: option.split json.split)

lemma load_policy_range: "policy_in_range d \<Longrightarrow> policy_in_range (load_queue_policy L j d)"
  by (auto simp: policy_in_range_def load_queue_policy_def load_retry_policy_def in_i32_number_or
      split: option.split)

lemma validate_policy_range: "policy_in_range p \<Longrightarrow> policy_in_range (fst (validate_queue_policy ctx p))"
  by (auto simp: policy_in_range_def validate_queue_policy_def validate_retry_policy_def repair_def Let_def
      in_i32_def)

lemma load_queues_range:
  assumes "policy_in_range d"
  shows "\<forall>q \<in> set (fst (load_queues L env re_what d js)). policy_in_range (qc_policy q)"
proof (induction js)
  case (Cons j js)
  have "policy_in_range (in_section j ''policy'' (\<lambda>p _. load_queue_policy L p d) d)"
    using assms by (simp add: in_section_def load_policy_range split: option.split)
  with Cons show ?case by (auto simp: load_queue_def split: prod.splits sum.splits option.splits)
qed simp

lemma load_queues_rangeD:
  "load_queues L env re_what d js = (qs, l) \<Longrightarrow> policy_in_range d \<Longrightarrow> q \<in> set qs \<Longrightarrow>
     policy_in_range (qc_policy q)"
  using load_queues_range [of d L env re_what js] by simp

definition settings_in_range :: "configurations \<Rightarrow> bool" where
  "settings_in_range c \<longleftrightarrow> policy_in_range (cf_policy_defaults c) \<and>
     (\<forall>q \<in> set (cf_queues c). policy_in_range (qc_policy q))"

lemma load_json_range: "settings_in_range c \<Longrightarrow> settings_in_range (load_json L env re_what j c)"
proof -
  assume c: "settings_in_range c"
  let ?d = "in_section j ''policyDefaults'' (load_queue_policy L) (cf_policy_defaults c)"
  have "policy_in_range ?d"
    using c by (simp add: settings_in_range_def in_section_def load_policy_range split: option.split)
  then show ?thesis
    using c by (auto simp: settings_in_range_def load_json_def Let_def split: option.splits json.splits prod.splits
        intro: load_queues_rangeD)
qed

lemma initial_range: "settings_in_range (initial_configurations folder)"
  by (simp add: settings_in_range_def initial_configurations_def policy_in_range_def default_queue_policy_def
      in_i32_def)

lemma validate_queues_range:
  "validate_queues seen qs = (rs, l) \<Longrightarrow> \<forall>q \<in> set qs. policy_in_range (qc_policy q) \<Longrightarrow> q \<in> set rs \<Longrightarrow>
     policy_in_range (qc_policy q)"
proof (induction qs arbitrary: seen rs l)
  case (Cons q' qs)
  obtain p l1 where p: "validate_queue_policy (''queue '' @ quoted (qc_name q')) (qc_policy q') = (p, l1)"
    by (metis prod.collapse)
  obtain rs' l2 where r: "validate_queues (insert (qc_name q') seen) qs = (rs', l2)" by (metis prod.collapse)
  have "policy_in_range p"
    using validate_policy_range [of "qc_policy q'" "''queue '' @ quoted (qc_name q')"] Cons.prems(2) p by simp
  then show ?case using Cons.IH [OF r] Cons.prems p r by auto
qed simp

lemma configured_range: "settings_in_range (fst (configurations_new L env re_what a w))"
proof -
  have load: "settings_in_range (fst (configuration_load L env re_what (initial_configurations folder) w))" for folder
    using initial_range [of folder] load_json_range
    by (auto simp: configuration_load_def Let_def log_error_def settings_in_range_def
        split: option.split prod.split sum.split)
  have parse: "settings_in_range (configuration_parse a c) = settings_in_range c" for c
    by (simp add: configuration_parse_def settings_in_range_def Let_def)
  have validate: "settings_in_range c \<Longrightarrow> settings_in_range (configuration_validate c)" for c
    using validate_policy_range [of "cf_policy_defaults c" "''policyDefaults''"]
    by (auto simp: configuration_validate_def settings_in_range_def repair_def Let_def split: prod.split
        intro: validate_queues_range)
  show ?thesis
    using load by (auto simp: configurations_new_def parse split: prod.split intro!: validate)
      (metis fst_conv)
qed


definition demo_settings :: json where
  "demo_settings = jobj [(''backend'', JStr ''fs''), (''queues'', JArr [jobj [(''name'', JStr ''jobs''),
     (''policy'', jobj [(''retry'', jobj [(''backoff'', JStr ''linear''), (''maxDelaySec'', JInt 90)])])]])]"

text \<open>A library that reads every text as these settings.\<close>

definition demo_reader :: json_lib where
  "demo_reader = ref_json\<lparr>jl_parse := (\<lambda>s. Some demo_settings)\<rparr>"

definition demo_install :: world where
  "demo_install = \<lparr>files = [([''/'', ''opt'', ''main_mq_configuration.json''], ''{}'')], dirs = [],
     clock = (\<lambda>n. 0), clock_n = 0, guids = (\<lambda>n. ''''), guid_n = 0, fault = (\<lambda>n. None), io_n = 0\<rparr>"

definition demo_queue :: queue_config where
  "demo_queue = \<lparr>qc_name = ''jobs'', qc_policy = default_queue_policy\<lparr>qp_retry :=
     \<lparr>rp_limit = 5, rp_backoff = ''linear'', rp_initial_delay_sec = 1, rp_max_delay_sec = 90\<rparr>\<rparr>,
     qc_schema = None\<rparr>"

lemma demo_load: "cf_queues (fst (configurations_new demo_reader env re_what
    (argument_parser_new ''/opt/'' []) demo_install)) = [demo_queue]"
  by (simp add: configurations_new_def configuration_load_def argument_parser_new_def demo_reader_def
      demo_settings_def demo_install_def demo_queue_def initial_configurations_def to_path_def is_absolute_def
      components_def fexists_def is_file_def is_dir_def fget_def os_read_def os_io_def json_parse_def
      load_json_def in_section_def object_member_def string_member_def string_or_def load_queue_def
      load_queue_policy_def load_retry_policy_def number_or_def i32_def jobj_def configuration_parse_def
      configuration_validate_def validate_queue_policy_def validate_retry_policy_def repair_def
      is_valid_backoff_type_def is_valid_queue_name_def default_queue_policy_def Let_def)


lemma i32_wrap:
  assumes "2 ^ 31 \<le> y" "y < 2 ^ 32"
  shows "i32 y = y - 2 ^ 32"
proof -
  have "(y + 2 ^ 31) mod 2 ^ 32 = (y + 2 ^ 31 - 2 ^ 32) mod 2 ^ 32" by (rule minus_mod_self2 [symmetric])
  also have "\<dots> = y + 2 ^ 31 - 2 ^ 32" using assms by (intro mod_pos_pos_trivial) simp_all
  finally have "(y + 2 ^ 31) mod 2 ^ Suc 31 - 2 ^ 31 = y - 2 ^ 32" by simp
  then show ?thesis by (simp only: i32_def signed_take_bit_eq_take_bit_shift take_bit_eq_mod)
qed



section \<open>Message schemas\<close>

text \<open>A rule the validator can apply: what its type needs is there.\<close>

definition rule_usable :: "validator_env \<Rightarrow> validation_rule \<Rightarrow> bool" where
  "rule_usable env r \<longleftrightarrow>
     (vr_type r = Pattern \<longrightarrow> ve_regex env (vr_pattern r) \<noteq> None) \<and>
     (vr_type r = Enum \<longrightarrow> vr_enum_values r \<noteq> []) \<and>
     (vr_type r = MinLength \<longrightarrow> in_i64 (vr_min_length r)) \<and>
     (vr_type r = MaxLength \<longrightarrow> in_i64 (vr_max_length r))"

lemma typed_rule_usable:
  "typed_rule L env re_what obj field message ty = (Some r, l) \<Longrightarrow>
     rule_usable env r \<and> vr_custom_validator r = None"
  by (auto simp: typed_rule_def rule_usable_def default_rule_def length_member_def enum_member_def Let_def
      split: if_splits option.splits json.splits list.splits)

lemma load_rules_usable:
  "load_rules L env re_what js = (Inr rs, l) \<Longrightarrow>
     \<forall>r \<in> set rs. rule_usable env r \<and> vr_custom_validator r = None"
proof (induction js arbitrary: rs l)
  case (Cons j js)
  show ?case
    using Cons.prems Cons.IH
    by (auto simp: load_validation_rule_def ebind_Inr_conv dest: typed_rule_usable
        split: sum.splits prod.splits option.splits)
qed simp

lemma load_schema_usable:
  "load_message_schema L env re_what j = (Inr (Some schema), l) \<Longrightarrow> ms_rules schema \<noteq> [] \<and>
     (\<forall>r \<in> set (ms_rules schema). rule_usable env r \<and> vr_custom_validator r = None)"
  using load_rules_usable [of L env re_what]
  by (auto simp: load_message_schema_def split: sum.splits prod.splits if_splits option.splits json.splits)




definition schemas_usable :: "validator_env \<Rightarrow> queue_config list \<Rightarrow> bool" where
  "schemas_usable env qs \<longleftrightarrow> (\<forall>q \<in> set qs. \<forall>schema. qc_schema q = Some schema \<longrightarrow>
     (\<forall>r \<in> set (ms_rules schema). rule_usable env r \<and> vr_custom_validator r = None))"

lemma load_schema_rule:
  "load_message_schema L env re_what j = (Inr (Some schema), l) \<Longrightarrow> r \<in> set (ms_rules schema) \<Longrightarrow>
     rule_usable env r \<and> vr_custom_validator r = None"
  using load_schema_usable by blast

lemma load_queue_usable:
  assumes "load_queue L env re_what d j = (Inr q, l)" "qc_schema q = Some schema" "r \<in> set (ms_rules schema)"
  shows "rule_usable env r \<and> vr_custom_validator r = None"
proof -
  obtain s where "load_message_schema L env re_what s = (Inr (Some schema), l)"
    using assms(1,2) by (auto simp: load_queue_def split: prod.splits sum.splits option.splits)
  then show ?thesis using assms(3) by (rule load_schema_rule)
qed

lemma load_queues_usable: "load_queues L env re_what d js = (qs, l) \<Longrightarrow> schemas_usable env qs"
proof (induction js arbitrary: qs l)
  case (Cons j js)
  obtain x l1 where x: "load_queue L env re_what d j = (x, l1)" by (metis prod.collapse)
  show ?case
  proof (cases x)
    case (Inr q)
    obtain qs' l2 where qs': "load_queues L env re_what d js = (qs', l2)" by (metis prod.collapse)
    show ?thesis
      using Cons.prems Cons.IH [OF qs'] load_queue_usable [of L env re_what d j q l1] x qs' Inr
      by (auto simp: schemas_usable_def)
  qed (use Cons.prems x in \<open>simp add: schemas_usable_def\<close>)
qed (simp add: schemas_usable_def)

lemma validate_queues_schemas: "map qc_schema (fst (validate_queues seen qs)) = map qc_schema qs"
proof (induction qs arbitrary: seen)
  case (Cons q qs)
  show ?case using Cons [of "insert (qc_name q) seen"] by (auto simp: Let_def split: prod.split)
qed simp

lemma schemas_usable_cong: "map qc_schema qs = map qc_schema qs' \<Longrightarrow> schemas_usable env qs = schemas_usable env qs'"
proof -
  have "schemas_usable env qs \<longleftrightarrow> (\<forall>x \<in> set (map qc_schema qs). \<forall>schema. x = Some schema \<longrightarrow>
     (\<forall>r \<in> set (ms_rules schema). rule_usable env r \<and> vr_custom_validator r = None))" for qs
    by (simp add: schemas_usable_def)
  then show "map qc_schema qs = map qc_schema qs' \<Longrightarrow> schemas_usable env qs = schemas_usable env qs'" by metis
qed

lemma configured_schemas_usable: "schemas_usable env (cf_queues (fst (configurations_new L env re_what a w)))"
proof -
  have load: "schemas_usable env (cf_queues (fst (configuration_load L env re_what (initial_configurations f) w)))" for f
    using load_queues_usable [of L env re_what]
    by (auto simp: configuration_load_def load_json_def Let_def log_error_def initial_configurations_def
        schemas_usable_def split: option.split prod.split sum.split json.split)
  have "cf_queues (configuration_parse a c) = cf_queues c" for c
    by (simp add: configuration_parse_def Let_def)
  moreover have "schemas_usable env (cf_queues (configuration_validate c)) = schemas_usable env (cf_queues c)" for c
  proof (rule schemas_usable_cong)
    show "map qc_schema (cf_queues (configuration_validate c)) = map qc_schema (cf_queues c)"
      using validate_queues_schemas [of "{}" "cf_queues c"]
      by (auto simp: configuration_validate_def Let_def split: prod.split)
  qed
  ultimately show ?thesis using load by (simp add: configurations_new_def split: prod.split) (metis fst_conv)
qed

end
