(* ===== verification/Main_Program.thy ===== *)
theory Main_Program
  imports Configuration_Properties Daemon
begin

text \<open>
  \<open>MainMQ/main.cpp\<close>: the daemon from start to shutdown. The adapter is the operation table \<open>B\<close> with its
  \<open>open\<close>; which adapter that is says \<open>create_backend_adapter\<close>. The results of starting the two thread
  pools are arguments. Waiting for the shutdown request and the signal handlers are not modelled.
\<close>

section \<open>The choice of the adapter\<close>

datatype adapter_choice = SQLite_Adapter string | FileSystem_Adapter | Hybrid_Adapter string

definition create_backend_adapter :: "configurations \<Rightarrow> adapter_choice" where
  "create_backend_adapter c =
     (case cf_backend_type c of
        SQLite \<Rightarrow> SQLite_Adapter (sqlite_schema_path c)
      | FileSystem \<Rightarrow> FileSystem_Adapter
      | Hybrid \<Rightarrow> Hybrid_Adapter (sqlite_schema_path c))"

section \<open>Start\<close>

fun save_policies :: "'s backend \<Rightarrow> queue_config list \<Rightarrow> 's \<Rightarrow> log_entry list \<times> 's" where
  "save_policies B [] s = ([], s)"
| "save_policies B (q # qs) s =
     (let (r, s1) = be_save_policy B (qc_name q) (qc_policy q) s;
          entry = (if fst r then Log_Info (''Registered queue: '' @ qc_name q)
                   else Log_Error (''Failed to register queue '' @ qc_name q @ '': '' @
                          value_or (snd r) ''unknown''));
          (entries, s2) = save_policies B qs s1
      in (entry # entries, s2))"

fun register_queues :: "'s backend \<Rightarrow> queue_config list \<Rightarrow> 's queue_manager \<Rightarrow> 's queue_manager" where
  "register_queues B [] m = m"
| "register_queues B (q # qs) m = register_queues B qs (qm_register_queue B (qc_name q) (qc_policy q) m)"

fun register_schemas :: "queue_config list \<Rightarrow> 's mailbox \<Rightarrow> 's mailbox" where
  "register_schemas [] m = m"
| "register_schemas (q # qs) m =
     register_schemas qs
       (case qc_schema q of None \<Rightarrow> m | Some schema \<Rightarrow> mb_register_schema (qc_name q) schema m)"

text \<open>A new handler on the manager, in the state of the operating system it runs in.\<close>

definition new_mailbox :: "mailbox_config \<Rightarrow> 's queue_manager \<Rightarrow> world \<Rightarrow> 's mailbox" where
  "new_mailbox cfg qm w =
     \<lparr>files = files w, dirs = dirs w, clock = clock w, clock_n = clock_n w, guids = guids w,
      guid_n = guid_n w, fault = fault w, io_n = io_n w, mb_running = False, mb_config = cfg,
      mb_validator = \<lparr>mv_schemas = Map.empty, mv_custom = Map.empty\<rparr>,
      mb_metrics = zero_mailbox_metrics, mb_pending = [], mb_has_manager = True, mb_manager = qm\<rparr>"

text \<open>Up to the loop that waits: \<open>Inl\<close> is the exit code 1, with the log and the adapter it leaves.\<close>

definition main_start ::
  "'s backend \<Rightarrow> (backend_config \<Rightarrow> 's \<Rightarrow> res \<times> 's) \<Rightarrow> res \<Rightarrow> res \<Rightarrow> configurations \<Rightarrow> 's \<Rightarrow> world \<Rightarrow>
     log_entry list \<times> 's + log_entry list \<times> 's mailbox" where
  "main_start B open_adapter manager_pool mailbox_pool c s w =
     (let (r, s1) = open_adapter (cf_backend_config c) s
      in if \<not> fst r
         then Inl ([Log_Error (''Failed to initialize backend: '' @ value_or (snd r) ''unknown error'')], s1)
         else
           let (entries, s2) = save_policies B (cf_queues c) s1;
               qm1 = register_queues B (cf_queues c)
                       \<lparr>qm_running = False, qm_policies = Map.empty, qm_backend = s2\<rparr>;
               (r, qm2) = qm_start manager_pool qm1
           in if \<not> fst r
              then Inl (entries @ [Log_Error (''Failed to start QueueManager: '' @
                                     value_or (snd r) ''unknown error'')], qm_backend qm2)
              else
                let m1 = register_schemas (cf_queues c) (new_mailbox (cf_mailbox c) qm2 w);
                    (r, m2) = mb_start mailbox_pool m1
                in if \<not> fst r
                   then Inl (entries @ [Log_Error (''Failed to start MailboxHandler: '' @
                                          value_or (snd r) ''unknown error'')],
                             qm_backend (qm_stop (mb_manager m2)))
                   else Inr (entries, m2))"

definition main_stop :: "'s mailbox \<Rightarrow> 's mailbox" where
  "main_stop m = on_manager qm_stop (mb_stop m)"

section \<open>What runs after a start\<close>

lemma register_queues_policies:
  "qm_policies (register_queues B qs m) =
     qm_policies m ++ map_of (rev (map (\<lambda>q. (qc_name q, qc_policy q)) qs))"
  "qm_running (register_queues B qs m) = qm_running m"
proof (induction qs arbitrary: m)
  case (Cons q qs)
  { case 1 then show ?case
      using Cons.IH(1) by (auto simp: qm_register_queue_def map_add_def fun_eq_iff map_of_append
          split: prod.split option.split) }
  { case 2 then show ?case using Cons.IH(2) by (simp add: qm_register_queue_def split: prod.split) }
qed simp_all

definition configured_schemas :: "queue_config list \<Rightarrow> (string \<times> message_schema) list" where
  "configured_schemas qs =
     List.map_filter (\<lambda>q. map_option (Pair (qc_name q)) (qc_schema q)) qs"

lemma resolve_nothing: "mv_custom v = Map.empty \<Longrightarrow> resolve_custom_validators v schema = schema"
  by (simp add: resolve_custom_validators_def resolve_rule_def map_idI)

lemma register_schemas_validator:
  "mv_custom (mb_validator m) = Map.empty \<Longrightarrow>
     mb_validator (register_schemas qs m) = (mb_validator m)\<lparr>mv_schemas :=
       mv_schemas (mb_validator m) ++ map_of (rev (configured_schemas qs))\<rparr>"
  "mb_manager (register_schemas qs m) = mb_manager m"
  "mb_running (register_schemas qs m) = mb_running m"
proof (induction qs arbitrary: m)
  case (Cons q qs)
  { case 1 then show ?case
      using Cons.IH(1) by (cases "qc_schema q")
        (auto simp: mb_register_schema_def register_schema_def configured_schemas_def resolve_nothing
          map_add_def fun_eq_iff map_of_append List.map_filter_simps split: option.split) }
  { case 2 then show ?case
      using Cons.IH(2) by (simp add: mb_register_schema_def split: option.split) }
  { case 3 then show ?case
      using Cons.IH(3) by (simp add: mb_register_schema_def split: option.split) }
qed (simp_all add: configured_schemas_def List.map_filter_simps)

text \<open>What a successful start leaves, for a configuration read by the constructor.\<close>

definition started :: "configurations \<Rightarrow> 's mailbox \<Rightarrow> bool" where
  "started c m \<longleftrightarrow> mb_running m \<and> qm_running (mb_manager m) \<and>
     qm_policies (mb_manager m) = map_of (rev (map (\<lambda>q. (qc_name q, qc_policy q)) (cf_queues c))) \<and>
     mv_schemas (mb_validator m) = map_of (rev (configured_schemas (cf_queues c)))"

lemma qm_start_effect: "qm_start pool m = (r, m') \<Longrightarrow> fst r \<Longrightarrow>
    qm_running m' \<and> qm_policies m' = qm_policies m"
  by (auto simp: qm_start_def split: if_splits)

lemma make_dirs_mailbox: "make_dirs ds m = (r, m') \<Longrightarrow>
    mb_manager m' = mb_manager m \<and> mb_validator m' = mb_validator m"
proof (induction ds arbitrary: m)
  case (Cons d ds)
  have "mb_manager (snd (os_mkdirs d m)) = mb_manager m \<and> mb_validator (snd (os_mkdirs d m)) = mb_validator m"
    by (simp add: os_mkdirs_def os_io_def Let_def split: option.split)
  with Cons show ?case by (fastforce split: if_splits prod.splits option.splits)
qed simp

lemma mb_start_effect: "mb_start pool m = (r, m') \<Longrightarrow> fst r \<Longrightarrow>
    mb_running m' \<and> mb_manager m' = mb_manager m \<and> mb_validator m' = mb_validator m"
  by (auto simp: mb_start_def mb_ensure_directories_def Let_def now_ms_def simp del: make_dirs.simps split: if_splits prod.splits
      dest!: make_dirs_mailbox)

lemma main_start_started:
  assumes "main_start B op mp bp c s w = Inr (entries, m)"
  shows "started c m"
proof -
  obtain r s1 where op: "op (cf_backend_config c) s = (r, s1)" by (metis prod.collapse)
  obtain es s2 where sp: "save_policies B (cf_queues c) s1 = (es, s2)" by (metis prod.collapse)
  let ?qm = "register_queues B (cf_queues c) \<lparr>qm_running = False, qm_policies = Map.empty, qm_backend = s2\<rparr>"
  obtain r2 qm2 where q: "qm_start mp ?qm = (r2, qm2)" by (metis prod.collapse)
  let ?m1 = "register_schemas (cf_queues c) (new_mailbox (cf_mailbox c) qm2 w)"
  obtain r3 m2 where mb: "mb_start bp ?m1 = (r3, m2)" by (metis prod.collapse)
  have ok: "fst r2" "fst r3" "m = m2"
    using assms op sp q mb by (auto simp: main_start_def Let_def split: if_splits)
  show ?thesis
    using qm_start_effect [OF q ok(1)] mb_start_effect [OF mb ok(2)] ok(3)
    by (simp add: started_def register_queues_policies register_schemas_validator new_mailbox_def)
qed

lemma map_of_rev_names: "map_of (rev (map (\<lambda>q. (f q, g q)) qs)) k = Some v \<Longrightarrow> \<exists>q \<in> set qs. f q = k \<and> g q = v"
  by (auto dest!: map_of_SomeD)

text \<open>C27: A daemon that started on a configuration runs with the policy of the last queue of each name,
  every policy it uses is valid, and no rule of a configured schema checks a value with a custom
  validator: rules of type \<open>custom\<close> are loaded, but the program registers no validator they could name,
  so they accept every payload.\<close>

theorem daemon_starts_configured:
  assumes "c = fst (configurations_new L env re_what a w')"
    and "main_start B op mp bp c s w = Inr (entries, m)"
  shows "started c m \<and>
    (\<forall>queue p. qm_policies (mb_manager m) queue = Some p \<longrightarrow> valid_policy p) \<and>
    (\<forall>queue schema. mv_schemas (mb_validator m) queue = Some schema \<longrightarrow>
       (\<forall>r \<in> set (ms_rules schema). vr_type r = Custom \<longrightarrow> validate_rule L' env payload r = None))"
proof -
  note st = main_start_started [OF assms(2)]
  have "valid_policy p" if "qm_policies (mb_manager m) queue = Some p" for queue p
    using that st map_of_rev_names [of qc_name qc_policy "cf_queues c" queue p]
      configurations_valid [of L env re_what a w']
    by (auto simp: started_def valid_settings_def assms(1))
  moreover have "validate_rule L' env payload r = None"
    if "mv_schemas (mb_validator m) queue = Some schema" "r \<in> set (ms_rules schema)" "vr_type r = Custom"
    for queue schema r
  proof -
    have "(queue, schema) \<in> set (configured_schemas (cf_queues c))"
      using that(1) st by (auto simp: started_def dest!: map_of_SomeD)
    then obtain q where "q \<in> set (cf_queues c)" "qc_schema q = Some schema"
      by (auto simp: configured_schemas_def List.map_filter_def)
    then have "vr_custom_validator r = None"
      using configured_schemas_usable [of env L re_what a w'] that(2)
      by (auto simp: schemas_usable_def assms(1))
    then show ?thesis using that(3) by (simp add: validate_rule_def rule_custom_def split: option.split)
  qed
  ultimately show ?thesis using st by blast
qed

section \<open>A concrete start\<close>

definition demo_env0 :: validator_env where
  "demo_env0 = \<lparr>ve_regex = Map.empty, ve_double_text = (\<lambda>d. '''')\<rparr>"

definition demo_configurations :: configurations where
  "demo_configurations = fst (configurations_new demo_reader demo_env0 (\<lambda>p. '''')
     (argument_parser_new ''/opt/'' []) demo_install)"

definition demo_empty_fs :: fs_adapter where
  "demo_empty_fs = \<lparr>files = [], dirs = [], clock = (\<lambda>n. 0), clock_n = 0, guids = (\<lambda>n. ''''), guid_n = 0,
     fault = (\<lambda>n. None), io_n = 0, fsa_is_open = False, fsa_config = default_filesystem,
     fsa_policies = Map.empty\<rparr>"

lemma make_dirs_ok: "fault m = (\<lambda>n. None) \<Longrightarrow> files m = [] \<Longrightarrow> fst (make_dirs ds m) = ok_res"
proof (induction ds arbitrary: m)
  case (Cons d ds)
  have "os_mkdirs d m = (None, m\<lparr>io_n := Suc (io_n m), dirs := dirs m @ prefixes d\<rparr>)"
    using Cons.prems by (simp add: os_mkdirs_def os_io_def is_file_def fget_def list_ex_iff)
  then show ?case using Cons by simp
qed simp

lemma demo_start: "\<exists>entries m. main_start (fs_backend ref_json) fs_open ok_res ok_res demo_configurations
    demo_empty_fs (demo_install\<lparr>files := []\<rparr>) = Inr (entries, m)"
proof -
  let ?c = demo_configurations and ?w = "demo_install\<lparr>files := []\<rparr>"
  obtain r s1 where op: "fs_open (cf_backend_config ?c) demo_empty_fs = (r, s1)" by (metis prod.collapse)
  have "fst (ensure_directories (demo_empty_fs\<lparr>fsa_config := x\<rparr>)) = ok_res" for x
    unfolding ensure_directories_def by (rule make_dirs_ok) (simp_all add: demo_empty_fs_def)
  then have r: "fst r"
    using op by (auto simp: fs_open_def Let_def demo_empty_fs_def split: prod.splits if_splits) (metis fst_conv)
  obtain es s2 where sp: "save_policies (fs_backend ref_json) (cf_queues ?c) s1 = (es, s2)" by (metis prod.collapse)
  let ?qm = "register_queues (fs_backend ref_json) (cf_queues ?c)
    \<lparr>qm_running = False, qm_policies = Map.empty, qm_backend = s2\<rparr>"
  have q: "qm_start ok_res ?qm = (ok_res, ?qm\<lparr>qm_running := True\<rparr>)"
    by (simp add: qm_start_def register_queues_policies)
  have "fst (fst (mb_start ok_res m))" if "\<not> mb_running m" "fault m = (\<lambda>n. None)" "files m = []" for m :: "fs_adapter mailbox"
    using that make_dirs_ok [OF that(2,3)]
    by (simp add: mb_start_def mb_ensure_directories_def Let_def del: make_dirs.simps split: prod.splits) (metis fst_conv)
  moreover have "fault (register_schemas qs m) = fault m \<and> files (register_schemas qs m) = files m"
    for qs and m :: "fs_adapter mailbox"
    by (induction qs arbitrary: m) (auto simp: mb_register_schema_def split: option.split)
  ultimately have "fst (fst (mb_start ok_res (register_schemas (cf_queues ?c)
      (new_mailbox (cf_mailbox ?c) (?qm\<lparr>qm_running := True\<rparr>) ?w))))"
    by (simp add: register_schemas_validator new_mailbox_def demo_install_def)
  then show ?thesis
    using op r sp q by (simp add: main_start_def Let_def split: prod.split) (metis prod.collapse fst_conv)
qed

theorem daemon_starts_configured_witness:
  "\<exists>entries m. main_start (fs_backend ref_json) fs_open ok_res ok_res demo_configurations
       demo_empty_fs (demo_install\<lparr>files := []\<rparr>) = Inr (entries, m) \<and>
     qm_policies (mb_manager m) ''jobs'' = Some (qc_policy demo_queue) \<and> valid_policy (qc_policy demo_queue)"
proof -
  obtain entries m where run: "main_start (fs_backend ref_json) fs_open ok_res ok_res demo_configurations
      demo_empty_fs (demo_install\<lparr>files := []\<rparr>) = Inr (entries, m)" using demo_start by blast
  note start = daemon_starts_configured [OF demo_configurations_def run]
  then have "qm_policies (mb_manager m) ''jobs'' = Some (qc_policy demo_queue)"
    by (simp add: started_def demo_configurations_def demo_load) (simp add: demo_queue_def)
  with start run show ?thesis by blast
qed

end
