(* ===== verification/Converter.thy ===== *)
theory Converter
  imports Prelude
begin

unbundle bit_operations_syntax

text \<open>
  \<open>CommonLibrary/Utilities/Converter.cpp\<close>: base64 and the conversions between texts and bytes. Bytes are
  8-bit words, the bit buffer is a 32-bit word. A write outside an array is undefined behaviour: it is the value \<open>Out_Of_Bounds\<close>.
  The conversions between character encodings call the locale library only and are not modelled.
\<close>

section \<open>Base64\<close>

definition encode_table :: string where
  "encode_table = ''ABCDEFGHIJKLMNOPQRSTUVWXYZabcdefghijklmnopqrstuvwxyz0123456789+/''"

definition decode_table :: "nat list" where
  "decode_table = [
     64, 64, 64, 64, 64, 64, 64, 64, 64, 64, 64, 64, 64, 64, 64, 64,
     64, 64, 64, 64, 64, 64, 64, 64, 64, 64, 64, 64, 64, 64, 64, 64,
     64, 64, 64, 64, 64, 64, 64, 64, 64, 64, 64, 62, 64, 64, 64, 63,
     52, 53, 54, 55, 56, 57, 58, 59, 60, 61, 64, 64, 64, 64, 64, 64,
     64,  0,  1,  2,  3,  4,  5,  6,  7,  8,  9, 10, 11, 12, 13, 14,
     15, 16, 17, 18, 19, 20, 21, 22, 23, 24, 25, 64, 64, 64, 64, 64,
     64, 26, 27, 28, 29, 30, 31, 32, 33, 34, 35, 36, 37, 38, 39, 40,
     41, 42, 43, 44, 45, 46, 47, 48, 49, 50, 51, 64, 64, 64, 64, 64]"

definition encode_sextet :: "32 word \<Rightarrow> char" where
  "encode_sextet w = encode_table ! unat (w AND 0x3F)"

text \<open>One pass of the loop of \<open>to_base64\<close>: three octets, four characters.\<close>

definition encode_triple :: "8 word \<Rightarrow> 8 word \<Rightarrow> 8 word \<Rightarrow> string" where
  "encode_triple a b c =
     (let triple = push_bit 16 (ucast a) OR push_bit 8 (ucast b) OR (ucast c :: 32 word)
      in [encode_sextet (drop_bit 18 triple), encode_sextet (drop_bit 12 triple),
          encode_sextet (drop_bit 6 triple), encode_sextet triple])"

fun encode_bytes :: "8 word list \<Rightarrow> string" where
  "encode_bytes [] = []"
| "encode_bytes [a] = encode_triple a 0 0"
| "encode_bytes [a, b] = encode_triple a b 0"
| "encode_bytes (a # b # c # rest) = encode_triple a b c @ encode_bytes rest"

definition to_base64 :: "8 word list \<Rightarrow> string" where
  "to_base64 bytes =
     (let result = encode_bytes bytes; n = length result
      in if bytes = [] then []
         else if length bytes mod 3 = 1 then result[n - 1 := CHR ''='', n - 2 := CHR ''='']
         else if length bytes mod 3 = 2 then result[n - 1 := CHR ''='']
         else result)"

datatype decoding = Decoded "8 word list" | Length_Error | Out_Of_Bounds

text \<open>The loop of \<open>from_base64\<close>: the capacity of the result, the bit buffer, the bits in it, what was
  written.\<close>

fun decode_loop :: "nat \<Rightarrow> 32 word \<Rightarrow> nat \<Rightarrow> 8 word list \<Rightarrow> string \<Rightarrow> decoding" where
  "decode_loop cap buffer bits out [] = Decoded out"
| "decode_loop cap buffer bits out (c # s) =
     (if c = CHR ''='' then Decoded out
      else
        let n = (of_char c :: nat)
        in if n \<ge> 128 \<or> decode_table ! n = 64 then decode_loop cap buffer bits out s
           else
             let buffer = push_bit 6 buffer OR of_nat (decode_table ! n); bits = bits + 6
             in if bits \<ge> 8 then
                  (if length out < cap
                   then decode_loop cap buffer (bits - 8) (out @ [ucast (drop_bit (bits - 8) buffer)]) s
                   else Out_Of_Bounds)
                else decode_loop cap buffer bits out s)"

text \<open>The size of the result is computed in 64 bits: below zero it is too large for a vector.\<close>

definition from_base64 :: "string \<Rightarrow> decoding" where
  "from_base64 s =
     (let n = length s;
          padding = (if n > 0 \<and> s ! (n - 1) = CHR ''='' then 1 else 0) +
                    (if n > 1 \<and> s ! (n - 2) = CHR ''='' then 1 else 0 :: nat)
      in if s = [] then Decoded []
         else if n div 4 * 3 < padding then Length_Error
         else decode_loop (n div 4 * 3 - padding) 0 0 [] s)"

lemma length_encode_bytes: "length (encode_bytes bytes) = 4 * ((length bytes + 2) div 3)"
proof (induction bytes rule: encode_bytes.induct)
  case (4 a b c rest)
  have "(5 + length rest) div 3 = Suc ((2 + length rest) div 3)" by presburger
  with 4 show ?case by (simp add: encode_triple_def Let_def)
qed (simp_all add: encode_triple_def Let_def)

text \<open>A character of the alphabet, and its value.\<close>

definition sextet_of :: "char \<Rightarrow> nat option" where
  "sextet_of c =
     (let n = (of_char c :: nat)
      in if c = CHR ''='' \<or> n \<ge> 128 \<or> decode_table ! n = 64 then None else Some (decode_table ! n))"

lemma table_inverse: "map sextet_of encode_table = map Some [0..<64]"
  by (simp add: sextet_of_def encode_table_def decode_table_def upt_rec)

lemma sextet_of_encode: "sextet_of (encode_sextet w) = Some (unat (w AND 0x3F))"
proof -
  have "w AND 0x3F \<le> (0x3F :: 32 word)" by (rule word_and_le1)
  then have "unat (w AND 0x3F) < 64" by (simp add: word_le_nat_alt)
  moreover have "sextet_of (encode_table ! k) = Some k" if "k < 64" for k
  proof -
    have "k < length encode_table" using that by (simp add: encode_table_def)
    then have "sextet_of (encode_table ! k) = map sextet_of encode_table ! k" by simp
    then show ?thesis using that by (simp add: table_inverse)
  qed
  ultimately show ?thesis by (simp add: encode_sextet_def)
qed

lemma decode_step:
  assumes "sextet_of c = Some k"
  shows "decode_loop cap buffer bits out (c # s) =
    (let buffer = push_bit 6 buffer OR of_nat k
     in if bits + 6 \<ge> 8 then
          (if length out < cap
           then decode_loop cap buffer (bits - 2) (out @ [ucast (drop_bit (bits - 2) buffer)]) s
           else Out_Of_Bounds)
        else decode_loop cap buffer (bits + 6) out s)"
  using assms by (auto simp: sextet_of_def Let_def split: if_splits)


lemma triple_bytes:
  fixes a b c :: "8 word" and B :: "32 word"
  defines "t \<equiv> push_bit 16 (ucast a) OR push_bit 8 (ucast b) OR (ucast c :: 32 word)"
  defines "B1 \<equiv> push_bit 6 B OR (drop_bit 18 t AND 0x3F)"
  defines "B2 \<equiv> push_bit 6 B1 OR (drop_bit 12 t AND 0x3F)"
  defines "B3 \<equiv> push_bit 6 B2 OR (drop_bit 6 t AND 0x3F)"
  defines "B4 \<equiv> push_bit 6 B3 OR (t AND 0x3F)"
  shows "ucast (drop_bit 4 B2) = a" "ucast (drop_bit 2 B3) = b" "ucast B4 = c"
proof -
  have m: "(0x3F :: 32 word) = mask 6" by (simp add: mask_eq_exp_minus_1)
  have [simp]: "\<not> n < 2 \<Longrightarrow> Suc (Suc (n - 2)) = n" "\<not> bit (x :: 8 word) (8 + n)"
    "\<not> bit (x :: 8 word) (16 + n)" for n x
    by (auto dest: bit_imp_le_length)
  show "ucast (drop_bit 4 B2) = a"
    unfolding B2_def B1_def t_def m
    by (rule bit_word_eqI) (auto simp: bit_simps not_less [symmetric] simp del: not_less)
  show "ucast (drop_bit 2 B3) = b"
    unfolding B3_def B2_def B1_def t_def m
    by (rule bit_word_eqI) (auto simp: bit_simps not_less [symmetric] simp del: not_less)
  show "ucast B4 = c"
    unfolding B4_def B3_def B2_def B1_def t_def m
    by (rule bit_word_eqI) (auto simp: bit_simps not_less [symmetric] simp del: not_less)
qed


text \<open>One character, for each number of bits the buffer can hold before it.\<close>

definition shift_in :: "32 word \<Rightarrow> 32 word \<Rightarrow> 32 word" where
  "shift_in buffer w = push_bit 6 buffer OR (w AND 0x3F)"

lemma decode_sextet:
  "decode_loop cap B 0 out (encode_sextet w # s) = decode_loop cap (shift_in B w) 6 out s"
  "length out < cap \<Longrightarrow> decode_loop cap B 6 out (encode_sextet w # s) =
     decode_loop cap (shift_in B w) 4 (out @ [ucast (drop_bit 4 (shift_in B w))]) s"
  "length out < cap \<Longrightarrow> decode_loop cap B 4 out (encode_sextet w # s) =
     decode_loop cap (shift_in B w) 2 (out @ [ucast (drop_bit 2 (shift_in B w))]) s"
  "length out < cap \<Longrightarrow> decode_loop cap B 2 out (encode_sextet w # s) =
     decode_loop cap (shift_in B w) 0 (out @ [ucast (shift_in B w)]) s"
  by (simp_all add: decode_step [OF sextet_of_encode] shift_in_def Let_def del: decode_loop.simps)

declare decode_loop.simps(2) [simp del]

text \<open>Four characters of the alphabet, the buffer empty: three bytes, whatever was left in the buffer.\<close>

lemma triple_shift:
  fixes a b c :: "8 word" and B :: "32 word"
  defines "t \<equiv> push_bit 16 (ucast a) OR push_bit 8 (ucast b) OR (ucast c :: 32 word)"
  defines "B2 \<equiv> shift_in (shift_in B (drop_bit 18 t)) (drop_bit 12 t)"
  defines "B3 \<equiv> shift_in B2 (drop_bit 6 t)"
  shows "ucast (drop_bit 4 B2) = a" "ucast (drop_bit 2 B3) = b" "ucast (shift_in B3 t) = c"
  using triple_bytes [where a = a and b = b and c = c and B = B]
  unfolding t_def B2_def B3_def shift_in_def by simp_all

lemma decode_triple:
  "length out + 3 \<le> cap \<Longrightarrow>
     \<exists>B'. decode_loop cap B 0 out (encode_triple a b c @ s) = decode_loop cap B' 0 (out @ [a, b, c]) s"
  "length out + 2 \<le> cap \<Longrightarrow>
     decode_loop cap B 0 out (take 3 (encode_triple a b c) @ CHR ''='' # s) = Decoded (out @ [a, b])"
  "length out + 1 \<le> cap \<Longrightarrow>
     decode_loop cap B 0 out (take 2 (encode_triple a b c) @ CHR ''='' # s) = Decoded (out @ [a])"
proof -
  define t where "t = push_bit 16 (ucast a) OR push_bit 8 (ucast b) OR (ucast c :: 32 word)"
  note bytes = triple_shift [where a = a and b = b and c = c and B = B, folded t_def]
  have e: "encode_triple a b c = [encode_sextet (drop_bit 18 t), encode_sextet (drop_bit 12 t),
      encode_sextet (drop_bit 6 t), encode_sextet t]"
    by (simp add: encode_triple_def t_def)
  have stop: "decode_loop cap B bits out (CHR ''='' # s) = Decoded out" for B bits out
    by (simp add: decode_loop.simps(2))
  show "length out + 3 \<le> cap \<Longrightarrow>
     \<exists>B'. decode_loop cap B 0 out (encode_triple a b c @ s) = decode_loop cap B' 0 (out @ [a, b, c]) s"
    by (simp add: e decode_sextet bytes) blast
  show "length out + 2 \<le> cap \<Longrightarrow>
     decode_loop cap B 0 out (take 3 (encode_triple a b c) @ CHR ''='' # s) = Decoded (out @ [a, b])"
    by (simp add: e decode_sextet bytes stop)
  show "length out + 1 \<le> cap \<Longrightarrow>
     decode_loop cap B 0 out (take 2 (encode_triple a b c) @ CHR ''='' # s) = Decoded (out @ [a])"
    by (simp add: e decode_sextet bytes stop)
qed

text \<open>What \<open>to_base64\<close> makes of the last one to three bytes.\<close>

lemma to_base64_step:
  "to_base64 [] = []"
  "to_base64 [a] = take 2 (encode_triple a 0 0) @ ''==''"
  "to_base64 [a, b] = take 3 (encode_triple a b 0) @ ''=''"
  "to_base64 (a # b # c # rest) = encode_triple a b c @ to_base64 rest"
proof -
  show "to_base64 [] = []" "to_base64 [a] = take 2 (encode_triple a 0 0) @ ''==''"
    "to_base64 [a, b] = take 3 (encode_triple a b 0) @ ''=''"
    by (simp_all add: to_base64_def encode_triple_def Let_def)
  have l: "length (encode_triple a b c) = 4" by (simp add: encode_triple_def Let_def)
  show "to_base64 (a # b # c # rest) = encode_triple a b c @ to_base64 rest"
  proof (cases "rest = []")
    case True
    then show ?thesis by (simp add: to_base64_def Let_def)
  next
    case False
    let ?n = "length (encode_bytes rest)"
    have n: "?n \<ge> 4" using False by (cases rest) (simp_all add: length_encode_bytes)
    have m: "length (a # b # c # rest) mod 3 = length rest mod 3"
    proof -
      have "length (a # b # c # rest) = length rest + 3" by simp
      then show ?thesis by (simp only: mod_add_self2)
    qed
    have u: "(encode_triple a b c @ xs)[length (encode_triple a b c @ encode_bytes rest) - k := x] =
        encode_triple a b c @ xs[?n - k := x]" if "k \<le> 2" for k x xs
    proof -
      have "length (encode_triple a b c @ encode_bytes rest) - k = length (encode_triple a b c) + (?n - k)"
        using that n l by simp
      then show ?thesis by (simp only: list_update_append) simp
    qed
    have le: "(1::nat) \<le> 2" "(2::nat) \<le> 2" by simp_all
    show ?thesis
      unfolding to_base64_def Let_def m encode_bytes.simps u [OF le(1)] u [OF le(2)]
      using False by simp
  qed
qed

lemma length_to_base64: "length (to_base64 bytes) = 4 * ((length bytes + 2) div 3)"
  by (simp add: to_base64_def Let_def length_encode_bytes)

lemma decode_to_base64:
  "length out + length bytes \<le> cap \<Longrightarrow> decode_loop cap B 0 out (to_base64 bytes) = Decoded (out @ bytes)"
proof (induction bytes arbitrary: B out rule: encode_bytes.induct)
  case (4 a b c rest)
  from 4 have "length out + 3 \<le> cap" by simp
  from decode_triple(1) [OF this] obtain B' where
    "decode_loop cap B 0 out (encode_triple a b c @ to_base64 rest) =
     decode_loop cap B' 0 (out @ [a, b, c]) (to_base64 rest)" by blast
  with 4 show ?case by (simp add: to_base64_step)
qed (simp_all add: to_base64_step decode_triple)

text \<open>The size \<open>from_base64\<close> computes from the padding.\<close>

definition padding_of :: "string \<Rightarrow> nat" where
  "padding_of s = (if length s > 0 \<and> s ! (length s - 1) = CHR ''='' then 1 else 0) +
     (if length s > 1 \<and> s ! (length s - 2) = CHR ''='' then 1 else 0)"

lemma encode_sextet_not_pad: "encode_sextet w \<noteq> CHR ''=''"
  using sextet_of_encode [of w] by (auto simp: sextet_of_def)

lemma encode_triple_chars:
  obtains w x y z where "encode_triple a b c = [encode_sextet w, encode_sextet x, encode_sextet y, encode_sextet z]"
  by (simp add: encode_triple_def Let_def)

lemma padding_to_base64: "bytes \<noteq> [] \<Longrightarrow> padding_of (to_base64 bytes) + length bytes = length (to_base64 bytes) div 4 * 3"
proof (induction bytes rule: encode_bytes.induct)
  case (4 a b c rest)
  show ?case
  proof (cases "rest = []")
    case True
    obtain w x y z where "encode_triple a b c = [encode_sextet w, encode_sextet x, encode_sextet y, encode_sextet z]"
      by (rule encode_triple_chars)
    with True show ?thesis by (simp add: to_base64_step padding_of_def encode_sextet_not_pad)
  next
    case False
    then have "length (to_base64 rest) \<ge> 4" by (cases rest) (simp_all add: length_to_base64)
    moreover have "length (encode_triple a b c) = 4" by (simp add: encode_triple_def Let_def)
    ultimately have "padding_of (encode_triple a b c @ to_base64 rest) = padding_of (to_base64 rest)"
      by (auto simp: padding_of_def nth_append)
    moreover have "length (encode_triple a b c @ to_base64 rest) div 4 * 3 = length (to_base64 rest) div 4 * 3 + 3"
    proof -
      have "length (encode_triple a b c @ to_base64 rest) = 4 + length (to_base64 rest)"
        by (simp add: encode_triple_def Let_def)
      then show ?thesis by (simp only: div_add_self1) simp
    qed
    ultimately show ?thesis using 4 False by (simp add: to_base64_step)
  qed
next
  case (2 a)
  obtain w x y z where "encode_triple a 0 0 = [encode_sextet w, encode_sextet x, encode_sextet y, encode_sextet z]"
    by (rule encode_triple_chars)
  then show ?case by (simp add: to_base64_step padding_of_def)
next
  case (3 a b)
  obtain w x y z where "encode_triple a b 0 = [encode_sextet w, encode_sextet x, encode_sextet y, encode_sextet z]"
    by (rule encode_triple_chars)
  then show ?case by (simp add: to_base64_step padding_of_def encode_sextet_not_pad numeral_2_eq_2)
qed simp

text \<open>C29: Base64 round trip: decoding what \<open>to_base64\<close> made of any bytes gives the bytes back, and no write of
  the decoder leaves its array.\<close>

theorem base64_roundtrip: "from_base64 (to_base64 bytes) = Decoded bytes"
proof (cases "bytes = []")
  case False
  have p: "padding_of (to_base64 bytes) + length bytes = length (to_base64 bytes) div 4 * 3"
    by (rule padding_to_base64 [OF False])
  have "to_base64 bytes \<noteq> []"
    using length_to_base64 [of bytes] False by (cases bytes) auto
  then have "from_base64 (to_base64 bytes) =
      decode_loop (length (to_base64 bytes) div 4 * 3 - padding_of (to_base64 bytes)) 0 0 [] (to_base64 bytes)"
    using p unfolding from_base64_def Let_def padding_of_def [symmetric] by simp
  then show ?thesis using p decode_to_base64 [of "[]" bytes] by simp
qed (simp add: to_base64_def from_base64_def)

section \<open>Where the decoder writes\<close>

text \<open>The characters the decoder takes: those of the alphabet before the first padding character.\<close>

definition accepted :: "string \<Rightarrow> string" where
  "accepted s = filter (\<lambda>c. sextet_of c \<noteq> None) (takeWhile (\<lambda>c. c \<noteq> CHR ''='') s)"

lemma decode_skip:
  assumes "sextet_of c = None" "c \<noteq> CHR ''=''"
  shows "decode_loop cap B bits out (c # s) = decode_loop cap B bits out s"
  using assms by (auto simp: decode_loop.simps(2) sextet_of_def Let_def split: if_splits)

lemma decode_stop: "decode_loop cap B bits out (CHR ''='' # s) = Decoded out"
  by (simp add: decode_loop.simps(2))

lemma decode_loop_exact:
  assumes "bits < 8" "length out \<le> cap"
  shows "decode_loop cap B bits out s = Out_Of_Bounds \<longleftrightarrow>
      cap < length out + (bits + 6 * length (accepted s)) div 8"
    and "decode_loop cap B bits out s \<noteq> Length_Error"
  using assms
proof (induction s arbitrary: B bits out)
  case Nil
  case 1 then show ?case by (simp add: accepted_def)
  case 2 then show ?case by simp
next
  case (Cons c s)
  consider (pad) "c = CHR ''=''" | (skip) "c \<noteq> CHR ''=''" "sextet_of c = None"
    | (take) k where "c \<noteq> CHR ''=''" "sextet_of c = Some k"
    by (cases "sextet_of c") (auto simp: sextet_of_def)
  note split = this
  { case 1
    show ?case
    proof (cases rule: split)
      case pad
      then show ?thesis using 1 by (simp add: accepted_def decode_stop)
    next
      case skip
      then show ?thesis using 1 Cons.IH(1) by (simp add: accepted_def decode_skip)
    next
      case (take k)
      have a: "accepted (c # s) = c # accepted s" using take by (simp add: accepted_def)
      have "(bits + 6 * Suc (length (accepted s))) div 8 = Suc ((bits - 2 + 6 * length (accepted s)) div 8)"
        if "8 \<le> bits + 6" using that by presburger
      then show ?thesis using 1 Cons.IH(1)
        by (auto simp: decode_step [OF take(2)] a Let_def add.assoc)
    qed }
  { case 2
    show ?case
      by (cases rule: split) (use 2 Cons.IH(2) in \<open>auto simp: decode_stop decode_skip decode_step Let_def\<close>) }
qed

text \<open>C30: \<open>from_base64\<close> writes outside its array exactly when the accepted characters hold more whole bytes
  than three for each four characters of the text, less the padding; its size underflows exactly when the
  padding is larger than that. Both happen, on texts without padding and on a lone padding character.\<close>

theorem base64_decode_bounds:
  "(from_base64 s = Out_Of_Bounds \<longleftrightarrow>
      padding_of s \<le> length s div 4 * 3 \<and>
      length s div 4 * 3 < padding_of s + 6 * length (accepted s) div 8) \<and>
   (from_base64 s = Length_Error \<longleftrightarrow> length s div 4 * 3 < padding_of s) \<and>
   from_base64 ''QUI'' = Out_Of_Bounds \<and> from_base64 ''='' = Length_Error"
proof -
  have r: "from_base64 s =
     (if s = [] then Decoded [] else if length s div 4 * 3 < padding_of s then Length_Error
      else decode_loop (length s div 4 * 3 - padding_of s) 0 0 [] s)" for s
    by (simp add: from_base64_def padding_of_def Let_def)
  have e: "from_base64 s = Out_Of_Bounds \<longleftrightarrow>
      padding_of s \<le> length s div 4 * 3 \<and>
      length s div 4 * 3 < padding_of s + 6 * length (accepted s) div 8" for s
    using decode_loop_exact(1) [of 0 "[]" "length s div 4 * 3 - padding_of s" 0 s]
    by (cases "s = []") (auto simp: r padding_of_def accepted_def)
  have "from_base64 s = Length_Error \<longleftrightarrow> length s div 4 * 3 < padding_of s"
    using decode_loop_exact(2) [of 0 "[]" "length s div 4 * 3 - padding_of s" 0 s]
    by (cases "s = []") (auto simp: r padding_of_def)
  moreover have "accepted ''QUI'' = ''QUI''"
    by (simp add: accepted_def sextet_of_def decode_table_def)
  ultimately show ?thesis using e by (simp add: padding_of_def r [of "''=''"])
qed

end
