(* ===== verification/Combiner.thy ===== *)
theory Combiner
  imports Prelude
begin

text \<open>
  \<open>CommonLibrary/Utilities/Combiner.cpp\<close>: byte sequences one behind the other, each behind its length in
  eight bytes, low byte first, and with its bytes reversed. Lengths and positions are 64-bit; a range that
  ends before it begins or outside the sequence is undefined behaviour, the value \<open>Invalid_Range\<close>.
\<close>

definition size_limit :: nat where
  "size_limit = 2 ^ 64"

text \<open>The eight bytes of a \<open>size_t\<close>, and back.\<close>

fun size_bytes :: "nat \<Rightarrow> nat \<Rightarrow> 8 word list" where
  "size_bytes 0 n = []"
| "size_bytes (Suc k) n = of_nat (n mod 256) # size_bytes k (n div 256)"

fun bytes_size :: "8 word list \<Rightarrow> nat" where
  "bytes_size [] = 0"
| "bytes_size (b # bs) = unat b + 256 * bytes_size bs"

definition combiner_append :: "8 word list \<Rightarrow> 8 word list \<Rightarrow> 8 word list" where
  "combiner_append result source =
     (let temp = length source mod size_limit;
          result = result @ size_bytes 8 temp
      in if temp = 0 then result else result @ rev source)"

datatype division = Divided "8 word list" nat | Invalid_Range

definition combiner_divide :: "8 word list \<Rightarrow> nat \<Rightarrow> division" where
  "combiner_divide source index =
     (if source = [] then Divided [] index
      else if length source < (index + 8) mod size_limit then Divided [] index
      else if size_limit \<le> index + 8 then Invalid_Range
      else
        let temp = bytes_size (take 8 (drop index source)); index = index + 8
        in if temp = 0 \<or> length source < (index + temp) mod size_limit then Divided [] index
           else if size_limit \<le> index + temp then Invalid_Range
           else Divided (rev (take temp (drop index source))) (index + temp))"

lemma length_size_bytes [simp]: "length (size_bytes k n) = k"
  by (induction k arbitrary: n) simp_all

lemma bytes_size_of: "n < 256 ^ k \<Longrightarrow> bytes_size (size_bytes k n) = n"
proof (induction k arbitrary: n)
  case (Suc k)
  then have "n div 256 < 256 ^ k" by (simp add: less_mult_imp_div_less mult.commute)
  with Suc.IH have "bytes_size (size_bytes k (n div 256)) = n div 256" by simp
  moreover have "unat (of_nat (n mod 256) :: 8 word) = n mod 256"
    by (simp add: unat_of_nat)
  ultimately show ?case by simp
qed simp

text \<open>Several sequences packed by the code's loop of \<open>append\<close>, and taken apart by a loop of \<open>divide\<close>.\<close>

definition combine :: "8 word list list \<Rightarrow> 8 word list" where
  "combine sources = foldl combiner_append [] sources"

fun divide_all :: "nat \<Rightarrow> 8 word list \<Rightarrow> nat \<Rightarrow> (8 word list list \<times> nat) option" where
  "divide_all 0 source index = Some ([], index)"
| "divide_all (Suc n) source index =
     (case combiner_divide source index of
        Invalid_Range \<Rightarrow> None
      | Divided part index \<Rightarrow>
          (case divide_all n source index of
             None \<Rightarrow> None
           | Some (parts, index) \<Rightarrow> Some (part # parts, index)))"

definition packed :: "8 word list \<Rightarrow> 8 word list" where
  "packed part = size_bytes 8 (length part) @ rev part"

lemma append_packed: "length part < size_limit \<Longrightarrow> combiner_append result part = result @ packed part"
  by (simp add: combiner_append_def packed_def Let_def)

lemma combine_packed:
  "\<forall>part \<in> set sources. length part < size_limit \<Longrightarrow>
     foldl combiner_append result sources = result @ concat (map packed sources)"
  by (induction sources arbitrary: result) (simp_all add: append_packed)

lemma divide_packed:
  assumes "length (before @ packed part @ behind) < size_limit"
  shows "combiner_divide (before @ packed part @ behind) (length before) =
    Divided part (length (before @ packed part))"
proof -
  have l: "length part < 256 ^ 8" "length before + 8 + length part < size_limit"
    using assms by (simp_all add: packed_def size_limit_def)
  have ne: "before @ packed part @ behind \<noteq> []" by (simp add: packed_def) (metis length_size_bytes list.size(3) zero_neq_numeral)
  have h: "take 8 (drop (length before) (before @ packed part @ behind)) = size_bytes 8 (length part)"
    by (simp add: packed_def)
  have t: "drop (length before + 8) (before @ packed part @ behind) = rev part @ behind"
    by (simp add: packed_def)
  show ?thesis
    unfolding combiner_divide_def Let_def h t bytes_size_of [OF l(1)]
    using ne l(2) by (auto simp: packed_def)
qed

lemma divide_all_packed:
  "length (before @ concat (map packed sources)) < size_limit \<Longrightarrow>
     divide_all (length sources) (before @ concat (map packed sources)) (length before) =
       Some (sources, length (before @ concat (map packed sources)))"
proof (induction sources arbitrary: before)
  case (Cons part sources)
  have e: "before @ concat (map packed (part # sources)) = before @ packed part @ concat (map packed sources)"
    by simp
  from Cons.prems have l: "length (before @ packed part @ concat (map packed sources)) < size_limit" by simp
  from Cons.IH [of "before @ packed part"] l
  have "divide_all (length sources) (before @ packed part @ concat (map packed sources))
      (length (before @ packed part)) =
    Some (sources, length (before @ packed part @ concat (map packed sources)))" by simp
  then show ?case unfolding e by (simp only: length_Cons divide_all.simps divide_packed [OF l]) simp
qed simp

text \<open>Combiner round trip: any byte sequences packed with \<open>append\<close>, empty ones included, come back from as
  many calls of \<open>divide\<close>, in order, and the position ends at the end, as long as the packed length fits in
  64 bits.\<close>

theorem combiner_roundtrip:
  assumes "length (concat sources) + 8 * length sources < size_limit"
  shows "divide_all (length sources) (combine sources) 0 = Some (sources, length (combine sources))"
proof -
  have p: "length (concat (map packed sources)) = length (concat sources) + 8 * length sources"
    by (induction sources) (simp_all add: packed_def)
  have "length part < size_limit" if "part \<in> set sources" for part
  proof -
    have "length part \<le> length (concat sources)" using that by (induction sources) auto
    then show ?thesis using assms by simp
  qed
  then have "combine sources = concat (map packed sources)"
    by (simp add: combine_def combine_packed)
  then show ?thesis using divide_all_packed [of "[]" sources] assms p by simp
qed

theorem combiner_roundtrip_witness:
  "divide_all 3 (combine [[1, 2], [], [3]]) 0 = Some ([[1, 2], [], [3]], 27)"
proof -
  let ?parts = "[[1, 2], [], [3]] :: 8 word list list"
  have n: "length ?parts = 3" by simp
  have l: "length (combine ?parts) = 27"
    by (simp add: size_limit_def combine_def combiner_append_def Let_def)
  have "length (concat ?parts) + 8 * length ?parts < size_limit" by (simp add: size_limit_def)
  from combiner_roundtrip [OF this] show ?thesis by (simp only: n l)
qed

text \<open>A length close to \<open>2 ^ 64\<close> passes the check of \<open>divide\<close>, since the end of the range wraps around.\<close>

lemma divide_wraps: "combiner_divide (size_bytes 8 (size_limit - 8)) 0 = Invalid_Range"
proof -
  have n: "size_bytes 8 (size_limit - 8) \<noteq> []"
    by (metis length_size_bytes list.size(3) zero_neq_numeral)
  have h: "bytes_size (take 8 (drop 0 (size_bytes 8 (size_limit - 8)))) = size_limit - 8"
    by (simp add: bytes_size_of size_limit_def)
  show ?thesis
    unfolding combiner_divide_def Let_def h using n by (simp add: size_limit_def)
qed

end
