(* ===== verification/Client_Request.thy ===== *)
theory Client_Request
  imports Configurations
begin

text \<open>
  What the two command line clients share: \<open>send_request\<close> and the reading of the configuration file.
  Both \<open>main.cpp\<close> files under \<open>Samples\<close> hold the same text of these functions. A client runs in the
  same world as the daemon: \<open>other\<close> is what the other processes do to it while the client sleeps.
  A log entry is what the client prints.
\<close>

record client_mailbox =
  cm_root :: string
  cm_requests_dir :: string
  cm_responses_dir :: string
  cm_timeout_ms :: int

definition default_client_mailbox :: client_mailbox where
  "default_client_mailbox = \<lparr>cm_root = ''./ipc'', cm_requests_dir = ''requests'',
     cm_responses_dir = ''responses'', cm_timeout_ms = 30000\<rparr>"

section \<open>The request file\<close>

definition client_atomic_write ::
  "path \<Rightarrow> string \<Rightarrow> 'a world_scheme \<Rightarrow> (bool \<times> log_entry list) \<times> 'a world_scheme" where
  "client_atomic_write target content w =
     (let temp = with_suffix target ''.tmp'';
          (opened, w1) = os_write temp content w
      in if \<not> opened then ((False, [Log_Error (''Cannot create temp file: '' @ path_text temp)]), w1)
         else
           (case os_rename temp target w1 of
              (Some _, w2) \<Rightarrow>
                (let (m, w3) = os_remove temp w2
                 in ((False, [Log_Error (''Rename failed: '' @ value_or m ''Success'')]), w3))
            | (None, w2) \<Rightarrow> ((True, []), w2)))"

definition request_json :: "string \<Rightarrow> string \<Rightarrow> string \<Rightarrow> int \<Rightarrow> int \<Rightarrow> json \<Rightarrow> json" where
  "request_json request_id client_id command now deadline payload =
     jobj [(''requestId'', JStr request_id), (''clientId'', JStr client_id), (''command'', JStr command),
           (''timestampMs'', JInt now), (''deadlineMs'', JInt deadline), (''payload'', payload)]"

definition client_error :: "string \<Rightarrow> json" where
  "client_error text = jobj [(''error'', JStr text)]"

definition requests_path :: "client_mailbox \<Rightarrow> path" where
  "requests_path c = path_append (to_path (cm_root c)) (cm_requests_dir c)"

definition responses_path :: "client_mailbox \<Rightarrow> string \<Rightarrow> path" where
  "responses_path c client_id = path_append (path_append (to_path (cm_root c)) (cm_responses_dir c)) client_id"

section \<open>Waiting for the response\<close>

text \<open>The loop of \<open>send_request\<close>. It need not end: a clock that stands still never reaches the timeout.\<close>

partial_function (option) await_response ::
  "json_lib \<Rightarrow> ('a world_scheme \<Rightarrow> 'a world_scheme) \<Rightarrow> path \<Rightarrow> int \<Rightarrow> int \<Rightarrow> 'a world_scheme \<Rightarrow>
     ((bool \<times> json) \<times> 'a world_scheme) option" where
  "await_response L other p start timeout w =
     (let (now, w1) = now_ms w
      in if \<not> now - start < timeout then Some ((False, client_error ''timeout waiting for response''), w1)
         else if \<not> fexists w1 p then await_response L other p start timeout (other w1)
         else
           (case os_read p w1 of
              (None, w2) \<Rightarrow> await_response L other p start timeout (other w2)
            | (Some content, w2) \<Rightarrow>
                (let (_, w3) = os_remove p w2
                 in case json_parse L content of
                      Inl e \<Rightarrow> Some ((False, client_error (''response parse error: '' @ jl_what L e)), w3)
                    | Inr j \<Rightarrow> Some ((True, j), w3))))"

text \<open>\<open>send_request\<close> up to the wait: the path of the response when the request was written.\<close>

definition write_request ::
  "json_lib \<Rightarrow> client_mailbox \<Rightarrow> string \<Rightarrow> string \<Rightarrow> json \<Rightarrow> 'a world_scheme \<Rightarrow>
     (path option \<times> log_entry list) \<times> 'a world_scheme" where
  "write_request L c client_id command payload w =
     (let (request_id, w1) = fresh_guid w;
          (now, w2) = now_ms w1;
          deadline = i64 (now + cm_timeout_ms c);
          (_, w3) = os_mkdirs (requests_path c) w2;
          (_, w4) = os_mkdirs (responses_path c client_id) w3;
          ((written, entries), w5) =
            client_atomic_write (path_append (requests_path c) (request_id @ ''.json''))
              (jl_dump L 2 (request_json request_id client_id command now deadline payload)) w4
      in ((if written then Some (path_append (responses_path c client_id) (request_id @ ''.json'')) else None,
           entries), w5))"

definition send_request ::
  "json_lib \<Rightarrow> ('a world_scheme \<Rightarrow> 'a world_scheme) \<Rightarrow> client_mailbox \<Rightarrow> string \<Rightarrow> string \<Rightarrow> json \<Rightarrow>
     'a world_scheme \<Rightarrow> (((bool \<times> json) \<times> log_entry list) \<times> 'a world_scheme) option" where
  "send_request L other c client_id command payload w =
     (case write_request L c client_id command payload w of
        ((None, entries), w1) \<Rightarrow> Some (((False, client_error ''failed to write request''), entries), w1)
      | ((Some response_file, entries), w1) \<Rightarrow>
          (let (start, w2) = now_ms w1
           in map_option (\<lambda>(r, w3). ((r, entries), w3))
                (await_response L other response_file start (cm_timeout_ms c) w2)))"

section \<open>The answer\<close>

text \<open>The end of every command: the exit code, or the exception that ends the program, and what is
  printed. \<open>shown\<close> prints the answer of a request that succeeded.\<close>

definition show_data :: "json_lib \<Rightarrow> string \<Rightarrow> json \<Rightarrow> (json_exc + unit) \<times> log_entry list" where
  "show_data L title response =
     (Inr (), Log_Info title #
        (case jmember response ''data'' of Some d \<Rightarrow> [Log_Info (jl_dump L 2 d)] | None \<Rightarrow> []))"

definition report ::
  "json_lib \<Rightarrow> (json \<Rightarrow> (json_exc + unit) \<times> log_entry list) \<Rightarrow> string \<Rightarrow> bool \<times> json \<Rightarrow>
     (json_exc + int) \<times> log_entry list" where
  "report L shown failure answer =
     (let (ok, response) = answer
      in if \<not> ok then (Inr 1, [Log_Error (''Request failed: '' @ jl_dump L 2 response)])
         else
           (case jvalue get_bool response ''ok'' False of
              Inl e \<Rightarrow> (Inl e, [])
            | Inr True \<Rightarrow>
                (case shown response of
                   (Inl e, entries) \<Rightarrow> (Inl e, entries)
                 | (Inr _, entries) \<Rightarrow> (Inr 0, entries))
            | Inr False \<Rightarrow>
                (Inr 1, [Log_Error (failure @
                   (case jmember response ''error'' of Some e \<Rightarrow> '': '' @ jl_dump L (- 1) e | None \<Rightarrow> ''''))])))"

text \<open>A command: a request, then its report.\<close>

definition report_answer ::
  "json_lib \<Rightarrow> (json \<Rightarrow> (json_exc + unit) \<times> log_entry list) \<Rightarrow> string \<Rightarrow>
     (((bool \<times> json) \<times> log_entry list) \<times> 'w) option \<Rightarrow> (((json_exc + int) \<times> log_entry list) \<times> 'w) option" where
  "report_answer L shown failure =
     map_option (\<lambda>((answer, entries), w).
       (let (r, entries') = report L shown failure answer in ((r, entries @ entries'), w)))"

text \<open>A command that stops before it sends anything.\<close>

definition usage_error ::
  "string \<Rightarrow> 'a world_scheme \<Rightarrow> (((json_exc + int) \<times> log_entry list) \<times> 'a world_scheme) option" where
  "usage_error text w = Some ((Inr 1, [Log_Error text]), w)"

section \<open>The configuration file\<close>

text \<open>The first of the two names that exists, read and parsed; None when there is nothing to take.\<close>

definition read_client_file ::
  "json_lib \<Rightarrow> string \<Rightarrow> string \<Rightarrow> 'a world_scheme \<Rightarrow> json option \<times> 'a world_scheme" where
  "read_client_file L name1 name2 w =
     (let name = (if fexists w (to_path name1) then name1 else name2)
      in if \<not> fexists w (to_path name) then (None, w)
         else
           (case os_read (to_path name) w of
              (None, w1) \<Rightarrow> (None, w1)
            | (Some content, w1) \<Rightarrow>
                (case json_parse L (bytes_to_string content) of Inl _ \<Rightarrow> None | Inr j \<Rightarrow> Some j, w1)))"

definition load_client_mailbox :: "json_lib \<Rightarrow> json \<Rightarrow> client_mailbox \<Rightarrow> client_mailbox" where
  "load_client_mailbox L config c =
     (let c1 = in_section config ''ipc'' (\<lambda>j d.
            \<lparr>cm_root = string_or j ''root'' (cm_root d),
             cm_requests_dir = string_or j ''requestsDir'' (cm_requests_dir d),
             cm_responses_dir = string_or j ''responsesDir'' (cm_responses_dir d),
             cm_timeout_ms = number_or L j ''timeoutMs'' (cm_timeout_ms d)\<rparr>) c
      in c1\<lparr>cm_root := string_or config ''ipcRoot'' (cm_root c1),
            cm_timeout_ms := number_or L config ''timeout'' (cm_timeout_ms c1)\<rparr>)"

text \<open>Options of the command line over settings.\<close>

definition text_option :: "argument_parser \<Rightarrow> string \<Rightarrow> string \<Rightarrow> string" where
  "text_option a k d = (case ap_to_string a k of Some s \<Rightarrow> s | None \<Rightarrow> d)"

definition number_option :: "argument_parser \<Rightarrow> string \<Rightarrow> int \<Rightarrow> int" where
  "number_option a k d = (case ap_to_int a k of Some n \<Rightarrow> n | None \<Rightarrow> d)"

definition log_type_or :: "json_lib \<Rightarrow> json \<Rightarrow> string \<Rightarrow> int \<Rightarrow> int" where
  "log_type_or L j k d =
     (case jmember j k of
        Some v \<Rightarrow> (if is_number v then number_or L j k d mod 256 else d) | None \<Rightarrow> d)"

end
