(* ===== verification/Publisher_Client.thy ===== *)
theory Publisher_Client
  imports Client_Request
begin

text \<open>
  \<open>Samples/yirangmq-cli-publisher\<close>: the settings of the publisher, its commands and its \<open>main\<close>. A
  result is the exit code or the exception that ends the program, with what is printed; None is a wait
  that never ends.
\<close>

section \<open>Settings\<close>

record publisher_config =
  pc_write_file :: int
  pc_write_console :: int
  pc_log_root :: string
  pc_root_path :: string
  pc_mailbox :: client_mailbox
  pc_queue :: string
  pc_target :: string
  pc_priority :: int
  pc_client_id :: string

definition initial_publisher :: "string \<Rightarrow> publisher_config" where
  "initial_publisher folder =
     \<lparr>pc_write_file = 0, pc_write_console = 3, pc_log_root = ''./logs'', pc_root_path = folder,
      pc_mailbox = default_client_mailbox, pc_queue = '''', pc_target = '''', pc_priority = 0,
      pc_client_id = ''''\<rparr>"

definition publisher_section :: "json_lib \<Rightarrow> json \<Rightarrow> string \<times> string \<times> int \<Rightarrow> string \<times> string \<times> int" where
  "publisher_section L j d =
     (case d of (queue, target, priority) \<Rightarrow>
        (string_or j ''queue'' queue, string_or j ''target'' target, number_or L j ''priority'' priority))"

definition publisher_of_json :: "json_lib \<Rightarrow> json \<Rightarrow> publisher_config \<Rightarrow> publisher_config" where
  "publisher_of_json L config c =
     (let (queue, target, priority) =
            publisher_section L config
              (in_section config ''publisher'' (publisher_section L) (pc_queue c, pc_target c, pc_priority c))
      in c\<lparr>pc_mailbox := load_client_mailbox L config (pc_mailbox c),
           pc_queue := queue, pc_target := target, pc_priority := priority,
           pc_client_id := string_or config ''clientId'' (pc_client_id c),
           pc_write_console := in_section config ''logging'' (\<lambda>j. log_type_or L j ''writeConsole'') (pc_write_console c),
           pc_write_file := in_section config ''logging'' (\<lambda>j. log_type_or L j ''writeFile'') (pc_write_file c),
           pc_log_root := in_section config ''logging'' (\<lambda>j. string_or j ''logRoot'') (pc_log_root c)\<rparr>)"

definition publisher_load ::
  "json_lib \<Rightarrow> publisher_config \<Rightarrow> 'a world_scheme \<Rightarrow> publisher_config \<times> 'a world_scheme" where
  "publisher_load L c w =
     (case read_client_file L (pc_root_path c @ ''publisher_configuration.json'')
             (pc_root_path c @ ''publisher.json'') w of
        (None, w1) \<Rightarrow> (c, w1)
      | (Some config, w1) \<Rightarrow> (publisher_of_json L config c, w1))"

definition publisher_parse :: "argument_parser \<Rightarrow> publisher_config \<Rightarrow> publisher_config" where
  "publisher_parse a c =
     c\<lparr>pc_mailbox := (pc_mailbox c)\<lparr>cm_root := text_option a ''--ipc-root'' (cm_root (pc_mailbox c)),
                                   cm_timeout_ms := number_option a ''--timeout'' (cm_timeout_ms (pc_mailbox c))\<rparr>,
       pc_queue := text_option a ''--queue'' (pc_queue c),
       pc_target := text_option a ''--target'' (pc_target c),
       pc_priority := number_option a ''--priority'' (pc_priority c),
       pc_client_id := text_option a ''--client-id'' (pc_client_id c)\<rparr>"

definition publisher_new ::
  "json_lib \<Rightarrow> argument_parser \<Rightarrow> 'a world_scheme \<Rightarrow> publisher_config \<times> 'a world_scheme" where
  "publisher_new L a w =
     (let (c1, w1) = publisher_load L (initial_publisher (ap_program_folder a)) w;
          c2 = publisher_parse a c1
      in if pc_client_id c2 = []
         then (let (g, w2) = fresh_guid w1 in (c2\<lparr>pc_client_id := ''publisher-'' @ take 8 g\<rparr>, w2))
         else (c2, w1))"

section \<open>Commands\<close>

definition publish_payload :: "argument_parser \<Rightarrow> publisher_config \<Rightarrow> string \<Rightarrow> json" where
  "publish_payload a c message =
     jobj ([(''queue'', JStr (pc_queue c)), (''message'', JStr message), (''priority'', JInt (pc_priority c)),
            (''delayMs'', JInt (value_or (ap_to_int a ''--delay'') 0))] @
           (if pc_target c = [] then [] else [(''targetConsumerId'', JStr (pc_target c))]))"

definition publisher_request ::
  "json_lib \<Rightarrow> ('a world_scheme \<Rightarrow> 'a world_scheme) \<Rightarrow> publisher_config \<Rightarrow> string \<Rightarrow> json \<Rightarrow>
     (json \<Rightarrow> (json_exc + unit) \<times> log_entry list) \<Rightarrow> string \<Rightarrow> 'a world_scheme \<Rightarrow>
     (((json_exc + int) \<times> log_entry list) \<times> 'a world_scheme) option" where
  "publisher_request L other c command payload shown failure w =
     report_answer L shown failure (send_request L other (pc_mailbox c) (pc_client_id c) command payload w)"

definition cmd_publish ::
  "json_lib \<Rightarrow> ('a world_scheme \<Rightarrow> 'a world_scheme) \<Rightarrow> argument_parser \<Rightarrow> publisher_config \<Rightarrow>
     'a world_scheme \<Rightarrow> (((json_exc + int) \<times> log_entry list) \<times> 'a world_scheme) option" where
  "cmd_publish L other a c w =
     (if pc_queue c = [] then usage_error ''--queue is required (or set in config)'' w
      else
        (case ap_to_string a ''--message'' of
           None \<Rightarrow> usage_error ''--message is required'' w
         | Some message \<Rightarrow>
             publisher_request L other c ''publish'' (publish_payload a c message)
               (show_data L ''Message published successfully'') ''Publish failed'' w))"

definition cmd_status ::
  "json_lib \<Rightarrow> ('a world_scheme \<Rightarrow> 'a world_scheme) \<Rightarrow> publisher_config \<Rightarrow>
     'a world_scheme \<Rightarrow> (((json_exc + int) \<times> log_entry list) \<times> 'a world_scheme) option" where
  "cmd_status L other c w =
     (if pc_queue c = [] then usage_error ''--queue is required (or set in config)'' w
      else
        publisher_request L other c ''status'' (jobj [(''queue'', JStr (pc_queue c))])
          (show_data L ''Queue Status:'') ''Status failed'' w)"

definition cmd_health ::
  "json_lib \<Rightarrow> ('a world_scheme \<Rightarrow> 'a world_scheme) \<Rightarrow> publisher_config \<Rightarrow>
     'a world_scheme \<Rightarrow> (((json_exc + int) \<times> log_entry list) \<times> 'a world_scheme) option" where
  "cmd_health L other c w =
     publisher_request L other c ''health'' JNull (show_data L ''Server is healthy'') ''Health check failed'' w"

text \<open>Metrics that arrive as a text are parsed once more; the exception of that is not caught.\<close>

definition show_metrics :: "json_lib \<Rightarrow> json \<Rightarrow> (json_exc + unit) \<times> log_entry list" where
  "show_metrics L response =
     (case jmember response ''data'' of
        None \<Rightarrow> (Inr (), [Log_Info ''Mailbox Metrics:''])
      | Some d \<Rightarrow>
          (case (case d of JStr s \<Rightarrow> json_parse L s | _ \<Rightarrow> Inr d) of
             Inl e \<Rightarrow> (Inl e, [Log_Info ''Mailbox Metrics:''])
           | Inr j \<Rightarrow> (Inr (), [Log_Info ''Mailbox Metrics:'', Log_Info (jl_dump L 2 j)])))"

definition cmd_metrics ::
  "json_lib \<Rightarrow> ('a world_scheme \<Rightarrow> 'a world_scheme) \<Rightarrow> publisher_config \<Rightarrow>
     'a world_scheme \<Rightarrow> (((json_exc + int) \<times> log_entry list) \<times> 'a world_scheme) option" where
  "cmd_metrics L other c w =
     publisher_request L other c ''metrics'' JNull (show_metrics L) ''Failed to get metrics'' w"

section \<open>Main\<close>

definition publisher_command :: "string list \<Rightarrow> string" where
  "publisher_command args =
     (case args of
        [] \<Rightarrow> ''publish''
      | first_arg # _ \<Rightarrow>
          if first_arg \<in> {''publish'', ''status'', ''health'', ''metrics'', ''help'', ''--help'', ''-h''}
          then first_arg else ''publish'')"

text \<open>\<open>main\<close>; \<open>args\<close> are the arguments after the name of the program, \<open>usage\<close> the text of
  \<open>print_usage\<close>.\<close>

definition publisher_main ::
  "json_lib \<Rightarrow> ('a world_scheme \<Rightarrow> 'a world_scheme) \<Rightarrow> string \<Rightarrow> string \<Rightarrow> string list \<Rightarrow>
     'a world_scheme \<Rightarrow> (((json_exc + int) \<times> log_entry list) \<times> 'a world_scheme) option" where
  "publisher_main L other usage folder args w =
     (let a = argument_parser_new folder args;
          (c, w1) = publisher_new L a w;
          command = publisher_command args
      in if command \<in> {''help'', ''--help'', ''-h''} then Some ((Inr 0, [Log_Info usage]), w1)
         else if command = ''publish'' then cmd_publish L other a c w1
         else if command = ''status'' then cmd_status L other c w1
         else if command = ''health'' then cmd_health L other c w1
         else if command = ''metrics'' then cmd_metrics L other c w1
         else Some ((Inr 0, []), w1))"

end
