(* ===== verification/Consumer_Client.thy ===== *)
theory Consumer_Client
  imports Client_Request
begin

text \<open>
  \<open>Samples/yirangmq-cli-consumer\<close>: the settings of the consumer, its commands and its \<open>main\<close>. Its
  \<open>send_request\<close> is the text of the publisher's.
\<close>

section \<open>Settings\<close>

record consumer_config =
  cs_write_file :: int
  cs_write_console :: int
  cs_log_root :: string
  cs_root_path :: string
  cs_mailbox :: client_mailbox
  cs_queue :: string
  cs_consumer_id :: string
  cs_visibility_timeout_sec :: int

definition initial_consumer :: "string \<Rightarrow> consumer_config" where
  "initial_consumer folder =
     \<lparr>cs_write_file = 0, cs_write_console = 3, cs_log_root = ''./logs'', cs_root_path = folder,
      cs_mailbox = default_client_mailbox, cs_queue = '''', cs_consumer_id = '''',
      cs_visibility_timeout_sec = 30\<rparr>"

definition consumer_section :: "json_lib \<Rightarrow> json \<Rightarrow> string \<times> string \<times> int \<Rightarrow> string \<times> string \<times> int" where
  "consumer_section L j d =
     (case d of (queue, consumer_id, visibility) \<Rightarrow>
        (string_or j ''queue'' queue, string_or j ''consumerId'' consumer_id,
         number_or L j ''visibilityTimeoutSec'' visibility))"

definition consumer_of_json :: "json_lib \<Rightarrow> json \<Rightarrow> consumer_config \<Rightarrow> consumer_config" where
  "consumer_of_json L config c =
     (let (queue, consumer_id, visibility) =
            consumer_section L config
              (in_section config ''consumer'' (consumer_section L)
                 (cs_queue c, cs_consumer_id c, cs_visibility_timeout_sec c))
      in c\<lparr>cs_mailbox := load_client_mailbox L config (cs_mailbox c),
           cs_queue := queue, cs_consumer_id := consumer_id, cs_visibility_timeout_sec := visibility,
           cs_write_console := in_section config ''logging'' (\<lambda>j. log_type_or L j ''writeConsole'') (cs_write_console c),
           cs_write_file := in_section config ''logging'' (\<lambda>j. log_type_or L j ''writeFile'') (cs_write_file c),
           cs_log_root := in_section config ''logging'' (\<lambda>j. string_or j ''logRoot'') (cs_log_root c)\<rparr>)"

definition consumer_load ::
  "json_lib \<Rightarrow> consumer_config \<Rightarrow> 'a world_scheme \<Rightarrow> consumer_config \<times> 'a world_scheme" where
  "consumer_load L c w =
     (case read_client_file L (cs_root_path c @ ''consumer_configuration.json'')
             (cs_root_path c @ ''consumer.json'') w of
        (None, w1) \<Rightarrow> (c, w1)
      | (Some config, w1) \<Rightarrow> (consumer_of_json L config c, w1))"

definition consumer_parse :: "argument_parser \<Rightarrow> consumer_config \<Rightarrow> consumer_config" where
  "consumer_parse a c =
     c\<lparr>cs_mailbox := (cs_mailbox c)\<lparr>cm_root := text_option a ''--ipc-root'' (cm_root (cs_mailbox c)),
                                   cm_timeout_ms := number_option a ''--timeout'' (cm_timeout_ms (cs_mailbox c))\<rparr>,
       cs_queue := text_option a ''--queue'' (cs_queue c),
       cs_consumer_id := text_option a ''--consumer-id'' (cs_consumer_id c),
       cs_visibility_timeout_sec := number_option a ''--visibility'' (cs_visibility_timeout_sec c)\<rparr>"

definition consumer_new ::
  "json_lib \<Rightarrow> argument_parser \<Rightarrow> 'a world_scheme \<Rightarrow> consumer_config \<times> 'a world_scheme" where
  "consumer_new L a w =
     (let (c1, w1) = consumer_load L (initial_consumer (ap_program_folder a)) w;
          c2 = consumer_parse a c1
      in if cs_consumer_id c2 = []
         then (let (g, w2) = fresh_guid w1 in (c2\<lparr>cs_consumer_id := ''consumer-'' @ take 8 g\<rparr>, w2))
         else (c2, w1))"

section \<open>Commands\<close>

text \<open>\<open>send_request\<close> of this \<open>main.cpp\<close>: line by line the one of the publisher.\<close>

definition consumer_send_request ::
  "json_lib \<Rightarrow> ('a world_scheme \<Rightarrow> 'a world_scheme) \<Rightarrow> client_mailbox \<Rightarrow> string \<Rightarrow> string \<Rightarrow> json \<Rightarrow>
     'a world_scheme \<Rightarrow> (((bool \<times> json) \<times> log_entry list) \<times> 'a world_scheme) option" where
  "consumer_send_request = send_request"

definition consumer_request ::
  "json_lib \<Rightarrow> ('a world_scheme \<Rightarrow> 'a world_scheme) \<Rightarrow> consumer_config \<Rightarrow> string \<Rightarrow> json \<Rightarrow>
     (json \<Rightarrow> (json_exc + unit) \<times> log_entry list) \<Rightarrow> string \<Rightarrow> 'a world_scheme \<Rightarrow>
     (((json_exc + int) \<times> log_entry list) \<times> 'a world_scheme) option" where
  "consumer_request L other c command payload shown failure w =
     report_answer L shown failure (consumer_send_request L other (cs_mailbox c) (cs_consumer_id c) command payload w)"

definition show_message :: "json_lib \<Rightarrow> json \<Rightarrow> (json_exc + unit) \<times> log_entry list" where
  "show_message L response =
     (Inr (),
      (case jmember response ''data'' of
         None \<Rightarrow> []
       | Some d \<Rightarrow>
           (case jmember d ''message'' of
              None \<Rightarrow> [Log_Info ''No messages available'']
            | Some JNull \<Rightarrow> [Log_Info ''No messages available'']
            | Some _ \<Rightarrow> [Log_Info ''Message received:'', Log_Info (jl_dump L 2 d)])))"

definition show_text :: "string \<Rightarrow> json \<Rightarrow> (json_exc + unit) \<times> log_entry list" where
  "show_text title response = (Inr (), [Log_Info title])"

definition cmd_consume ::
  "json_lib \<Rightarrow> ('a world_scheme \<Rightarrow> 'a world_scheme) \<Rightarrow> consumer_config \<Rightarrow>
     'a world_scheme \<Rightarrow> (((json_exc + int) \<times> log_entry list) \<times> 'a world_scheme) option" where
  "cmd_consume L other c w =
     (if cs_queue c = [] then usage_error ''--queue is required (or set in config)'' w
      else
        consumer_request L other c ''consume_next''
          (jobj [(''queue'', JStr (cs_queue c)), (''consumerId'', JStr (cs_consumer_id c)),
                 (''visibilityTimeoutSec'', JInt (cs_visibility_timeout_sec c))])
          (show_message L) ''Consume failed'' w)"

text \<open>The members of a payload that names a lease.\<close>

definition lease_members :: "argument_parser \<Rightarrow> consumer_config \<Rightarrow> string \<Rightarrow> (string \<times> json) list" where
  "lease_members a c message_key =
     (''messageKey'', JStr message_key) #
     (case ap_to_string a ''--lease-id'' of Some l \<Rightarrow> [(''leaseId'', JStr l)] | None \<Rightarrow> []) @
     [(''consumerId'', JStr (cs_consumer_id c))]"

definition cmd_ack ::
  "json_lib \<Rightarrow> ('a world_scheme \<Rightarrow> 'a world_scheme) \<Rightarrow> argument_parser \<Rightarrow> consumer_config \<Rightarrow>
     'a world_scheme \<Rightarrow> (((json_exc + int) \<times> log_entry list) \<times> 'a world_scheme) option" where
  "cmd_ack L other a c w =
     (case ap_to_string a ''--message-key'' of
        None \<Rightarrow> usage_error ''--message-key is required'' w
      | Some message_key \<Rightarrow>
          consumer_request L other c ''ack'' (jobj (lease_members a c message_key))
            (show_text ''Message acknowledged'') ''Ack failed'' w)"

definition nack_payload :: "argument_parser \<Rightarrow> consumer_config \<Rightarrow> string \<Rightarrow> json" where
  "nack_payload a c message_key =
     jobj (lease_members a c message_key @
           [(''reason'', JStr (value_or (ap_to_string a ''--reason'') '''')),
            (''requeue'', JBool (ap_to_string a ''--requeue'' \<noteq> None))])"

definition cmd_nack ::
  "json_lib \<Rightarrow> ('a world_scheme \<Rightarrow> 'a world_scheme) \<Rightarrow> argument_parser \<Rightarrow> consumer_config \<Rightarrow>
     'a world_scheme \<Rightarrow> (((json_exc + int) \<times> log_entry list) \<times> 'a world_scheme) option" where
  "cmd_nack L other a c w =
     (case ap_to_string a ''--message-key'' of
        None \<Rightarrow> usage_error ''--message-key is required'' w
      | Some message_key \<Rightarrow>
          consumer_request L other c ''nack'' (nack_payload a c message_key)
            (show_text ''Message nacked'') ''Nack failed'' w)"

definition cmd_extend_lease ::
  "json_lib \<Rightarrow> ('a world_scheme \<Rightarrow> 'a world_scheme) \<Rightarrow> argument_parser \<Rightarrow> consumer_config \<Rightarrow>
     'a world_scheme \<Rightarrow> (((json_exc + int) \<times> log_entry list) \<times> 'a world_scheme) option" where
  "cmd_extend_lease L other a c w =
     (case ap_to_string a ''--message-key'' of
        None \<Rightarrow> usage_error ''--message-key is required'' w
      | Some message_key \<Rightarrow>
          consumer_request L other c ''extend_lease''
            (jobj (lease_members a c message_key @
               [(''visibilityTimeoutSec'',
                 JInt (value_or (ap_to_int a ''--visibility'') (cs_visibility_timeout_sec c)))]))
            (show_text ''Lease extended successfully'') ''Extend lease failed'' w)"

definition cmd_list_dlq ::
  "json_lib \<Rightarrow> ('a world_scheme \<Rightarrow> 'a world_scheme) \<Rightarrow> argument_parser \<Rightarrow> consumer_config \<Rightarrow>
     'a world_scheme \<Rightarrow> (((json_exc + int) \<times> log_entry list) \<times> 'a world_scheme) option" where
  "cmd_list_dlq L other a c w =
     (if cs_queue c = [] then usage_error ''--queue is required (or set in config)'' w
      else
        consumer_request L other c ''list_dlq''
          (jobj [(''queue'', JStr (cs_queue c)), (''limit'', JInt (value_or (ap_to_int a ''--limit'') 100))])
          (show_data L ''DLQ Messages:'') ''List DLQ failed'' w)"

definition cmd_reprocess ::
  "json_lib \<Rightarrow> ('a world_scheme \<Rightarrow> 'a world_scheme) \<Rightarrow> argument_parser \<Rightarrow> consumer_config \<Rightarrow>
     'a world_scheme \<Rightarrow> (((json_exc + int) \<times> log_entry list) \<times> 'a world_scheme) option" where
  "cmd_reprocess L other a c w =
     (case ap_to_string a ''--message-key'' of
        None \<Rightarrow> usage_error ''--message-key is required'' w
      | Some message_key \<Rightarrow>
          consumer_request L other c ''reprocess_dlq'' (jobj [(''messageKey'', JStr message_key)])
            (show_data L ''Message reprocessed successfully'') ''Reprocess failed'' w)"

section \<open>Main\<close>

definition consumer_main ::
  "json_lib \<Rightarrow> ('a world_scheme \<Rightarrow> 'a world_scheme) \<Rightarrow> string \<Rightarrow> string \<Rightarrow> string list \<Rightarrow>
     'a world_scheme \<Rightarrow> (((json_exc + int) \<times> log_entry list) \<times> 'a world_scheme) option" where
  "consumer_main L other usage folder args w =
     (let a = argument_parser_new folder args;
          (c, w1) = consumer_new L a w;
          command = (case args of [] \<Rightarrow> ''consume'' | first_arg # _ \<Rightarrow> first_arg)
      in if command \<in> {''help'', ''--help'', ''-h''} then Some ((Inr 0, [Log_Info usage]), w1)
         else if command = ''consume'' then cmd_consume L other c w1
         else if command = ''ack'' then cmd_ack L other a c w1
         else if command = ''nack'' then cmd_nack L other a c w1
         else if command \<in> {''extend-lease'', ''extend'', ''extendlease''} then cmd_extend_lease L other a c w1
         else if command \<in> {''list-dlq'', ''listdlq'', ''dlq''} then cmd_list_dlq L other a c w1
         else if command \<in> {''reprocess'', ''reprocess-dlq''} then cmd_reprocess L other a c w1
         else Some ((Inr 1, [Log_Error (''Unknown command: '' @ command), Log_Info usage]), w1))"

end
