(* ===== verification/Client_Properties.thy ===== *)
theory Client_Properties
  imports Publisher_Client Consumer_Client Daemon_Properties Configuration_Properties
begin

text \<open>
  Properties of the command line clients: what the publisher writes is what the daemon understands, the
  wait for a response ends, and the exit code tells the outcome.
\<close>

section \<open>The settings\<close>

lemma in_i32_number_option: "in_i32 d \<Longrightarrow> in_i32 (number_option a k d)"
  by (auto simp: number_option_def dest: in_i32_atoi split: option.split)

lemma publisher_priority_range:
  assumes "publisher_new L a w = (c, w')"
  shows "in_i32 (pc_priority c)"
proof -
  have loaded: "in_i32 (pc_priority (fst (publisher_load L (initial_publisher f) v)))" for f and v :: "'a world_scheme"
    by (auto simp: publisher_load_def publisher_of_json_def publisher_section_def in_section_def Let_def
        initial_publisher_def intro!: in_i32_number_or split: option.split prod.split)
       (auto simp: in_i32_def)
  show ?thesis
    using assms loaded [of "ap_program_folder a" w]
    by (auto simp: publisher_new_def publisher_parse_def Let_def in_i32_number_option
        split: prod.splits if_splits)
qed

section \<open>Requests\<close>

lemma client_atomic_write_effect:
  "client_atomic_write target content w = ((True, es), w') \<Longrightarrow> fget w' target = Some content"
  by (auto simp: client_atomic_write_def os_write_def os_rename_def os_remove_def os_io_def Let_def fget_def update_conv'
      split: if_splits option.splits)

lemma write_request_effect:
  assumes "write_request L c client_id command payload w = ((Some response_file, es), w')"
  shows "fget w' (path_append (requests_path c) (guids w (guid_n w) @ ''.json'')) =
      Some (jl_dump L 2 (request_json (guids w (guid_n w)) client_id command (clock w (clock_n w))
              (i64 (clock w (clock_n w) + cm_timeout_ms c)) payload))"
    and "response_file = path_append (responses_path c client_id) (guids w (guid_n w) @ ''.json'')"
proof -
  show "response_file = path_append (responses_path c client_id) (guids w (guid_n w) @ ''.json'')"
    using assms by (auto simp: write_request_def fresh_guid_def Let_def split: prod.splits if_splits)
  show "fget w' (path_append (requests_path c) (guids w (guid_n w) @ ''.json'')) =
      Some (jl_dump L 2 (request_json (guids w (guid_n w)) client_id command (clock w (clock_n w))
              (i64 (clock w (clock_n w) + cm_timeout_ms c)) payload))"
    using assms
    by (auto simp: write_request_def fresh_guid_def now_ms_def Let_def split: prod.splits if_splits
        dest!: client_atomic_write_effect)
qed

text \<open>The daemon reads a request back as it was meant.\<close>

lemma parse_request_json:
  assumes "json_ok L"
  shows "parse_request L (jl_dump L n (request_json i client command now deadline (JObj p))) file =
    (Some \<lparr>mr_request_id = i, mr_client_id = client, mr_command = parse_command command,
           mr_timestamp_ms = i64 now, mr_deadline_ms = i64 deadline,
           mr_payload_json = jl_dump L (- 1) (JObj p), mr_file_path = file\<rparr>, None)"
  using assms by (simp add: parse_request_def request_json_def jobj_def string_member_def)

lemma published_payload:
  assumes "json_ok L" "mr_payload_json r = jl_dump L n (publish_payload a c message)" "in_i32 (pc_priority c)"
  shows "published L r m =
    Some (publish_envelope (pc_queue c) (guids m (guid_n m)) (message, ''{}'', pc_priority c)
      (clock m (clock_n m)) (pc_target c, value_or (ap_to_int a ''--delay'') 0))"
proof -
  have "in_i32 (value_or (ap_to_int a ''--delay'') 0)"
    by (cases "ap_to_int a ''--delay''") (auto simp: value_or_def in_i32_def dest: in_i32_atoi [unfolded in_i32_def])
  then show ?thesis
    using assms
    by (simp add: published_def publish_payload_def jobj_def string_member_def publish_content_def
        publish_routing_def in_i64_of_i32)
qed


definition demo_client_world :: world where
  "demo_client_world = \<lparr>files = [], dirs = [], clock = (\<lambda>n. 1000 + int n), clock_n = 0,
     guids = (\<lambda>n. guid (\<lambda>k. 0)), guid_n = 0, fault = (\<lambda>n. None), io_n = 0\<rparr>"

definition demo_publisher_args :: argument_parser where
  "demo_publisher_args = argument_parser_new [] [''--queue'', ''jobs'', ''--message'', ''1'', ''--client-id'', ''c'']"

definition demo_publisher :: publisher_config where
  "demo_publisher = (initial_publisher [])\<lparr>pc_queue := ''jobs'', pc_client_id := ''c''\<rparr>"

lemma demo_publisher_args_simps:
  "ap_program_folder demo_publisher_args = []"
  "ap_arguments demo_publisher_args = [''--queue'' \<mapsto> ''jobs'', ''--message'' \<mapsto> ''1'', ''--client-id'' \<mapsto> ''c'']"
  by (simp_all add: demo_publisher_args_def argument_parser_new_def is_option_def insert_new_def)

lemma demo_publisher_new:
  "publisher_new ref_json demo_publisher_args demo_client_world = (demo_publisher, demo_client_world)"
  by (simp add: publisher_new_def publisher_load_def read_client_file_def publisher_parse_def Let_def
      demo_publisher_args_simps demo_publisher_def text_option_def number_option_def ap_to_string_def ap_to_int_def
      initial_publisher_def fexists_def is_file_def is_dir_def fget_def demo_client_world_def to_path_def
      is_absolute_def components_def default_client_mailbox_def)

lemma demo_request_written:
  "fst (fst (write_request ref_json (pc_mailbox demo_publisher) (pc_client_id demo_publisher) ''publish''
     (publish_payload demo_publisher_args demo_publisher ''1'') demo_client_world)) \<noteq> None"
  by (simp add: write_request_def client_atomic_write_def os_defs demo_client_world_def Let_def demo_publisher_def
      initial_publisher_def default_client_mailbox_def requests_path_def responses_path_def to_path_def
      is_absolute_def components_def path_append_def with_suffix_def is_dir_def is_file_def fget_def demo_guid)


section \<open>Waiting\<close>

lemma os_read_clock:
  "os_read p w = (c, w') \<Longrightarrow> clock w' = clock w \<and> clock_n w' = clock_n w"
  by (auto simp: os_read_def os_io_def Let_def split: prod.splits)

text \<open>C39: The wait of a client ends. Whatever the other processes do to the files meanwhile, and whatever is in
  the response, a client returns with a result when the clock reaches the end of the timeout at some reading and
  the other processes do not turn it back.\<close>

theorem client_wait_ends:
  fixes w :: "'a world_scheme"
  assumes "\<forall>v. clock (other v) = clock v \<and> clock_n v \<le> clock_n (other v)"
    and "\<forall>n \<ge> bound. start + timeout \<le> clock w n"
  shows "\<exists>r w'. await_response L other p start timeout w = Some (r, w')"
  using assms(2)
proof (induction "bound - clock_n w" arbitrary: w rule: less_induct)
  case less
  have again: "\<exists>r w'. await_response L other p start timeout (other v) = Some (r, w')"
    if "clock v = clock w" "clock_n w < clock_n v" "clock_n w < bound" for v
  proof (rule less.hyps)
    have "clock_n w < clock_n (other v)"
      using assms(1) that(2) less_le_trans by blast
    then show "bound - clock_n (other v) < bound - clock_n w" using that(3) by linarith
    show "\<forall>n \<ge> bound. start + timeout \<le> clock (other v) n"
      using less.prems assms(1) that(1) by metis
  qed
  show ?case
  proof (cases "clock w (clock_n w) - start < timeout")
    case False
    then show ?thesis by (auto simp: await_response.simps [of L other p start timeout w] now_ms_def)
  next
    case True
    then have early: "clock_n w < bound" using less.prems by (metis add.commute diff_less_eq leI not_le)
    let ?w1 = "w\<lparr>clock_n := Suc (clock_n w)\<rparr>"
    obtain c w2 where read: "os_read p ?w1 = (c, w2)" by (cases "os_read p ?w1")
    have "\<exists>r w'. await_response L other p start timeout (other ?w1) = Some (r, w')"
      "\<exists>r w'. await_response L other p start timeout (other w2) = Some (r, w')"
      by (rule again; use early os_read_clock [OF read] in simp)+
    then show ?thesis
      using True read
      by (cases c; cases "fexists ?w1 p")
        (auto simp: await_response.simps [of L other p start timeout w] now_ms_def Let_def
          split: prod.split sum.split)
  qed
qed

theorem client_wait_ends_witness:
  "\<exists>r w'. await_response ref_json (\<lambda>v. v\<lparr>files := []\<rparr>) [''ipc''] 1000 30000 demo_client_world = Some (r, w')"
  by (rule client_wait_ends [of _ 30000]) (auto simp: demo_client_world_def)

section \<open>The end of a command\<close>

text \<open>The exit code tells the outcome the daemon wrote: the client takes a response that is there, removes its
  file, and a command that shows the data ends with 0 exactly when the response is a success.\<close>

lemma client_exit_code:
  assumes "json_ok L" "fget w p = Some (jl_dump L 2 (response_json L resp))"
    and "clock w (clock_n w) - start < timeout" "fault w (io_n w) = None" "fault w (Suc (io_n w)) = None"
  shows "\<exists>w'. await_response L other p start timeout w = Some ((True, response_json L resp), w') \<and> fget w' p = None \<and>
    fst (report L (show_data L title) failure (True, response_json L resp)) = Inr (if rs_ok resp then 0 else 1)"
  using assms
  by (simp add: await_response.simps [of L other p start timeout w] now_ms_def os_read_def os_remove_def os_io_def
      fexists_def is_file_def Let_def report_def show_data_def response_json_def jobj_def)

text \<open>C40: The requeue flag at the end of a command line is lost, although the usage text of the consumer ends
  its example with it: the parser takes an option only with the word after it. So the request asks for no
  requeue, and the daemon hands the message to the dead letters.\<close>

theorem nack_requeue_flag_lost:
  assumes "json_ok L" "\<forall>(k, v) \<in> set kvs. option_name k \<and> k \<noteq> ''--requeue''"
    and "a = argument_parser_new folder (''nack'' # render_options kvs @ [''--requeue''])"
    and "mr_payload_json request = jl_dump L n (nack_payload a c key)"
  shows "\<exists>lease. lt_message_key lease = key \<and>
    mb_backend (snd (handle_nack L B request m)) =
      snd (be_nack B lease (value_or (ap_to_string a ''--reason'') []) False (mb_backend m))"
proof -
  have names: "\<forall>(k, v) \<in> set kvs. option_name k" using assms(2) by auto
  have "ap_arguments a = map_of (rev kvs)"
    using parse_render [OF names, of "[''--requeue'']" Map.empty] assms(3)
    by (simp add: argument_parser_new_def is_option_def)
  then have "ap_to_string a ''--requeue'' = None"
    using assms(2) by (auto simp: ap_to_string_def map_of_eq_None_iff)
  then show ?thesis
    using assms(1,4)
    by (auto simp: handle_nack_def nack_payload_def lease_members_def jobj_def string_member_def request_lease_def
        on_backend_eq value_or_def
        intro!: exI [of _ "\<lparr>lt_lease_id = value_or (ap_to_string a ''--lease-id'') [], lt_message_key = key,
          lt_consumer_id = cs_consumer_id c, lt_lease_until_ms = 0\<rparr>"] split: option.split)
qed

text \<open>The example of the usage text.\<close>

definition demo_nack_args :: argument_parser where
  "demo_nack_args = argument_parser_new [] (''nack'' # render_options
     [(''--message-key'', ''msg:telemetry:abc123''), (''--reason'', ''error'')] @ [''--requeue''])"

definition demo_nack :: mailbox_request where
  "demo_nack = demo_request Nack (nack_payload demo_nack_args (initial_consumer []) ''msg:telemetry:abc123'')"

theorem nack_requeue_flag_lost_witness:
  "\<exists>lease. lt_message_key lease = ''msg:telemetry:abc123'' \<and>
     mb_backend (snd (handle_nack ref_json (fs_backend ref_json) demo_nack demo_mailbox)) =
       snd (fs_nack ref_json lease ''error'' False (mb_backend demo_mailbox))"
proof -
  have "value_or (ap_to_string demo_nack_args ''--reason'') [] = ''error''"
    by (simp add: demo_nack_args_def argument_parser_new_def ap_to_string_def render_options_def is_option_def
        value_or_def)
  then show ?thesis
    using nack_requeue_flag_lost [OF json_ok_ref _ demo_nack_args_def, of demo_nack _ _ _ "fs_backend ref_json" demo_mailbox]
    by (simp add: option_name_def is_option_def demo_nack_def demo_request_payload fs_backend_def)
qed

end
