(* ===== verification/Job.thy ===== *)
theory Job
  imports Converter OS_World Json
begin

text \<open>
  \<open>CommonLibrary/ThreadPool/Job.cpp\<close> and \<open>JobPriorities.cpp\<close>: a unit of work with a priority and a callback.
  A callback belongs to the client and is a function on the state it runs in; it returns, or throws. The
  log is not part of this model. \<open>L\<close> is the JSON library; \<open>beyond\<close> is what the memory after the bytes of a
  vector holds, which two callbacks read.
\<close>

section \<open>Priorities\<close>

datatype job_priority = Top | High | Normal | Low | LongTerm

fun priority_code :: "job_priority \<Rightarrow> nat" where
  "priority_code Top = 0"
| "priority_code High = 1"
| "priority_code Normal = 2"
| "priority_code Low = 3"
| "priority_code LongTerm = 4"

lemma priority_code_inject [simp]: "priority_code p = priority_code q \<longleftrightarrow> p = q"
  by (cases p; cases q) simp_all

instantiation job_priority :: linorder
begin

definition less_eq_job_priority :: "job_priority \<Rightarrow> job_priority \<Rightarrow> bool" where
  "less_eq_job_priority p q \<longleftrightarrow> priority_code p \<le> priority_code q"

definition less_job_priority :: "job_priority \<Rightarrow> job_priority \<Rightarrow> bool" where
  "less_job_priority p q \<longleftrightarrow> priority_code p < priority_code q"

instance
  by standard (auto simp: less_eq_job_priority_def less_job_priority_def)

end

text \<open>All of them in the order a map keeps them.\<close>

definition all_priorities :: "job_priority list" where
  "all_priorities = [Top, High, Normal, Low, LongTerm]"

lemma set_all_priorities [simp]: "set all_priorities = UNIV"
proof -
  have "p \<in> set all_priorities" for p by (cases p) (simp_all add: all_priorities_def)
  then show ?thesis by blast
qed

lemma sorted_all_priorities: "sorted_wrt (<) all_priorities"
  by (simp add: all_priorities_def less_job_priority_def)

lemma distinct_all_priorities [simp]: "distinct all_priorities"
  by (simp add: all_priorities_def)

fun priority_string :: "job_priority \<Rightarrow> string" where
  "priority_string Top = ''Top''"
| "priority_string High = ''High''"
| "priority_string Normal = ''Normal''"
| "priority_string Low = ''Low''"
| "priority_string LongTerm = ''LongTerm''"

fun join_priorities :: "string \<Rightarrow> job_priority list \<Rightarrow> string" where
  "join_priorities joined [] = joined"
| "join_priorities joined (p # ps) =
     join_priorities ((if joined = [] then [] else joined @ '', '') @ priority_string p) ps"

definition priority_list_string :: "job_priority list \<Rightarrow> string" where
  "priority_list_string ps = ''[ '' @ join_priorities [] ps @ '' ]''"

section \<open>Jobs\<close>

text \<open>How a callback ends: the result it returns, the text of a standard exception, or something else
  thrown.\<close>

datatype call_end = Returned res | Threw string | Threw_Other

type_synonym 's call = "'s \<Rightarrow> call_end \<times> 's"

datatype 's job_callback =
    No_Callback
  | On_Void "'s call"
  | On_Bool "bool \<Rightarrow> 's call"
  | On_Int "int \<Rightarrow> 's call"
  | On_Bytes "8 word list \<Rightarrow> 's call"

text \<open>\<open>jb_spare\<close> is what was written into the reserved storage of \<open>data_\<close> from its first byte on, without its
  size being changed; \<open>jb_working\<close> is what a class that inherits from \<open>Job\<close> does.\<close>

record 's job =
  jb_title :: string
  jb_priority :: job_priority
  jb_use_time_stamp :: bool
  jb_data :: "8 word list"
  jb_spare :: "8 word list"
  jb_temporary_file :: path
  jb_callback :: "'s job_callback"
  jb_working :: "8 word list \<Rightarrow> 's call"

definition job_working :: "string \<Rightarrow> 8 word list \<Rightarrow> 's call" where
  "job_working title bytes s =
     (Returned (err_res (''cannot complete '' @ title @ ''::working because it does not implemented'')), s)"

definition new_job :: "job_priority \<Rightarrow> 8 word list \<Rightarrow> 's job_callback \<Rightarrow> string \<Rightarrow> bool \<Rightarrow> 's job" where
  "new_job p bytes callback title use_time_stamp =
     \<lparr>jb_title = title, jb_priority = p, jb_use_time_stamp = use_time_stamp, jb_data = bytes, jb_spare = [],
      jb_temporary_file = [], jb_callback = callback, jb_working = job_working title\<rparr>"

text \<open>The six constructors.\<close>

definition job_plain :: "job_priority \<Rightarrow> string \<Rightarrow> bool \<Rightarrow> 's job" where
  "job_plain p = new_job p [] No_Callback"

definition job_data :: "job_priority \<Rightarrow> 8 word list \<Rightarrow> string \<Rightarrow> bool \<Rightarrow> 's job" where
  "job_data p bytes = new_job p bytes No_Callback"

definition job_void :: "job_priority \<Rightarrow> 's call \<Rightarrow> string \<Rightarrow> bool \<Rightarrow> 's job" where
  "job_void p f = new_job p [] (On_Void f)"

definition job_bool :: "job_priority \<Rightarrow> bool \<Rightarrow> (bool \<Rightarrow> 's call) \<Rightarrow> string \<Rightarrow> bool \<Rightarrow> 's job" where
  "job_bool p condition f = new_job p [of_bool condition] (On_Bool f)"

text \<open>The bytes of a 32-bit value, least significant first.\<close>

definition int_bytes :: "int \<Rightarrow> 8 word list" where
  "int_bytes n = map (\<lambda>i. word_of_int (n div 2 ^ (8 * i))) [0, 1, 2, 3]"

text \<open>The constructor for integers only reserves the storage and then writes past the end of the vector.\<close>

definition job_int :: "job_priority \<Rightarrow> int \<Rightarrow> (int \<Rightarrow> 's call) \<Rightarrow> string \<Rightarrow> bool \<Rightarrow> 's job" where
  "job_int p condition f title use_time_stamp =
     (new_job p [] (On_Int f) title use_time_stamp)\<lparr>jb_spare := int_bytes condition\<rparr>"

definition job_bytes :: "job_priority \<Rightarrow> 8 word list \<Rightarrow> (8 word list \<Rightarrow> 's call) \<Rightarrow> string \<Rightarrow> bool \<Rightarrow> 's job" where
  "job_bytes p bytes f = new_job p bytes (On_Bytes f)"

definition job_set_data :: "8 word list \<Rightarrow> 's job \<Rightarrow> 's job" where
  "job_set_data bytes j = j\<lparr>jb_data := bytes\<rparr>"

definition job_to_json :: "json_lib \<Rightarrow> 's job \<Rightarrow> string" where
  "job_to_json L j =
     jl_dump L (- 1) (jobj [(''job_title'', JStr (jb_title j)), (''job_data'', JStr (to_base64 (jb_data j)))])"

section \<open>Files of a job\<close>

definition bytes_text :: "8 word list \<Rightarrow> string" where
  "bytes_text bs = map (\<lambda>b. char_of (unat b)) bs"

definition text_bytes :: "string \<Rightarrow> 8 word list" where
  "text_bytes s = map (\<lambda>c. word_of_nat (of_char c)) s"

lemma text_bytes_text [simp]: "text_bytes (bytes_text bs) = bs"
proof (induction bs)
  case (Cons b bs)
  have "unat b < 2 ^ LENGTH(8)" by (rule unsigned_less)
  then have "unat b < 256" by simp
  then have "(of_char (char_of (unat b)) :: nat) = unat b"
    by (simp add: of_char_of)
  then show ?case using Cons by (simp add: text_bytes_def bytes_text_def)
qed (simp add: text_bytes_def bytes_text_def)

text \<open>\<open>save\<close>: the data go to a file under the directory for temporary files, whose name ends with the priority; a
  long term job is not saved. \<open>File::open\<close> throws when the directories cannot be made; whether the file could
  be opened is not looked at.\<close>

fun backup_extension :: "job_priority \<Rightarrow> string option" where
  "backup_extension Low = Some ''low''"
| "backup_extension Normal = Some ''normal''"
| "backup_extension High = Some ''high''"
| "backup_extension Top = Some ''top''"
| "backup_extension LongTerm = None"

definition job_save ::
  "path \<Rightarrow> string \<Rightarrow> 's job \<Rightarrow> 'a world_scheme \<Rightarrow> (string + 's job) \<times> 'a world_scheme" where
  "job_save temp_directory folder j w =
     (if jb_data j = [] then (Inr j, w)
      else
        (case backup_extension (jb_priority j) of
           None \<Rightarrow> (Inr j, w)
         | Some e \<Rightarrow>
             let (g, w1) = fresh_guid w;
                 p = path_append (path_append temp_directory folder) (g @ CHR ''.'' # e);
                 (made, w2) = os_mkdirs (butlast p) w1
             in case made of
                  Some m \<Rightarrow> (Inl m, w2)
                | None \<Rightarrow>
                    let (_, w3) = os_write p (bytes_text (jb_data j)) w2
                    in (Inr (j\<lparr>jb_temporary_file := p, jb_data := []\<rparr>), w3)))"

definition job_load :: "'s job \<Rightarrow> 'a world_scheme \<Rightarrow> (string + 's job) \<times> 'a world_scheme" where
  "job_load j w =
     (if jb_temporary_file j = [] then (Inr j, w)
      else
        let (made, w1) = os_mkdirs (butlast (jb_temporary_file j)) w
        in case made of
             Some m \<Rightarrow> (Inl m, w1)
           | None \<Rightarrow>
               (case os_read (jb_temporary_file j) w1 of
                  (None, w2) \<Rightarrow> (Inr (j\<lparr>jb_data := []\<rparr>), w2)
                | (Some c, w2) \<Rightarrow> (Inr (j\<lparr>jb_data := text_bytes c\<rparr>), w2)))"

definition job_destroy :: "'s job \<Rightarrow> 'a world_scheme \<Rightarrow> 's job \<times> 'a world_scheme" where
  "job_destroy j w =
     (if jb_temporary_file j = [] then (j, w)
      else let (_, w1) = os_remove (jb_temporary_file j) w in (j\<lparr>jb_temporary_file := []\<rparr>, w1))"

section \<open>Work\<close>

definition storage :: "(nat \<Rightarrow> 8 word) \<Rightarrow> 's job \<Rightarrow> nat \<Rightarrow> 8 word" where
  "storage beyond j i =
     (if i < length (jb_data j) then jb_data j ! i
      else if i < length (jb_spare j) then jb_spare j ! i else beyond i)"

definition int_of_bytes :: "8 word list \<Rightarrow> int" where
  "int_of_bytes bs = i32 (foldr (\<lambda>b n. uint b + 256 * n) bs 0)"

text \<open>The first callback that is set, with the argument it is given.\<close>

definition job_call :: "(nat \<Rightarrow> 8 word) \<Rightarrow> 's job \<Rightarrow> 's call" where
  "job_call beyond j =
     (case jb_callback j of
        No_Callback \<Rightarrow> jb_working j (jb_data j)
      | On_Void f \<Rightarrow> f
      | On_Bool f \<Rightarrow> f (storage beyond j 0 = 1)
      | On_Int f \<Rightarrow> f (int_of_bytes (map (storage beyond j) [0, 1, 2, 3]))
      | On_Bytes f \<Rightarrow> f (jb_data j))"

definition failure_text :: "json_lib \<Rightarrow> 's job \<Rightarrow> string \<Rightarrow> string" where
  "failure_text L j what =
     ''cannot complete '' @ jb_title j @ '' [ '' @ priority_string (jb_priority j) @ '' ] on Job : '' @ what @
     CHR '','' # CHR 0x0A # job_to_json L j"

definition callback_safe_caller :: "json_lib \<Rightarrow> 's job \<Rightarrow> call_end \<Rightarrow> res" where
  "callback_safe_caller L j e =
     (case e of
        Returned r \<Rightarrow> r
      | Threw what \<Rightarrow> err_res (failure_text L j what)
      | Threw_Other \<Rightarrow> err_res (failure_text L j ''unexpected error''))"

definition job_work ::
  "json_lib \<Rightarrow> (nat \<Rightarrow> 8 word) \<Rightarrow> 'a world_scheme job \<Rightarrow> 'a world_scheme \<Rightarrow>
     call_end \<times> 'a world_scheme job \<times> 'a world_scheme" where
  "job_work L beyond j w =
     (case job_load j w of
        (Inl what, w1) \<Rightarrow> (Threw what, j, w1)
      | (Inr j1, w1) \<Rightarrow>
          let (e, w2) = job_call beyond j1 w1;
              result = callback_safe_caller L j1 e;
              (j2, w3) = job_destroy j1 w2
          in (Returned result, j2, w3))"

section \<open>Properties\<close>

text \<open>The argument a job was made with is the one its callback gets.\<close>

lemma job_bool_argument: "job_call beyond (job_bool p condition f title stamp) = f condition"
  by (simp add: job_call_def job_bool_def new_job_def storage_def)

lemma split_mod: "m mod (256 * c) = 256 * (m div 256 mod c) + m mod 256" if "0 < c" for m c :: int
    by (rule zmod_zmult2_eq) (use that in simp)

lemma mod_bytes: 
  "n mod (256 * (256 * (256 * 256))) = n mod 256 + 256 * (n div 256 mod 256 + 256 * (n div (256 * 256) mod 256 +
      256 * (n div (256 * (256 * 256)) mod 256)))" for n :: int
proof -
  have d: "n div (256 * 256) = n div 256 div 256" "n div (256 * (256 * 256)) = n div 256 div 256 div 256"
    by (simp_all only: zdiv_zmult2_eq zero_le_numeral zero_le_mult_iff simp_thms)
  show ?thesis
    unfolding d
    by (subst split_mod, simp)+ (simp only: add.commute)
qed

lemma int_of_int_bytes: "int_of_bytes (int_bytes n) = i32 n"
proof -
  have byte: "uint (word_of_int m :: 8 word) = m mod 256" for m :: int by (simp add: uint_word_of_int)
  have bytes: "int_bytes n = map word_of_int [n, n div 256, n div (256 * 256), n div (256 * (256 * 256))]"
    by (simp add: int_bytes_def)
  have pow: "(2::int) ^ 32 = 256 * (256 * (256 * 256))" by simp
  have "foldr (\<lambda>b m. uint b + 256 * m) (int_bytes n) 0 = take_bit 32 n"
    unfolding bytes take_bit_eq_mod pow mod_bytes
    by (simp only: list.map foldr.simps o_apply id_apply byte mult_zero_right add_0_right)
  then show ?thesis by (simp add: int_of_bytes_def i32_def signed_take_bit_take_bit)
qed
lemma job_int_argument:
  "in_i32 n \<Longrightarrow> job_call beyond (job_int p n f title stamp) = f n"
  using int_of_int_bytes [of n]
  by (simp add: job_call_def job_int_def new_job_def storage_def int_bytes_def)

text \<open>Saved data come back when the job is loaded, unless a fault keeps the file from being written or read.\<close>

lemma job_save_file:
  assumes "job_save t folder j w = (Inr j1, w1)" "jb_temporary_file j1 \<noteq> []" "jb_temporary_file j = []"
  shows "fget w1 (jb_temporary_file j1) = Some (bytes_text (jb_data j)) \<or> fault w (Suc (io_n w)) \<noteq> None \<or>
    is_dir w1 (jb_temporary_file j1)"
  using assms
  by (auto simp: job_save_def fresh_guid_def os_mkdirs_def os_write_def os_io_def Let_def is_dir_def
      split: if_splits option.splits prod.splits)

lemma job_load_file:
  assumes "job_load j w = (Inr j1, w1)" "jb_temporary_file j \<noteq> []" "fault w (Suc (io_n w)) = None"
    and "fget w (jb_temporary_file j) = Some (bytes_text bs)"
  shows "jb_data j1 = bs"
  using assms
  by (auto simp: job_load_def os_mkdirs_def os_read_def os_io_def Let_def fget_def
      split: if_splits option.splits prod.splits)

end
