(* ===== verification/Job_Pool.thy ===== *)
theory Job_Pool
  imports Job "HOL-Library.Multiset"
begin

text \<open>
  \<open>CommonLibrary/ThreadPool/JobPool.cpp\<close>: the queues of waiting jobs, one for each priority. Every
  operation runs under the mutex of the pool, so it is one step; \<open>push\<close> tests the lock of the pool before
  it takes the mutex and is therefore two: \<open>push_check\<close> and \<open>push_insert\<close>.
\<close>

record 's job_pool =
  jp_title :: string
  jp_locked :: bool
  jp_queues :: "job_priority \<rightharpoonup> 's job list"

definition new_job_pool :: "string \<Rightarrow> 's job_pool" where
  "new_job_pool title = \<lparr>jp_title = title, jp_locked = False, jp_queues = Map.empty\<rparr>"

definition pool_lock :: "bool \<Rightarrow> 's job_pool \<Rightarrow> 's job_pool" where
  "pool_lock condition p = p\<lparr>jp_locked := condition\<rparr>"

definition max_queue_low :: nat where
  "max_queue_low = 4096"

text \<open>The jobs of a priority; no entry is an empty queue.\<close>

definition jobs_of :: "'s job_pool \<Rightarrow> job_priority \<Rightarrow> 's job list" where
  "jobs_of p q = value_or (jp_queues p q) []"

section \<open>Operations\<close>

definition push_check :: "'s job option \<Rightarrow> 's job_pool \<Rightarrow> res" where
  "push_check job p =
     (case job of
        None \<Rightarrow> err_res ''cannot push empty job''
      | Some _ \<Rightarrow>
          if jp_locked p then err_res ''the system is locked and new tasks cannot be created'' else ok_res)"

definition push_insert :: "'s job \<Rightarrow> 's job_pool \<Rightarrow> res \<times> 's job_pool" where
  "push_insert job p =
     (let priority = jb_priority job; qsize = length (jobs_of p priority)
      in if priority = Low \<and> qsize \<ge> max_queue_low
         then (err_res ''backpressure: low-priority queue is full'', p)
         else (ok_res, p\<lparr>jp_queues := (jp_queues p)(priority \<mapsto> jobs_of p priority @ [job])\<rparr>))"

definition pool_push :: "'s job option \<Rightarrow> 's job_pool \<Rightarrow> res \<times> 's job_pool" where
  "pool_push job p =
     (if \<not> fst (push_check job p) then (push_check job p, p)
      else (case job of None \<Rightarrow> (ok_res, p) | Some j \<Rightarrow> push_insert j p))"

fun pool_pop :: "job_priority list \<Rightarrow> 's job_pool \<Rightarrow> 's job option \<times> 's job_pool" where
  "pool_pop [] p = (None, p)"
| "pool_pop (q # qs) p =
     (case jp_queues p q of
        Some (j # js) \<Rightarrow> (Some j, p\<lparr>jp_queues := (jp_queues p)(q \<mapsto> js)\<rparr>)
      | _ \<Rightarrow> pool_pop qs p)"

text \<open>No priorities stand for all of them; a priority that is listed twice counts twice.\<close>

definition job_count :: "job_priority list \<Rightarrow> 's job_pool \<Rightarrow> nat" where
  "job_count ps p =
     (if ps = [] then sum_list (map (\<lambda>q. length (jobs_of p q)) all_priorities)
      else sum_list (map (\<lambda>q. length (jobs_of p q)) ps))"

definition clear_priority :: "job_priority \<Rightarrow> 's job_pool \<Rightarrow> 's job_pool" where
  "clear_priority q p = p\<lparr>jp_queues := (jp_queues p)(q := None)\<rparr>"

text \<open>\<open>clear\<close> also removes the files of the jobs, queue by queue.\<close>

fun destroy_all :: "'s job list \<Rightarrow> 'a world_scheme \<Rightarrow> 'a world_scheme" where
  "destroy_all [] w = w"
| "destroy_all (j # js) w = destroy_all js (snd (job_destroy j w))"

definition pool_jobs :: "'s job_pool \<Rightarrow> 's job list" where
  "pool_jobs p = concat (map (jobs_of p) all_priorities)"

definition clear_pool :: "'s job_pool \<Rightarrow> 'a world_scheme \<Rightarrow> 's job_pool \<times> 'a world_scheme" where
  "clear_pool p w = (p\<lparr>jp_queues := Map.empty\<rparr>, destroy_all (pool_jobs p) w)"

section \<open>Backups\<close>

text \<open>The extension of a file name: from its last dot, unless that is the first character.\<close>

definition name_extension :: "string \<Rightarrow> string" where
  "name_extension f =
     (if CHR ''.'' \<in> set (tl f)
      then CHR ''.'' # rev (takeWhile (\<lambda>c. c \<noteq> CHR ''.'') (rev f)) else [])"

definition backup_extensions :: "string list" where
  "backup_extensions = [''.top'', ''.high'', ''.normal'', ''.low'']"

text \<open>The backup files of a folder are read and removed, also those that could not be read.\<close>

fun take_backups :: "path list \<Rightarrow> 'a world_scheme \<Rightarrow> 8 word list list \<times> 'a world_scheme" where
  "take_backups [] w = ([], w)"
| "take_backups (f # fs) w =
     (if name_extension (last f) \<notin> set backup_extensions then take_backups fs w
      else
        let (content, w1) = os_read f w;
            (_, w2) = os_remove f w1;
            (rest, w3) = take_backups fs w2
        in ((case content of None \<Rightarrow> rest | Some c \<Rightarrow> text_bytes c # rest), w3))"

definition uncompleted_jobs :: "path \<Rightarrow> 'a world_scheme \<Rightarrow> 8 word list list \<times> 'a world_scheme" where
  "uncompleted_jobs folder w =
     (if \<not> is_dir w folder then ([], w)
      else let (fs, w1) = os_list_files folder w in take_backups fs w1)"

section \<open>What the operations do\<close>

lemma jobs_of_insert:
  "fst (fst (push_insert j p)) \<Longrightarrow>
     jobs_of (snd (push_insert j p)) q = jobs_of p q @ (if q = jb_priority j then [j] else [])"
  by (auto simp: push_insert_def jobs_of_def Let_def value_or_def split: if_splits)

lemma push_insert_fails: "\<not> fst (fst (push_insert j p)) \<Longrightarrow> snd (push_insert j p) = p"
  by (auto simp: push_insert_def Let_def split: if_splits)

lemma jp_locked_push [simp]: "jp_locked (snd (push_insert j p)) = jp_locked p"
  by (simp add: push_insert_def Let_def)

lemma jobs_of_clear [simp]:
  "jobs_of (clear_priority q p) r = (if r = q then [] else jobs_of p r)"
  "jobs_of (fst (clear_pool p w)) r = []"
  by (simp_all add: clear_priority_def clear_pool_def jobs_of_def value_or_def)

lemma jp_locked_simps [simp]:
  "jp_locked (clear_priority q p) = jp_locked p" "jp_locked (fst (clear_pool p w)) = jp_locked p"
  "jp_locked (pool_lock b p) = b"
  by (simp_all add: clear_priority_def clear_pool_def pool_lock_def)

lemma jobs_of_lock [simp]: "jobs_of (pool_lock b p) = jobs_of p"
  by (simp add: pool_lock_def jobs_of_def fun_eq_iff)

text \<open>What \<open>pop\<close> gives: nothing when all queues it was asked about are empty, else the oldest job of the
  first priority in the list that has one.\<close>

lemma pool_pop_None: "pool_pop ps p = (None, p') \<Longrightarrow> p' = p \<and> (\<forall>q \<in> set ps. jobs_of p q = [])"
  by (induction ps) (auto simp: jobs_of_def value_or_def split: option.splits list.splits)

lemma pool_pop_Some:
  "pool_pop ps p = (Some j, p') \<Longrightarrow>
     \<exists>before q after. ps = before @ q # after \<and> (\<forall>r \<in> set before. jobs_of p r = []) \<and>
       jobs_of p q = j # jobs_of p' q \<and> (\<forall>r. r \<noteq> q \<longrightarrow> jobs_of p' r = jobs_of p r) \<and> jp_locked p' = jp_locked p"
proof (induction ps)
  case (Cons q qs)
  show ?case
  proof (cases "jobs_of p q")
    case Nil
    then have "pool_pop qs p = (Some j, p')"
      using Cons.prems by (auto simp: jobs_of_def value_or_def split: option.splits list.splits)
    from Cons.IH [OF this] obtain before r after where
        "qs = before @ r # after" "\<forall>r \<in> set before. jobs_of p r = []" "jobs_of p r = j # jobs_of p' r"
        "\<forall>s. s \<noteq> r \<longrightarrow> jobs_of p' s = jobs_of p s" "jp_locked p' = jp_locked p" by blast
    then show ?thesis using Nil by (intro exI [of _ "q # before"]) auto
  next
    case (Cons k ks)
    then have "jp_queues p q = Some (k # ks)"
      by (auto simp: jobs_of_def value_or_def split: option.splits)
    then show ?thesis
      using Cons.prems by (intro exI [of _ "[]"]) (auto simp: jobs_of_def value_or_def)
  qed
qed simp

lemma job_count_0:
  "job_count ps p = 0 \<longleftrightarrow> (if ps = [] then \<forall>q. jobs_of p q = [] else \<forall>q \<in> set ps. jobs_of p q = [])"
  using set_all_priorities by (auto simp: job_count_def)

section \<open>The interface for the workers\<close>

text \<open>What a worker relies on: fetching takes exactly one job, the first of a queue it asked about, or finds
  all of these queues empty.\<close>

locale job_store =
  fixes queue :: "'p \<Rightarrow> job_priority \<Rightarrow> 'j list"
    and fetch :: "job_priority list \<Rightarrow> 'p \<Rightarrow> 'j option \<times> 'p"
  assumes fetch_none: "fetch ps p = (None, p') \<Longrightarrow> p' = p \<and> (\<forall>q \<in> set ps. queue p q = [])"
    and fetch_some: "fetch ps p = (Some j, p') \<Longrightarrow>
      \<exists>q \<in> set ps. queue p q = j # queue p' q \<and> (\<forall>r. r \<noteq> q \<longrightarrow> queue p' r = queue p r)"
begin

lemma fetch_mset:
  assumes "fetch ps p = (Some j, p')"
  shows "mset (concat (map (queue p) all_priorities)) = add_mset j (mset (concat (map (queue p') all_priorities)))"
proof -
  obtain q where q: "queue p q = j # queue p' q" "\<forall>r. r \<noteq> q \<longrightarrow> queue p' r = queue p r"
    using fetch_some [OF assms] by blast
  have one: "mset (queue p r) = (if r = q then add_mset j (mset (queue p' r)) else mset (queue p' r))" for r
    using q by simp
  show ?thesis by (cases q) (simp_all add: all_priorities_def one)
qed

lemma fetch_subset: "fetch ps p = (x, p') \<Longrightarrow> set (queue p' r) \<subseteq> set (queue p r)"
proof (cases x)
  case None
  then show "fetch ps p = (x, p') \<Longrightarrow> ?thesis" using fetch_none by blast
next
  case (Some j)
  assume "fetch ps p = (x, p')"
  then obtain q where "queue p q = j # queue p' q" "\<forall>r. r \<noteq> q \<longrightarrow> queue p' r = queue p r"
    using fetch_some Some by blast
  then show ?thesis by (cases "r = q") auto
qed

end

lemma pool_pop_fetch:
  "pool_pop ps p = (Some j, p') \<Longrightarrow>
     \<exists>q \<in> set ps. jobs_of p q = j # jobs_of p' q \<and> (\<forall>r. r \<noteq> q \<longrightarrow> jobs_of p' r = jobs_of p r)"
  using pool_pop_Some [of ps p j p'] by fastforce

interpretation jobs: job_store jobs_of pool_pop
  by unfold_locales (fact pool_pop_None, fact pool_pop_fetch)

lemma mset_pool_jobs_insert:
  assumes "fst (fst (push_insert j p))"
  shows "mset (pool_jobs (snd (push_insert j p))) = add_mset j (mset (pool_jobs p))"
  by (cases "jb_priority j") (simp_all add: pool_jobs_def all_priorities_def jobs_of_insert [OF assms])

lemma mset_pool_jobs_clear: "mset (pool_jobs p) = mset (pool_jobs (clear_priority q p)) + mset (jobs_of p q)"
  by (cases q) (simp_all add: pool_jobs_def all_priorities_def)

lemma pool_jobs_simps [simp]:
  "pool_jobs (pool_lock b p) = pool_jobs p" "pool_jobs (fst (clear_pool p w)) = []"
  by (simp_all add: pool_jobs_def)

lemma set_pool_jobs: "set (pool_jobs p) = (\<Union>q. set (jobs_of p q))"
  by (simp add: pool_jobs_def)

end
