(* ===== verification/Thread_Worker.thy ===== *)
theory Thread_Worker
  imports Job_Pool
begin

text \<open>
  \<open>CommonLibrary/ThreadPool/ThreadWorker.cpp\<close>: a worker and its thread. \<open>run\<close> is a state machine: the
  thread waits on the condition, is woken, takes a job, works. The mutex of the worker is held from the wait
  until a job was asked for; \<open>stop\<close> and \<open>pause\<close> take it, so they happen outside these phases. The log is not
  part of this model, nor are the wake-ups: a thread may evaluate its condition at any time.
\<close>

datatype 's phase = No_Thread | Waiting | Woken | Popping | Working "'s job" | Exited

record 's worker =
  tw_title :: string
  tw_priorities :: "job_priority list"
  tw_pause :: bool
  tw_stop :: bool
  tw_has_pool :: bool
  tw_started :: bool
  tw_phase :: "'s phase"

definition new_worker :: "job_priority list \<Rightarrow> string \<Rightarrow> 's worker" where
  "new_worker ps title =
     \<lparr>tw_title = title, tw_priorities = ps, tw_pause = False, tw_stop = False, tw_has_pool = False,
      tw_started = False, tw_phase = No_Thread\<rparr>"

definition has_thread :: "'s worker \<Rightarrow> bool" where
  "has_thread w \<longleftrightarrow> tw_phase w \<noteq> No_Thread"

definition holds_mutex :: "'s worker \<Rightarrow> bool" where
  "holds_mutex w \<longleftrightarrow> tw_phase w = Woken \<or> tw_phase w = Popping"

section \<open>The calls of the client\<close>

text \<open>\<open>start\<close> of a worker without a thread: the exception, or the result. The promise of a worker gives its
  future only once, so a second start throws.\<close>

definition worker_start :: "'s worker \<Rightarrow> (string + res) \<times> 's worker" where
  "worker_start w =
     (if tw_priorities w = [] then (Inr (err_res ''cannot start by empty priorities''), w)
      else if tw_started w then (Inl ''std::future_error: Future already retrieved'', w\<lparr>tw_stop := False\<rparr>)
      else (Inr ok_res, w\<lparr>tw_stop := False, tw_started := True, tw_phase := Waiting\<rparr>))"

definition worker_pause :: "bool \<Rightarrow> 's worker \<Rightarrow> 's worker" where
  "worker_pause b w = w\<lparr>tw_pause := b\<rparr>"

definition set_priorities :: "job_priority list \<Rightarrow> 's worker \<Rightarrow> 's worker" where
  "set_priorities ps w = w\<lparr>tw_priorities := ps\<rparr>"

text \<open>\<open>stop\<close>: the request, and the end of the join, which is possible when the thread has left \<open>run\<close>.\<close>

definition request_stop :: "'s worker \<Rightarrow> 's worker" where
  "request_stop w = w\<lparr>tw_stop := True\<rparr>"

definition join_thread :: "'s worker \<Rightarrow> 's worker" where
  "join_thread w = w\<lparr>tw_phase := No_Thread\<rparr>"

section \<open>The thread\<close>

definition has_job :: "'s worker \<Rightarrow> 's job_pool \<Rightarrow> bool" where
  "has_job w p \<longleftrightarrow> \<not> tw_has_pool w \<or> job_count (tw_priorities w) p > 0"

definition check_condition :: "'s worker \<Rightarrow> 's job_pool \<Rightarrow> bool" where
  "check_condition w p \<longleftrightarrow> tw_stop w \<or> (\<not> tw_pause w \<and> has_job w p)"

definition leave_run :: "'s worker \<Rightarrow> 's worker" where
  "leave_run w = w\<lparr>tw_stop := False, tw_phase := Exited\<rparr>"

text \<open>From a wait to the next: the thread is woken, decides what to do, and takes a job.\<close>

definition run_woken :: "'s worker \<Rightarrow> 's job_pool \<Rightarrow> 's worker" where
  "run_woken w p =
     (if tw_stop w \<and> \<not> has_job w p then leave_run w
      else if \<not> tw_stop w \<and> tw_pause w then w\<lparr>tw_phase := Waiting\<rparr>
      else if \<not> tw_has_pool w then leave_run w
      else w\<lparr>tw_phase := Popping\<rparr>)"

definition run_pop :: "'s worker \<Rightarrow> 's job_pool \<Rightarrow> 's worker \<times> 's job_pool" where
  "run_pop w p =
     (case pool_pop (tw_priorities w) p of
        (Some j, p') \<Rightarrow> (w\<lparr>tw_phase := Working j\<rparr>, p')
      | (None, p') \<Rightarrow> ((if tw_stop w then leave_run w else w\<lparr>tw_phase := Waiting\<rparr>), p'))"

text \<open>\<open>do_run\<close>: whether the work succeeded; nothing a job throws ends the thread. A failure without a text
  throws where the text is read, which is caught too.\<close>

definition do_run ::
  "json_lib \<Rightarrow> (nat \<Rightarrow> 8 word) \<Rightarrow> 'a world_scheme job \<Rightarrow> 'a world_scheme \<Rightarrow> bool \<times> 'a world_scheme" where
  "do_run L beyond j w =
     (case job_work L beyond j w of
        (Returned r, _, w1) \<Rightarrow> (fst r, w1)
      | (_, _, w1) \<Rightarrow> (False, w1))"

section \<open>Properties\<close>

lemmas worker_defs = worker_start_def worker_pause_def set_priorities_def request_stop_def join_thread_def
  leave_run_def

text \<open>A worker takes the oldest job of the first of its priorities that has one, and leaves only when asked to,
  with nothing left to do.\<close>

lemma run_woken_cases:
  obtains (exit) "run_woken w p = leave_run w" "tw_stop w" "\<not> has_job w p"
  | (pause) "run_woken w p = w\<lparr>tw_phase := Waiting\<rparr>" "\<not> tw_stop w"
  | (orphan) "run_woken w p = leave_run w" "\<not> tw_has_pool w"
  | (pop) "run_woken w p = w\<lparr>tw_phase := Popping\<rparr>" "tw_has_pool w"
proof -
  consider "tw_stop w" "\<not> has_job w p" | "\<not> tw_stop w" "tw_pause w"
    | "\<not> (tw_stop w \<and> \<not> has_job w p)" "\<not> (\<not> tw_stop w \<and> tw_pause w)" "\<not> tw_has_pool w"
    | "\<not> (tw_stop w \<and> \<not> has_job w p)" "\<not> (\<not> tw_stop w \<and> tw_pause w)" "tw_has_pool w" by blast
  then show ?thesis
  proof cases
    case 1
    then show ?thesis using that(1) by (simp add: run_woken_def)
  next
    case 2
    then show ?thesis using that(2) by (simp add: run_woken_def)
  next
    case 3
    then have "run_woken w p = leave_run w" by (auto simp: run_woken_def)
    then show ?thesis using 3(3) by (rule that(3))
  next
    case 4
    then have "run_woken w p = w\<lparr>tw_phase := Popping\<rparr>" by (auto simp: run_woken_def)
    then show ?thesis using 4(3) by (rule that(4))
  qed
qed

lemma run_pop_cases:
  obtains (job) j p' where "run_pop w p = (w\<lparr>tw_phase := Working j\<rparr>, p')"
      "pool_pop (tw_priorities w) p = (Some j, p')"
  | (exit) "run_pop w p = (leave_run w, p)" "tw_stop w" "\<forall>q \<in> set (tw_priorities w). jobs_of p q = []"
  | (none) "run_pop w p = (w\<lparr>tw_phase := Waiting\<rparr>, p)" "\<not> tw_stop w"
      "\<forall>q \<in> set (tw_priorities w). jobs_of p q = []"
proof (cases "pool_pop (tw_priorities w) p")
  case (Pair x p')
  show ?thesis
  proof (cases x)
    case None
    then have "p' = p" "\<forall>q \<in> set (tw_priorities w). jobs_of p q = []"
      using pool_pop_None [of "tw_priorities w" p p'] Pair by simp_all
    then show ?thesis
      using that(2,3) Pair None by (cases "tw_stop w") (simp_all add: run_pop_def)
  next
    case (Some j)
    then show ?thesis using that(1) Pair by (simp add: run_pop_def)
  qed
qed

lemma no_job_empty:
  "tw_has_pool w \<Longrightarrow> \<not> has_job w p \<Longrightarrow> \<forall>q \<in> set (tw_priorities w). jobs_of p q = []"
  by (auto simp: has_job_def job_count_0 split: if_splits)

end
