(* ===== verification/Thread_Pool.thy ===== *)
theory Thread_Pool
  imports Thread_Worker
begin

text \<open>
  \<open>CommonLibrary/ThreadPool/ThreadPool.cpp\<close>: the pool of workers around one job pool. The calls of the
  client and the steps of the threads interleave; \<open>pool_step\<close> has a rule for each. \<open>stop\<close> holds the mutex
  of the pool while it joins one worker after the other; \<open>tp_joining\<close> is the worker it has come to.

  \<open>start\<close> is called when no worker has a thread (after a start that failed half way it would first join the
  threads it finds). A worker that \<open>remove_workers\<close> stops is between two jobs, and the client does not unlock the jobs while
  a stop is under way.

  The last five fields are the history the properties speak of and no part of the program: the jobs that were
  accepted, those whose work has ended, those that were dropped by a clear, and, for the stop that is under
  way, the pushes that had passed the test of the lock when it began and the jobs inserted since.
\<close>

record 's thread_pool =
  tp_title :: string
  tp_pause :: bool
  tp_working :: bool
  tp_jobs :: "'s job_pool"
  tp_workers :: "'s worker list"
  tp_joining :: "nat option"
  tp_entering :: "'s job list"
  tp_state :: 's
  tp_accepted :: "'s job list"
  tp_ran :: "'s job list"
  tp_cleared :: "'s job list"
  tp_overlap :: "'s job list"
  tp_late :: "'s job list"

definition new_thread_pool :: "string \<Rightarrow> 's \<Rightarrow> 's thread_pool" where
  "new_thread_pool title s =
     \<lparr>tp_title = title, tp_pause = False, tp_working = False, tp_jobs = new_job_pool (''JobPool on '' @ title),
      tp_workers = [], tp_joining = None, tp_entering = [], tp_state = s, tp_accepted = [], tp_ran = [],
      tp_cleared = [], tp_overlap = [], tp_late = []\<rparr>"

section \<open>Calls of the client\<close>

text \<open>A new worker gets the jobs, the pause and a title of the pool, and is started when the pool works;
  what its start returns is not looked at, an exception ends the call.\<close>

definition adopted :: "'s worker \<Rightarrow> 's thread_pool \<Rightarrow> 's worker" where
  "adopted w t = w\<lparr>tw_has_pool := True, tw_pause := tp_pause t,
     tw_title := priority_list_string (tw_priorities w) @ '' ThreadWorker on '' @ tp_title t\<rparr>"

definition tp_push_worker :: "'s worker \<Rightarrow> 's thread_pool \<Rightarrow> 's thread_pool" where
  "tp_push_worker w t =
     (let w1 = adopted w t; w2 = (if tp_working t then snd (worker_start w1) else w1)
      in t\<lparr>tp_workers := tp_workers t @ [w2]\<rparr>)"

text \<open>The workers in order, up to the first that throws or fails.\<close>

fun start_workers :: "'s worker list \<Rightarrow> (string + res) \<times> 's worker list" where
  "start_workers [] = (Inr ok_res, [])"
| "start_workers (w # ws) =
     (case worker_start w of
        (Inl e, w1) \<Rightarrow> (Inl e, w1 # ws)
      | (Inr r, w1) \<Rightarrow>
          if \<not> fst r then (Inr r, w1 # ws)
          else (case start_workers ws of (r', ws1) \<Rightarrow> (r', w1 # ws1)))"

definition tp_start :: "'s thread_pool \<Rightarrow> (string + res) \<times> 's thread_pool" where
  "tp_start t =
     (if tp_working t then (Inr (err_res ''already started''), t)
      else
        (case start_workers (tp_workers t) of
           (Inr r, ws) \<Rightarrow>
             if fst r then (Inr ok_res, t\<lparr>tp_workers := ws, tp_working := True\<rparr>)
             else (Inr r, t\<lparr>tp_workers := ws\<rparr>)
         | (Inl e, ws) \<Rightarrow> (Inl e, t\<lparr>tp_workers := ws\<rparr>)))"

definition tp_set_pause :: "bool \<Rightarrow> 's thread_pool \<Rightarrow> 's thread_pool" where
  "tp_set_pause b t = t\<lparr>tp_pause := b, tp_workers := map (worker_pause b) (tp_workers t)\<rparr>"

definition tp_lock :: "bool \<Rightarrow> 's thread_pool \<Rightarrow> 's thread_pool" where
  "tp_lock b t = t\<lparr>tp_jobs := pool_lock b (tp_jobs t)\<rparr>"

definition tp_set_title :: "string \<Rightarrow> 's thread_pool \<Rightarrow> 's thread_pool" where
  "tp_set_title title t =
     t\<lparr>tp_title := title, tp_jobs := (tp_jobs t)\<lparr>jp_title := title\<rparr>,
       tp_workers := map (\<lambda>w. w\<lparr>tw_title := title\<rparr>) (tp_workers t)\<rparr>"

text \<open>\<open>push\<close> of a job: the test of the lock, and the insertion.\<close>

definition tp_enter :: "'s job \<Rightarrow> 's thread_pool \<Rightarrow> 's thread_pool" where
  "tp_enter j t = t\<lparr>tp_entering := j # tp_entering t\<rparr>"

definition tp_insert :: "'s job \<Rightarrow> 's thread_pool \<Rightarrow> 's thread_pool" where
  "tp_insert j t =
     (case push_insert j (tp_jobs t) of
        (r, p) \<Rightarrow>
          if fst r then
            t\<lparr>tp_jobs := p, tp_entering := remove1 j (tp_entering t), tp_accepted := j # tp_accepted t,
              tp_late := (if tp_joining t = None then [] else j # tp_late t)\<rparr>
          else t\<lparr>tp_entering := remove1 j (tp_entering t)\<rparr>)"

text \<open>\<open>remove_workers\<close>: the jobs of the priority are dropped, the workers lose it, and those that have none left
  are stopped and removed; the number of them is the result.\<close>

definition without_priority :: "job_priority \<Rightarrow> 's worker \<Rightarrow> 's worker" where
  "without_priority q w = set_priorities (filter (\<lambda>r. r \<noteq> q) (tw_priorities w)) w"

definition idle_worker :: "'s worker \<Rightarrow> bool" where
  "idle_worker w \<longleftrightarrow> tw_phase w = No_Thread \<or> tw_phase w = Waiting"

definition tp_remove_workers :: "job_priority \<Rightarrow> 's thread_pool \<Rightarrow> (nat \<times> string option) \<times> 's thread_pool" where
  "tp_remove_workers q t =
     (let ws = map (without_priority q) (tp_workers t);
          removed = length (filter (\<lambda>w. tw_priorities w = []) ws)
      in ((removed, if removed = 0 then Some ''no worker to remove'' else None),
          t\<lparr>tp_jobs := clear_priority q (tp_jobs t), tp_cleared := jobs_of (tp_jobs t) q @ tp_cleared t,
            tp_workers := filter (\<lambda>w. tw_priorities w \<noteq> []) ws\<rparr>))"

section \<open>Stopping\<close>

definition tp_stop_begin :: "bool \<Rightarrow> 'a world_scheme thread_pool \<Rightarrow> res \<times> 'a world_scheme thread_pool" where
  "tp_stop_begin immediately t =
     (if \<not> tp_working t then (err_res ''not started'', t)
      else
        let locked = pool_lock True (tp_jobs t);
            (jobs, s) = (if immediately then clear_pool locked (tp_state t) else (locked, tp_state t))
        in (ok_res, t\<lparr>tp_jobs := jobs, tp_state := s, tp_joining := Some 0,
              tp_cleared := (if immediately then pool_jobs (tp_jobs t) else []) @ tp_cleared t,
              tp_overlap := tp_entering t, tp_late := []\<rparr>))"

definition set_worker :: "nat \<Rightarrow> 's worker \<Rightarrow> 's thread_pool \<Rightarrow> 's thread_pool" where
  "set_worker i w t = t\<lparr>tp_workers := (tp_workers t)[i := w]\<rparr>"

text \<open>A worker without a thread ends the call with its error: the job pool stays locked.\<close>

definition tp_stop_fail :: "'s thread_pool \<Rightarrow> res \<times> 's thread_pool" where
  "tp_stop_fail t = (err_res ''Thread is not running.'', t\<lparr>tp_joining := None\<rparr>)"

definition tp_stop_join :: "nat \<Rightarrow> 's thread_pool \<Rightarrow> 's thread_pool" where
  "tp_stop_join k t = (set_worker k (join_thread (tp_workers t ! k)) t)\<lparr>tp_joining := Some (Suc k)\<rparr>"

definition tp_stop_end :: "'s thread_pool \<Rightarrow> res \<times> 's thread_pool" where
  "tp_stop_end t = (ok_res, t\<lparr>tp_jobs := pool_lock False (tp_jobs t), tp_joining := None, tp_working := False\<rparr>)"

section \<open>Steps\<close>

inductive pool_step ::
  "json_lib \<Rightarrow> (nat \<Rightarrow> 8 word) \<Rightarrow> 'a world_scheme thread_pool \<Rightarrow> 'a world_scheme thread_pool \<Rightarrow> bool"
  for L beyond where
  Enter: "fst (push_check (Some j) (tp_jobs t)) \<Longrightarrow> pool_step L beyond t (tp_enter j t)"
| Insert: "j \<in> set (tp_entering t) \<Longrightarrow> pool_step L beyond t (tp_insert j t)"
| Push_Worker: "tp_joining t = None \<Longrightarrow> tw_phase w = No_Thread \<Longrightarrow> \<not> tw_stop w \<Longrightarrow>
    pool_step L beyond t (tp_push_worker w t)"
| Start: "tp_joining t = None \<Longrightarrow> \<forall>w \<in> set (tp_workers t). \<not> has_thread w \<Longrightarrow> pool_step L beyond t (snd (tp_start t))"
| Pause: "tp_joining t = None \<Longrightarrow> \<forall>w \<in> set (tp_workers t). \<not> holds_mutex w \<Longrightarrow>
    pool_step L beyond t (tp_set_pause b t)"
| Lock: "tp_joining t = None \<Longrightarrow> pool_step L beyond t (tp_lock b t)"
| Remove: "tp_joining t = None \<Longrightarrow> \<forall>w \<in> set (tp_workers t). \<not> holds_mutex w \<Longrightarrow>
    \<forall>w \<in> set (tp_workers t). tw_priorities (without_priority q w) = [] \<longrightarrow> idle_worker w \<Longrightarrow>
    pool_step L beyond t (snd (tp_remove_workers q t))"
| Stop_Begin: "tp_joining t = None \<Longrightarrow> pool_step L beyond t (snd (tp_stop_begin immediately t))"
| Stop_Request: "tp_joining t = Some k \<Longrightarrow> k < length (tp_workers t) \<Longrightarrow> has_thread (tp_workers t ! k) \<Longrightarrow>
    \<not> holds_mutex (tp_workers t ! k) \<Longrightarrow> tw_phase (tp_workers t ! k) \<noteq> Exited \<Longrightarrow>
    pool_step L beyond t (set_worker k (request_stop (tp_workers t ! k)) t)"
| Stop_Fail: "tp_joining t = Some k \<Longrightarrow> k < length (tp_workers t) \<Longrightarrow> \<not> has_thread (tp_workers t ! k) \<Longrightarrow>
    pool_step L beyond t (snd (tp_stop_fail t))"
| Stop_Join: "tp_joining t = Some k \<Longrightarrow> k < length (tp_workers t) \<Longrightarrow> tw_phase (tp_workers t ! k) = Exited \<Longrightarrow>
    pool_step L beyond t (tp_stop_join k t)"
| Stop_End: "tp_joining t = Some (length (tp_workers t)) \<Longrightarrow> pool_step L beyond t (snd (tp_stop_end t))"
| Wake: "i < length (tp_workers t) \<Longrightarrow> tw_phase (tp_workers t ! i) = Waiting \<Longrightarrow>
    check_condition (tp_workers t ! i) (tp_jobs t) \<Longrightarrow>
    pool_step L beyond t (set_worker i ((tp_workers t ! i)\<lparr>tw_phase := Woken\<rparr>) t)"
| Decide: "i < length (tp_workers t) \<Longrightarrow> tw_phase (tp_workers t ! i) = Woken \<Longrightarrow>
    pool_step L beyond t (set_worker i (run_woken (tp_workers t ! i) (tp_jobs t)) t)"
| Pop: "i < length (tp_workers t) \<Longrightarrow> tw_phase (tp_workers t ! i) = Popping \<Longrightarrow>
    run_pop (tp_workers t ! i) (tp_jobs t) = (w, p) \<Longrightarrow>
    pool_step L beyond t ((set_worker i w t)\<lparr>tp_jobs := p\<rparr>)"
| Finish: "i < length (tp_workers t) \<Longrightarrow> tw_phase (tp_workers t ! i) = Working j \<Longrightarrow>
    do_run L beyond j (tp_state t) = (ok, s) \<Longrightarrow>
    pool_step L beyond t
      ((set_worker i ((tp_workers t ! i)\<lparr>tw_phase := Waiting\<rparr>) t)\<lparr>tp_state := s, tp_ran := j # tp_ran t\<rparr>)"

inductive pool_run ::
  "json_lib \<Rightarrow> (nat \<Rightarrow> 8 word) \<Rightarrow> 'a world_scheme thread_pool \<Rightarrow> 'a world_scheme thread_pool \<Rightarrow> bool"
  for L beyond where
  run_refl: "pool_run L beyond t t"
| run_step: "pool_run L beyond t u \<Longrightarrow> pool_step L beyond u v \<Longrightarrow> pool_run L beyond t v"

end
