(* ===== verification/Thread_Pool_Properties.thy ===== *)
theory Thread_Pool_Properties
  imports Thread_Pool
begin

text \<open>
  Properties of the thread pool: no job is lost or run twice, and a stop leaves no work behind.
\<close>

section \<open>Where the jobs are\<close>

definition held :: "'s worker \<Rightarrow> 's job list" where
  "held w = (case tw_phase w of Working j \<Rightarrow> [j] | _ \<Rightarrow> [])"

definition in_work :: "'s worker list \<Rightarrow> 's job list" where
  "in_work ws = concat (map held ws)"

definition conserved :: "'s thread_pool \<Rightarrow> bool" where
  "conserved t \<longleftrightarrow>
     mset (tp_accepted t) =
       mset (pool_jobs (tp_jobs t)) + mset (in_work (tp_workers t)) + mset (tp_ran t) + mset (tp_cleared t)"

lemma held_simps [simp]:
  "held (w\<lparr>tw_phase := Waiting\<rparr>) = []" "held (w\<lparr>tw_phase := Woken\<rparr>) = []" "held (w\<lparr>tw_phase := Popping\<rparr>) = []"
  "held (w\<lparr>tw_phase := Working j\<rparr>) = [j]" "held (leave_run w) = []" "held (join_thread w) = []"
  "held (request_stop w) = held w" "held (worker_pause b w) = held w" "held (set_priorities ps w) = held w"
  by (simp_all add: held_def worker_defs)

lemma held_start [simp]: "tw_phase w = No_Thread \<Longrightarrow> held (snd (worker_start w)) = []"
  by (simp add: held_def worker_start_def)

lemma in_work_update:
  assumes "i < length ws"
  shows "mset (in_work (ws[i := w])) + mset (held (ws ! i)) = mset (in_work ws) + mset (held w)"
proof -
  have "mset (in_work ws) = mset (in_work (take i ws)) + mset (held (ws ! i)) + mset (in_work (drop (Suc i) ws))"
    by (subst id_take_nth_drop [OF assms]) (simp add: in_work_def)
  moreover have "mset (in_work (ws[i := w])) =
      mset (in_work (take i ws)) + mset (held w) + mset (in_work (drop (Suc i) ws))"
    using assms by (simp add: upd_conv_take_nth_drop in_work_def)
  ultimately show ?thesis by simp
qed

lemma in_work_same: "i < length ws \<Longrightarrow> held w = held (ws ! i) \<Longrightarrow> mset (in_work (ws[i := w])) = mset (in_work ws)"
  using in_work_update [of i ws w] by simp

lemma in_work_map: "(\<And>w. w \<in> set ws \<Longrightarrow> held (f w) = held w) \<Longrightarrow> in_work (map f ws) = in_work ws"
  by (induction ws) (simp_all add: in_work_def)

lemma in_work_filter: "(\<And>w. w \<in> set ws \<Longrightarrow> \<not> P w \<Longrightarrow> held w = []) \<Longrightarrow> in_work (filter P ws) = in_work ws"
  by (induction ws) (simp_all add: in_work_def)

lemma in_work_start: "\<forall>w \<in> set ws. tw_phase w = No_Thread \<Longrightarrow> in_work (snd (start_workers ws)) = []"
proof (induction ws)
  case (Cons w ws)
  have "in_work ws = []" using Cons.prems by (induction ws) (simp_all add: in_work_def held_def)
  moreover obtain x w1 where start: "worker_start w = (x, w1)" by (cases "worker_start w")
  moreover have "held w = []" "held w1 = []"
    using Cons.prems start by (auto simp: held_def worker_start_def split: if_splits)
  ultimately show ?case
    using Cons by (auto simp: in_work_def split: prod.split sum.split)
qed (simp add: in_work_def)

lemma in_work_none: "\<forall>w \<in> set ws. tw_phase w = No_Thread \<Longrightarrow> in_work ws = []"
  by (induction ws) (simp_all add: in_work_def held_def)

lemma in_work_append [simp]: "in_work (ws @ vs) = in_work ws @ in_work vs" "in_work [w] = held w"
  by (simp_all add: in_work_def)

lemma clear_pool_effect:
  "clear_pool p w = (p', w') \<Longrightarrow> pool_jobs p' = [] \<and> (\<forall>q. jobs_of p' q = []) \<and> jp_locked p' = jp_locked p"
  by (auto simp: clear_pool_def pool_jobs_def jobs_of_def value_or_def)

lemma conserved_step:
  assumes "pool_step L beyond t u" "conserved t"
  shows "conserved u"
  using assms
proof cases
  case (Enter j)
  then show ?thesis using assms(2) by (simp add: conserved_def tp_enter_def)
next
  case (Insert j)
  obtain r p where ins: "push_insert j (tp_jobs t) = (r, p)" by (cases "push_insert j (tp_jobs t)")
  show ?thesis
  proof (cases "fst r")
    case True
    then show ?thesis
      using assms(2) mset_pool_jobs_insert [of j "tp_jobs t"] Insert(1) ins
      by (simp add: conserved_def tp_insert_def)
  next
    case False
    then show ?thesis using assms(2) Insert(1) ins by (simp add: conserved_def tp_insert_def)
  qed
next
  case (Push_Worker w)
  have "held (snd (worker_start (adopted w t))) = []" "held (adopted w t) = []"
    using Push_Worker(3) by (simp_all add: adopted_def held_def worker_start_def)
  then show ?thesis using assms(2) Push_Worker(1) by (simp add: conserved_def tp_push_worker_def Let_def)
next
  case Start
  then have "in_work (tp_workers t) = []" "in_work (snd (start_workers (tp_workers t))) = []"
    by (auto simp: has_thread_def intro: in_work_none in_work_start)
  then show ?thesis
    using assms(2) Start(1) by (auto simp: conserved_def tp_start_def split: prod.split sum.split)
next
  case (Pause b)
  then show ?thesis using assms(2) by (simp add: conserved_def tp_set_pause_def in_work_map)
next
  case (Lock b)
  then show ?thesis using assms(2) by (simp add: conserved_def tp_lock_def)
next
  case (Remove q)
  have "in_work (filter (\<lambda>w. tw_priorities w \<noteq> []) (map (without_priority q) (tp_workers t))) = in_work (tp_workers t)"
    using Remove(4) by (subst in_work_filter)
      (auto simp: in_work_map without_priority_def idle_worker_def held_def set_priorities_def)
  then show ?thesis
    using assms(2) Remove(1) mset_pool_jobs_clear [of "tp_jobs t" q]
    by (simp add: conserved_def tp_remove_workers_def Let_def)
next
  case (Stop_Begin immediately)
  then show ?thesis
    using assms(2) by (auto simp: conserved_def tp_stop_begin_def dest!: clear_pool_effect split: prod.split)
next
  case (Stop_Request k)
  then show ?thesis using assms(2) by (simp add: conserved_def set_worker_def in_work_same)
next
  case (Stop_Fail k)
  then show ?thesis using assms(2) by (simp add: conserved_def tp_stop_fail_def)
next
  case (Stop_Join k)
  then have "held (tp_workers t ! k) = []" by (simp add: held_def)
  then show ?thesis
    using assms(2) Stop_Join by (simp add: conserved_def tp_stop_join_def set_worker_def in_work_same)
next
  case Stop_End
  then show ?thesis using assms(2) by (simp add: conserved_def tp_stop_end_def)
next
  case (Wake i)
  then have "held (tp_workers t ! i) = []" by (simp add: held_def)
  then show ?thesis using assms(2) Wake by (simp add: conserved_def set_worker_def in_work_same)
next
  case (Decide i)
  then have h: "held (tp_workers t ! i) = []" by (simp add: held_def)
  have "held (run_woken (tp_workers t ! i) (tp_jobs t)) = []"
    by (cases rule: run_woken_cases [of "tp_workers t ! i" "tp_jobs t"]) simp_all
  with h show ?thesis using assms(2) Decide by (simp add: conserved_def set_worker_def in_work_same)
next
  case (Pop i w p)
  then have h: "held (tp_workers t ! i) = []" by (simp add: held_def)
  show ?thesis
  proof (cases rule: run_pop_cases [of "tp_workers t ! i" "tp_jobs t"])
    case (job j p')
    have "mset (pool_jobs (tp_jobs t)) = add_mset j (mset (pool_jobs p'))"
      using jobs.fetch_mset [OF job(2)] by (simp add: pool_jobs_def)
    moreover have "mset (in_work ((tp_workers t)[i := w])) = add_mset j (mset (in_work (tp_workers t)))"
      using in_work_update [OF Pop(2), of w] h job(1) Pop(4) by auto
    ultimately show ?thesis
      using assms(2) job(1) Pop by (simp add: conserved_def set_worker_def)
  qed (use assms(2) Pop h in \<open>auto simp: conserved_def set_worker_def in_work_same\<close>)
next
  case (Finish i j ok s)
  then have "held (tp_workers t ! i) = [j]" by (simp add: held_def)
  then show ?thesis
    using assms(2) Finish in_work_update [OF Finish(2), of "(tp_workers t ! i)\<lparr>tw_phase := Waiting\<rparr>"]
    by (simp add: conserved_def set_worker_def)
qed

section \<open>Stopping\<close>

text \<open>A worker has no work left but what came in during the stop.\<close>

definition drained :: "'s thread_pool \<Rightarrow> 's worker \<Rightarrow> bool" where
  "drained t w \<longleftrightarrow> (\<forall>q \<in> set (tw_priorities w). set (jobs_of (tp_jobs t) q) \<subseteq> set (tp_late t))"

definition worker_inv :: "'s thread_pool \<Rightarrow> nat \<Rightarrow> 's worker \<Rightarrow> bool" where
  "worker_inv t i w \<longleftrightarrow>
     tw_has_pool w \<and> (tw_phase w = No_Thread \<or> tw_phase w = Exited \<longrightarrow> \<not> tw_stop w) \<and>
     (case tp_joining t of
        None \<Rightarrow> \<not> tw_stop w \<and> tw_phase w \<noteq> Exited
      | Some k \<Rightarrow>
          if i < k then tw_phase w = No_Thread \<and> drained t w
          else if i = k then tw_phase w = Exited \<longrightarrow> drained t w
          else \<not> tw_stop w \<and> tw_phase w \<noteq> Exited)"

definition stop_inv :: "'s thread_pool \<Rightarrow> bool" where
  "stop_inv t \<longleftrightarrow>
     (\<forall>i < length (tp_workers t). worker_inv t i (tp_workers t ! i)) \<and>
     (\<forall>k. tp_joining t = Some k \<longrightarrow>
        k \<le> length (tp_workers t) \<and> jp_locked (tp_jobs t) \<and>
        set (tp_entering t) \<subseteq> set (tp_overlap t) \<and> set (tp_late t) \<subseteq> set (tp_overlap t))"

lemma stop_invI:
  assumes "\<And>i. i < length (tp_workers t) \<Longrightarrow> worker_inv t i (tp_workers t ! i)"
    and "\<And>k. tp_joining t = Some k \<Longrightarrow> k \<le> length (tp_workers t)"
    and "\<And>k. tp_joining t = Some k \<Longrightarrow> jp_locked (tp_jobs t) \<and>
      set (tp_entering t) \<subseteq> set (tp_overlap t) \<and> set (tp_late t) \<subseteq> set (tp_overlap t)"
  shows "stop_inv t"
  using assms by (simp add: stop_inv_def)

lemma worker_inv_mono:
  assumes "worker_inv t i w" "tp_joining u = tp_joining t"
    and "\<And>q. set (jobs_of (tp_jobs u) q) \<subseteq> set (jobs_of (tp_jobs t) q) \<union> set (tp_late u)"
    and "set (tp_late t) \<subseteq> set (tp_late u)"
  shows "worker_inv u i w"
proof -
  have "drained t w \<Longrightarrow> drained u w" using assms(3,4) by (fastforce simp: drained_def)
  then show ?thesis using assms(1,2) by (auto simp: worker_inv_def split: option.splits if_splits)
qed

text \<open>While no stop is under way the invariant speaks of each worker alone.\<close>

definition calm_worker :: "'s worker \<Rightarrow> bool" where
  "calm_worker w \<longleftrightarrow> tw_has_pool w \<and> \<not> tw_stop w \<and> tw_phase w \<noteq> Exited"

lemma stop_inv_calm: "tp_joining t = None \<Longrightarrow> stop_inv t \<longleftrightarrow> (\<forall>w \<in> set (tp_workers t). calm_worker w)"
  by (auto simp: stop_inv_def worker_inv_def calm_worker_def all_set_conv_all_nth)

lemma calm_start: "calm_worker w \<Longrightarrow> calm_worker (snd (worker_start w))"
  by (simp add: calm_worker_def worker_start_def)

lemma calm_starts: "\<forall>w \<in> set ws. calm_worker w \<Longrightarrow> \<forall>w \<in> set (snd (start_workers ws)). calm_worker w"
proof (induction ws)
  case (Cons w ws)
  obtain x w1 where "worker_start w = (x, w1)" by (cases "worker_start w")
  moreover have "calm_worker w1" using calm_start [of w] Cons.prems calculation by simp
  ultimately show ?case using Cons by (auto split: prod.split sum.split)
qed simp

text \<open>A step of one worker that leaves the queues alone.\<close>

lemma stop_inv_worker:
  assumes "stop_inv t" "i < length (tp_workers t)" "worker_inv t i w"
  shows "stop_inv (set_worker i w t)"
proof (rule stop_invI)
  fix n assume "n < length (tp_workers (set_worker i w t))"
  then have n: "n < length (tp_workers t)" by (simp add: set_worker_def)
  have "worker_inv t n ((tp_workers t)[i := w] ! n)"
    using assms n by (cases "n = i") (simp_all add: stop_inv_def)
  then show "worker_inv (set_worker i w t) n (tp_workers (set_worker i w t) ! n)"
    using worker_inv_mono [of t n "(tp_workers t)[i := w] ! n" "set_worker i w t"] by (simp add: set_worker_def)
qed (use assms(1) in \<open>simp_all add: stop_inv_def set_worker_def\<close>)

lemma worker_inv_phase:
  "worker_inv t i w \<Longrightarrow> tw_phase w \<noteq> No_Thread \<Longrightarrow> tw_phase w \<noteq> Exited \<Longrightarrow> ph \<noteq> No_Thread \<Longrightarrow> ph \<noteq> Exited \<Longrightarrow>
     worker_inv t i (w\<lparr>tw_phase := ph\<rparr>)"
  by (auto simp: worker_inv_def split: option.splits if_splits)

lemma worker_inv_leave:
  assumes "worker_inv t i w" "tw_stop w" "tw_phase w \<noteq> No_Thread" "\<forall>q \<in> set (tw_priorities w). jobs_of (tp_jobs t) q = []"
  shows "worker_inv t i (leave_run w)"
  using assms by (auto simp: worker_inv_def leave_run_def drained_def split: option.splits if_splits)

lemma stop_inv_jobs:
  assumes "stop_inv t" "\<And>q. set (jobs_of p q) \<subseteq> set (jobs_of (tp_jobs t) q)" "jp_locked p = jp_locked (tp_jobs t)"
  shows "stop_inv (t\<lparr>tp_jobs := p\<rparr>)"
proof (rule stop_invI)
  fix i assume "i < length (tp_workers (t\<lparr>tp_jobs := p\<rparr>))"
  then have "worker_inv t i (tp_workers t ! i)" using assms(1) by (simp add: stop_inv_def)
  then show "worker_inv (t\<lparr>tp_jobs := p\<rparr>) i (tp_workers (t\<lparr>tp_jobs := p\<rparr>) ! i)"
    using worker_inv_mono [of t i "tp_workers t ! i" "t\<lparr>tp_jobs := p\<rparr>"] assms(2) by (simp add: le_supI1)
qed (use assms in \<open>auto simp: stop_inv_def\<close>)

lemma calm_setters:
  "calm_worker w \<Longrightarrow> calm_worker (worker_pause b w)" "calm_worker w \<Longrightarrow> calm_worker (without_priority q w)"
  by (simp_all add: calm_worker_def worker_defs without_priority_def)

lemma stop_inv_nth: "stop_inv t \<Longrightarrow> i < length (tp_workers t) \<Longrightarrow> worker_inv t i (tp_workers t ! i)"
  by (simp add: stop_inv_def)

lemma drained_history [simp]: "drained (t\<lparr>tp_state := s, tp_ran := r\<rparr>) w = drained t w"
  by (simp add: drained_def)

lemma stop_inv_history [simp]: "stop_inv (t\<lparr>tp_state := s, tp_ran := r\<rparr>) = stop_inv t"
  by (cases "tp_joining t") (simp_all add: stop_inv_def worker_inv_def)

lemma stop_inv_insert:
  assumes "stop_inv t" "j \<in> set (tp_entering t)"
  shows "stop_inv (tp_insert j t)"
proof -
  obtain r p where ins: "push_insert j (tp_jobs t) = (r, p)" by (cases "push_insert j (tp_jobs t)")
  show ?thesis
  proof (cases "fst r")
    case True
    then have jobs: "jobs_of p q = jobs_of (tp_jobs t) q @ (if q = jb_priority j then [j] else [])" for q
      using jobs_of_insert [of j "tp_jobs t" q] ins by simp
    show ?thesis
    proof (cases "tp_joining t")
      case None
      then show ?thesis
        using assms(1) True ins by (simp add: stop_inv_calm tp_insert_def)
    next
      case (Some k)
      show ?thesis
      proof (rule stop_invI)
        fix i assume "i < length (tp_workers (tp_insert j t))"
        then have "worker_inv t i (tp_workers t ! i)"
          using assms(1) True ins by (simp add: stop_inv_def tp_insert_def)
        then show "worker_inv (tp_insert j t) i (tp_workers (tp_insert j t) ! i)"
          using worker_inv_mono [of t i "tp_workers t ! i" "tp_insert j t"] True ins Some jobs
          by (auto simp: tp_insert_def)
      next
        show "k \<le> length (tp_workers (tp_insert j t))" if "tp_joining (tp_insert j t) = Some k" for k
          using that assms(1) True ins by (simp add: stop_inv_def tp_insert_def)
      next
        have "jp_locked p = jp_locked (tp_jobs t)" using jp_locked_push [of j "tp_jobs t"] ins by simp
        moreover have "set (remove1 j (tp_entering t)) \<subseteq> set (tp_entering t)" by (rule set_remove1_subset)
        ultimately show "jp_locked (tp_jobs (tp_insert j t)) \<and>
            set (tp_entering (tp_insert j t)) \<subseteq> set (tp_overlap (tp_insert j t)) \<and>
            set (tp_late (tp_insert j t)) \<subseteq> set (tp_overlap (tp_insert j t))"
          using assms True ins Some by (auto simp: stop_inv_def tp_insert_def)
      qed
    qed
  next
    case False
    then have new: "tp_insert j t = t\<lparr>tp_entering := remove1 j (tp_entering t)\<rparr>" using ins by (simp add: tp_insert_def)
    have "worker_inv (tp_insert j t) i (tp_workers t ! i)" if "i < length (tp_workers t)" for i
      using worker_inv_mono [OF stop_inv_nth [OF assms(1) that], of "tp_insert j t"] new by simp
    then show ?thesis
      using assms(1) new subset_trans [OF set_remove1_subset [of j "tp_entering t"]]
      by (simp add: stop_inv_def)
  qed
qed

lemma stop_inv_step:
  assumes "pool_step L beyond t u" "stop_inv t"
  shows "stop_inv u"
  using assms
proof cases
  case (Enter j)
  then have "tp_joining t = None" using assms(2) by (auto simp: stop_inv_def push_check_def split: if_splits)
  then show ?thesis using Enter assms(2) by (simp add: stop_inv_calm tp_enter_def)
next
  case (Insert j)
  then show ?thesis using assms(2) by (simp add: stop_inv_insert)
next
  case (Push_Worker w)
  have "calm_worker (adopted w t)" using Push_Worker by (simp add: calm_worker_def adopted_def)
  then have "calm_worker (adopted w t)" "calm_worker (snd (worker_start (adopted w t)))" by (simp_all add: calm_start)
  then show ?thesis using Push_Worker assms(2) by (simp add: stop_inv_calm tp_push_worker_def Let_def)
next
  case Start
  then show ?thesis
    using assms(2) calm_starts [of "tp_workers t"]
    by (auto simp: stop_inv_calm tp_start_def split: prod.split sum.split)
next
  case (Pause b)
  then show ?thesis using assms(2) by (simp add: stop_inv_calm tp_set_pause_def calm_setters)
next
  case (Lock b)
  then show ?thesis using assms(2) by (simp add: stop_inv_calm tp_lock_def)
next
  case (Remove q)
  then show ?thesis using assms(2) by (auto simp: stop_inv_calm tp_remove_workers_def Let_def intro: calm_setters)
next
  case (Stop_Begin immediately)
  show ?thesis
  proof (cases "tp_working t")
    case True
    have calm: "\<forall>w \<in> set (tp_workers t). calm_worker w" using Stop_Begin assms(2) by (simp add: stop_inv_calm)
    show ?thesis
      using calm True Stop_Begin(1)
      by (auto simp: stop_inv_def worker_inv_def calm_worker_def tp_stop_begin_def all_set_conv_all_nth
          dest!: clear_pool_effect split: prod.split)
  next
    case False
    then show ?thesis using Stop_Begin assms(2) by (simp add: tp_stop_begin_def)
  qed
next
  case (Stop_Request k)
  have "worker_inv t k (request_stop (tp_workers t ! k))"
    using stop_inv_nth [OF assms(2) Stop_Request(3)] Stop_Request
    by (auto simp: worker_inv_def request_stop_def has_thread_def)
  then show ?thesis using Stop_Request assms(2) by (simp add: stop_inv_worker)
next
  case (Stop_Fail k)
  have "calm_worker (tp_workers t ! i)" if "i < length (tp_workers t)" for i
    using stop_inv_nth [OF assms(2) that] Stop_Fail
    by (auto simp: worker_inv_def calm_worker_def has_thread_def split: if_splits)
  then show ?thesis using Stop_Fail(1) by (simp add: stop_inv_calm tp_stop_fail_def all_set_conv_all_nth)
next
  case (Stop_Join k)
  show ?thesis unfolding Stop_Join(1)
  proof (rule stop_invI)
    fix i assume "i < length (tp_workers (tp_stop_join k t))"
    then have i: "i < length (tp_workers t)" by (simp add: tp_stop_join_def set_worker_def)
    show "worker_inv (tp_stop_join k t) i (tp_workers (tp_stop_join k t) ! i)"
      using stop_inv_nth [OF assms(2) i] Stop_Join
      by (cases "i = k")
        (auto simp: worker_inv_def tp_stop_join_def set_worker_def join_thread_def drained_def split: if_splits)
  qed (use Stop_Join assms(2) in \<open>auto simp: stop_inv_def tp_stop_join_def set_worker_def\<close>)
next
  case Stop_End
  have "calm_worker (tp_workers t ! i)" if "i < length (tp_workers t)" for i
    using stop_inv_nth [OF assms(2) that] Stop_End that by (auto simp: worker_inv_def calm_worker_def)
  then show ?thesis using Stop_End(1) by (simp add: stop_inv_calm tp_stop_end_def all_set_conv_all_nth)
next
  case (Wake i)
  then show ?thesis
    using assms(2) worker_inv_phase [OF stop_inv_nth [OF assms(2) Wake(2)], of Woken] by (simp add: stop_inv_worker)
next
  case (Decide i)
  let ?w = "tp_workers t ! i"
  have w: "worker_inv t i ?w" by (rule stop_inv_nth [OF assms(2) Decide(2)])
  have pool: "tw_has_pool ?w" using w by (simp add: worker_inv_def)
  have "worker_inv t i (run_woken ?w (tp_jobs t))"
  proof (cases rule: run_woken_cases [of ?w "tp_jobs t"])
    case exit
    then show ?thesis using worker_inv_leave [OF w] no_job_empty [OF pool] Decide(3) by simp
  qed (use w pool Decide(3) worker_inv_phase [OF w, of Waiting] worker_inv_phase [OF w, of Popping] in auto)
  then show ?thesis using Decide assms(2) by (simp add: stop_inv_worker)
next
  case (Pop i w p)
  let ?w = "tp_workers t ! i"
  have inv: "worker_inv t i ?w" by (rule stop_inv_nth [OF assms(2) Pop(2)])
  have "worker_inv t i w"
    using inv Pop(3,4) worker_inv_phase [OF inv] worker_inv_leave [OF inv]
    by (cases rule: run_pop_cases [of ?w "tp_jobs t"]) auto
  then have "stop_inv (set_worker i w t)" using assms(2) Pop(2) by (simp add: stop_inv_worker)
  moreover have "set (jobs_of p q) \<subseteq> set (jobs_of (tp_jobs t) q) \<and> jp_locked p = jp_locked (tp_jobs t)" for q
    using Pop(4) jobs.fetch_subset pool_pop_Some
    by (cases rule: run_pop_cases [of ?w "tp_jobs t"]) (fastforce simp: jobs.fetch_subset)+
  ultimately show ?thesis
    unfolding Pop(1) using stop_inv_jobs [of "set_worker i w t" p] by (simp add: set_worker_def)
next
  case (Finish i j ok s)
  then have "stop_inv (set_worker i ((tp_workers t ! i)\<lparr>tw_phase := Waiting\<rparr>) t)"
    using assms(2) worker_inv_phase [OF stop_inv_nth [OF assms(2) Finish(2)], of Waiting] by (simp add: stop_inv_worker)
  then show ?thesis
    unfolding Finish(1) by (simp add: stop_inv_history)
qed

lemma pool_run_inv: "pool_run L beyond (new_thread_pool title s) t \<Longrightarrow> conserved t \<and> stop_inv t"
proof (induction "new_thread_pool title s" t rule: pool_run.induct)
  case run_refl
  then show ?case
    by (simp add: conserved_def stop_inv_calm new_thread_pool_def in_work_def pool_jobs_def new_job_pool_def
        jobs_of_def value_or_def all_priorities_def)
next
  case (run_step u v)
  then show ?case using conserved_step stop_inv_step by blast
qed


section \<open>A concrete run\<close>

definition demo_pool_world :: world where
  "demo_pool_world = \<lparr>files = [], dirs = [], clock = (\<lambda>n. 0), clock_n = 0, guids = (\<lambda>n. []), guid_n = 0,
     fault = (\<lambda>n. None), io_n = 0\<rparr>"

definition demo_job :: "world job" where
  "demo_job = job_void High (Pair (Returned ok_res)) ''sweep'' True"

text \<open>The state of a pool with one worker.\<close>

definition demo_pool ::
  "bool \<Rightarrow> world job_pool \<Rightarrow> world worker \<Rightarrow> nat option \<Rightarrow> world job list \<Rightarrow> world job list \<Rightarrow> world job list \<Rightarrow>
     world thread_pool" where
  "demo_pool working jobs w joining entering taken finished =
     \<lparr>tp_title = ''demo'', tp_pause = False, tp_working = working, tp_jobs = jobs, tp_workers = [w],
      tp_joining = joining, tp_entering = entering, tp_state = demo_pool_world, tp_accepted = taken, tp_ran = finished,
      tp_cleared = [], tp_overlap = [], tp_late = []\<rparr>"

definition demo_jobs :: "bool \<Rightarrow> world job list option \<Rightarrow> world job_pool" where
  "demo_jobs locked queue = \<lparr>jp_title = ''JobPool on demo'', jp_locked = locked,
     jp_queues = (\<lambda>q. if q = High then queue else None)\<rparr>"

definition demo_worker :: "bool \<Rightarrow> bool \<Rightarrow> world phase \<Rightarrow> world worker" where
  "demo_worker stop started ph = \<lparr>tw_title = ''[ High ] ThreadWorker on demo'', tw_priorities = [High],
     tw_pause = False, tw_stop = stop, tw_has_pool = True, tw_started = started, tw_phase = ph\<rparr>"

lemmas demo_pool_defs = demo_pool_def demo_jobs_def demo_worker_def set_worker_def jobs_of_def value_or_def fun_eq_iff
  Let_def

lemma demo_job_simps [simp]:
  "jb_priority demo_job = High" "jb_temporary_file demo_job = []"
  "jb_callback demo_job = On_Void (Pair (Returned ok_res))"
  by (simp_all add: demo_job_def job_void_def new_job_def)

lemma stepI: "pool_step L beyond t u \<Longrightarrow> u = v \<Longrightarrow> pool_step L beyond t v"
  by simp

lemma demo_run_worked:
  "pool_run ref_json (\<lambda>i. 0) (new_thread_pool ''demo'' demo_pool_world)
     (demo_pool True (demo_jobs True (Some [])) (demo_worker True True Waiting) (Some 0) [] [demo_job] [demo_job])"
proof -
  let ?step = "pool_step ref_json (\<lambda>i. 0)" and ?w = "demo_worker False"
  have 1: "?step (new_thread_pool ''demo'' demo_pool_world)
      (demo_pool False (demo_jobs False None) (?w False No_Thread) None [] [] [])"
    by (rule stepI [OF Push_Worker [where w = "new_worker [High] []"]]) (simp_all add: new_thread_pool_def new_worker_def tp_push_worker_def adopted_def new_job_pool_def
        priority_list_string_def demo_pool_defs)
  have 2: "?step (demo_pool False (demo_jobs False None) (?w False No_Thread) None [] [] [])
      (demo_pool True (demo_jobs False None) (?w True Waiting) None [] [] [])"
    by (rule stepI [OF Start]) (simp_all add: tp_start_def worker_start_def has_thread_def demo_pool_defs)
  have 3: "?step (demo_pool True (demo_jobs False None) (?w True Waiting) None [] [] [])
      (demo_pool True (demo_jobs False None) (?w True Waiting) None [demo_job] [] [])"
    by (rule stepI [OF Enter [where j = demo_job]]) (simp_all add: tp_enter_def push_check_def demo_pool_defs)
  have 4: "?step (demo_pool True (demo_jobs False None) (?w True Waiting) None [demo_job] [] [])
      (demo_pool True (demo_jobs False (Some [demo_job])) (?w True Waiting) None [] [demo_job] [])"
    by (rule stepI [OF Insert [where j = demo_job]]) (simp_all add: tp_insert_def push_insert_def demo_pool_defs)
  have 5: "?step (demo_pool True (demo_jobs False (Some [demo_job])) (?w True Waiting) None [] [demo_job] [])
      (demo_pool True (demo_jobs True (Some [demo_job])) (?w True Waiting) (Some 0) [] [demo_job] [])"
    by (rule stepI [OF Stop_Begin [where immediately = False]]) (simp_all add: tp_stop_begin_def pool_lock_def demo_pool_defs)
  have 6: "?step (demo_pool True (demo_jobs True (Some [demo_job])) (?w True Waiting) (Some 0) [] [demo_job] [])
      (demo_pool True (demo_jobs True (Some [demo_job])) (demo_worker True True Waiting) (Some 0) [] [demo_job] [])"
    by (rule stepI [OF Stop_Request [where k = 0]]) (simp_all add: request_stop_def has_thread_def holds_mutex_def demo_pool_defs)
  let ?q = "demo_jobs True (Some [demo_job])" and ?v = "demo_worker True True"
  have 7: "?step (demo_pool True ?q (?v Waiting) (Some 0) [] [demo_job] [])
      (demo_pool True ?q (?v Woken) (Some 0) [] [demo_job] [])"
    by (rule stepI [OF Wake [where i = 0]]) (simp_all add: check_condition_def demo_pool_defs)
  have 8: "?step (demo_pool True ?q (?v Woken) (Some 0) [] [demo_job] [])
      (demo_pool True ?q (?v Popping) (Some 0) [] [demo_job] [])"
    by (rule stepI [OF Decide [where i = 0]]) (simp_all add: run_woken_def has_job_def job_count_def demo_pool_defs)
  have 9: "?step (demo_pool True ?q (?v Popping) (Some 0) [] [demo_job] [])
      (demo_pool True (demo_jobs True (Some [])) (?v (Working demo_job)) (Some 0) [] [demo_job] [])"
    by (rule stepI [OF Pop [where i = 0 and w = "demo_worker True True (Working demo_job)" and p = "demo_jobs True (Some [])"]]) (simp_all add: run_pop_def demo_pool_defs)
  have 10: "?step (demo_pool True (demo_jobs True (Some [])) (?v (Working demo_job)) (Some 0) [] [demo_job] [])
      (demo_pool True (demo_jobs True (Some [])) (?v Waiting) (Some 0) [] [demo_job] [demo_job])"
    by (rule stepI [OF Finish [where i = 0 and j = demo_job and ok = True and s = demo_pool_world]]) (simp_all add: do_run_def job_work_def job_load_def job_call_def job_destroy_def callback_safe_caller_def
        demo_pool_defs)
  show ?thesis
    by (rule run_refl [THEN run_step, OF 1, THEN run_step, OF 2, THEN run_step, OF 3, THEN run_step, OF 4,
        THEN run_step, OF 5, THEN run_step, OF 6, THEN run_step, OF 7, THEN run_step, OF 8, THEN run_step, OF 9,
        THEN run_step, OF 10])
qed

lemma demo_run_joined:
  "pool_run ref_json (\<lambda>i. 0) (new_thread_pool ''demo'' demo_pool_world)
     (demo_pool True (demo_jobs True (Some [])) (demo_worker False True No_Thread) (Some 1) [] [demo_job] [demo_job])"
proof -
  let ?step = "pool_step ref_json (\<lambda>i. 0)" and ?q = "demo_jobs True (Some [])"
  let ?pool = "\<lambda>w k. demo_pool True ?q w (Some k) [] [demo_job] [demo_job]"
  have 1: "?step (?pool (demo_worker True True Waiting) 0) (?pool (demo_worker True True Woken) 0)"
    by (rule stepI [OF Wake [where i = 0]]) (simp_all add: check_condition_def demo_pool_defs)
  have 2: "?step (?pool (demo_worker True True Woken) 0) (?pool (demo_worker False True Exited) 0)"
    by (rule stepI [OF Decide [where i = 0]]) (simp_all add: run_woken_def leave_run_def has_job_def job_count_def demo_pool_defs)
  have 3: "?step (?pool (demo_worker False True Exited) 0) (?pool (demo_worker False True No_Thread) 1)"
    by (rule stepI [OF Stop_Join [where k = 0]]) (simp_all add: tp_stop_join_def join_thread_def demo_pool_defs)
  show ?thesis
    by (rule demo_run_worked [THEN run_step, OF 1, THEN run_step, OF 2, THEN run_step, OF 3])
qed


section \<open>No second start\<close>

text \<open>A pool that was stopped cannot be started again: the promise of its first worker has been used.\<close>

lemma start_again_throws:
  assumes "tp_workers t = w # ws" "tw_started w" "tw_priorities w \<noteq> []" "\<not> tp_working t"
  shows "fst (tp_start t) = Inl ''std::future_error: Future already retrieved'' \<and> \<not> tp_working (snd (tp_start t))"
  using assms by (simp add: tp_start_def worker_start_def)

text \<open>A stop that meets a worker without a thread leaves the jobs locked: from then on every push is refused.\<close>

lemma failed_stop_refuses:
  assumes "stop_inv t" "tp_joining t = Some k"
  shows "\<not> fst (push_check (Some j) (tp_jobs (snd (tp_stop_fail t))))"
  using assms by (simp add: tp_stop_fail_def push_check_def stop_inv_def)

end
