(* ===== verification/File_Stream.thy ===== *)
theory File_Stream
  imports OS_World
begin

text \<open>
  \<open>CommonLibrary/Utilities/File.cpp\<close>: a file object around a \<open>std::fstream\<close>. A byte is a character. The
  stream is open on a path with the mode it was opened with, has one position for reading and writing, and the
  two state flags that decide what the next call does; what it writes is in the file at once. Calls
  that throw give \<open>Inl\<close> and the text of the exception.

  The member \<open>openmode_\<close> is set by no function of the class, so the tests of it are the tests of a constant
  that is no mode at all.
\<close>

record open_mode =
  om_in :: bool
  om_out :: bool
  om_trunc :: bool
  om_app :: bool

record file_object =
  fo_file_path :: string
  fo_openmode :: open_mode
  fo_stream :: "(path \<times> open_mode) option"
  fo_pos :: nat
  fo_fail :: bool

definition no_mode :: open_mode where
  "no_mode = \<lparr>om_in = False, om_out = False, om_trunc = False, om_app = False\<rparr>"

definition new_file :: file_object where
  "new_file = \<lparr>fo_file_path = [], fo_openmode = no_mode, fo_stream = None, fo_pos = 0, fo_fail = False\<rparr>"

definition mode_read :: open_mode where
  "mode_read = no_mode\<lparr>om_in := True\<rparr>"

definition mode_write :: open_mode where
  "mode_write = no_mode\<lparr>om_out := True, om_trunc := True\<rparr>"

definition mode_append :: open_mode where
  "mode_append = no_mode\<lparr>om_out := True, om_app := True\<rparr>"

section \<open>Open and close\<close>

text \<open>What \<open>fstream::open\<close> does with a mode; the flag for binary files changes nothing here.\<close>

datatype open_kind = Invalid_Mode | Existing | Append | Truncate

definition open_kind :: "open_mode \<Rightarrow> open_kind" where
  "open_kind m =
     (if om_app m then (if om_trunc m then Invalid_Mode else Append)
      else if om_out m \<and> (om_trunc m \<or> \<not> om_in m) then Truncate
      else if om_trunc m \<or> \<not> om_in m then Invalid_Mode
      else Existing)"

text \<open>The file a stream is opened on: None when the system refuses.\<close>

definition stream_open :: "path \<Rightarrow> open_mode \<Rightarrow> 'a world_scheme \<Rightarrow> bool \<times> 'a world_scheme" where
  "stream_open p m w =
     (let (e, w1) = os_io w
      in if e \<noteq> None \<or> p = [] \<or> \<not> is_dir w1 (butlast p) \<or> is_dir w1 p then (False, w1)
         else
           (case open_kind m of
              Invalid_Mode \<Rightarrow> (False, w1)
            | Existing \<Rightarrow> (is_file w1 p, w1)
            | Append \<Rightarrow> (True, if is_file w1 p then w1 else w1\<lparr>files := AList.update p [] (files w1)\<rparr>)
            | Truncate \<Rightarrow> (True, w1\<lparr>files := AList.update p [] (files w1)\<rparr>)))"

text \<open>\<open>File::open\<close>. A stream that is open already stays on its file and only fails, but \<open>open\<close> reports
  success.\<close>

definition file_open ::
  "string \<Rightarrow> open_mode \<Rightarrow> file_object \<Rightarrow> 'a world_scheme \<Rightarrow> (string + res) \<times> file_object \<times> 'a world_scheme" where
  "file_open name m f w =
     (let p = to_path name;
          (made, w1) = (if butlast p = [] then (None, w) else os_mkdirs (butlast p) w)
      in case made of
           Some e \<Rightarrow> (Inl e, f\<lparr>fo_file_path := name\<rparr>, w1)
         | None \<Rightarrow>
             if fo_stream f \<noteq> None then (Inr ok_res, f\<lparr>fo_file_path := name, fo_fail := True\<rparr>, w1)
             else
               (case stream_open p m w1 of
                  (True, w2) \<Rightarrow>
                    (Inr ok_res, f\<lparr>fo_file_path := name, fo_stream := Some (p, m), fo_pos := 0, fo_fail := False\<rparr>, w2)
                | (False, w2) \<Rightarrow>
                    (Inr (err_res ((if fexists w2 p then ''cannot open file : '' else ''there is no file : '') @ name)),
                     f\<lparr>fo_file_path := name, fo_fail := True\<rparr>, w2)))"

definition file_close :: "file_object \<Rightarrow> file_object" where
  "file_close f = (if fo_stream f = None then f else f\<lparr>fo_stream := None, fo_file_path := []\<rparr>)"

section \<open>Writing\<close>

definition not_open :: "string \<Rightarrow> file_object \<Rightarrow> string" where
  "not_open action f = ''cannot '' @ action @ '' file by unopened condition : '' @ fo_file_path f"

definition wrong_mode :: "string \<Rightarrow> file_object \<Rightarrow> string" where
  "wrong_mode action f = ''cannot '' @ action @ '' file by wrong openmode : 0 -> '' @ fo_file_path f"

text \<open>The bytes of a file after a write at a position; a gap is filled with zero bytes.\<close>

definition overwrite :: "string \<Rightarrow> nat \<Rightarrow> string \<Rightarrow> string" where
  "overwrite c n s =
     take n (c @ replicate (n - length c) (CHR 0x00)) @ s @ drop (n + length s) c"

text \<open>\<open>ostream::write\<close>: nothing on a stream that failed; a stream not opened for writing fails.\<close>

definition stream_write :: "string \<Rightarrow> file_object \<Rightarrow> 'a world_scheme \<Rightarrow> file_object \<times> 'a world_scheme" where
  "stream_write s f w =
     (case fo_stream f of
        None \<Rightarrow> (f, w)
      | Some (p, m) \<Rightarrow>
          if fo_fail f \<or> s = [] then (f, w)
          else if \<not> om_out m \<and> \<not> om_app m then (f\<lparr>fo_fail := True\<rparr>, w)
          else
            let c = value_or (fget w p) []; n = (if om_app m then length c else fo_pos f)
            in (f\<lparr>fo_pos := n + length s\<rparr>, w\<lparr>files := AList.update p (overwrite c n s) (files w)\<rparr>))"

text \<open>The three \<open>write_bytes\<close>: the size is cut to 32 bits, and the state of the stream is not looked at.\<close>

definition file_write_bytes ::
  "string \<Rightarrow> file_object \<Rightarrow> 'a world_scheme \<Rightarrow> res \<times> file_object \<times> 'a world_scheme" where
  "file_write_bytes bytes f w =
     (if om_in (fo_openmode f) then (err_res (wrong_mode ''write'' f), f, w)
      else if fo_stream f = None then (err_res (not_open ''write'' f), f, w)
      else (ok_res, stream_write (take (length bytes mod 2 ^ 32) bytes) f w))"

definition newline :: char where
  "newline = CHR 0x0A"

text \<open>The lines put together: a line break goes before a line unless nothing has come before it.\<close>

definition join_lines :: "bool \<Rightarrow> string list \<Rightarrow> string" where
  "join_lines append_newline lines =
     foldl (\<lambda>a b. if append_newline then a @ (if a = [] then [] else [newline]) @ b else a @ b) [] lines"

definition file_write_lines ::
  "string list \<Rightarrow> bool \<Rightarrow> file_object \<Rightarrow> 'a world_scheme \<Rightarrow> res \<times> file_object \<times> 'a world_scheme" where
  "file_write_lines lines append_newline f w =
     (if om_in (fo_openmode f) then (err_res (wrong_mode ''write'' f), f, w)
      else if fo_stream f = None then (err_res (not_open ''write'' f), f, w)
      else (ok_res, stream_write (join_lines append_newline lines @ (if append_newline then [newline] else [])) f w))"

section \<open>Reading\<close>

text \<open>What the stream has from its position on; a stream not opened for reading has nothing.\<close>

definition stream_rest :: "file_object \<Rightarrow> 'a world_scheme \<Rightarrow> string" where
  "stream_rest f w =
     (case fo_stream f of
        None \<Rightarrow> []
      | Some (p, m) \<Rightarrow> if om_in m then drop (fo_pos f) (value_or (fget w p) []) else [])"

text \<open>\<open>seekg\<close> does nothing on a stream that failed.\<close>

definition stream_seek :: "nat \<Rightarrow> file_object \<Rightarrow> file_object" where
  "stream_seek n f = (if fo_fail f then f else f\<lparr>fo_pos := n\<rparr>)"

definition file_read_bytes ::
  "file_object \<Rightarrow> 'a world_scheme \<Rightarrow> (string option \<times> string option) \<times> file_object" where
  "file_read_bytes f w =
     (if om_out (fo_openmode f) then ((None, Some (wrong_mode ''read'' f)), f)
      else if fo_stream f = None then ((None, Some (not_open ''read'' f)), f)
      else
        let f1 = stream_seek 0 f; c = stream_rest f1 w
        in ((Some c, None), f1\<lparr>fo_pos := fo_pos f1 + length c\<rparr>))"

text \<open>A part of the file. When it is shorter than was asked for, the stream fails, and with it every later
  call of this kind.\<close>

definition file_read_part ::
  "nat \<Rightarrow> nat \<Rightarrow> file_object \<Rightarrow> 'a world_scheme \<Rightarrow> (string option \<times> string option) \<times> file_object" where
  "file_read_part start count f w =
     (if om_out (fo_openmode f) then ((None, Some (wrong_mode ''read'' f)), f)
      else if fo_stream f = None then ((None, Some (not_open ''read'' f)), f)
      else
        let f1 = stream_seek start f
        in if fo_fail f1
           then ((None, Some (''failed to seek position: '' @ nat_text start @ '' in file: '' @ fo_file_path f)), f1)
           else
             let c = take count (stream_rest f1 w)
             in ((Some c, None), f1\<lparr>fo_pos := fo_pos f1 + length c, fo_fail := length c < count\<rparr>))"

text \<open>\<open>getline\<close> up to the end: the lines of a text; a text that ends with a line break has no line after it.\<close>

fun split_lines :: "string \<Rightarrow> string \<Rightarrow> string list" where
  "split_lines acc [] = (if acc = [] then [] else [rev acc])"
| "split_lines acc (c # s) = (if c = newline then rev acc # split_lines [] s else split_lines (c # acc) s)"

definition file_read_lines ::
  "bool \<Rightarrow> file_object \<Rightarrow> 'a world_scheme \<Rightarrow> (string list option \<times> string option) \<times> file_object" where
  "file_read_lines include_new_line f w =
     (if om_out (fo_openmode f) then ((None, Some (wrong_mode ''read'' f)), f)
      else if fo_stream f = None then ((None, Some (not_open ''read'' f)), f)
      else
        let f1 = stream_seek 0 f;
            lines = (if fo_fail f1 then [] else split_lines [] (stream_rest f1 w))
        in ((Some (map (\<lambda>l. if include_new_line then l @ [newline] else l) lines), None),
            f1\<lparr>fo_pos := fo_pos f1 + length (stream_rest f1 w), fo_fail := True\<rparr>))"

section \<open>Whole files\<close>

text \<open>\<open>compression\<close> and \<open>decompression\<close> with the codec as an argument: the text of its failure or the bytes.\<close>

definition file_transform ::
  "(string \<Rightarrow> string + string) \<Rightarrow> string \<Rightarrow> 'a world_scheme \<Rightarrow> (string + res) \<times> 'a world_scheme" where
  "file_transform codec name w =
     (case file_open name mode_read new_file w of
        (Inl e, _, w1) \<Rightarrow> (Inl e, w1)
      | (Inr r, source, w1) \<Rightarrow>
          if \<not> fst r then (Inr r, w1)
          else
            (case file_read_bytes source w1 of
               ((None, e), _) \<Rightarrow> (Inr (False, e), w1)
             | ((Some content, _), source1) \<Rightarrow>
                 (case codec content of
                    Inl e \<Rightarrow> (Inr (err_res (''cannot compress file : '' @ e)), w1)
                  | Inr bytes \<Rightarrow>
                      (case file_open name mode_write (file_close source1) w1 of
                         (Inl e, _, w2) \<Rightarrow> (Inl e, w2)
                       | (Inr r, target, w2) \<Rightarrow>
                           if \<not> fst r then (Inr r, w2)
                           else (case file_write_bytes bytes target w2 of (r, _, w3) \<Rightarrow> (Inr r, w3))))))"

section \<open>Properties\<close>

text \<open>Lines that are written with line breaks and read again come back, but for the empty lines at the front,
  which the accumulated text does not show.\<close>

lemma split_lines_line: "newline \<notin> set l \<Longrightarrow> split_lines acc (l @ newline # s) = (rev acc @ l) # split_lines [] s"
  by (induction l arbitrary: acc) auto

lemma join_lines_from:
  "a \<noteq> [] \<Longrightarrow> foldl (\<lambda>a b. a @ (if a = [] then [] else [newline]) @ b) a ls = a @ concat (map (Cons newline) ls)"
  by (induction ls arbitrary: a) simp_all

lemma join_lines_Cons: "l \<noteq> [] \<Longrightarrow> join_lines True (l # ls) = l @ concat (map (Cons newline) ls)"
  using join_lines_from [of l ls] by (simp add: join_lines_def)

lemma join_lines_empty: "join_lines True ([] # ls) = join_lines True ls"
  by (simp add: join_lines_def)

lemma split_lines_more:
  assumes "\<forall>l \<in> set (k # ls). newline \<notin> set l"
  shows "split_lines [] (k @ concat (map (Cons newline) ls) @ [newline]) = k # ls"
  using assms
proof (induction ls arbitrary: k)
  case Nil
  then show ?case using split_lines_line [of k "[]" "[]"] by simp
next
  case (Cons l ls)
  have "split_lines [] (k @ newline # (l @ concat (map (Cons newline) ls) @ [newline])) =
      k # split_lines [] (l @ concat (map (Cons newline) ls) @ [newline])"
    using split_lines_line [of k "[]"] Cons.prems by simp
  then show ?case using Cons.IH [of l] Cons.prems by simp
qed

lemma lines_roundtrip:
  assumes "\<forall>l \<in> set ls. newline \<notin> set l"
  shows "split_lines [] (join_lines True ls @ [newline]) =
    (case dropWhile (\<lambda>l. l = []) ls of [] \<Rightarrow> [[]] | ms \<Rightarrow> ms)"
  using assms
proof (induction ls)
  case Nil
  then show ?case by (simp add: join_lines_def)
next
  case (Cons l ls)
  show ?case
  proof (cases "l = []")
    case True
    then show ?thesis using Cons by (simp add: join_lines_empty)
  next
    case False
    then show ?thesis using split_lines_more [of l ls] Cons.prems by (simp add: join_lines_Cons)
  qed
qed

text \<open>A file object reads its lines once: the end that the first call meets makes the next one find nothing.\<close>

lemma read_lines_once:
  assumes "fo_openmode f = no_mode" "fo_stream f = Some s" "file_read_lines b f w = (r, f')"
  shows "fst (file_read_lines b f' w) = (Some [], None)"
  using assms by (auto simp: file_read_lines_def no_mode_def stream_seek_def Let_def split: if_splits)

text \<open>Bytes that are written to a fresh stream are what the file holds, below four gigabytes; a stream opened for
  reading reports success and writes nothing.\<close>

lemma write_bytes_file:
  assumes "fo_openmode f = no_mode" "fo_stream f = Some (p, mode_write)" "\<not> fo_fail f" "fo_pos f = 0"
    and "fget w p = Some []" "length bytes < 2 ^ 32"
  shows "\<exists>f' w'. file_write_bytes bytes f w = (ok_res, f', w') \<and> fget w' p = Some bytes"
  using assms
  by (auto simp: file_write_bytes_def no_mode_def mode_write_def stream_write_def overwrite_def value_or_def)

lemma write_bytes_reader:
  assumes "fo_openmode f = no_mode" "fo_stream f = Some (p, mode_read)"
  shows "\<exists>f'. file_write_bytes bytes f w = (ok_res, f', w)"
  using assms by (simp add: file_write_bytes_def no_mode_def mode_read_def stream_write_def)

end
