(* ===== verification/Log_Writer.thy ===== *)
theory Log_Writer
  imports File_Stream Json "HOL-Library.Word"
begin

text \<open>
  \<open>CommonLibrary/Utilities/Logger.cpp\<close> and \<open>Log.cpp\<close>: the log that every component writes to. Messages wait
  in a list until the thread of the logger takes them all and writes them to the console, the database and
  the log file, which keeps a limited number of lines. The formatted times are texts the model is given:
  \<open>lg_datetime\<close> of a message, and the date in the name of the log file.
\<close>

section \<open>Messages\<close>

record log =
  lg_type :: nat
  lg_text :: string
  lg_datetime :: string
  lg_time_stamp :: "string option"

text \<open>\<open>LogTypes\<close> as numbers: None, Exception, Error, Information, Debug, Sequence, Parameter, Packet.\<close>

definition log_none :: nat where "log_none = 0"

definition message_type :: "nat \<Rightarrow> string option" where
  "message_type t =
     (if 1 \<le> t \<and> t \<le> 7
      then Some ([''EXCEPTION'', ''ERROR'', ''INFORMATION'', ''DEBUG'', ''SEQUENCE'', ''PARAMETER'', ''PACKET''] ! (t - 1))
      else None)"

definition create_message :: "log \<Rightarrow> string" where
  "create_message l =
     (let result =
        (case message_type (lg_type l) of
           None \<Rightarrow> ''['' @ lg_datetime l @ '']'' @ lg_text l
         | Some t \<Rightarrow> ''['' @ lg_datetime l @ '']['' @ t @ ''] '' @ lg_text l)
      in case lg_time_stamp l of None \<Rightarrow> result | Some s \<Rightarrow> result @ '' '' @ s)"

definition log_to_string :: "log \<Rightarrow> string" where
  "log_to_string l = create_message l @ [newline]"

text \<open>The four classes of entries. The wide ones keep their text as it is and convert it for each output, by
  \<open>Converter::to_string\<close>, whose result depends on the locale only: \<open>convert\<close>.\<close>

definition string_log :: "nat \<Rightarrow> string \<Rightarrow> string \<Rightarrow> string option \<Rightarrow> log" where
  "string_log t message datetime stamp =
     \<lparr>lg_type = t, lg_text = message, lg_datetime = datetime, lg_time_stamp = stamp\<rparr>"

definition wstring_log :: "('w \<Rightarrow> string) \<Rightarrow> nat \<Rightarrow> 'w \<Rightarrow> string \<Rightarrow> string option \<Rightarrow> log" where
  "wstring_log convert t message = string_log t (convert message)"

definition u16string_log :: "(16 word list \<Rightarrow> string) \<Rightarrow> nat \<Rightarrow> 16 word list \<Rightarrow> string \<Rightarrow> string option \<Rightarrow> log" where
  "u16string_log convert t message = string_log t (convert message)"

definition u32string_log :: "(32 word list \<Rightarrow> string) \<Rightarrow> nat \<Rightarrow> 32 word list \<Rightarrow> string \<Rightarrow> string option \<Rightarrow> log" where
  "u32string_log convert t message = string_log t (convert message)"

definition create_json :: "json_lib \<Rightarrow> log \<Rightarrow> string" where
  "create_json L l =
     jl_dump L (- 1) (jobj
       ([(''datetime'', JStr (lg_datetime l)), (''message'', JStr (lg_text l))] @
        (case message_type (lg_type l) of Some t \<Rightarrow> [(''message_type'', JStr t)] | None \<Rightarrow> []) @
        (case lg_time_stamp l of Some s \<Rightarrow> [(''time_stamp'', JStr s)] | None \<Rightarrow> [])))"

section \<open>The logger\<close>

record logger =
  lo_name :: string
  lo_root :: string
  lo_file_mode :: nat
  lo_console_mode :: nat
  lo_log_types :: nat
  lo_database_mode :: bool
  lo_notification :: bool
  lo_backup_mode :: bool
  lo_write_interval :: nat
  lo_max_lines :: nat
  lo_max_file_size :: nat
  lo_life_cycle_period :: nat
  lo_stop :: bool
  lo_messages :: "log list"

definition new_logger :: "string \<Rightarrow> logger" where
  "new_logger current_path =
     \<lparr>lo_name = ''log'', lo_root = current_path @ ''/'', lo_file_mode = 3, lo_console_mode = 2, lo_log_types = 3,
      lo_database_mode = False, lo_notification = False, lo_backup_mode = False, lo_write_interval = 0,
      lo_max_lines = 10000, lo_max_file_size = 2097152, lo_life_cycle_period = 7, lo_stop = False,
      lo_messages = []\<rparr>"

definition set_file_mode :: "nat \<Rightarrow> logger \<Rightarrow> logger" where
  "set_file_mode m l = l\<lparr>lo_file_mode := m, lo_log_types := max m (lo_console_mode l)\<rparr>"

definition set_console_mode :: "nat \<Rightarrow> logger \<Rightarrow> logger" where
  "set_console_mode m l = l\<lparr>lo_console_mode := m, lo_log_types := max (lo_file_mode l) m\<rparr>"

definition set_log_root :: "string \<Rightarrow> string \<Rightarrow> logger \<Rightarrow> logger" where
  "set_log_root current_path r l = l\<lparr>lo_root := (if r = [] then current_path @ ''/'' else r)\<rparr>"

text \<open>\<open>write\<close>: whether the thread is woken; while the logger stops the message is dropped.\<close>

definition log_write :: "log \<Rightarrow> logger \<Rightarrow> bool \<times> logger" where
  "log_write m l =
     (if lo_stop l then (False, l)
      else (lg_type m \<le> lo_log_types l \<and> lo_write_interval l = 0, l\<lparr>lo_messages := lo_messages l @ [m]\<rparr>))"

text \<open>The variants of \<open>write\<close> for wide texts.\<close>

definition log_write_wstring ::
  "('w \<Rightarrow> string) \<Rightarrow> nat \<Rightarrow> 'w \<Rightarrow> string \<Rightarrow> string option \<Rightarrow> logger \<Rightarrow> bool \<times> logger" where
  "log_write_wstring convert t message datetime stamp = log_write (wstring_log convert t message datetime stamp)"

definition log_write_u16string ::
  "(16 word list \<Rightarrow> string) \<Rightarrow> nat \<Rightarrow> 16 word list \<Rightarrow> string \<Rightarrow> string option \<Rightarrow> logger \<Rightarrow> bool \<times> logger" where
  "log_write_u16string convert t message datetime stamp = log_write (u16string_log convert t message datetime stamp)"

definition log_write_u32string ::
  "(32 word list \<Rightarrow> string) \<Rightarrow> nat \<Rightarrow> 32 word list \<Rightarrow> string \<Rightarrow> string option \<Rightarrow> logger \<Rightarrow> bool \<times> logger" where
  "log_write_u32string convert t message datetime stamp = log_write (u32string_log convert t message datetime stamp)"

section \<open>Writing\<close>

text \<open>The texts for the console, for the file and for the database.\<close>

definition convert_log :: "json_lib \<Rightarrow> logger \<Rightarrow> log list \<Rightarrow> string list \<times> string list \<times> string list" where
  "convert_log L l ms =
     (map log_to_string (filter (\<lambda>m. lg_type m \<le> lo_console_mode l) ms),
      map log_to_string (filter (\<lambda>m. lg_type m \<le> lo_file_mode l) ms),
      map (create_json L) ms)"

text \<open>What reaches the console and the database.\<close>

definition console_output :: "logger \<Rightarrow> string list \<Rightarrow> string list" where
  "console_output l texts = (if lo_console_mode l = log_none then [] else texts)"

definition database_output :: "logger \<Rightarrow> string list \<Rightarrow> string list" where
  "database_output l texts = (if \<not> lo_database_mode l \<or> \<not> lo_notification l then [] else texts)"

text \<open>The lines of the file and those that have to leave it, message by message.\<close>

fun rotate_lines :: "nat \<Rightarrow> string list \<Rightarrow> string list \<Rightarrow> string list \<Rightarrow> string list \<times> string list" where
  "rotate_lines limit lines removed [] = (lines, removed)"
| "rotate_lines limit lines removed (m # ms) =
     (if limit \<le> length lines
      then rotate_lines limit (drop 1 lines @ [m]) (removed @ take 1 lines) ms
      else rotate_lines limit (lines @ [m]) removed ms)"

text \<open>\<open>write_file\<close>: the lines removed. The file object is used for both openings; what the last calls return
  is not looked at. \<open>Inl\<close> is the exception of \<open>File::open\<close>.\<close>

definition log_write_file ::
  "string \<Rightarrow> logger \<Rightarrow> string list \<Rightarrow> 'a world_scheme \<Rightarrow> (string + string list) \<times> 'a world_scheme" where
  "log_write_file target l texts w =
     (if lo_file_mode l = log_none \<or> texts = [] then (Inr [], w)
      else if lo_max_lines l = 0 then
        (case file_open target mode_append new_file w of
           (Inl e, _, w1) \<Rightarrow> (Inl e, w1)
         | (Inr r, f, w1) \<Rightarrow>
             if fst r then (case file_write_lines texts False f w1 of (_, _, w2) \<Rightarrow> (Inr [], w2)) else (Inr [], w1))
      else
        (case file_open target mode_read new_file w of
           (Inl e, _, w1) \<Rightarrow> (Inl e, w1)
         | (Inr r, f, w1) \<Rightarrow>
             let (old, f1) =
                   (if fst r then (case file_read_lines True f w1 of ((ls, _), f1) \<Rightarrow> (value_or ls [], file_close f1))
                    else ([], f));
                 (lines, removed) = rotate_lines (lo_max_lines l) old [] texts
             in case file_open target mode_write f1 w1 of
                  (Inl e, _, w2) \<Rightarrow> (Inl e, w2)
                | (Inr _, f2, w2) \<Rightarrow> (case file_write_lines lines False f2 w2 of (_, _, w3) \<Rightarrow> (Inr removed, w3))))"

text \<open>The two \<open>backup_file\<close>: of the lines that left the file, and of a file that has grown too large. The backup
  lies beside the log file, whose directory is there, so opening it does not throw.\<close>

definition backup_lines :: "logger \<Rightarrow> string list \<Rightarrow> string \<Rightarrow> 'a world_scheme \<Rightarrow> 'a world_scheme" where
  "backup_lines l lines backup_path w =
     (if lo_file_mode l = log_none \<or> lines = [] then w
      else
        (case file_open backup_path mode_append new_file w of
           (_, f, w1) \<Rightarrow> snd (snd (file_write_lines lines True f w1))))"

definition backup_whole :: "logger \<Rightarrow> string \<Rightarrow> string \<Rightarrow> 'a world_scheme \<Rightarrow> 'a world_scheme" where
  "backup_whole l source_path backup_path w =
     (let p = to_path source_path
      in if lo_file_mode l = log_none \<or> \<not> fexists w p then w
         else if length (value_or (fget w p) []) < lo_max_file_size l then w
         else
           (case file_open source_path mode_read new_file w of
              (_, f, w1) \<Rightarrow>
                (case file_read_bytes f w1 of
                   ((None, _), _) \<Rightarrow> w1
                 | ((Some content, _), _) \<Rightarrow>
                     (case file_open backup_path mode_append new_file w1 of
                        (_, g, w2) \<Rightarrow>
                          let (_, _, w3) = file_write_bytes content g w2
                          in w3\<lparr>files := AList.update p [] (files w3)\<rparr>))))"

text \<open>\<open>write_log\<close> on a given day: what goes to the console and the database.\<close>

definition write_log ::
  "json_lib \<Rightarrow> string \<Rightarrow> logger \<Rightarrow> log list \<Rightarrow> 'a world_scheme \<Rightarrow>
     (string + string list \<times> string list) \<times> 'a world_scheme" where
  "write_log L date l ms w =
     (let file_name = lo_root l @ lo_name l @ ''_'' @ date;
          (console, texts, database) = convert_log L l ms
      in case log_write_file (file_name @ ''.log'') l texts w of
           (Inl e, w1) \<Rightarrow> (Inl e, w1)
         | (Inr removed, w1) \<Rightarrow>
             (Inr (console_output l console, database_output l database),
              if \<not> lo_backup_mode l then w1
              else if lo_max_lines l > 0 then backup_lines l removed (file_name @ ''.backup'') w1
              else backup_whole l (file_name @ ''.log'') (file_name @ ''.backup'') w1))"

text \<open>One round of \<open>run\<close>: all messages that wait are taken and written.\<close>

definition log_round ::
  "json_lib \<Rightarrow> string \<Rightarrow> logger \<Rightarrow> 'a world_scheme \<Rightarrow>
     (string + string list \<times> string list) \<times> logger \<times> 'a world_scheme" where
  "log_round L date l w =
     (if lo_messages l = [] then (Inr ([], []), l, w)
      else (case write_log L date l (lo_messages l) w of (r, w1) \<Rightarrow> (r, l\<lparr>lo_messages := []\<rparr>, w1)))"

text \<open>\<open>check_life_cycle\<close>: the log files that are older than the period are removed; \<open>age\<close> is the age of a file
  in hours, which the program computes from two clocks.\<close>

fun remove_old :: "(path \<Rightarrow> int) \<Rightarrow> nat \<Rightarrow> path list \<Rightarrow> 'a world_scheme \<Rightarrow> 'a world_scheme" where
  "remove_old age period [] w = w"
| "remove_old age period (f # fs) w =
     remove_old age period fs
       (if ends_with (last f) ''.log'' \<and> last f \<noteq> ''.log'' \<and> int period < age f div 24
        then snd (os_remove f w) else w)"

definition check_life_cycle ::
  "(path \<Rightarrow> int) \<Rightarrow> string \<Rightarrow> string \<Rightarrow> logger \<Rightarrow> 'a world_scheme \<Rightarrow> string \<times> 'a world_scheme" where
  "check_life_cycle age today previous l w =
     (if today = previous \<or> \<not> fexists w (to_path (lo_root l)) then (previous, w)
      else
        let (fs, w1) = os_list_files (to_path (lo_root l)) w
        in (today, remove_old age (lo_life_cycle_period l) fs w1))"

section \<open>Properties\<close>

text \<open>The rotation loses no line and keeps the order: what was removed and what is left are the old lines
  followed by the new; the file keeps the limit once it is below it.\<close>

lemma rotate_lines_all:
  "rotate_lines limit lines removed ms = (kept, gone) \<Longrightarrow> gone @ kept = removed @ lines @ ms"
proof (induction limit lines removed ms rule: rotate_lines.induct)
  case (2 limit lines removed m ms)
  show ?case
  proof (cases "limit \<le> length lines")
    case True
    then have "gone @ kept = (removed @ take 1 lines) @ (drop 1 lines @ [m]) @ ms" using 2 by simp
    also have "\<dots> = removed @ (take 1 lines @ drop 1 lines) @ m # ms" by simp
    finally show ?thesis by (simp only: append_take_drop_id)
  next
    case False
    then show ?thesis using 2 by simp
  qed
qed simp

lemma rotate_lines_limit:
  "rotate_lines limit lines removed ms = (kept, gone) \<Longrightarrow> 0 < limit \<Longrightarrow> length lines \<le> limit \<Longrightarrow> length kept \<le> limit"
  by (induction limit lines removed ms rule: rotate_lines.induct) (auto split: if_splits)

text \<open>Every message that is accepted reaches the next round.\<close>

lemma log_write_kept: "\<not> lo_stop l \<Longrightarrow> m \<in> set (lo_messages (snd (log_write m l)))"
  by (simp add: log_write_def)

end
