(* ===== verification/Log_Thread.thy ===== *)
theory Log_Thread
  imports Log_Writer
begin

text \<open>
  The threads of \<open>CommonLibrary/Utilities/Logger.cpp\<close>: the thread that runs \<open>run\<close>, the callers of \<open>write\<close> and
  the caller of \<open>start\<close> and \<open>stop\<close>, in small steps around the mutex and the condition variable. \<open>write\<close> tests the
  stop flag when it has the mutex and appends before it gives it back; \<open>stop\<close> sets the flag without the mutex.
  \<open>Blocking\<close> is the moment between the test of the condition and the sleep, with the mutex still held; a
  notification only reaches a thread that sleeps. \<open>spurious\<close> says whether a sleep may end without one.

  \<open>lt_accepted\<close>, \<open>lt_before\<close> and \<open>lt_written\<close> are history: what was appended by \<open>write\<close>, what of it when the last
  stop began, and the messages of the batches that \<open>write_log\<close> was called with.
\<close>

datatype log_phase =
    Log_Idle | Loop_Head | Entering | Locked | Blocking | Asleep | Timed_Out | Writing "log list" | Log_Ended

datatype stop_phase = Not_Stopping | Flag_Set | Joining

record log_thread =
  lt_logger :: logger
  lt_phase :: log_phase
  lt_notified :: bool
  lt_writer :: "log option"
  lt_stopper :: stop_phase
  lt_accepted :: "log list"
  lt_before :: "log list"
  lt_written :: "log list"

definition log_started :: "logger \<Rightarrow> log_thread" where
  "log_started l =
     \<lparr>lt_logger = l\<lparr>lo_stop := False\<rparr>, lt_phase = Log_Idle, lt_notified = False, lt_writer = None,
      lt_stopper = Not_Stopping, lt_accepted = lo_messages l, lt_before = [], lt_written = []\<rparr>"

definition log_mutex_free :: "log_thread \<Rightarrow> bool" where
  "log_mutex_free s \<longleftrightarrow> lt_writer s = None \<and> lt_phase s \<noteq> Locked \<and> lt_phase s \<noteq> Blocking"

definition log_notify :: "log_thread \<Rightarrow> log_thread" where
  "log_notify s = s\<lparr>lt_notified := lt_notified s \<or> lt_phase s = Asleep\<rparr>"

section \<open>The callers\<close>

definition write_enter :: "log \<Rightarrow> log_thread \<Rightarrow> log_thread" where
  "write_enter m s = (if lo_stop (lt_logger s) then s else s\<lparr>lt_writer := Some m\<rparr>)"

text \<open>The rest of \<open>write\<close>, which does not look at the stop flag again.\<close>

definition write_leave :: "log \<Rightarrow> log_thread \<Rightarrow> log_thread" where
  "write_leave m s =
     (let l = lt_logger s;
          (woken, l1) = log_write m (l\<lparr>lo_stop := False\<rparr>);
          s1 = s\<lparr>lt_logger := l1\<lparr>lo_stop := lo_stop l\<rparr>, lt_writer := None, lt_accepted := lt_accepted s @ [m]\<rparr>
      in if woken then log_notify s1 else s1)"

definition log_start :: "log_thread \<Rightarrow> log_thread" where
  "log_start s = s\<lparr>lt_logger := (lt_logger s)\<lparr>lo_stop := False\<rparr>, lt_phase := Loop_Head\<rparr>"

definition log_stop_flag :: "log_thread \<Rightarrow> log_thread" where
  "log_stop_flag s = s\<lparr>lt_logger := (lt_logger s)\<lparr>lo_stop := True\<rparr>, lt_stopper := Flag_Set, lt_before := lt_accepted s\<rparr>"

definition log_stop_notify :: "log_thread \<Rightarrow> log_thread" where
  "log_stop_notify s = (log_notify s)\<lparr>lt_stopper := Joining\<rparr>"

definition log_stop_join :: "log_thread \<Rightarrow> log_thread" where
  "log_stop_join s =
     s\<lparr>lt_logger := (lt_logger s)\<lparr>lo_stop := False\<rparr>, lt_phase := Log_Idle, lt_stopper := Not_Stopping\<rparr>"

section \<open>The thread\<close>

definition run_condition :: "logger \<Rightarrow> bool" where
  "run_condition l \<longleftrightarrow> lo_stop l \<or> lo_messages l \<noteq> []"

definition run_head :: "log_thread \<Rightarrow> log_thread" where
  "run_head s =
     s\<lparr>lt_phase := (if \<not> lo_stop (lt_logger s) \<or> lo_messages (lt_logger s) \<noteq> [] then Entering else Log_Ended)\<rparr>"

definition run_take :: "log_thread \<Rightarrow> log_thread" where
  "run_take s =
     (let ms = lo_messages (lt_logger s)
      in s\<lparr>lt_logger := (lt_logger s)\<lparr>lo_messages := []\<rparr>, lt_phase := (if ms = [] then Loop_Head else Writing ms)\<rparr>)"

definition run_test :: "log_thread \<Rightarrow> log_thread" where
  "run_test s = (if run_condition (lt_logger s) then run_take s else s\<lparr>lt_phase := Blocking\<rparr>)"

definition run_written :: "log list \<Rightarrow> log_thread \<Rightarrow> log_thread" where
  "run_written ms s = s\<lparr>lt_phase := Loop_Head, lt_written := lt_written s @ ms\<rparr>"

inductive log_step :: "bool \<Rightarrow> log_thread \<Rightarrow> log_thread \<Rightarrow> bool" for spurious where
  Write_Enter: "log_mutex_free s \<Longrightarrow> log_step spurious s (write_enter m s)"
| Write_Leave: "lt_writer s = Some m \<Longrightarrow> log_step spurious s (write_leave m s)"
| Log_Start: "lt_phase s = Log_Idle \<Longrightarrow> lt_stopper s = Not_Stopping \<Longrightarrow> log_step spurious s (log_start s)"
| Stop_Flag: "lt_phase s \<noteq> Log_Idle \<Longrightarrow> lt_stopper s = Not_Stopping \<Longrightarrow> log_step spurious s (log_stop_flag s)"
| Stop_Notify: "lt_stopper s = Flag_Set \<Longrightarrow> log_step spurious s (log_stop_notify s)"
| Stop_Join: "lt_stopper s = Joining \<Longrightarrow> lt_phase s = Log_Ended \<Longrightarrow> log_step spurious s (log_stop_join s)"
| Head: "lt_phase s = Loop_Head \<Longrightarrow> log_step spurious s (run_head s)"
| Enter_Lock: "lt_phase s = Entering \<Longrightarrow> log_mutex_free s \<Longrightarrow> log_step spurious s (s\<lparr>lt_phase := Locked\<rparr>)"
| Test: "lt_phase s = Locked \<Longrightarrow> log_step spurious s (run_test s)"
| Sleep: "lt_phase s = Blocking \<Longrightarrow> log_step spurious s (s\<lparr>lt_phase := Asleep, lt_notified := False\<rparr>)"
| Wake: "lt_phase s = Asleep \<Longrightarrow> lt_notified s \<Longrightarrow> log_step spurious s (s\<lparr>lt_phase := Entering\<rparr>)"
| Spurious: "spurious \<Longrightarrow> lt_phase s = Asleep \<Longrightarrow> log_step spurious s (s\<lparr>lt_phase := Entering\<rparr>)"
| Timeout: "lt_phase s = Asleep \<Longrightarrow> lo_write_interval (lt_logger s) \<noteq> 0 \<Longrightarrow>
    log_step spurious s (s\<lparr>lt_phase := Timed_Out\<rparr>)"
| Timeout_Lock: "lt_phase s = Timed_Out \<Longrightarrow> log_mutex_free s \<Longrightarrow> log_step spurious s (run_take s)"
| Written: "lt_phase s = Writing ms \<Longrightarrow> log_step spurious s (run_written ms s)"

inductive log_run :: "bool \<Rightarrow> log_thread \<Rightarrow> log_thread \<Rightarrow> bool" for spurious where
  log_refl: "log_run spurious s s"
| log_more: "log_run spurious s t \<Longrightarrow> log_step spurious t u \<Longrightarrow> log_run spurious s u"

section \<open>Properties\<close>

lemmas log_thread_defs = log_notify_def write_enter_def write_leave_def log_start_def log_stop_flag_def
  log_stop_notify_def log_stop_join_def run_head_def run_take_def run_test_def run_written_def log_write_def Let_def

lemma log_run_trans: "log_run spurious t u \<Longrightarrow> log_run spurious s t \<Longrightarrow> log_run spurious s u"
  by (induction rule: log_run.induct) (auto intro: log_more)

lemma log_run_first: "log_step spurious s t \<Longrightarrow> log_run spurious t u \<Longrightarrow> log_run spurious s u"
  by (rule log_run_trans) (auto intro: log_refl log_more)

definition in_hand :: "log_thread \<Rightarrow> log list" where
  "in_hand s = (case lt_phase s of Writing ms \<Rightarrow> ms | _ \<Rightarrow> [])"

definition log_conserved :: "log_thread \<Rightarrow> bool" where
  "log_conserved s \<longleftrightarrow> lt_accepted s = lt_written s @ in_hand s @ lo_messages (lt_logger s)"

definition stop_flagged :: "log_thread \<Rightarrow> bool" where
  "stop_flagged s \<longleftrightarrow>
     (lo_stop (lt_logger s) \<longleftrightarrow> lt_stopper s \<noteq> Not_Stopping) \<and>
     (lt_phase s = Log_Idle \<longrightarrow> lt_stopper s = Not_Stopping) \<and> (lt_phase s = Log_Ended \<longrightarrow> lt_stopper s \<noteq> Not_Stopping)"

definition stop_writes :: "log_thread \<Rightarrow> bool" where
  "stop_writes s \<longleftrightarrow>
     prefix (lt_before s) (lt_accepted s) \<and>
     (lt_phase s = Log_Idle \<or> lt_phase s = Log_Ended \<longrightarrow> prefix (lt_before s) (lt_written s))"

definition log_inv :: "log_thread \<Rightarrow> bool" where
  "log_inv s \<longleftrightarrow> log_conserved s \<and> stop_flagged s \<and> stop_writes s"

lemma log_conserved_step: "log_step spurious s t \<Longrightarrow> log_conserved s \<Longrightarrow> log_conserved t"
  by (induction rule: log_step.induct)
    (auto simp: log_conserved_def in_hand_def log_thread_defs split: log_phase.splits)

lemma stop_flagged_step: "log_step spurious s t \<Longrightarrow> stop_flagged s \<Longrightarrow> stop_flagged t"
  by (induction rule: log_step.induct) (auto simp: stop_flagged_def log_thread_defs)

lemma head_written:
  "log_conserved s \<Longrightarrow> lt_phase s = Loop_Head \<Longrightarrow> lo_messages (lt_logger s) = [] \<Longrightarrow> lt_written s = lt_accepted s"
  by (simp add: log_conserved_def in_hand_def)

lemma stop_writes_step:
  "log_step spurious s t \<Longrightarrow> log_conserved s \<Longrightarrow> stop_flagged s \<Longrightarrow> stop_writes s \<Longrightarrow> stop_writes t"
  by (induction rule: log_step.induct)
    (auto simp: stop_writes_def stop_flagged_def log_thread_defs head_written intro: prefix_prefix)

lemma log_inv_run: "log_run spurious s t \<Longrightarrow> log_inv s \<Longrightarrow> log_inv t"
  by (induction rule: log_run.induct)
    (auto simp: log_inv_def dest: log_conserved_step stop_flagged_step stop_writes_step)

lemma log_inv_started: "log_inv (log_started l)"
  by (simp add: log_inv_def log_conserved_def stop_flagged_def stop_writes_def in_hand_def log_started_def)

text \<open>C12: The log loses, repeats and reorders nothing: in every interleaving of writers, starts, stops and the
  thread of the logger, with spurious wake-ups and timeouts, the messages that were accepted are those that
  were given to \<open>write_log\<close>, then those the thread has just taken, then those that wait, in the order they were
  accepted. When a stop has returned, everything that had been accepted when it began was written.\<close>

theorem logger_keeps_order:
  assumes "log_run spurious (log_started l) s"
  shows "lt_accepted s = lt_written s @ in_hand s @ lo_messages (lt_logger s) \<and>
    (lt_phase s = Log_Idle \<longrightarrow> prefix (lt_before s) (lt_written s))"
  using log_inv_run [OF assms log_inv_started]
  by (simp add: log_inv_def log_conserved_def stop_writes_def)

text \<open>One message through the log, up to a stop that has returned.\<close>

definition demo_log :: log where
  "demo_log = \<lparr>lg_type = 3, lg_text = ''ready'', lg_datetime = [], lg_time_stamp = None\<rparr>"

definition demo_stopped :: log_thread where
  "demo_stopped =
     (let s1 = log_start (log_started (new_logger []));
          s2 = write_leave demo_log (write_enter demo_log s1);
          s3 = run_take ((run_head (log_stop_notify (log_stop_flag s2)))\<lparr>lt_phase := Locked\<rparr>)
      in log_stop_join (run_head (run_written [demo_log] s3)))"

lemma demo_stopped_run: "log_run False (log_started (new_logger [])) demo_stopped"
proof -
  let ?s1 = "log_start (log_started (new_logger []))"
  let ?e = "write_enter demo_log ?s1"
  let ?s2 = "write_leave demo_log ?e"
  let ?n = "log_stop_notify (log_stop_flag ?s2)"
  let ?k = "(run_head ?n)\<lparr>lt_phase := Locked\<rparr>"
  let ?s3 = "run_take ?k"
  let ?h = "run_head (run_written [demo_log] ?s3)"
  note defs = log_thread_defs log_started_def new_logger_def demo_log_def log_mutex_free_def run_condition_def
  have "log_step False (log_started (new_logger [])) ?s1" by (rule Log_Start) (simp_all add: defs)
  moreover have "log_step False ?s1 ?e" by (rule Write_Enter) (simp add: defs)
  moreover have "log_step False ?e ?s2" by (rule Write_Leave) (simp add: defs)
  moreover have "log_step False ?s2 (log_stop_flag ?s2)" by (rule Stop_Flag) (simp_all add: defs)
  moreover have "log_step False (log_stop_flag ?s2) ?n" by (rule Stop_Notify) (simp add: defs)
  moreover have "log_step False ?n (run_head ?n)" by (rule Head) (simp add: defs)
  moreover have "log_step False (run_head ?n) ?k" by (rule Enter_Lock) (simp_all add: defs)
  moreover have "run_test ?k = ?s3" by (simp add: defs)
  then have "log_step False ?k ?s3" using Test [of ?k False] by simp
  moreover have "log_step False ?s3 (run_written [demo_log] ?s3)" by (rule Written) (simp add: defs)
  moreover have "log_step False (run_written [demo_log] ?s3) ?h" by (rule Head) (simp add: defs)
  moreover have "log_step False ?h (log_stop_join ?h)" by (rule Stop_Join) (simp_all add: defs)
  moreover have "demo_stopped = log_stop_join ?h" by (simp add: demo_stopped_def Let_def)
  ultimately show ?thesis by (simp only:) (meson log_run_first log_refl)
qed

theorem logger_keeps_order_witness:
  "lt_phase demo_stopped = Log_Idle \<and> lt_accepted demo_stopped = [demo_log] \<and> prefix [demo_log] (lt_written demo_stopped)"
proof -
  note defs = demo_stopped_def log_thread_defs log_started_def new_logger_def demo_log_def
  have "lt_phase demo_stopped = Log_Idle" "lt_accepted demo_stopped = [demo_log]" "lt_before demo_stopped = [demo_log]"
    by (simp_all add: defs)
  moreover from this(1) logger_keeps_order [OF demo_stopped_run]
  have "prefix (lt_before demo_stopped) (lt_written demo_stopped)" by blast
  ultimately show ?thesis by simp
qed

section \<open>Whether a stop returns\<close>

text \<open>The lost wake-up: the thread sleeps, the only notification came before.\<close>

definition hanging :: "log_thread \<Rightarrow> bool" where
  "hanging s \<longleftrightarrow>
     lt_stopper s = Joining \<and> lt_phase s = Asleep \<and> \<not> lt_notified s \<and> lt_writer s = None \<and>
     lo_stop (lt_logger s) \<and> lo_write_interval (lt_logger s) = 0"

lemma hanging_step: "log_step False s t \<Longrightarrow> hanging s \<Longrightarrow> hanging t"
  by (induction rule: log_step.induct) (auto simp: hanging_def write_enter_def)

lemma hanging_run: "log_run False s t \<Longrightarrow> hanging s \<Longrightarrow> hanging t"
  by (induction rule: log_run.induct) (auto dest: hanging_step)

definition hung_logger :: "logger \<Rightarrow> log_thread" where
  "hung_logger l =
     (log_stop_notify (log_stop_flag (run_test ((run_head (log_start (log_started l)))\<lparr>lt_phase := Locked\<rparr>))))
       \<lparr>lt_phase := Asleep, lt_notified := False\<rparr>"

lemma hung_logger_run:
  assumes "lo_messages l = []"
  shows "log_run False (log_started l) (hung_logger l)"
proof -
  let ?s1 = "log_start (log_started l)"
  let ?s2 = "(run_head ?s1)\<lparr>lt_phase := Locked\<rparr>"
  let ?s3 = "log_stop_flag (run_test ?s2)"
  have phases: "lt_phase ?s1 = Loop_Head" "lt_phase (run_head ?s1) = Entering" "log_mutex_free (run_head ?s1)"
    "lt_phase (run_test ?s2) = Blocking" "lt_stopper (run_test ?s2) = Not_Stopping" "lt_stopper ?s3 = Flag_Set"
    "lt_phase (log_stop_notify ?s3) = Blocking"
    using assms by (simp_all add: log_thread_defs log_started_def log_mutex_free_def run_condition_def)
  have "log_step False (log_started l) ?s1" by (rule Log_Start) (simp_all add: log_started_def)
  moreover have "log_step False ?s1 (run_head ?s1)" using phases by (intro Head)
  moreover have "log_step False (run_head ?s1) ?s2" using phases by (intro Enter_Lock)
  moreover have "log_step False ?s2 (run_test ?s2)" by (rule Test) simp
  moreover have "log_step False (run_test ?s2) ?s3" using phases by (intro Stop_Flag) simp_all
  moreover have "log_step False ?s3 (log_stop_notify ?s3)" using phases by (intro Stop_Notify)
  moreover have "log_step False (log_stop_notify ?s3) (hung_logger l)"
    unfolding hung_logger_def using phases by (intro Sleep)
  ultimately show ?thesis by (meson log_run_first log_refl)
qed

lemma hung_logger_hanging: "lo_write_interval l = 0 \<Longrightarrow> lo_messages l = [] \<Longrightarrow> hanging (hung_logger l)"
  by (simp add: hanging_def hung_logger_def log_thread_defs run_condition_def log_started_def)

text \<open>With a write interval the sleep ends by itself: backwards from the end of a stop.\<close>

definition can_return :: "log_thread \<Rightarrow> bool" where
  "can_return s \<longleftrightarrow> (\<exists>t. log_run False s t \<and> lt_stopper t = Not_Stopping)"

definition stopping :: "log_phase \<Rightarrow> log_thread \<Rightarrow> bool" where
  "stopping ph s \<longleftrightarrow>
     lt_phase s = ph \<and> lt_stopper s = Joining \<and> lo_stop (lt_logger s) \<and> lt_writer s = None \<and>
     lo_write_interval (lt_logger s) \<noteq> 0"

lemma can_return_step: "log_step False s t \<Longrightarrow> can_return t \<Longrightarrow> can_return s"
  by (auto simp: can_return_def intro: log_run_first)

lemma stopping_ended: "stopping Log_Ended s \<Longrightarrow> can_return s"
  by (rule can_return_step [OF Stop_Join])
    (auto simp: stopping_def can_return_def log_stop_join_def intro!: exI [of _ "log_stop_join s"] log_refl)

lemma stopping_head_empty:
  "stopping Loop_Head s \<Longrightarrow> lo_messages (lt_logger s) = [] \<Longrightarrow> can_return s"
  by (rule can_return_step [OF Head stopping_ended]) (auto simp: stopping_def run_head_def)

lemma stopping_taken: "stopping ph s \<Longrightarrow> can_return (run_take s)"
proof -
  assume s: "stopping ph s"
  show ?thesis
  proof (cases "lo_messages (lt_logger s) = []")
    case True
    then show ?thesis using s by (intro stopping_head_empty) (auto simp: stopping_def run_take_def)
  next
    case False
    then have "log_step False (run_take s) (run_written (lo_messages (lt_logger s)) (run_take s))"
      by (intro Written) (simp add: run_take_def Let_def)
    then show ?thesis
      using s by (rule_tac can_return_step)
        (auto intro!: stopping_head_empty simp: stopping_def run_take_def run_written_def Let_def)
  qed
qed

lemma stopping_locked: "stopping Locked s \<Longrightarrow> can_return s"
  by (rule can_return_step [OF Test])
    (auto simp: stopping_def run_test_def run_condition_def intro: stopping_taken)

lemma stopping_entering: "stopping Entering s \<Longrightarrow> can_return s"
  by (rule can_return_step [OF Enter_Lock stopping_locked]) (auto simp: stopping_def log_mutex_free_def)

lemma stopping_timed_out: "stopping Timed_Out s \<Longrightarrow> can_return s"
  by (rule can_return_step [OF Timeout_Lock stopping_taken])
    (auto simp: stopping_def log_mutex_free_def)

lemma stopping_asleep: "stopping Asleep s \<Longrightarrow> can_return s"
  by (rule can_return_step [OF Timeout stopping_timed_out]) (auto simp: stopping_def)

lemma stopping_blocking: "stopping Blocking s \<Longrightarrow> can_return s"
  by (rule can_return_step [OF Sleep stopping_asleep]) (auto simp: stopping_def)

lemma stopping_head: "stopping Loop_Head s \<Longrightarrow> can_return s"
proof (cases "lo_messages (lt_logger s) = []")
  case False
  assume s: "stopping Loop_Head s"
  show ?thesis
    by (rule can_return_step [OF Head stopping_entering]) (use s False in \<open>auto simp: stopping_def run_head_def\<close>)
qed (rule stopping_head_empty)

lemma stopping_writing: "stopping (Writing ms) s \<Longrightarrow> can_return s"
  by (rule can_return_step [OF Written stopping_head]) (auto simp: stopping_def run_written_def)

lemma stopping_returns: "stopping (lt_phase s) s \<Longrightarrow> stop_flagged s \<Longrightarrow> can_return s"
  by (cases "lt_phase s")
    (auto intro: stopping_ended stopping_head stopping_entering stopping_locked stopping_blocking stopping_asleep
      stopping_timed_out stopping_writing simp: stopping_def stop_flagged_def)

lemma write_interval_run:
  "log_run spurious s t \<Longrightarrow> lo_write_interval (lt_logger t) = lo_write_interval (lt_logger s)"
proof (induction rule: log_run.induct)
  case (log_more s t u)
  from log_more.hyps(2) have "lo_write_interval (lt_logger u) = lo_write_interval (lt_logger t)"
    by (induction rule: log_step.induct) (auto simp: log_thread_defs)
  then show ?case using log_more.IH by simp
qed simp

text \<open>C28: A stop of the logger can hang for ever: with the write interval of zero, which is the default, there is
  an interleaving in which the flag is set and the notification sent between the test of the condition and
  the sleep of the thread; from then on, without a spurious wake-up, no step of any thread wakes the logger, since
  every write is refused, and the stop never returns. With a write interval a stop that waits for the thread
  can always still return, whatever happened before.\<close>

theorem logger_stop_hangs:
  "(lo_write_interval l = 0 \<and> lo_messages l = [] \<longrightarrow>
      (\<exists>s. log_run False (log_started l) s \<and>
         (\<forall>t. log_run False s t \<longrightarrow> lt_stopper t = Joining \<and> lt_phase t = Asleep))) \<and>
   (lo_write_interval l \<noteq> 0 \<longrightarrow>
      (\<forall>s. log_run spurious (log_started l) s \<and> lt_stopper s = Joining \<longrightarrow>
         (\<exists>t. log_run False s t \<and> lt_stopper t = Not_Stopping)))"
proof (intro conjI impI allI)
  assume "lo_write_interval l = 0 \<and> lo_messages l = []"
  then have "log_run False (log_started l) (hung_logger l)" "hanging (hung_logger l)"
    by (simp_all add: hung_logger_run hung_logger_hanging)
  then show "\<exists>s. log_run False (log_started l) s \<and>
      (\<forall>t. log_run False s t \<longrightarrow> lt_stopper t = Joining \<and> lt_phase t = Asleep)"
    by (intro exI [of _ "hung_logger l"]) (auto dest: hanging_run simp: hanging_def)
next
  fix s
  assume i: "lo_write_interval l \<noteq> 0" and s: "log_run spurious (log_started l) s \<and> lt_stopper s = Joining"
  have flagged: "stop_flagged s" using log_inv_run [OF _ log_inv_started] s by (auto simp: log_inv_def)
  have n: "lo_write_interval (lt_logger s) \<noteq> 0"
    using write_interval_run s i by (force simp: log_started_def)
  have "can_return s"
  proof (cases "lt_writer s")
    case None
    then show ?thesis using s n flagged by (intro stopping_returns) (auto simp: stopping_def stop_flagged_def)
  next
    case (Some m)
    have step: "log_step False s (write_leave m s)" by (rule Write_Leave [OF Some])
    have "can_return (write_leave m s)"
      using s n flagged
      by (intro stopping_returns stop_flagged_step [OF step flagged])
        (auto simp: stopping_def stop_flagged_def log_thread_defs)
    then show ?thesis by (rule can_return_step [OF step])
  qed
  then show "\<exists>t. log_run False s t \<and> lt_stopper t = Not_Stopping" by (simp add: can_return_def)
qed

theorem logger_stop_hangs_witness:
  "\<exists>s. log_run False (log_started (new_logger [])) s \<and>
     (\<forall>t. log_run False s t \<longrightarrow> lt_stopper t = Joining \<and> lt_phase t = Asleep)"
proof -
  have "lo_write_interval (new_logger []) = 0 \<and> lo_messages (new_logger []) = []" by (simp add: new_logger_def)
  with logger_stop_hangs [of "new_logger []" False] show ?thesis by blast
qed

end
