(* ===== verification/Compressor.thy ===== *)
theory Compressor
  imports Combiner Number_Text
begin

text \<open>
  \<open>CommonLibrary/Utilities/Compressor.cpp\<close>: bytes compressed block by block, each block behind its length and
  the length of what it was compressed to, four bytes each. The LZ4 library is not in the repository: \<open>lz4\<close>
  is its streaming interface, with a state of its own on either side; a block that cannot be compressed or
  decompressed gives no bytes. The buffers of the code are exact copies of the block at hand. Reading
  behind the data and writing behind a buffer are undefined behaviour, the value \<open>Undefined\<close>. \<open>shown\<close> is
  the text \<open>std::format\<close> prints for a percentage.
\<close>

record ('c, 'd) lz4 =
  lz_bound :: "nat \<Rightarrow> nat"
  lz_reset :: 'c
  lz_compress :: "'c \<Rightarrow> 8 word list \<Rightarrow> nat \<Rightarrow> 8 word list \<times> 'c"
  lz_set :: 'd
  lz_decompress :: "'d \<Rightarrow> 8 word list \<Rightarrow> nat \<Rightarrow> 8 word list \<times> 'd"

section \<open>Compression\<close>

function compress_blocks :: "('c, 'd) lz4 \<Rightarrow> nat \<Rightarrow> 'c \<Rightarrow> 8 word list \<Rightarrow> 8 word list" where
  "compress_blocks Z block c rest =
     (let n = min (length rest) block
      in if n = 0 then []
         else
           (case lz_compress Z c (take n rest) (lz_bound Z block) of
              (out, c') \<Rightarrow>
                if out = [] then []
                else size_bytes 4 n @ size_bytes 4 (length out) @ out @ compress_blocks Z block c' (drop n rest)))"
  by pat_completeness auto
termination by (relation "measure (\<lambda>(Z, block, c, rest). length rest)") auto

declare compress_blocks.simps [simp del]

definition compression ::
  "('c, 'd) lz4 \<Rightarrow> (nat \<Rightarrow> nat \<Rightarrow> string) \<Rightarrow> nat \<Rightarrow> 8 word list \<Rightarrow> 8 word list option \<times> string" where
  "compression Z shown block original =
     (if original = [] then (None, ''the data field is empty.'')
      else
        let compressed = compress_blocks Z block (lz_reset Z) original
        in if compressed = [] then (None, ''cannot compress data'')
           else (Some compressed,
                 ''compressing(buffer '' @ nat_text block @ ''): ('' @ nat_text (length original) @ '' -> '' @
                 nat_text (length compressed) @ '' : '' @ shown (length compressed) (length original) @ '' %)''))"

section \<open>Decompression\<close>

datatype 'a unpacked = Unpacked 'a | Undefined

text \<open>A 32-bit length of the data: negative from \<open>2 ^ 31\<close> on.\<close>

definition length_field :: "8 word list \<Rightarrow> nat \<Rightarrow> int" where
  "length_field bytes i = i32 (int (bytes_size (take 4 (drop i bytes))))"

text \<open>The position is a 32-bit number, so it must not pass \<open>2 ^ 31\<close>. The length of the block before compression
  is only tested for being positive.\<close>

function decompress_blocks :: "('c, 'd) lz4 \<Rightarrow> nat \<Rightarrow> 'd \<Rightarrow> 8 word list \<Rightarrow> nat \<Rightarrow> 8 word list unpacked" where
  "decompress_blocks Z block d bytes i =
     (if length bytes = i then Unpacked []
      else if length bytes < i + 4 then Undefined
      else if length_field bytes i \<le> 0 then Unpacked []
      else if length bytes < i + 8 then Undefined
      else
        let size = length_field bytes (i + 4); n = nat size
        in if size \<le> 0 then Unpacked []
           else if length bytes < i + 8 + n \<or> lz_bound Z block < n \<or> 2 ^ 31 \<le> i + 8 + n then Undefined
           else
             (case lz_decompress Z d (take n (drop (i + 8) bytes)) block of
                (out, d') \<Rightarrow>
                  if out = [] then Unpacked []
                  else (case decompress_blocks Z block d' bytes (i + 8 + n) of
                          Undefined \<Rightarrow> Undefined
                        | Unpacked outs \<Rightarrow> Unpacked (out @ outs))))"
  by pat_completeness auto
termination by (relation "measure (\<lambda>(Z, block, d, bytes, i). length bytes - i)") auto

declare decompress_blocks.simps [simp del]

definition decompression ::
  "('c, 'd) lz4 \<Rightarrow> (nat \<Rightarrow> nat \<Rightarrow> string) \<Rightarrow> nat \<Rightarrow> 8 word list \<Rightarrow> (8 word list option \<times> string) unpacked" where
  "decompression Z shown block compressed =
     (if compressed = [] then Unpacked (None, ''the data field is empty.'')
      else
        (case decompress_blocks Z block (lz_set Z) compressed 0 of
           Undefined \<Rightarrow> Undefined
         | Unpacked [] \<Rightarrow> Unpacked (None, ''cannot decompress data'')
         | Unpacked original \<Rightarrow>
             Unpacked (Some original,
               ''decompressing(buffer '' @ nat_text block @ ''): ('' @ nat_text (length compressed) @ '' -> '' @
               nat_text (length original) @ '' : '' @ shown (length compressed) (length original) @ '' %)'')))"

section \<open>Round trip\<close>

text \<open>What the LZ4 library promises: a decoder that is in step with an encoder (\<open>sync\<close>) decodes the next block,
  which fits into the buffer the bound was computed for, and stays in step.\<close>

definition lossless :: "('c, 'd) lz4 \<Rightarrow> ('c \<Rightarrow> 'd \<Rightarrow> bool) \<Rightarrow> nat \<Rightarrow> bool" where
  "lossless Z sync block \<longleftrightarrow>
     sync (lz_reset Z) (lz_set Z) \<and>
     (\<forall>c d bytes. sync c d \<and> bytes \<noteq> [] \<and> length bytes \<le> block \<longrightarrow>
        (case lz_compress Z c bytes (lz_bound Z block) of
           (out, c') \<Rightarrow>
             out \<noteq> [] \<and> length out \<le> lz_bound Z block \<and>
             (case lz_decompress Z d out block of (again, d') \<Rightarrow> again = bytes \<and> sync c' d')))"

lemma losslessD:
  assumes "lossless Z sync block" "sync c d" "bytes \<noteq> []" "length bytes \<le> block"
  obtains out c' d' where "lz_compress Z c bytes (lz_bound Z block) = (out, c')" "out \<noteq> []"
    "length out \<le> lz_bound Z block" "lz_decompress Z d out block = (bytes, d')" "sync c' d'"
proof -
  obtain out c' where z: "lz_compress Z c bytes (lz_bound Z block) = (out, c')" by fastforce
  obtain again d' where u: "lz_decompress Z d out block = (again, d')" by fastforce
  from assms(1) have "sync c d \<and> bytes \<noteq> [] \<and> length bytes \<le> block \<longrightarrow>
      (case lz_compress Z c bytes (lz_bound Z block) of
        (out, c') \<Rightarrow>
          out \<noteq> [] \<and> length out \<le> lz_bound Z block \<and>
          (case lz_decompress Z d out block of (again, d') \<Rightarrow> again = bytes \<and> sync c' d'))"
    unfolding lossless_def by (elim conjE allE)
  then have "out \<noteq> [] \<and> length out \<le> lz_bound Z block \<and> again = bytes \<and> sync c' d'"
    using assms(2-4) by (simp add: z u)
  then have "out \<noteq> []" "length out \<le> lz_bound Z block" "again = bytes" "sync c' d'" by blast+
  then show ?thesis using z u by (intro that [of out c' d']) simp_all
qed

lemma length_field_of:
  assumes "n < 2 ^ 31"
  shows "length_field (before @ size_bytes 4 n @ behind) (length before) = int n"
proof -
  have "in_i32 (int n)" using assms by (simp add: in_i32_def)
  moreover have "bytes_size (size_bytes 4 n) = n" using assms by (intro bytes_size_of) simp
  ultimately show ?thesis by (simp add: length_field_def)
qed

lemma blocks_roundtrip:
  assumes "lossless Z sync block" "0 < block" "block < 2 ^ 16"
  shows "sync c d \<Longrightarrow> length (before @ compress_blocks Z block c rest) < 2 ^ 31 \<Longrightarrow>
    decompress_blocks Z block d (before @ compress_blocks Z block c rest) (length before) = Unpacked rest"
proof (induction "length rest" arbitrary: c d before rest rule: less_induct)
  case less
  show ?case
  proof (cases "rest = []")
    case True
    then show ?thesis by (simp add: compress_blocks.simps [of Z block c] decompress_blocks.simps)
  next
    case False
    let ?n = "min (length rest) block"
    have n: "0 < ?n" "?n < 2 ^ 31" "take ?n rest \<noteq> []" "length (take ?n rest) \<le> block"
      using False assms by auto
    obtain out c' d' where z: "lz_compress Z c (take ?n rest) (lz_bound Z block) = (out, c')" "out \<noteq> []"
      "length out \<le> lz_bound Z block" "lz_decompress Z d out block = (take ?n rest, d')" "sync c' d'"
      by (rule losslessD [OF assms(1) less.prems(1) n(3,4)])
    define tail where "tail = compress_blocks Z block c' (drop ?n rest)"
    define head where "head = before @ size_bytes 4 ?n @ size_bytes 4 (length out) @ out"
    have e: "before @ compress_blocks Z block c rest = head @ tail"
      using n(1) z(1,2) by (simp add: compress_blocks.simps [of Z block c rest] head_def tail_def Let_def)
    have l: "length head = length before + 8 + length out" by (simp add: head_def)
    have short: "length before + 8 + length out + length tail < 2 ^ 31"
      using less.prems(2) unfolding e by (simp add: l)
    have f1: "length_field (head @ tail) (length before) = int ?n"
      using length_field_of [OF n(2), of before "size_bytes 4 (length out) @ out @ tail"] by (simp add: head_def)
    have f2: "length_field (head @ tail) (length before + 4) = int (length out)"
      using length_field_of [of "length out" "before @ size_bytes 4 ?n" "out @ tail"] short by (simp add: head_def)
    have t: "drop (length before + 8) head = out" by (simp add: head_def)
    have m: "?n \<noteq> 0" using n(1) by linarith
    have ih: "decompress_blocks Z block d' (head @ tail) (length before + 8 + length out) =
        Unpacked (drop ?n rest)"
      unfolding tail_def l [symmetric]
      by (rule less.hyps) (use n False assms(2) z(5) less.prems(2) e in \<open>auto simp: tail_def\<close>)
    show ?thesis
      unfolding e using z short ih
      by (subst decompress_blocks.simps) (simp add: f1 f2 t l m Let_def)
  qed
qed

lemma compress_blocks_empty:
  assumes "lossless Z sync block" "sync c d"
  shows "compress_blocks Z block c rest = [] \<longleftrightarrow> rest = [] \<or> block = 0"
proof (cases "rest = [] \<or> block = 0")
  case True
  then show ?thesis by (auto simp: compress_blocks.simps)
next
  case False
  let ?n = "min (length rest) block"
  have n: "?n \<noteq> 0" "take ?n rest \<noteq> []" "length (take ?n rest) \<le> block" using False by auto
  obtain out c' d' where "lz_compress Z c (take ?n rest) (lz_bound Z block) = (out, c')" "out \<noteq> []"
    "length out \<le> lz_bound Z block" "lz_decompress Z d out block = (take ?n rest, d')" "sync c' d'"
    by (rule losslessD [OF assms n(2,3)])
  then show ?thesis using False n(1) by (simp add: compress_blocks.simps [of Z block c rest] Let_def)
qed

text \<open>C31: Compressor round trip: with a codec that is lossless on blocks, any bytes but none at all are
  compressed, block by block, to bytes of which decompression with the same block size gives them back, as long
  as what was compressed stays below two gigabytes. Nothing is read or written outside the buffers on the way.
  Without bytes, or with blocks of size zero, compression reports an error.\<close>

theorem compression_roundtrip:
  assumes "lossless Z sync block" "block < 2 ^ 16"
    and "length (compress_blocks Z block (lz_reset Z) original) < 2 ^ 31"
  shows "if original = [] \<or> block = 0 then fst (compression Z shown block original) = None
    else \<exists>packed m m'. compression Z shown block original = (Some packed, m) \<and>
      decompression Z shown block packed = Unpacked (Some original, m')"
proof -
  have s: "sync (lz_reset Z) (lz_set Z)" using assms(1) by (simp add: lossless_def)
  let ?packed = "compress_blocks Z block (lz_reset Z) original"
  note e = compress_blocks_empty [OF assms(1) s, of original]
  show ?thesis
  proof (cases "original = [] \<or> block = 0")
    case True
    then show ?thesis using e by (simp add: compression_def)
  next
    case False
    have "decompress_blocks Z block (lz_set Z) ?packed 0 = Unpacked original"
      using blocks_roundtrip [OF assms(1) _ assms(2) s, of "[]" original] assms(3) False by simp
    moreover obtain x xs where "original = x # xs" using False by (cases original) auto
    ultimately show ?thesis using False e by (simp add: compression_def decompression_def Let_def)
  qed
qed

text \<open>A codec that stores what it is given.\<close>

definition stored_codec :: "(unit, unit) lz4" where
  "stored_codec =
     \<lparr>lz_bound = (\<lambda>n. n), lz_reset = (), lz_compress = (\<lambda>c bytes n. (bytes, c)),
      lz_set = (), lz_decompress = (\<lambda>d bytes n. (bytes, d))\<rparr>"

lemma stored_lossless: "lossless stored_codec (\<lambda>c d. True) block"
  by (simp add: lossless_def stored_codec_def)

lemma stored_blocks:
  "compress_blocks stored_codec 2 () [7, 8, 9] =
     size_bytes 4 2 @ size_bytes 4 2 @ [7, 8] @ size_bytes 4 1 @ size_bytes 4 1 @ [9]"
  by (simp add: stored_codec_def compress_blocks.simps Let_def flip: numeral_2_eq_2)

theorem compression_roundtrip_witness:
  "\<exists>packed m m'. compression stored_codec (\<lambda>a b. []) 2 [7, 8, 9] = (Some packed, m) \<and>
     decompression stored_codec (\<lambda>a b. []) 2 packed = Unpacked (Some [7, 8, 9], m')"
proof -
  have "length (compress_blocks stored_codec 2 (lz_reset stored_codec) [7, 8, 9]) < 2 ^ 31"
    using stored_blocks by (simp add: stored_codec_def)
  from compression_roundtrip [OF stored_lossless _ this, of "\<lambda>a b. []"] show ?thesis by simp
qed

text \<open>A codec that gives up in the middle goes unnoticed: what was compressed before is reported as success.\<close>

definition failing_codec :: "(nat, unit) lz4" where
  "failing_codec =
     \<lparr>lz_bound = (\<lambda>n. n), lz_reset = 0, lz_compress = (\<lambda>c bytes n. (if c = 0 then bytes else [], Suc c)),
      lz_set = (), lz_decompress = (\<lambda>d bytes n. (bytes, d))\<rparr>"

lemma compression_truncates:
  "fst (compression failing_codec shown 2 [7, 8, 9]) = Some (size_bytes 4 2 @ size_bytes 4 2 @ [7, 8])"
  by (simp add: compression_def failing_codec_def compress_blocks.simps Let_def flip: numeral_2_eq_2)

text \<open>Bytes that do not come from \<open>compression\<close> can make the decoder leave its buffers: a lone byte does.\<close>

lemma decompression_undefined: "decompression Z shown block [x] = Undefined"
  by (simp add: decompression_def decompress_blocks.simps)


end
