(* ===== verification/Folder.thy ===== *)
theory Folder
  imports Combiner File_Stream Job_Pool
begin

text \<open>
  \<open>CommonLibrary/Utilities/Folder.cpp\<close>: directories, and the archive of a directory in one file. An
  archive is a sequence of blocks as \<open>Combiner\<close> packs them, one for each file, which hold the name and the
  content of the file as two parts; nothing is compressed, and the block size is not used. \<open>Throws\<close> is an
  exception that leaves the function, \<open>Invalid\<close> undefined behaviour of \<open>Combiner::divide\<close>.
\<close>

datatype 'a folder_end = Ends 'a | Throws string | Invalid

section \<open>Directories\<close>

definition create_folder :: "string \<Rightarrow> 'a world_scheme \<Rightarrow> res \<times> 'a world_scheme" where
  "create_folder target_path w =
     (if target_path = [] then (err_res ''target path is empty'', w)
      else if fexists w (to_path target_path) then (err_res ''target folder already exists'', w)
      else
        (case os_mkdirs (to_path target_path) w of
           (Some m, w1) \<Rightarrow> (err_res m, w1)
         | (None, w1) \<Rightarrow> (ok_res, w1)))"

text \<open>\<open>remove_all\<close>: on an error the count is the largest number there is, and not zero.\<close>

definition os_remove_all :: "path \<Rightarrow> 'a world_scheme \<Rightarrow> nat \<times> 'a world_scheme" where
  "os_remove_all p w =
     (let (e, w1) = os_io w
      in if e \<noteq> None then (2 ^ 64 - 1, w1)
         else
           (length (filter (prefix p) (map fst (files w1))) + length (filter (prefix p) (remdups (dirs w1))),
            w1\<lparr>files := filter (\<lambda>f. \<not> prefix p (fst f)) (files w1),
               dirs := filter (\<lambda>d. \<not> prefix p d) (dirs w1)\<rparr>))"

definition delete_folder :: "string \<Rightarrow> 'a world_scheme \<Rightarrow> res \<times> 'a world_scheme" where
  "delete_folder target_path w =
     (if target_path = [] then (err_res ''target path is empty'', w)
      else if \<not> fexists w (to_path target_path) then (err_res ''there is no target folder'', w)
      else
        let (deleted_count, w1) = os_remove_all (to_path target_path) w
        in (if deleted_count = 0 then err_res ''Success'' else ok_res, w1))"

text \<open>So an error of the system is reported as success.\<close>

lemma delete_folder_hides_errors:
  assumes "target_path \<noteq> []" "fexists w (to_path target_path)" "fault w (io_n w) \<noteq> None"
  shows "\<exists>w1. delete_folder target_path w = (ok_res, w1) \<and> files w1 = files w \<and> dirs w1 = dirs w"
  using assms by (auto simp: delete_folder_def os_remove_all_def os_io_def)

text \<open>The entries of a directory; the order of a \<open>directory_iterator\<close> is not specified. A path that is no
  directory, or that cannot be opened, throws.\<close>

definition entries_of :: "'a world_scheme \<Rightarrow> path \<Rightarrow> path list" where
  "entries_of w d = filter (entry_of d) (map fst (files w) @ remdups (dirs w))"

definition open_directory :: "path \<Rightarrow> 'a world_scheme \<Rightarrow> (string + path list) \<times> 'a world_scheme" where
  "open_directory d w =
     (let (e, w1) = os_io w
      in (case e of
            Some m \<Rightarrow> (Inl m, w1)
          | None \<Rightarrow> (if is_dir w1 d then Inr (entries_of w1 d) else Inl ''Not a directory'', w1)))"

text \<open>The two searches. \<open>levels\<close> is a bound on the depth of the directories; \<open>deepest\<close> is enough.\<close>

definition deepest :: "'a world_scheme \<Rightarrow> nat" where
  "deepest w = foldr (\<lambda>d. max (length d)) (dirs w) 0"

fun search_folders ::
  "nat \<Rightarrow> bool \<Rightarrow> path list \<Rightarrow> 'a world_scheme \<Rightarrow> (string + path list) \<times> 'a world_scheme" where
  "search_folders levels search_sub_folder [] w = (Inr [], w)"
| "search_folders levels search_sub_folder (p # ps) w =
     (if \<not> is_dir w p then search_folders levels search_sub_folder ps w
      else
        (case (if search_sub_folder \<and> 0 < levels
               then
                 (case open_directory p w of
                    (Inl e, w1) \<Rightarrow> (Inl e, w1)
                  | (Inr es, w1) \<Rightarrow> search_folders (levels - 1) search_sub_folder es w1)
               else (Inr [], w)) of
           (Inl e, w1) \<Rightarrow> (Inl e, w1)
         | (Inr sub, w1) \<Rightarrow>
             (case search_folders levels search_sub_folder ps w1 of
                (Inl e, w2) \<Rightarrow> (Inl e, w2)
              | (Inr rest, w2) \<Rightarrow> (Inr (p # sub @ rest), w2))))"

fun search_files ::
  "nat \<Rightarrow> bool \<Rightarrow> string list \<Rightarrow> path list \<Rightarrow> 'a world_scheme \<Rightarrow> (string + path list) \<times> 'a world_scheme" where
  "search_files levels search_sub_folder extensions [] w = (Inr [], w)"
| "search_files levels search_sub_folder extensions (p # ps) w =
     (case (if is_dir w p \<and> search_sub_folder
            then
              (if levels = 0 then (Inr [], w)
               else
                 (case open_directory p w of
                    (Inl e, w1) \<Rightarrow> (Inl e, w1)
                  | (Inr es, w1) \<Rightarrow> search_files (levels - 1) search_sub_folder extensions es w1))
            else
              (Inr (if is_file w p \<and> (extensions = [] \<or> name_extension (last p) \<in> set extensions) then [p] else []),
               w)) of
        (Inl e, w1) \<Rightarrow> (Inl e, w1)
      | (Inr found, w1) \<Rightarrow>
          (case search_files levels search_sub_folder extensions ps w1 of
             (Inl e, w2) \<Rightarrow> (Inl e, w2)
           | (Inr rest, w2) \<Rightarrow> (Inr (found @ rest), w2)))"

definition search_in ::
  "string \<Rightarrow> (path list \<Rightarrow> 'a world_scheme \<Rightarrow> (string + path list) \<times> 'a world_scheme) \<Rightarrow> 'a world_scheme \<Rightarrow>
     (path list option \<times> string option) folder_end \<times> 'a world_scheme" where
  "search_in target_path search w =
     (if target_path = [] then (Ends (None, Some ''target path is empty''), w)
      else if \<not> fexists w (to_path target_path) then (Ends (None, Some ''there is no target folder''), w)
      else
        (case open_directory (to_path target_path) w of
           (Inl e, w1) \<Rightarrow> (Throws e, w1)
         | (Inr es, w1) \<Rightarrow>
             (case search es w1 of
                (Inl e, w2) \<Rightarrow> (Throws e, w2)
              | (Inr found, w2) \<Rightarrow> (Ends (Some found, None), w2))))"

definition get_folders ::
  "string \<Rightarrow> bool \<Rightarrow> 'a world_scheme \<Rightarrow> (path list option \<times> string option) folder_end \<times> 'a world_scheme" where
  "get_folders target_path search_sub_folder w =
     search_in target_path (search_folders (deepest w) search_sub_folder) w"

definition get_files ::
  "string \<Rightarrow> bool \<Rightarrow> string list \<Rightarrow> 'a world_scheme \<Rightarrow>
     (path list option \<times> string option) folder_end \<times> 'a world_scheme" where
  "get_files target_path search_sub_folder extensions w =
     search_in target_path (search_files (deepest w) search_sub_folder extensions) w"

section \<open>Archives\<close>

text \<open>What an archive holds of a file: its path relative to the archived directory, and its content. The code
  reverses the two packed parts and writes them behind their length, which is what \<open>append\<close> does with them.\<close>

definition source_data :: "path \<Rightarrow> path \<Rightarrow> string \<Rightarrow> 8 word list" where
  "source_data source p content =
     rev (combiner_append (combiner_append [] (text_bytes (path_text (drop (length source) p)))) (text_bytes content))"

fun pack_files ::
  "path \<Rightarrow> path list \<Rightarrow> file_object \<Rightarrow> 'a world_scheme \<Rightarrow> res folder_end \<times> 'a world_scheme" where
  "pack_files source [] target_file w = (Ends ok_res, w)"
| "pack_files source (p # ps) target_file w =
     (case file_open (path_text p) mode_read new_file w of
        (Inl e, _, w1) \<Rightarrow> (Throws e, w1)
      | (Inr r, source_file, w1) \<Rightarrow>
          if \<not> fst r then (Ends r, w1)
          else
            (case file_read_bytes source_file w1 of
               ((None, e), _) \<Rightarrow> (Ends (False, e), w1)
             | ((Some content, _), _) \<Rightarrow>
                 let bytes = source_data source p content
                 in case file_write_bytes (bytes_text (size_bytes 8 (length bytes mod size_limit))) target_file w1 of
                      (r2, target1, w2) \<Rightarrow>
                        if \<not> fst r2 then (Ends r2, w2)
                        else
                          (case file_write_bytes (bytes_text bytes) target1 w2 of
                             (r3, target2, w3) \<Rightarrow>
                               if \<not> fst r3 then (Ends r3, w3) else pack_files source ps target2 w3)))"

definition folder_compression ::
  "string \<Rightarrow> string \<Rightarrow> bool \<Rightarrow> string list \<Rightarrow> 'a world_scheme \<Rightarrow> res folder_end \<times> 'a world_scheme" where
  "folder_compression target_path source_path search_sub_folder extensions w =
     (case get_files source_path search_sub_folder extensions w of
        (Throws e, w1) \<Rightarrow> (Throws e, w1)
      | (Invalid, w1) \<Rightarrow> (Invalid, w1)
      | (Ends (None, m), w1) \<Rightarrow> (Ends (False, m), w1)
      | (Ends (Some found, _), w1) \<Rightarrow>
          (case file_open target_path mode_write new_file w1 of
             (Inl e, _, w2) \<Rightarrow> (Throws e, w2)
           | (Inr r, target_file, w2) \<Rightarrow>
               if \<not> fst r then (Ends r, w2) else pack_files (to_path source_path) found target_file w2))"

lemma divided_progress:
  "combiner_divide bytes i = Divided part j \<Longrightarrow> part \<noteq> [] \<Longrightarrow> i < j \<and> j \<le> length bytes"
  by (auto simp: combiner_divide_def Let_def split: if_splits)

function unpack_files ::
  "path \<Rightarrow> 8 word list \<Rightarrow> nat \<Rightarrow> 'a world_scheme \<Rightarrow> res folder_end \<times> 'a world_scheme" where
  "unpack_files target bytes i w =
     (case combiner_divide bytes i of
        Invalid_Range \<Rightarrow> (Invalid, w)
      | Divided parsed i1 \<Rightarrow>
          if parsed = [] then (Ends ok_res, w)
          else
            (case combiner_divide parsed 0 of
               Invalid_Range \<Rightarrow> (Invalid, w)
             | Divided name sub \<Rightarrow>
                 (case combiner_divide parsed sub of
                    Invalid_Range \<Rightarrow> (Invalid, w)
                  | Divided content _ \<Rightarrow>
                      (case file_open (path_text (path_append target (bytes_to_string (bytes_text name))))
                              mode_write new_file w of
                         (Inl e, _, w1) \<Rightarrow> (Throws e, w1)
                       | (Inr r, new, w1) \<Rightarrow>
                           if \<not> fst r then (Ends r, w1)
                           else
                             (case file_write_bytes (bytes_text content) new w1 of
                                (r2, _, w2) \<Rightarrow>
                                  if \<not> fst r2 then (Ends r2, w2) else unpack_files target bytes i1 w2)))))"
  by pat_completeness auto
termination
  by (relation "measure (\<lambda>(target, bytes, i, w). length bytes - i)") (auto dest: divided_progress)

declare unpack_files.simps [simp del]

definition folder_decompression ::
  "string \<Rightarrow> string \<Rightarrow> 'a world_scheme \<Rightarrow> res folder_end \<times> 'a world_scheme" where
  "folder_decompression target_path source_path w =
     (case file_open source_path mode_read new_file w of
        (Inl e, _, w1) \<Rightarrow> (Throws e, w1)
      | (Inr r, source_file, w1) \<Rightarrow>
          if \<not> fst r then (Ends r, w1)
          else
            (case file_read_bytes source_file w1 of
               ((None, e), _) \<Rightarrow> (Ends (False, e), w1)
             | ((Some content, _), _) \<Rightarrow>
                 (case create_folder target_path w1 of
                    (_, w2) \<Rightarrow> unpack_files (to_path target_path) (text_bytes content) 0 w2)))"

end
