(* ===== verification/Folder_Archive.thy ===== *)
theory Folder_Archive
  imports Folder
begin

text \<open>
  Properties of the archives of \<open>Folder\<close>: what the search finds, what the two loops do to the files when no
  system call fails, and the round trip.
\<close>

section \<open>Paths\<close>

definition canonical :: "path \<Rightarrow> bool" where
  "canonical p \<longleftrightarrow> list_all plain_name (case p of c # cs \<Rightarrow> if c = ''/'' then cs else p | [] \<Rightarrow> [])"

lemma split_slash_join:
  "list_all plain_name (c # cs) \<Longrightarrow> split_slash [] (join_slash (c # cs)) = c # cs"
proof (induction cs arbitrary: c)
  case Nil
  then show ?case using split_slash_plain [of c "[]"] by (simp add: plain_name_def)
next
  case (Cons c2 cs)
  have step: "CHR ''/'' \<notin> set s \<Longrightarrow> split_slash acc (s @ CHR ''/'' # u) = (rev acc @ s) # split_slash [] u" for s acc u
    by (induction s arbitrary: acc) auto
  from Cons.prems have "CHR ''/'' \<notin> set c" by (simp add: plain_name_def)
  then show ?case using Cons step [of c "[]"] by simp
qed

lemma components_join: "list_all plain_name cs \<Longrightarrow> components (join_slash cs) = cs"
proof (cases cs)
  case Nil
  then show ?thesis by (simp add: components_def)
next
  case (Cons c ds)
  assume p: "list_all plain_name cs"
  have "filter (\<lambda>c. c \<noteq> [] \<and> c \<noteq> ''.'') cs = cs"
    using p by (auto simp: plain_name_def list_all_iff)
  then show ?thesis using p split_slash_join [of c ds] Cons by (simp add: components_def)
qed

lemma join_not_absolute: "list_all plain_name cs \<Longrightarrow> \<not> is_absolute (join_slash cs)"
  by (cases cs rule: join_slash.cases) (auto simp: is_absolute_def plain_name_def neq_Nil_conv)

lemma slash_not_plain [simp]: "\<not> plain_name ''/''"
  by (simp add: plain_name_def)

lemma path_text_plain: "list_all plain_name p \<Longrightarrow> path_text p = join_slash p"
  by (cases p) (auto simp: path_text_def)

lemma to_path_text: "canonical p \<Longrightarrow> to_path (path_text p) = p"
proof (cases "\<exists>cs. p = ''/'' # cs")
  case True
  assume c: "canonical p"
  obtain cs where p: "p = ''/'' # cs" using True by blast
  with c have cs: "list_all plain_name cs" by (simp add: canonical_def)
  have "components (CHR ''/'' # s) = components s" for s by (simp add: components_def)
  then show ?thesis using components_join [OF cs] p
    by (simp add: path_text_def to_path_def is_absolute_def)
next
  case False
  assume "canonical p"
  then have p: "list_all plain_name p" using False by (cases p) (auto simp: canonical_def)
  show ?thesis
    by (simp add: path_text_plain [OF p] to_path_def join_not_absolute [OF p] components_join [OF p])
qed

lemma components_plain_names: "list_all plain_name (components s)"
proof -
  have "\<forall>c \<in> set (split_slash acc s). CHR ''/'' \<notin> set c" if "CHR ''/'' \<notin> set acc" for acc
    using that by (induction acc s rule: split_slash.induct) auto
  from this [of "[]"] show ?thesis by (auto simp: components_def list_all_iff plain_name_def)
qed

lemma canonical_to_path [simp]: "canonical (to_path s)"
  using components_plain_names [of s]
  by (cases "components s") (auto simp: canonical_def to_path_def)

lemma canonical_append: "canonical p \<Longrightarrow> list_all plain_name r \<Longrightarrow> canonical (p @ r)"
  by (cases p; cases r) (auto simp: canonical_def split: if_splits)

lemma append_relative: "list_all plain_name r \<Longrightarrow> path_append t (path_text r) = t @ r"
  by (simp add: path_append_def path_text_plain join_not_absolute components_join)

lemma bytes_text_bytes [simp]: "bytes_text (text_bytes s) = s"
proof (induction s)
  case (Cons c s)
  have "unat (word_of_nat (of_char c) :: 8 word) = of_char c"
    by (simp add: unat_of_nat) 
  then show ?case using Cons by (simp add: text_bytes_def bytes_text_def)
qed (simp add: text_bytes_def bytes_text_def)

lemma length_bytes_text [simp]: "length (bytes_text bs) = length bs" "length (text_bytes s) = length s"
  by (simp_all add: bytes_text_def text_bytes_def)

lemma bytes_text_append [simp]: "bytes_text (a @ b) = bytes_text a @ bytes_text b"
  by (simp add: bytes_text_def)

section \<open>Files of an archive\<close>

text \<open>Where a file is, or can be made: it has a name, nothing on the way to it is a file and it is no directory.\<close>

definition file_place :: "'a world_scheme \<Rightarrow> path \<Rightarrow> bool" where
  "file_place w p \<longleftrightarrow> p \<noteq> [] \<and> \<not> is_dir w p \<and> (\<forall>q. strict_prefix q p \<longrightarrow> \<not> is_file w q)"

definition calm_world :: "'a world_scheme \<Rightarrow> bool" where
  "calm_world w \<longleftrightarrow> fault w = (\<lambda>n. None)"

definition directories_to :: "path \<Rightarrow> path \<Rightarrow> bool" where
  "directories_to p q \<longleftrightarrow> prefix q (butlast p)"

lemma calm_os_io: "calm_world w \<Longrightarrow> os_io w = (None, w\<lparr>io_n := Suc (io_n w)\<rparr>)"
  by (simp add: os_io_def calm_world_def)

lemma is_dir_counters [simp]: "is_dir (w\<lparr>io_n := n\<rparr>) p = is_dir w p" "is_dir (w\<lparr>files := fs\<rparr>) p = is_dir w p"
  by (simp_all add: is_dir_def)

lemma calm_counters [simp]: "calm_world (w\<lparr>io_n := n\<rparr>) = calm_world w"
  "calm_world (w\<lparr>files := fs\<rparr>) = calm_world w" "calm_world (w\<lparr>dirs := ds\<rparr>) = calm_world w"
  by (simp_all add: calm_world_def)

lemma is_file_counters [simp]: "is_file (w\<lparr>io_n := n\<rparr>) = is_file w" "is_file (w\<lparr>dirs := ds\<rparr>) = is_file w"
  by (simp_all add: is_file_def fun_eq_iff)

text \<open>What a call of the operating system that opens a file for the archive leaves behind.\<close>

definition opened :: "path \<Rightarrow> 'a world_scheme \<Rightarrow> 'a world_scheme \<Rightarrow> bool" where
  "opened p w w1 \<longleftrightarrow> calm_world w1 \<and> (\<forall>q. is_dir w1 q \<longleftrightarrow> is_dir w q \<or> directories_to p q)"

lemma strict_prefix_butlast: "p \<noteq> [] \<Longrightarrow> strict_prefix q p \<longleftrightarrow> prefix q (butlast p)"
  by (cases p rule: rev_cases) (auto simp: strict_prefix_def prefix_snoc)

lemma mkdirs_calm:
  assumes "calm_world w" "file_place w p"
  shows "\<exists>w1. (if butlast p = [] then (None, w) else os_mkdirs (butlast p) w) = (None, w1) \<and>
    fget w1 = fget w \<and> opened p w w1"
proof (cases "butlast p = []")
  case True
  then show ?thesis using assms by (auto simp: opened_def directories_to_def is_dir_def)
next
  case False
  have "\<not> list_ex (is_file w) (prefixes (butlast p))"
    using assms(2) by (auto simp: file_place_def list_ex_iff strict_prefix_butlast)
  then show ?thesis using False assms(1)
    by (auto simp: os_mkdirs_def calm_os_io opened_def directories_to_def is_dir_def)
qed

lemma opened_place:
  assumes "file_place w p" "opened p w w1"
  shows "is_dir w1 (butlast p)" "\<not> is_dir w1 p" "p \<noteq> []"
proof -
  show n: "p \<noteq> []" using assms(1) by (simp add: file_place_def)
  show "is_dir w1 (butlast p)" using assms(2) by (simp add: opened_def directories_to_def)
  have "\<not> prefix p (butlast p)" using n strict_prefix_butlast [of p p] by auto
  then show "\<not> is_dir w1 p" using assms by (simp add: opened_def directories_to_def file_place_def)
qed

lemma open_modes [simp]: "open_kind mode_read = Existing" "open_kind mode_write = Truncate"
  by (simp_all add: open_kind_def mode_read_def mode_write_def no_mode_def)

lemma open_reading:
  assumes "calm_world w" "to_path name = p" "file_place w p" "fget w p = Some c"
  shows "\<exists>w1. file_open name mode_read new_file w =
      (Inr ok_res, new_file\<lparr>fo_file_path := name, fo_stream := Some (p, mode_read)\<rparr>, w1) \<and>
    fget w1 = fget w \<and> opened p w w1"
proof -
  obtain w1 where m: "(if butlast p = [] then (None, w) else os_mkdirs (butlast p) w) = (None, w1)"
    "fget w1 = fget w" "opened p w w1" using mkdirs_calm [OF assms(1,3)] by blast
  let ?w2 = "w1\<lparr>io_n := Suc (io_n w1)\<rparr>"
  have "stream_open p mode_read w1 = (True, ?w2)"
    using opened_place [OF assms(3) m(3)] m assms(4)
    by (simp add: stream_open_def calm_os_io opened_def is_file_def Let_def)
  then have "file_open name mode_read new_file w =
      (Inr ok_res, new_file\<lparr>fo_file_path := name, fo_stream := Some (p, mode_read)\<rparr>, ?w2)"
    using m(1) by (simp add: file_open_def assms(2) Let_def new_file_def)
  moreover have "fget ?w2 = fget w \<and> opened p w ?w2" using m by (simp add: opened_def)
  ultimately show ?thesis by blast
qed

lemma open_writing:
  assumes "calm_world w" "to_path name = p" "file_place w p"
  shows "\<exists>w1. file_open name mode_write new_file w =
      (Inr ok_res, new_file\<lparr>fo_file_path := name, fo_stream := Some (p, mode_write)\<rparr>, w1) \<and>
    fget w1 = (fget w)(p \<mapsto> []) \<and> opened p w w1"
proof -
  obtain w1 where m: "(if butlast p = [] then (None, w) else os_mkdirs (butlast p) w) = (None, w1)"
    "fget w1 = fget w" "opened p w w1" using mkdirs_calm [OF assms(1,3)] by blast
  let ?w2 = "w1\<lparr>io_n := Suc (io_n w1), files := AList.update p [] (files w1)\<rparr>"
  have "stream_open p mode_write w1 = (True, ?w2)"
    using opened_place [OF assms(3) m(3)] m
    by (simp add: stream_open_def calm_os_io opened_def Let_def)
  then have "file_open name mode_write new_file w =
      (Inr ok_res, new_file\<lparr>fo_file_path := name, fo_stream := Some (p, mode_write)\<rparr>, ?w2)"
    using m(1) by (simp add: file_open_def assms(2) Let_def new_file_def)
  moreover have "fget ?w2 = (fget w)(p \<mapsto> []) \<and> opened p w ?w2"
    using m by (simp add: opened_def)
  ultimately show ?thesis by blast
qed

text \<open>A stream that has written the content \<open>c\<close> of its file so far.\<close>

definition writing :: "path \<Rightarrow> string \<Rightarrow> file_object \<Rightarrow> 'a world_scheme \<Rightarrow> bool" where
  "writing p c f w \<longleftrightarrow>
     fo_openmode f = no_mode \<and> fo_stream f = Some (p, mode_write) \<and> \<not> fo_fail f \<and> fo_pos f = length c \<and>
     fget w p = Some c"

lemma writing_more:
  assumes "writing p c f w" "length s < 2 ^ 32"
  shows "\<exists>f1 w1. file_write_bytes s f w = (ok_res, f1, w1) \<and> writing p (c @ s) f1 w1 \<and>
    fget w1 = (fget w)(p \<mapsto> c @ s) \<and> is_dir w1 = is_dir w \<and> calm_world w1 = calm_world w"
proof (cases "s = []")
  case True
  then show ?thesis using assms
    by (auto simp: writing_def file_write_bytes_def no_mode_def stream_write_def fun_upd_idem)
next
  case False
  then show ?thesis using assms
    by (auto simp: writing_def file_write_bytes_def no_mode_def stream_write_def overwrite_def value_or_def
        mode_write_def Let_def fun_eq_iff)
qed

lemma reading_all:
  assumes "fget w p = Some c"
  shows "\<exists>f1. file_read_bytes (new_file\<lparr>fo_file_path := name, fo_stream := Some (p, mode_read)\<rparr>) w =
    ((Some c, None), f1)"
  using assms
  by (simp add: file_read_bytes_def new_file_def no_mode_def stream_seek_def stream_rest_def mode_read_def
      value_or_def Let_def)

text \<open>The content of an archive of files, as a function of the files.\<close>

definition packed_file :: "path \<Rightarrow> (path \<rightharpoonup> string) \<Rightarrow> path \<Rightarrow> 8 word list" where
  "packed_file source m p =
     packed (text_bytes (path_text (drop (length source) p))) @ packed (text_bytes (value_or (m p) []))"

definition archive :: "path \<Rightarrow> (path \<rightharpoonup> string) \<Rightarrow> path list \<Rightarrow> 8 word list" where
  "archive source m ps = concat (map (\<lambda>p. packed (packed_file source m p)) ps)"

lemma length_packed [simp]: "length (packed part) = 8 + length part"
  by (simp add: packed_def)

lemma source_data_packed:
  assumes "length (packed_file source m p) < 2 ^ 32"
  shows "source_data source p (value_or (m p) []) = rev (packed_file source m p)"
proof -
  have "length (text_bytes (path_text (drop (length source) p))) < size_limit"
    "length (text_bytes (value_or (m p) [])) < size_limit"
    using assms by (simp_all add: packed_file_def size_limit_def)
  then show ?thesis by (simp add: source_data_def packed_file_def append_packed)
qed

lemma is_file_update: "fget w a \<noteq> None \<Longrightarrow> fget w1 = (fget w)(a \<mapsto> c) \<Longrightarrow> is_file w1 = is_file w"
  by (auto simp: is_file_def fun_eq_iff)

lemma file_place_opened:
  assumes "file_place w p" "file_place w q" "fget w q \<noteq> None" "opened p w w1"
  shows "\<not> is_dir w1 q"
  using assms strict_prefix_butlast [of p q]
  by (auto simp: file_place_def opened_def directories_to_def is_file_def)

lemma pack_one:
  assumes "calm_world w" "writing a c f w" "canonical p" "file_place w p" "p \<noteq> a" "fget w p \<noteq> None"
    and "length (packed_file source (fget w) p) < 2 ^ 32"
  shows "\<exists>f1 w1. pack_files source (p # ps) f w = pack_files source ps f1 w1 \<and>
    writing a (c @ bytes_text (packed (packed_file source (fget w) p))) f1 w1 \<and>
    fget w1 = (fget w)(a \<mapsto> c @ bytes_text (packed (packed_file source (fget w) p))) \<and> opened p w w1"
proof -
  obtain content where content: "fget w p = Some content" using assms(6) by blast
  obtain w1 where o: "file_open (path_text p) mode_read new_file w =
      (Inr ok_res, new_file\<lparr>fo_file_path := path_text p, fo_stream := Some (p, mode_read)\<rparr>, w1)"
    "fget w1 = fget w" "opened p w w1"
    using open_reading [OF assms(1) to_path_text [OF assms(3)] assms(4) content] by blast
  obtain r1 where r: "file_read_bytes (new_file\<lparr>fo_file_path := path_text p, fo_stream := Some (p, mode_read)\<rparr>) w1 =
      ((Some content, None), r1)"
    using reading_all [of w1 p content "path_text p"] o(2) content by auto
  let ?part = "packed_file source (fget w) p"
  have s: "source_data source p content = rev ?part"
    using source_data_packed [of source "fget w" p] assms(7) content by (simp add: value_or_def)
  have l: "length ?part mod size_limit = length ?part" using assms(7) by (simp add: size_limit_def)
  have "writing a c f w1" using assms(2) o(2) by (simp add: writing_def)
  from writing_more [OF this, of "bytes_text (size_bytes 8 (length ?part))"]
  obtain f2 w2 where w2: "file_write_bytes (bytes_text (size_bytes 8 (length ?part))) f w1 = (ok_res, f2, w2)"
    "writing a (c @ bytes_text (size_bytes 8 (length ?part))) f2 w2"
    "fget w2 = (fget w1)(a \<mapsto> c @ bytes_text (size_bytes 8 (length ?part)))" "is_dir w2 = is_dir w1"
    "calm_world w2 = calm_world w1" by auto
  have "length (bytes_text (rev ?part)) < 2 ^ 32" using assms(7) by simp
  from writing_more [OF w2(2) this]
  obtain f3 w3 where w3: "file_write_bytes (bytes_text (rev ?part)) f2 w2 = (ok_res, f3, w3)"
    "writing a ((c @ bytes_text (size_bytes 8 (length ?part))) @ bytes_text (rev ?part)) f3 w3"
    "fget w3 = (fget w2)(a \<mapsto> (c @ bytes_text (size_bytes 8 (length ?part))) @ bytes_text (rev ?part))"
    "is_dir w3 = is_dir w2" "calm_world w3 = calm_world w2" by auto
  have "pack_files source (p # ps) f w = pack_files source ps f3 w3"
    by (simp add: o(1) r s l w2(1) w3(1) Let_def)
  moreover have "opened p w w3" using o(3) w2 w3 by (simp add: opened_def)
  ultimately show ?thesis using w2 w3 o(2) by (intro exI [of _ f3] exI [of _ w3]) (simp add: packed_def)
qed

lemma pack_files_ok:
  "calm_world w \<Longrightarrow> writing a c f w \<Longrightarrow>
     \<forall>p \<in> set ps. canonical p \<and> file_place w p \<and> p \<noteq> a \<and> fget w p \<noteq> None \<Longrightarrow>
     length (archive source (fget w) ps) < 2 ^ 32 \<Longrightarrow>
     \<exists>w1. pack_files source ps f w = (Ends ok_res, w1) \<and> calm_world w1 \<and>
       fget w1 = (fget w)(a \<mapsto> c @ bytes_text (archive source (fget w) ps)) \<and>
       (\<forall>q. is_dir w1 q \<longleftrightarrow> is_dir w q \<or> (\<exists>p \<in> set ps. directories_to p q))"
proof (induction ps arbitrary: c f w)
  case Nil
  then show ?case by (auto simp: writing_def archive_def bytes_text_def fun_upd_idem)
next
  case (Cons p ps)
  have "length (packed_file source (fget w) p) < 2 ^ 32" using Cons.prems(4) by (simp add: archive_def)
  then obtain f1 w1 where one: "pack_files source (p # ps) f w = pack_files source ps f1 w1"
    "writing a (c @ bytes_text (packed (packed_file source (fget w) p))) f1 w1"
    "fget w1 = (fget w)(a \<mapsto> c @ bytes_text (packed (packed_file source (fget w) p)))" "opened p w w1"
    using pack_one [OF Cons.prems(1,2), of p source ps] Cons.prems(3) by (auto simp del: pack_files.simps)
  have f: "is_file w1 = is_file w"
    using is_file_update [OF _ one(3)] Cons.prems(2) by (simp add: writing_def)
  have e: "archive source (fget w1) ps = archive source (fget w) ps"
    using Cons.prems(3) by (auto simp: archive_def packed_file_def one(3) intro!: arg_cong [of _ _ concat])
  have ps: "\<forall>q \<in> set ps. canonical q \<and> file_place w1 q \<and> q \<noteq> a \<and> fget w1 q \<noteq> None"
  proof
    fix q assume "q \<in> set ps"
    then have q: "canonical q" "file_place w q" "q \<noteq> a" "fget w q \<noteq> None" "file_place w p" using Cons.prems(3) by auto
    have "\<not> is_dir w1 q" by (rule file_place_opened [OF q(5,2,4) one(4)])
    then show "canonical q \<and> file_place w1 q \<and> q \<noteq> a \<and> fget w1 q \<noteq> None"
      using q f one(3) by (simp add: file_place_def)
  qed
  have calm: "calm_world w1" using one(4) by (simp add: opened_def)
  have len: "length (archive source (fget w) ps) < 2 ^ 32" using Cons.prems(4) by (simp add: archive_def)
  from Cons.IH [OF calm one(2) ps, unfolded e, OF len] obtain w2 where w2:
    "pack_files source ps f1 w1 = (Ends ok_res, w2)" "calm_world w2"
    "fget w2 = (fget w1)(a \<mapsto> (c @ bytes_text (packed (packed_file source (fget w) p))) @
       bytes_text (archive source (fget w) ps))"
    "\<forall>q. is_dir w2 q \<longleftrightarrow> is_dir w1 q \<or> (\<exists>p \<in> set ps. directories_to p q)"
    by blast
  show ?case
    using w2 one by (intro exI [of _ w2]) (auto simp: archive_def opened_def simp del: pack_files.simps)
qed

text \<open>Taking an archive apart. A block is a relative path and a content.\<close>

definition block_bytes :: "path \<times> string \<Rightarrow> 8 word list" where
  "block_bytes b = packed (text_bytes (path_text (fst b))) @ packed (text_bytes (snd b))"

definition marked :: "string \<Rightarrow> bool" where
  "marked s \<longleftrightarrow> take 3 s = [CHR 0xEF, CHR 0xBB, CHR 0xBF]"

definition block_ok :: "path \<times> string \<Rightarrow> bool" where
  "block_ok b \<longleftrightarrow> fst b \<noteq> [] \<and> list_all plain_name (fst b) \<and> \<not> marked (path_text (fst b)) \<and>
     length (block_bytes b) < 2 ^ 32"

lemma divide_at:
  "bytes = before @ packed part @ behind \<Longrightarrow> length bytes < size_limit \<Longrightarrow>
     combiner_divide bytes (length before) = Divided part (length before + 8 + length part)"
  using divide_packed [of before part behind] by (simp add: add.assoc)

lemma divide_block:
  assumes "block_ok b"
  shows "\<exists>sub. combiner_divide (block_bytes b) 0 = Divided (text_bytes (path_text (fst b))) sub \<and>
    (\<exists>j. combiner_divide (block_bytes b) sub = Divided (text_bytes (snd b)) j)"
proof -
  have l: "length (block_bytes b) < size_limit" using assms by (simp add: block_ok_def size_limit_def)
  have "combiner_divide (block_bytes b) (length ([] :: 8 word list)) =
      Divided (text_bytes (path_text (fst b))) (length ([] :: 8 word list) + 8 + length (text_bytes (path_text (fst b))))"
    by (rule divide_at [OF _ l, where behind = "packed (text_bytes (snd b))"]) (simp add: block_bytes_def)
  moreover have "combiner_divide (block_bytes b) (length (packed (text_bytes (path_text (fst b))))) =
      Divided (text_bytes (snd b)) (length (packed (text_bytes (path_text (fst b)))) + 8 + length (text_bytes (snd b)))"
    by (rule divide_at [OF _ l, where behind = "[]"]) (simp add: block_bytes_def)
  ultimately show ?thesis by auto
qed

lemma unpack_one:
  assumes "calm_world w" "canonical t" "block_ok b" "file_place w (t @ fst b)"
    and "bytes = before @ packed (block_bytes b) @ behind" "length bytes < size_limit"
  shows "\<exists>w1. unpack_files t bytes (length before) w =
      unpack_files t bytes (length before + 8 + length (block_bytes b)) w1 \<and>
    fget w1 = (fget w)(t @ fst b \<mapsto> snd b) \<and> opened (t @ fst b) w w1"
proof -
  note b = assms(3) [unfolded block_ok_def]
  have name: "bytes_to_string (path_text (fst b)) = path_text (fst b)"
    using b by (simp add: bytes_to_string_def marked_def)
  have p: "path_append t (path_text (fst b)) = t @ fst b" using b by (simp add: append_relative)
  have c: "to_path (path_text (t @ fst b)) = t @ fst b"
    using b assms(2) by (simp add: to_path_text canonical_append)
  have n: "block_bytes b \<noteq> []"
    by (metis block_bytes_def append_is_Nil_conv length_packed list.size(3) add_is_0 zero_neq_numeral)
  obtain sub j where d: "combiner_divide (block_bytes b) 0 = Divided (text_bytes (path_text (fst b))) sub"
    "combiner_divide (block_bytes b) sub = Divided (text_bytes (snd b)) j"
    using divide_block [OF assms(3)] by blast
  obtain w1 where o: "file_open (path_text (t @ fst b)) mode_write new_file w =
      (Inr ok_res, new_file\<lparr>fo_file_path := path_text (t @ fst b), fo_stream := Some (t @ fst b, mode_write)\<rparr>, w1)"
    "fget w1 = (fget w)(t @ fst b \<mapsto> [])" "opened (t @ fst b) w w1"
    using open_writing [OF assms(1) c assms(4)] by blast
  have "writing (t @ fst b) []
      (new_file\<lparr>fo_file_path := path_text (t @ fst b), fo_stream := Some (t @ fst b, mode_write)\<rparr>) w1"
    using o(2) by (simp add: writing_def new_file_def)
  from writing_more [OF this, of "snd b"] b
  obtain f2 w2 where w2: "file_write_bytes (snd b)
      (new_file\<lparr>fo_file_path := path_text (t @ fst b), fo_stream := Some (t @ fst b, mode_write)\<rparr>) w1 = (ok_res, f2, w2)"
    "fget w2 = (fget w1)(t @ fst b \<mapsto> snd b)" "is_dir w2 = is_dir w1" "calm_world w2 = calm_world w1"
    by (auto simp: block_bytes_def)
  have "unpack_files t bytes (length before) w =
      unpack_files t bytes (length before + 8 + length (block_bytes b)) w2"
    by (subst unpack_files.simps) (simp add: divide_at [OF assms(5,6)] n d name p o(1) w2(1))
  moreover have "fget w2 = (fget w)(t @ fst b \<mapsto> snd b)" using o(2) w2(2) by simp
  moreover have "opened (t @ fst b) w w2" using o(3) w2(3,4) by (simp add: opened_def)
  ultimately show ?thesis by blast
qed

fun put_blocks :: "path \<Rightarrow> (path \<times> string) list \<Rightarrow> (path \<rightharpoonup> string) \<Rightarrow> (path \<rightharpoonup> string)" where
  "put_blocks t [] m = m"
| "put_blocks t (b # bs) m = put_blocks t bs (m(t @ fst b \<mapsto> snd b))"

lemma unpack_end:
  assumes "length bytes < 2 ^ 63"
  shows "unpack_files t bytes (length bytes) w = (Ends ok_res, w)"
proof -
  have "combiner_divide bytes (length bytes) = Divided [] (length bytes)"
    using assms by (simp add: combiner_divide_def size_limit_def)
  then show ?thesis by (simp add: unpack_files.simps)
qed

lemma strict_prefix_under: "strict_prefix (t @ r) (t @ r') \<longleftrightarrow> strict_prefix r r'"
  by (simp add: strict_prefix_def)

lemma file_place_put:
  assumes "file_place w (t @ r)" "file_place w (t @ r')" "\<not> strict_prefix r r'" "\<not> strict_prefix r' r"
    and "fget w1 = (fget w)(t @ r \<mapsto> c)" "opened (t @ r) w w1"
  shows "file_place w1 (t @ r')"
proof -
  have "\<not> strict_prefix (t @ r') (t @ r)" "\<not> strict_prefix (t @ r) (t @ r')"
    using assms(3,4) by (simp_all add: strict_prefix_under)
  then show ?thesis
    using assms(1,2,5,6) strict_prefix_butlast [of "t @ r" "t @ r'"]
    by (auto simp: file_place_def is_file_def opened_def directories_to_def)
qed

lemma unpack_files_ok:
  "calm_world w \<Longrightarrow> canonical t \<Longrightarrow> bytes = before @ concat (map (\<lambda>b. packed (block_bytes b)) bs) \<Longrightarrow>
     length bytes < 2 ^ 63 \<Longrightarrow>
     \<forall>b \<in> set bs. block_ok b \<and> file_place w (t @ fst b) \<and> (\<forall>b' \<in> set bs. \<not> strict_prefix (fst b) (fst b')) \<Longrightarrow>
     \<exists>w1. unpack_files t bytes (length before) w = (Ends ok_res, w1) \<and> fget w1 = put_blocks t bs (fget w)"
proof (induction bs arbitrary: before w)
  case Nil
  then show ?case by (simp add: unpack_end)
next
  case (Cons b bs)
  have e: "bytes = before @ packed (block_bytes b) @ concat (map (\<lambda>b. packed (block_bytes b)) bs)"
    using Cons.prems(3) by simp
  have l: "length bytes < size_limit" using Cons.prems(4) by (simp add: size_limit_def)
  obtain w1 where w1: "unpack_files t bytes (length before) w =
      unpack_files t bytes (length before + 8 + length (block_bytes b)) w1"
    "fget w1 = (fget w)(t @ fst b \<mapsto> snd b)" "opened (t @ fst b) w w1"
    using unpack_one [OF Cons.prems(1,2) _ _ e l] Cons.prems(5) by auto
  have bs: "\<forall>b' \<in> set bs. block_ok b' \<and> file_place w1 (t @ fst b') \<and>
      (\<forall>b'' \<in> set bs. \<not> strict_prefix (fst b') (fst b''))"
  proof
    fix b' assume "b' \<in> set bs"
    then have b: "file_place w (t @ fst b)" "file_place w (t @ fst b')" "\<not> strict_prefix (fst b) (fst b')"
      "\<not> strict_prefix (fst b') (fst b)" "block_ok b'" "\<forall>b'' \<in> set bs. \<not> strict_prefix (fst b') (fst b'')"
      using Cons.prems(5) by auto
    show "block_ok b' \<and> file_place w1 (t @ fst b') \<and> (\<forall>b'' \<in> set bs. \<not> strict_prefix (fst b') (fst b''))"
      using b file_place_put [OF b(1-4) w1(2,3)] by blast
  qed
  have e1: "bytes = (before @ packed (block_bytes b)) @ concat (map (\<lambda>b. packed (block_bytes b)) bs)"
    using e by simp
  have calm: "calm_world w1" using w1(3) by (simp add: opened_def)
  from Cons.IH [OF calm Cons.prems(2) e1 Cons.prems(4) bs] show ?case
    by (simp only: w1(1,2) length_append length_packed put_blocks.simps add.assoc)
qed

lemma put_blocks_other: "\<forall>b \<in> set bs. t @ fst b \<noteq> p \<Longrightarrow> put_blocks t bs m p = m p"
  by (induction bs arbitrary: m) auto

lemma put_blocks_same:
  assumes "(r, c) \<in> set bs" "\<forall>b \<in> set bs. fst b = r \<longrightarrow> snd b = c"
  shows "put_blocks t bs m (t @ r) = Some c"
  using assms
proof (induction bs arbitrary: m)
  case (Cons b bs)
  show ?case
  proof (cases "(r, c) \<in> set bs")
    case True
    then show ?thesis using Cons by simp
  next
    case False
    then have "b = (r, c)" "\<forall>b \<in> set bs. t @ fst b \<noteq> t @ r" using Cons.prems by (cases b; force)+
    then show ?thesis by (simp add: put_blocks_other)
  qed
qed simp

section \<open>The search\<close>

text \<open>A regular file in a directory or below it, on a way of directories.\<close>

definition below :: "'a world_scheme \<Rightarrow> path \<Rightarrow> path \<Rightarrow> bool" where
  "below w d r \<longleftrightarrow>
     list_all plain_name r \<and> is_file w (d @ r) \<and> \<not> is_dir w (d @ r) \<and>
     (\<forall>q. strict_prefix q r \<longrightarrow> is_dir w (d @ q))"

lemma entries_counters [simp]: "entries_of (w\<lparr>io_n := n\<rparr>) d = entries_of w d"
  by (simp add: entries_of_def)

lemma below_counters [simp]: "below (w\<lparr>io_n := n\<rparr>) = below w"
  by (simp add: below_def fun_eq_iff)

lemma open_directory_calm:
  "calm_world w \<Longrightarrow> is_dir w d \<Longrightarrow> open_directory d w = (Inr (entries_of w d), w\<lparr>io_n := Suc (io_n w)\<rparr>)"
  by (simp add: open_directory_def calm_os_io)

lemma entries_of_below:
  assumes "below w d (x # r)"
  shows "d @ [x] \<in> set (entries_of w d)" "below w (d @ [x]) r"
proof -
  have x: "plain_name x" "list_all plain_name r" using assms by (simp_all add: below_def)
  show "below w (d @ [x]) r"
    unfolding below_def
  proof (intro conjI allI impI)
    fix q assume "strict_prefix q r"
    then have "strict_prefix (x # q) (x # r)" by (simp add: strict_prefix_def)
    then have "is_dir w (d @ x # q)" using assms by (simp add: below_def)
    then show "is_dir w ((d @ [x]) @ q)" by simp
  qed (use assms in \<open>auto simp: below_def\<close>)
  have "d @ [x] \<in> set (map fst (files w) @ dirs w)"
  proof (cases r)
    case Nil
    then have "fget w (d @ [x]) \<noteq> None" using assms by (simp add: below_def is_file_def)
    then show ?thesis by (auto simp: fget_def dest!: map_of_SomeD intro: rev_image_eqI)
  next
    case (Cons y r')
    then have "strict_prefix [x] (x # r)" by (simp add: strict_prefix_def)
    then have "is_dir w (d @ [x])" using assms by (simp add: below_def)
    then show ?thesis using x(1) by (auto simp: is_dir_def append_eq_Cons_conv)
  qed
  then show "d @ [x] \<in> set (entries_of w d)" using x(1) by (auto simp: entries_of_def entry_of_def)
qed

text \<open>What a search finds when nothing fails: files below its starting points, and with sub folders and without
  extensions all of them that are not deeper than the bound.\<close>

definition finds :: "nat \<Rightarrow> bool \<Rightarrow> string list \<Rightarrow> path list \<Rightarrow> 'a world_scheme \<Rightarrow> path list \<Rightarrow> bool" where
  "finds n sub exts ps w found \<longleftrightarrow>
     (\<forall>f \<in> set found. is_file w f \<and> (\<exists>p \<in> set ps. \<exists>r. f = p @ r \<and> list_all plain_name r)) \<and>
     (sub \<and> exts = [] \<longrightarrow> (\<forall>p \<in> set ps. \<forall>r. below w p r \<and> length r \<le> n \<longrightarrow> p @ r \<in> set found))"

lemma finds_sound:
  "finds n sub exts ps w found \<Longrightarrow> f \<in> set found \<Longrightarrow>
     is_file w f \<and> (\<exists>p \<in> set ps. \<exists>r. f = p @ r \<and> list_all plain_name r)"
  by (simp add: finds_def)

lemma finds_all:
  "finds n True [] ps w found \<Longrightarrow> p \<in> set ps \<Longrightarrow> below w p r \<Longrightarrow> length r \<le> n \<Longrightarrow> p @ r \<in> set found"
  by (simp add: finds_def)

lemma finds_counters [simp]: "finds n sub exts ps (w\<lparr>io_n := k\<rparr>) = finds n sub exts ps w"
  by (simp add: finds_def fun_eq_iff)

lemma finds_Cons:
  "finds n sub exts [p] w a \<Longrightarrow> finds n sub exts ps w b \<Longrightarrow> finds n sub exts (p # ps) w (a @ b)"
  unfolding finds_def by (auto; blast)

lemma finds_directory:
  assumes "finds n sub exts (entries_of w p) w found" "is_dir w p"
  shows "finds (Suc n) sub exts [p] w found"
  unfolding finds_def
proof (intro conjI ballI impI allI)
  fix f assume "f \<in> set found"
  then obtain q r where f: "is_file w f" "q \<in> set (entries_of w p)" "f = q @ r" "list_all plain_name r"
    using assms(1) unfolding finds_def by blast
  then obtain x where "plain_name x" "q = p @ [x]" by (auto simp: entries_of_def entry_of_iff)
  then show "is_file w f" "\<exists>p' \<in> set [p]. \<exists>r. f = p' @ r \<and> list_all plain_name r"
    using f by (auto intro: exI [of _ "x # r"])
next
  fix q r assume e: "sub \<and> exts = []" and q: "q \<in> set [p]" and r: "below w q r \<and> length r \<le> Suc n"
  then obtain x r' where "r = x # r'" using assms(2) by (cases r) (auto simp: below_def)
  then have "below w p (x # r')" "q = p" "length r' \<le> n" using q r by auto
  note this entries_of_below [OF this(1)]
  then show "q @ r \<in> set found" using assms(1) e \<open>r = x # r'\<close> unfolding finds_def by fastforce
qed

definition found_leaf :: "'a world_scheme \<Rightarrow> string list \<Rightarrow> path \<Rightarrow> path list" where
  "found_leaf w exts p =
     (if is_file w p \<and> (exts = [] \<or> name_extension (last p) \<in> set exts) then [p] else [])"

lemma below_Nil: "below w p [] \<longleftrightarrow> is_file w p \<and> \<not> is_dir w p"
  by (simp add: below_def)

lemma below_no_dir: "below w p r \<Longrightarrow> \<not> is_dir w p \<Longrightarrow> r = []"
  by (cases r) (auto simp: below_def dest: spec [of _ "[]"])

lemma finds_leaf:
  assumes "\<not> (is_dir w p \<and> sub)"
  shows "finds n sub exts [p] w (found_leaf w exts p)"
  using assms below_no_dir [of w p] below_Nil [of w p]
  by (auto simp: finds_def found_leaf_def intro: exI [of _ "[]"])

text \<open>The part of the search that one entry is responsible for.\<close>

definition search_at ::
  "nat \<Rightarrow> bool \<Rightarrow> string list \<Rightarrow> path \<Rightarrow> 'a world_scheme \<Rightarrow> (string + path list) \<times> 'a world_scheme" where
  "search_at n sub exts p w =
     (if is_dir w p \<and> sub
      then
        (if n = 0 then (Inr [], w)
         else
           (case open_directory p w of
              (Inl e, w1) \<Rightarrow> (Inl e, w1)
            | (Inr es, w1) \<Rightarrow> search_files (n - 1) sub exts es w1))
      else (Inr (found_leaf w exts p), w))"

lemma search_files_at:
  "search_at n sub exts p w = (Inr a, w1) \<Longrightarrow> search_files n sub exts ps w1 = (Inr b, w2) \<Longrightarrow>
     search_files n sub exts (p # ps) w = (Inr (a @ b), w2)"
  unfolding search_at_def found_leaf_def search_files.simps by (simp only: prod.case sum.case)

lemma search_files_finds_from:
  fixes w :: "'a world_scheme"
  assumes "\<And>p (w :: 'a world_scheme). calm_world w \<Longrightarrow>
    \<exists>a k. search_at n sub exts p w = (Inr a, w\<lparr>io_n := k\<rparr>) \<and> finds n sub exts [p] w a"
  shows "calm_world w \<Longrightarrow>
    \<exists>found k. search_files n sub exts ps w = (Inr found, w\<lparr>io_n := k\<rparr>) \<and> finds n sub exts ps w found"
proof (induction ps arbitrary: w)
  case Nil
  show ?case by (intro exI [of _ "[]"] exI [of _ "io_n w"]) (simp add: finds_def)
next
  case (Cons p ps)
  obtain a k where a: "search_at n sub exts p w = (Inr a, w\<lparr>io_n := k\<rparr>)" "finds n sub exts [p] w a"
    using assms [OF Cons.prems] by blast
  obtain b k' where b: "search_files n sub exts ps (w\<lparr>io_n := k\<rparr>) = (Inr b, w\<lparr>io_n := k'\<rparr>)"
    "finds n sub exts ps w b"
    using Cons.IH [of "w\<lparr>io_n := k\<rparr>"] Cons.prems by auto
  show ?case using search_files_at [OF a(1) b(1)] finds_Cons [OF a(2) b(2)] by blast
qed

lemma search_files_finds:
  "calm_world w \<Longrightarrow>
     \<exists>found k. search_files n sub exts ps w = (Inr found, w\<lparr>io_n := k\<rparr>) \<and> finds n sub exts ps w found"
proof (induction n arbitrary: ps w)
  case 0
  show ?case
  proof (rule search_files_finds_from [OF _ 0])
    fix p :: path and w :: "'a world_scheme"
    have "is_dir w p \<Longrightarrow> finds 0 sub exts [p] w []" by (auto simp: finds_def below_Nil)
    then show "\<exists>a k. search_at 0 sub exts p w = (Inr a, w\<lparr>io_n := k\<rparr>) \<and> finds 0 sub exts [p] w a"
      using finds_leaf [of w p sub 0 exts]
      by (cases "is_dir w p \<and> sub") (auto simp: search_at_def intro!: exI [of _ "io_n w"])
  qed
next
  case (Suc n)
  show ?case
  proof (rule search_files_finds_from [OF _ Suc.prems])
    fix p :: path and w :: "'a world_scheme"
    assume calm: "calm_world w"
    show "\<exists>a k. search_at (Suc n) sub exts p w = (Inr a, w\<lparr>io_n := k\<rparr>) \<and> finds (Suc n) sub exts [p] w a"
    proof (cases "is_dir w p \<and> sub")
      case True
      obtain a k where "search_files n sub exts (entries_of w p) (w\<lparr>io_n := Suc (io_n w)\<rparr>) = (Inr a, w\<lparr>io_n := k\<rparr>)"
        "finds n sub exts (entries_of w p) w a"
        using Suc.IH [of "w\<lparr>io_n := Suc (io_n w)\<rparr>" "entries_of w p"] calm by auto
      then show ?thesis using True finds_directory [of n sub exts w p a]
        by (auto simp: search_at_def open_directory_calm [OF calm])
    next
      case False
      then have "search_at (Suc n) sub exts p w = (Inr (found_leaf w exts p), w\<lparr>io_n := io_n w\<rparr>)"
        by (simp only: search_at_def if_False) simp
      then show ?thesis using finds_leaf [OF False] by blast
    qed
  qed
qed

text \<open>Both together: what \<open>get_files\<close> finds, and that it finds all.\<close>

lemma length_deepest: "d \<in> set (dirs w) \<Longrightarrow> length d \<le> deepest w"
proof -
  have "d \<in> set ds \<Longrightarrow> length d \<le> foldr (\<lambda>d. max (length d)) ds 0" for ds :: "path list"
    by (induction ds) auto
  then show "d \<in> set (dirs w) \<Longrightarrow> length d \<le> deepest w" by (simp add: deepest_def)
qed

lemma below_deepest:
  assumes "below w d (x # r)"
  shows "length r \<le> deepest w"
proof (cases r rule: rev_cases)
  case (snoc r' y)
  then have "strict_prefix (x # r') (x # r)" by (simp add: strict_prefix_def)
  then have "is_dir w (d @ x # r')" using assms by (simp add: below_def)
  moreover have "plain_name x" using assms by (simp add: below_def)
  ultimately have "d @ x # r' \<in> set (dirs w)" by (auto simp: is_dir_def append_eq_Cons_conv)
  then show ?thesis using length_deepest [of "d @ x # r'" w] snoc by simp
qed simp

lemma get_files_calm:
  assumes "calm_world w" "source \<noteq> []" "is_dir w (to_path source)"
  obtains found k where "get_files source sub exts w = (Ends (Some found, None), w\<lparr>io_n := k\<rparr>)"
    "\<forall>f \<in> set found. is_file w f \<and> (\<exists>r. r \<noteq> [] \<and> f = to_path source @ r \<and> list_all plain_name r)"
    "\<And>r. sub \<Longrightarrow> exts = [] \<Longrightarrow> below w (to_path source) r \<Longrightarrow> to_path source @ r \<in> set found"
proof -
  let ?d = "to_path source" and ?w = "w\<lparr>io_n := Suc (io_n w)\<rparr>"
  obtain found k where s: "search_files (deepest w) sub exts (entries_of w ?d) ?w = (Inr found, w\<lparr>io_n := k\<rparr>)"
    and f: "finds (deepest w) sub exts (entries_of w ?d) w found"
    using search_files_finds [of ?w "deepest w" sub exts "entries_of w ?d"] assms(1) by auto
  have g: "get_files source sub exts w = (Ends (Some found, None), w\<lparr>io_n := k\<rparr>)"
    using assms s by (simp add: get_files_def search_in_def open_directory_calm fexists_def)
  have under: "\<exists>r. r \<noteq> [] \<and> f = ?d @ r \<and> list_all plain_name r" if m: "f \<in> set found" for f
  proof -
    obtain p r where p: "p \<in> set (entries_of w ?d)" "f = p @ r" "list_all plain_name r"
      using finds_sound [OF f m] by blast
    then obtain x where "plain_name x" "p = ?d @ [x]" by (auto simp: entries_of_def entry_of_iff)
    then show ?thesis using p by (intro exI [of _ "x # r"]) simp
  qed
  have all: "?d @ r \<in> set found" if m: "sub" "exts = []" "below w ?d r" for r
  proof -
    obtain x r' where r: "r = x # r'" using m(3) assms(3) by (cases r) (auto simp: below_def)
    have b: "below w ?d (x # r')" using m(3) r by simp
    have "(?d @ [x]) @ r' \<in> set found"
      using finds_all [OF _ entries_of_below [OF b] below_deepest [OF b]] f m(1,2) by simp
    then show ?thesis using r by simp
  qed
  have regular: "is_file w f" if "f \<in> set found" for f using finds_sound [OF f that] by simp
  show thesis by (rule that [OF g]) (use regular under all in blast)+
qed

section \<open>An archive and back\<close>

text \<open>A place where nothing is, not even below it.\<close>

definition vacant :: "'a world_scheme \<Rightarrow> path \<Rightarrow> bool" where
  "vacant w p \<longleftrightarrow> file_place w p \<and> (\<forall>q. prefix p q \<longrightarrow> \<not> fexists w q)"

definition found_files :: "string \<Rightarrow> bool \<Rightarrow> string list \<Rightarrow> 'a world_scheme \<Rightarrow> path list" where
  "found_files source sub exts w =
     (case fst (get_files source sub exts w) of Ends (Some found, _) \<Rightarrow> found | _ \<Rightarrow> [])"

definition relative :: "path \<Rightarrow> path \<Rightarrow> path" where
  "relative source p = drop (length source) p"

definition blocks_of :: "path \<Rightarrow> (path \<rightharpoonup> string) \<Rightarrow> path list \<Rightarrow> (path \<times> string) list" where
  "blocks_of source m ps = map (\<lambda>p. (relative source p, value_or (m p) [])) ps"

lemma archive_blocks: "archive source m ps = concat (map (\<lambda>b. packed (block_bytes b)) (blocks_of source m ps))"
  by (simp add: archive_def blocks_of_def block_bytes_def packed_file_def relative_def comp_def)

lemma block_in_archive: "b \<in> set (blocks_of source m ps) \<Longrightarrow> length (block_bytes b) \<le> length (archive source m ps)"
  by (induction ps) (auto simp: archive_def blocks_of_def block_bytes_def packed_file_def relative_def)

lemma vacant_no_dirs:
  assumes "vacant w a" "fexists w p" "prefix a q"
  shows "\<not> directories_to p q"
proof
  assume "directories_to p q"
  then have "prefix q p" using prefix_order.trans [of q "butlast p" p] by (simp add: directories_to_def prefixeq_butlast)
  then show False using assms by (auto simp: vacant_def dest: prefix_order.trans)
qed

text \<open>The world after the archive \<open>a\<close> of some files was written.\<close>

lemma compression_calm:
  assumes "calm_world w" "source \<noteq> []" "is_dir w (to_path source)" "vacant w (to_path target)"
    and "\<forall>p. is_file w p \<longrightarrow> file_place w p"
    and "length (archive (to_path source) (fget w) (found_files source sub exts w)) < 2 ^ 32"
  shows "\<exists>w1. folder_compression target source sub exts w = (Ends ok_res, w1) \<and> calm_world w1 \<and>
    fget w1 = (fget w)(to_path target \<mapsto>
      bytes_text (archive (to_path source) (fget w) (found_files source sub exts w))) \<and>
    (\<forall>q. is_dir w1 q \<longleftrightarrow> is_dir w q \<or> directories_to (to_path target) q \<or>
       (\<exists>p \<in> set (found_files source sub exts w). directories_to p q))"
proof -
  let ?a = "to_path target" and ?d = "to_path source"
  obtain found k where g: "get_files source sub exts w = (Ends (Some found, None), w\<lparr>io_n := k\<rparr>)"
    and f: "\<forall>f \<in> set found. is_file w f \<and> (\<exists>r. r \<noteq> [] \<and> f = ?d @ r \<and> list_all plain_name r)"
    by (rule get_files_calm [OF assms(1-3)])
  have found: "found_files source sub exts w = found" by (simp add: found_files_def g)
  let ?w = "w\<lparr>io_n := k\<rparr>"
  have "file_place ?w ?a" "calm_world ?w" using assms(1,4) by (simp_all add: vacant_def file_place_def)
  from open_writing [OF this(2) HOL.refl this(1)]
  obtain w1 where o: "file_open target mode_write new_file ?w =
      (Inr ok_res, new_file\<lparr>fo_file_path := target, fo_stream := Some (?a, mode_write)\<rparr>, w1)"
    "fget w1 = (fget w)(?a \<mapsto> [])" "opened ?a ?w w1" by auto
  have ps: "\<forall>p \<in> set found. canonical p \<and> file_place w1 p \<and> p \<noteq> ?a \<and> fget w1 p \<noteq> None"
  proof
    fix p assume "p \<in> set found"
    then obtain r where p: "is_file w p" "p = ?d @ r" "list_all plain_name r" "file_place w p"
      using f assms(5) by blast
    have n: "\<not> prefix ?a p" using assms(4) p(1) by (auto simp: vacant_def fexists_def)
    have "\<not> directories_to ?a p" 
      using p(1) assms(4) strict_prefix_butlast [of ?a p] by (auto simp: directories_to_def vacant_def file_place_def)
    then show "canonical p \<and> file_place w1 p \<and> p \<noteq> ?a \<and> fget w1 p \<noteq> None"
      using p n o(2,3) canonical_append [of ?d r]
      by (auto simp: file_place_def opened_def is_file_def)
  qed
  have e: "archive ?d (fget w1) found = archive ?d (fget w) found"
    using ps by (auto simp: archive_def packed_file_def o(2) intro!: arg_cong [of _ _ concat])
  have wr: "writing ?a [] (new_file\<lparr>fo_file_path := target, fo_stream := Some (?a, mode_write)\<rparr>) w1"
    using o(2) by (simp add: writing_def new_file_def)
  have calm: "calm_world w1" using o(3) by (simp add: opened_def)
  from pack_files_ok [OF calm wr ps, of ?d] assms(6)
  obtain w2 where w2: "pack_files ?d found (new_file\<lparr>fo_file_path := target, fo_stream := Some (?a, mode_write)\<rparr>) w1 =
      (Ends ok_res, w2)" "calm_world w2" "fget w2 = (fget w1)(?a \<mapsto> bytes_text (archive ?d (fget w) found))"
    "\<forall>q. is_dir w2 q \<longleftrightarrow> is_dir w1 q \<or> (\<exists>p \<in> set found. directories_to p q)"
    unfolding e found by auto
  have "folder_compression target source sub exts w = (Ends ok_res, w2)"
    by (simp add: folder_compression_def g o(1) w2(1))
  then show ?thesis using w2 o(2,3) unfolding found by (auto simp: opened_def)
qed

lemma create_folder_calm:
  assumes "calm_world w" "t = to_path target" "t \<noteq> []" "\<not> fexists w t" "\<forall>q. prefix q t \<longrightarrow> \<not> is_file w q"
  shows "\<exists>w1. create_folder target w = (ok_res, w1) \<and> calm_world w1 \<and> fget w1 = fget w \<and>
    (\<forall>q. is_dir w1 q \<longleftrightarrow> is_dir w q \<or> prefix q t)"
proof -
  have "target \<noteq> []" using assms(2,3) by (auto simp: to_path_def is_absolute_def components_def)
  moreover have "\<not> list_ex (is_file w) (prefixes t)" using assms(5) by (simp add: list_ex_iff)
  ultimately show ?thesis using assms(1,4) unfolding assms(2)
    by (auto simp: create_folder_def os_mkdirs_def calm_os_io is_dir_def)
qed

text \<open>Unpacking into a place where nothing is: the blocks become files, nothing else changes.\<close>

lemma decompression_calm:
  assumes "calm_world w" "a = to_path arch" "file_place w a" "fget w a = Some (bytes_text bytes)"
    and t: "t = to_path target" "t \<noteq> []" "\<And>q. prefix t q \<Longrightarrow> \<not> fexists w q \<and> \<not> directories_to a q"
    and above: "\<And>q. prefix q t \<Longrightarrow> \<not> is_file w q"
    and bytes: "bytes = concat (map (\<lambda>b. packed (block_bytes b)) bs)" "length bytes < 2 ^ 32"
    and bs: "\<forall>b \<in> set bs. block_ok b \<and> (\<forall>b' \<in> set bs. \<not> strict_prefix (fst b) (fst b'))"
  shows "\<exists>w1. folder_decompression target arch w = (Ends ok_res, w1) \<and> fget w1 = put_blocks t bs (fget w)"
proof -
  obtain w1 where o: "file_open arch mode_read new_file w =
      (Inr ok_res, new_file\<lparr>fo_file_path := arch, fo_stream := Some (a, mode_read)\<rparr>, w1)"
    "fget w1 = fget w" "opened a w w1"
    using open_reading [OF assms(1) assms(2) [symmetric] assms(3,4)] by blast
  obtain f1 where r: "file_read_bytes (new_file\<lparr>fo_file_path := arch, fo_stream := Some (a, mode_read)\<rparr>) w1 =
      ((Some (bytes_text bytes), None), f1)"
    using reading_all [of w1 a "bytes_text bytes" arch] o(2) assms(4) by auto
  have isf: "is_file w1 = is_file w" by (simp add: is_file_def fun_eq_iff o(2))
  have none: "\<not> fexists w1 q" if "prefix t q" for q
    using t(3) [OF that] o(3) isf by (simp add: fexists_def opened_def)
  obtain w2 where w2: "create_folder target w1 = (ok_res, w2)" "calm_world w2" "fget w2 = fget w1"
    "\<forall>q. is_dir w2 q \<longleftrightarrow> is_dir w1 q \<or> prefix q t"
    using create_folder_calm [of w1 t target] o(3) t(1,2) none above isf by (auto simp: opened_def)
  have file2: "is_file w2 = is_file w" by (simp add: is_file_def fun_eq_iff o(2) w2(3))
  have place: "file_place w2 (t @ r)" if "r \<noteq> []" for r
    unfolding file_place_def
  proof (intro conjI allI impI)
    show "t @ r \<noteq> []" using t(2) by simp
    have "\<not> prefix (t @ r) t" using that by (auto simp: prefix_def)
    then show "\<not> is_dir w2 (t @ r)" using w2(4) none [of "t @ r"] by (simp add: fexists_def)
    fix q assume "strict_prefix q (t @ r)"
    then have "prefix q t \<or> prefix t q" using prefix_same_cases [of q "t @ r" t] by auto
    then show "\<not> is_file w2 q" using above [of q] t(3) [of q] file2 by (auto simp: fexists_def)
  qed
  have "\<exists>w3. unpack_files t bytes (length ([] :: 8 word list)) w2 = (Ends ok_res, w3) \<and> fget w3 = put_blocks t bs (fget w2)"
    by (rule unpack_files_ok) (use w2(2) t(1) bytes bs place in \<open>auto simp: block_ok_def\<close>)
  then show ?thesis
    using o(1,2) r w2(1,3) by (auto simp: folder_decompression_def t(1))
qed

lemma block_ok_found:
  assumes "p = d @ r" "r \<noteq> []" "list_all plain_name r" "\<not> marked (path_text (relative d p))"
    and "p \<in> set ps" "length (archive d m ps) < 2 ^ 32"
  shows "block_ok (relative d p, value_or (m p) [])"
proof -
  have "(relative d p, value_or (m p) []) \<in> set (blocks_of d m ps)" using assms(5) by (simp add: blocks_of_def)
  from block_in_archive [OF this] show ?thesis
    using assms by (simp add: block_ok_def relative_def)
qed

lemma relative_append [simp]: "relative d (d @ r) = r"
  by (simp add: relative_def)

text \<open>What the search says of a file it finds.\<close>

definition found_below :: "'a world_scheme \<Rightarrow> path \<Rightarrow> path list \<Rightarrow> bool" where
  "found_below w d found \<longleftrightarrow>
     (\<forall>p \<in> set found. is_file w p \<and> (\<exists>r. r \<noteq> [] \<and> p = d @ r \<and> list_all plain_name r))"

lemma found_belowE:
  assumes "found_below w d found" "p \<in> set found"
  obtains r where "is_file w p" "r \<noteq> []" "p = d @ r" "list_all plain_name r"
  using assms unfolding found_below_def by blast

lemma found_blocks_ok:
  assumes "found_below w d found" "\<forall>p. is_file w p \<longrightarrow> file_place w p"
    and "\<forall>p \<in> set found. \<not> marked (path_text (relative d p))" "length (archive d (fget w) found) < 2 ^ 32"
  shows "\<forall>b \<in> set (blocks_of d (fget w) found). block_ok b \<and>
    (\<forall>b' \<in> set (blocks_of d (fget w) found). \<not> strict_prefix (fst b) (fst b'))"
proof (intro ballI conjI)
  fix b assume "b \<in> set (blocks_of d (fget w) found)"
  then obtain p where p: "p \<in> set found" "b = (relative d p, value_or (fget w p) [])" by (auto simp: blocks_of_def)
  obtain r where r: "is_file w p" "r \<noteq> []" "p = d @ r" "list_all plain_name r"
    by (rule found_belowE [OF assms(1) p(1)])
  show "block_ok b" using block_ok_found [OF r(3,2,4) _ p(1) assms(4)] assms(3) p by simp
  fix b' assume "b' \<in> set (blocks_of d (fget w) found)"
  then obtain p' where p': "p' \<in> set found" "b' = (relative d p', value_or (fget w p') [])"
    by (auto simp: blocks_of_def)
  obtain r' where r': "is_file w p'" "p' = d @ r'" by (rule found_belowE [OF assms(1) p'(1)])
  have "\<not> strict_prefix p p'" using r(1) r'(1) assms(2) by (auto simp: file_place_def)
  then show "\<not> strict_prefix (fst b) (fst b')" by (simp add: p(2) p'(2) r(3) r'(2) strict_prefix_under)
qed

lemma found_copied:
  assumes "found_below w d found" "p \<in> set found"
  shows "put_blocks t (blocks_of d (fget w) found) m (t @ relative d p) = fget w p"
proof -
  have m: "(relative d p, value_or (fget w p) []) \<in> set (blocks_of d (fget w) found)"
    using assms(2) by (simp add: blocks_of_def)
  have "\<forall>b \<in> set (blocks_of d (fget w) found). fst b = relative d p \<longrightarrow> snd b = value_or (fget w p) []"
    using assms by (auto simp: blocks_of_def found_below_def) (metis relative_append)
  from put_blocks_same [OF m this] show ?thesis
    using assms by (auto simp: found_below_def is_file_def value_or_def split: option.splits)
qed

text \<open>Once the archive is written it can be read, and the target is still vacant.\<close>

lemma places_after_compression:
  assumes "vacant w a" "vacant w t" "\<not> prefix t a" "\<not> prefix a t" "found_below w d found"
    and "fget w1 = (fget w)(a \<mapsto> c)"
    and "\<forall>q. is_dir w1 q \<longleftrightarrow> is_dir w q \<or> directories_to a q \<or> (\<exists>p \<in> set found. directories_to p q)"
  shows "file_place w1 a" "prefix t q \<Longrightarrow> \<not> fexists w1 q \<and> \<not> directories_to a q" "prefix q t \<Longrightarrow> \<not> is_file w1 q"
proof -
  have regular: "is_file w1 q \<longleftrightarrow> is_file w q \<or> q = a" for q by (simp add: is_file_def assms(6))
  have there: "fexists w p" if "p \<in> set found" for p
    using assms(5) that by (simp add: found_below_def fexists_def)
  show "file_place w1 a"
    using assms(1,7) regular vacant_no_dirs [OF assms(1) there, of _ a] strict_prefix_butlast [of a a]
    unfolding vacant_def file_place_def by (auto simp: directories_to_def)
  show "\<not> fexists w1 q \<and> \<not> directories_to a q" if t: "prefix t q"
  proof -
    have "\<not> directories_to a q"
    proof
      assume "directories_to a q"
      then have "prefix q a" by (auto simp: directories_to_def intro: prefix_order.trans [OF _ prefixeq_butlast])
      then show False using t assms(3) prefix_order.trans by blast
    qed
    then show ?thesis
      using t assms(2,3,7) regular vacant_no_dirs [OF assms(2) there t] by (auto simp: vacant_def fexists_def)
  qed
  show "\<not> is_file w1 q" if "prefix q t"
    using that assms(2,4) regular
    by (cases "q = t") (auto simp: vacant_def file_place_def fexists_def strict_prefix_def)
qed

text \<open>C11: Round trip of a directory: when no system call fails, the archive of the files that were found in a source
  directory can be written, and unpacking it into a place where nothing is succeeds and puts a copy of every
  file there, under its path relative to the source, empty files and files of sub directories included. No
  other file is changed. A search with sub directories and without extensions finds every file below the source.
  The places of the archive and of the copy are apart, no name starts with the mark of UTF-8 (which is cut off), and
  the archive is below four gigabytes.\<close>

theorem folder_roundtrip:
  assumes d: "d = to_path source" and a: "a = to_path arch" and t: "t = to_path target"
    and "calm_world w" "source \<noteq> []" "is_dir w d" "\<forall>p. is_file w p \<longrightarrow> file_place w p"
    and "vacant w a" "vacant w t" "\<not> prefix t a" "\<not> prefix a t"
    and "\<forall>p \<in> set (found_files source sub exts w). \<not> marked (path_text (relative d p))"
    and "length (archive d (fget w) (found_files source sub exts w)) < 2 ^ 32"
  shows "\<exists>w1 w2. folder_compression arch source sub exts w = (Ends ok_res, w1) \<and>
    folder_decompression target arch w1 = (Ends ok_res, w2) \<and>
    (\<forall>p \<in> set (found_files source sub exts w). fget w2 (t @ relative d p) = fget w p) \<and>
    (\<forall>p. is_file w p \<longrightarrow> fget w2 p = fget w p) \<and>
    (sub \<and> exts = [] \<longrightarrow> (\<forall>r. below w d r \<longrightarrow> d @ r \<in> set (found_files source sub exts w)))"
proof -
  obtain found k where g: "get_files source sub exts w = (Ends (Some found, None), w\<lparr>io_n := k\<rparr>)"
    and f: "\<forall>f \<in> set found. is_file w f \<and> (\<exists>r. r \<noteq> [] \<and> f = to_path source @ r \<and> list_all plain_name r)"
    and all: "\<And>r. sub \<Longrightarrow> exts = [] \<Longrightarrow> below w (to_path source) r \<Longrightarrow> to_path source @ r \<in> set found"
    by (rule get_files_calm [OF assms(4,5), folded d, OF assms(6)]) (auto simp: d)
  have found: "found_files source sub exts w = found" by (simp add: found_files_def g)
  have below: "found_below w d found" using f by (simp add: found_below_def d)
  let ?bs = "blocks_of d (fget w) found"
  obtain w1 where w1: "folder_compression arch source sub exts w = (Ends ok_res, w1)" "calm_world w1"
    "fget w1 = (fget w)(a \<mapsto> bytes_text (archive d (fget w) found))"
    "\<forall>q. is_dir w1 q \<longleftrightarrow> is_dir w q \<or> directories_to a q \<or> (\<exists>p \<in> set found. directories_to p q)"
    using compression_calm [of w source arch sub exts] assms(4-8,13) unfolding found a d by blast
  note places = places_after_compression [OF assms(8-11) below w1(3,4)]
  have t0: "t \<noteq> []" using assms(9) by (simp add: vacant_def file_place_def)
  have e: "fget w1 a = Some (bytes_text (archive d (fget w) found))" by (simp add: w1(3))
  have short: "length (archive d (fget w) found) < 2 ^ 32" using assms(13) by (simp add: found)
  have bs: "\<forall>b \<in> set ?bs. block_ok b \<and> (\<forall>b' \<in> set ?bs. \<not> strict_prefix (fst b) (fst b'))"
    using found_blocks_ok [OF below assms(7) _ short] assms(12) unfolding found by blast
  obtain w2 where w2: "folder_decompression target arch w1 = (Ends ok_res, w2)" "fget w2 = put_blocks t ?bs (fget w1)"
    using decompression_calm [OF w1(2) a places(1) e t t0 places(2,3) archive_blocks short bs] by blast
  have kept: "fget w2 p = fget w p" if p: "is_file w p" for p
  proof -
    have "\<forall>b \<in> set ?bs. t @ fst b \<noteq> p" using p assms(9) by (auto simp: vacant_def fexists_def)
    moreover have "p \<noteq> a" using p assms(8) by (auto simp: vacant_def fexists_def)
    ultimately show ?thesis by (simp add: w2(2) w1(3) put_blocks_other)
  qed
  show ?thesis
    using w1(1) w2(1) found_copied [OF below] kept all unfolding found w2(2) [symmetric] d by (auto simp: w2(2) d)
qed

lemma file_place_prefixes:
  "file_place w p \<longleftrightarrow> p \<noteq> [] \<and> \<not> is_dir w p \<and> list_all (\<lambda>q. \<not> is_file w q) (prefixes (butlast p))"
  by (auto simp: file_place_def list_all_iff strict_prefix_butlast)

lemma files_placed: "list_all (file_place w) (map fst (files w)) \<Longrightarrow> is_file w p \<longrightarrow> file_place w p"
  by (force simp: list_all_iff is_file_def fget_def dest: map_of_SomeD)

lemma vacant_listed:
  assumes "file_place w p" "list_all (\<lambda>q. \<not> prefix p q) (map fst (files w) @ dirs w)"
  shows "vacant w p"
proof -
  have "\<not> fexists w q" if q: "prefix p q" for q
  proof
    assume "fexists w q"
    moreover have "q \<noteq> []" "q \<noteq> [''/'']"
      using q assms(1) by (auto simp: file_place_def is_dir_def prefix_Cons)
    ultimately have "q \<in> set (map fst (files w) @ dirs w)"
      by (auto simp: fexists_def is_file_def is_dir_def fget_def dest!: map_of_SomeD intro: rev_image_eqI)
    then show False using assms(2) q by (auto simp: list_all_iff)
  qed
  then show ?thesis using assms(1) by (simp add: vacant_def)
qed

definition demo_tree :: world where
  "demo_tree =
     \<lparr>files = [([''data'', ''a.txt''], ''hello''), ([''data'', ''sub'', ''b''], [])],
      dirs = [[''data''], [''data'', ''sub'']],
      clock = (\<lambda>n. 0), clock_n = 0, guids = (\<lambda>n. []), guid_n = 0, fault = (\<lambda>n. None), io_n = 0\<rparr>"

lemma demo_tree_found:
  "found_files ''data'' True [] demo_tree = [[''data'', ''a.txt''], [''data'', ''sub'', ''b'']]"
  by code_simp

theorem folder_roundtrip_witness:
  "\<exists>w1 w2. folder_compression ''out/tree.bin'' ''data'' True [] demo_tree = (Ends ok_res, w1) \<and>
     folder_decompression ''copy'' ''out/tree.bin'' w1 = (Ends ok_res, w2) \<and>
     fget w2 [''copy'', ''a.txt''] = Some ''hello'' \<and> fget w2 [''copy'', ''sub'', ''b''] = Some []"
proof -
  have d: "[''data''] = to_path ''data''" "[''out'', ''tree.bin''] = to_path ''out/tree.bin''" "[''copy''] = to_path ''copy''"
    by code_simp+
  have calm: "calm_world demo_tree" by (simp add: calm_world_def demo_tree_def)
  have dir: "is_dir demo_tree [''data'']" by code_simp
  have "list_all (file_place demo_tree) (map fst (files demo_tree))"
    by (simp add: file_place_prefixes demo_tree_def is_dir_def is_file_def fget_def)
  then have placed: "\<forall>p. is_file demo_tree p \<longrightarrow> file_place demo_tree p" using files_placed by blast
  have arch: "vacant demo_tree [''out'', ''tree.bin'']" and target: "vacant demo_tree [''copy'']"
    by (rule vacant_listed; simp add: file_place_prefixes demo_tree_def is_dir_def is_file_def fget_def)+
  have apart: "\<not> prefix [''copy''] [''out'', ''tree.bin'']" "\<not> prefix [''out'', ''tree.bin''] [''copy'']" by simp_all
  have names: "\<forall>p \<in> set (found_files ''data'' True [] demo_tree). \<not> marked (path_text (relative [''data''] p))"
    unfolding demo_tree_found by (simp add: marked_def relative_def path_text_def)
  have short: "length (archive [''data''] (fget demo_tree) (found_files ''data'' True [] demo_tree)) < 2 ^ 32"
    unfolding demo_tree_found
    by (simp add: archive_def packed_file_def path_text_def demo_tree_def fget_def value_or_def)
  have nonempty: "''data'' \<noteq> []" by simp
  from folder_roundtrip [OF d calm nonempty dir placed arch target apart names short]
  show ?thesis unfolding demo_tree_found
    by (auto simp: relative_def) (simp_all add: demo_tree_def fget_def)
qed

end
