(* ===== verification/SQL_Statement.thy ===== *)
theory SQL_Statement
  imports Prelude Complex_Main "HOL-Library.Word"
begin

text \<open>
  The class \<open>SQLiteStatement\<close> of \<open>CommonLibrary/DataBase/SQLite.cpp\<close>: a prepared statement, its bindings and the
  columns of its row. The C library is not in the repository: \<open>sqlite_api\<close> is the part of its interface the class
  calls, over a state of the library; a call that may fail gives its result code. The adapters are modelled
  over \<open>SQL_Store\<close>, where a prepared statement runs as a whole; this theory is the wrapper itself.
\<close>

datatype sql_value =
    SQL_Int int | SQL_Int64 int | SQL_Double rat | SQL_Text string | SQL_Blob "8 word list" | SQL_Null

record 's sqlite_api =
  sa_step :: "'s \<Rightarrow> int \<times> 's"
  sa_reset :: "'s \<Rightarrow> int \<times> 's"
  sa_clear_bindings :: "'s \<Rightarrow> int \<times> 's"
  sa_bind :: "int \<Rightarrow> sql_value \<Rightarrow> 's \<Rightarrow> int \<times> 's"
  sa_finalize :: "'s \<Rightarrow> 's"
  sa_errmsg :: "'s \<Rightarrow> string"
  sa_column_count :: "'s \<Rightarrow> int"
  sa_column_name :: "int \<Rightarrow> 's \<Rightarrow> string option"
  sa_column_type :: "int \<Rightarrow> 's \<Rightarrow> int"
  sa_column_int :: "int \<Rightarrow> 's \<Rightarrow> int"
  sa_column_int64 :: "int \<Rightarrow> 's \<Rightarrow> int"
  sa_column_double :: "int \<Rightarrow> 's \<Rightarrow> rat"
  sa_column_text :: "int \<Rightarrow> 's \<Rightarrow> string option"
  sa_column_bytes :: "int \<Rightarrow> 's \<Rightarrow> int"
  sa_column_blob :: "int \<Rightarrow> 's \<Rightarrow> 8 word list option"

text \<open>Whether the two pointers of the object are set.\<close>

record statement =
  st_handle :: bool
  st_statement :: bool

definition sqlite_ok :: int where "sqlite_ok = 0"
definition sqlite_misuse :: int where "sqlite_misuse = 21"
definition sqlite_null :: int where "sqlite_null = 5"

definition error_message :: "'s sqlite_api \<Rightarrow> statement \<Rightarrow> string \<Rightarrow> 's \<Rightarrow> string" where
  "error_message A st context_text s =
     (if \<not> st_handle st then context_text else context_text @ '' : '' @ sa_errmsg A s)"

definition statement_step :: "'s sqlite_api \<Rightarrow> statement \<Rightarrow> 's \<Rightarrow> int \<times> 's" where
  "statement_step A st s = (if \<not> st_statement st then (sqlite_misuse, s) else sa_step A s)"

text \<open>The frame every other call that may fail has.\<close>

definition checked ::
  "'s sqlite_api \<Rightarrow> statement \<Rightarrow> string \<Rightarrow> ('s \<Rightarrow> int \<times> 's) \<Rightarrow> 's \<Rightarrow> res \<times> 's" where
  "checked A st failure call s =
     (if \<not> st_statement st then (err_res ''statement is null'', s)
      else
        (case call s of
           (r, s1) \<Rightarrow> (if r \<noteq> sqlite_ok then err_res (error_message A st failure s1) else ok_res, s1)))"

definition statement_reset :: "'s sqlite_api \<Rightarrow> statement \<Rightarrow> 's \<Rightarrow> res \<times> 's" where
  "statement_reset A st = checked A st ''cannot reset statement'' (sa_reset A)"

definition clear_bindings :: "'s sqlite_api \<Rightarrow> statement \<Rightarrow> 's \<Rightarrow> res \<times> 's" where
  "clear_bindings A st = checked A st ''cannot clear bindings'' (sa_clear_bindings A)"

definition bind_int :: "'s sqlite_api \<Rightarrow> statement \<Rightarrow> int \<Rightarrow> int \<Rightarrow> 's \<Rightarrow> res \<times> 's" where
  "bind_int A st i n = checked A st ''cannot bind int'' (sa_bind A i (SQL_Int n))"

definition bind_int64 :: "'s sqlite_api \<Rightarrow> statement \<Rightarrow> int \<Rightarrow> int \<Rightarrow> 's \<Rightarrow> res \<times> 's" where
  "bind_int64 A st i n = checked A st ''cannot bind int64'' (sa_bind A i (SQL_Int64 n))"

definition bind_double :: "'s sqlite_api \<Rightarrow> statement \<Rightarrow> int \<Rightarrow> rat \<Rightarrow> 's \<Rightarrow> res \<times> 's" where
  "bind_double A st i x = checked A st ''cannot bind double'' (sa_bind A i (SQL_Double x))"

text \<open>The size is cast to a 32-bit integer; with a negative size the library takes the text up to its first zero byte,
  and refuses a blob. A vector without bytes has no address, and without an address NULL is bound.\<close>

definition bound_text :: "string \<Rightarrow> string" where
  "bound_text t =
     (let size = i32 (int (length t))
      in if size < 0 then takeWhile (\<lambda>c. c \<noteq> CHR 0x00) t else take (nat size) t)"

definition bind_text :: "'s sqlite_api \<Rightarrow> statement \<Rightarrow> int \<Rightarrow> string \<Rightarrow> 's \<Rightarrow> res \<times> 's" where
  "bind_text A st i t = checked A st ''cannot bind text'' (sa_bind A i (SQL_Text (bound_text t)))"

definition bind_blob :: "'s sqlite_api \<Rightarrow> statement \<Rightarrow> int \<Rightarrow> 8 word list \<Rightarrow> 's \<Rightarrow> res \<times> 's" where
  "bind_blob A st i b =
     checked A st ''cannot bind blob''
       (if i32 (int (length b)) < 0 then (\<lambda>s. (sqlite_misuse, s))
        else sa_bind A i (if b = [] then SQL_Null else SQL_Blob (take (nat (i32 (int (length b)))) b)))"

definition bind_null :: "'s sqlite_api \<Rightarrow> statement \<Rightarrow> int \<Rightarrow> 's \<Rightarrow> res \<times> 's" where
  "bind_null A st i = checked A st ''cannot bind null'' (sa_bind A i SQL_Null)"

definition column_count :: "'s sqlite_api \<Rightarrow> statement \<Rightarrow> 's \<Rightarrow> int" where
  "column_count A st s = (if \<not> st_statement st then 0 else sa_column_count A s)"

definition column_name :: "'s sqlite_api \<Rightarrow> statement \<Rightarrow> int \<Rightarrow> 's \<Rightarrow> string" where
  "column_name A st i s = (if \<not> st_statement st then [] else value_or (sa_column_name A i s) [])"

definition column_type :: "'s sqlite_api \<Rightarrow> statement \<Rightarrow> int \<Rightarrow> 's \<Rightarrow> int" where
  "column_type A st i s = (if \<not> st_statement st then sqlite_null else sa_column_type A i s)"

definition column_int :: "'s sqlite_api \<Rightarrow> statement \<Rightarrow> int \<Rightarrow> 's \<Rightarrow> int" where
  "column_int A st i s = (if \<not> st_statement st then 0 else sa_column_int A i s)"

definition column_int64 :: "'s sqlite_api \<Rightarrow> statement \<Rightarrow> int \<Rightarrow> 's \<Rightarrow> int" where
  "column_int64 A st i s = (if \<not> st_statement st then 0 else sa_column_int64 A i s)"

definition column_double :: "'s sqlite_api \<Rightarrow> statement \<Rightarrow> int \<Rightarrow> 's \<Rightarrow> rat" where
  "column_double A st i s = (if \<not> st_statement st then 0 else sa_column_double A i s)"

definition column_chars :: "'s sqlite_api \<Rightarrow> statement \<Rightarrow> int \<Rightarrow> 's \<Rightarrow> string" where
  "column_chars A st i s =
     (if \<not> st_statement st then [] else takeWhile (\<lambda>c. c \<noteq> CHR 0x00) (value_or (sa_column_text A i s) []))"

definition column_blob :: "'s sqlite_api \<Rightarrow> statement \<Rightarrow> int \<Rightarrow> 's \<Rightarrow> 8 word list" where
  "column_blob A st i s =
     (if \<not> st_statement st then []
      else
        let size = sa_column_bytes A i s
        in if size \<le> 0 then []
           else (case sa_column_blob A i s of None \<Rightarrow> [] | Some bytes \<Rightarrow> take (nat size) bytes))"

definition finalize :: "'s sqlite_api \<Rightarrow> statement \<Rightarrow> 's \<Rightarrow> statement \<times> 's" where
  "finalize A st s = (if \<not> st_statement st then (st, s) else (st\<lparr>st_statement := False\<rparr>, sa_finalize A s))"

section \<open>Properties\<close>

text \<open>A finalized statement is finalized once, and no call reaches the library any more.\<close>

lemma finalize_once:
  assumes "finalize A st s = (st', s')"
  shows "finalize A st' s' = (st', s')" "checked A st' failure call s' = (err_res ''statement is null'', s')"
    "statement_step A st' s' = (sqlite_misuse, s')"
  using assms by (auto simp: finalize_def checked_def statement_step_def split: if_splits)

text \<open>A text that is bound and read again is cut at its first zero byte; below two gigabytes that is all.\<close>

lemma bound_text_whole: "length t < 2 ^ 31 \<Longrightarrow> bound_text t = t"
proof -
  assume "length t < 2 ^ 31"
  then have "in_i32 (int (length t))" by (simp add: in_i32_def)
  then show ?thesis by (simp add: bound_text_def)
qed

lemma bound_text_column:
  assumes "length t < 2 ^ 31" "sa_column_text A i s = Some (bound_text t)" "st_statement st"
  shows "column_chars A st i s = takeWhile (\<lambda>c. c \<noteq> CHR 0x00) t"
  using assms by (simp add: column_chars_def bound_text_whole value_or_def)

end
