(* ===== verification/Spec2Isabelle.thy ===== *)
theory Spec2Isabelle
  imports Daemon_Properties FileSystem_Properties SQLite_Properties Hybrid_Properties Main_Program
    Converter Combiner Client_Properties Thread_Pool_Properties Log_Thread Compressor Folder_Archive
    SQL_Statement
begin

text \<open>
  A verification library for the message queue daemon, its command line clients and the common library they
  are built on. Paths of sources are relative to \<open>src\<close>.

  \<^bold>\<open>The program.\<close> A client writes a request file into a directory (the mailbox) and waits for a response file.
  The daemon (\<open>MainMQ\<close>) takes the request, checks it, runs a command on a storage adapter and writes the
  response. A message is published, leased by a consumer for a limited time, acknowledged, or given back; two
  sweeps of the queue manager make messages with expired leases and due delayed messages ready again, or move
  them to the dead letter queue when they were tried too often. Three adapters store messages: files, an SQL
  database, and a hybrid with the index in the database and the payloads in files.

  \<^bold>\<open>Theories and sources.\<close>
  \<^item> \<open>Prelude\<close>, \<open>Doubles\<close>, \<open>Number_Text\<close>: results, signed 32-bit and 64-bit integers, IEEE doubles as rationals,
    and the number readers of the C++ library.
  \<^item> \<open>OS_World\<close>: files, directories, clock, identifiers and a schedule of faults, with the system calls the
    program makes. Every record of a component that uses files extends its \<open>world\<close>.
  \<^item> \<open>Json\<close>: JSON values as the program reads and builds them; printer, parser and the texts of exceptions are
    the parameter \<open>json_lib\<close>, and \<open>json_ok\<close> says that what was printed is parsed back.
  \<^item> \<open>Backend_Types\<close>: the records of \<open>BackendAdapter.h\<close>; an adapter is a record of operations over its own state.
    \<open>Backend_Contract\<close>: the locale \<open>message_store\<close>, what the rest of the daemon relies on.
  \<^item> \<open>FileSystem_Adapter\<close> (\<open>BackendAdapter/FileSystemAdapter.cpp\<close>), with \<open>FileSystem_View\<close>, \<open>FileSystem_Steps\<close>,
    \<open>FileSystem_Lifecycle\<close>, \<open>FileSystem_Machine\<close>, \<open>FileSystem_Progress\<close>, \<open>FileSystem_Delivery\<close>,
    \<open>FileSystem_Contract\<close> and \<open>FileSystem_Properties\<close>.
  \<^item> \<open>SQL_Statement\<close> and \<open>SQL_Store\<close> (\<open>DataBase/SQLite.cpp\<close>, \<open>sqlite_schema.sql\<close>) and \<open>SQLite_Adapter\<close>
    (\<open>BackendAdapter/SQLiteAdapter.cpp\<close>), with \<open>SQLite_Tables\<close>, \<open>SQLite_Contract\<close>, \<open>SQLite_Effects\<close> and
    \<open>SQLite_Properties\<close>.
  \<^item> \<open>SQL_Text\<close>, \<open>Hybrid_Statements\<close>, \<open>Hybrid_Adapter\<close> and \<open>Hybrid_Consistency\<close>
    (\<open>BackendAdapter/HybridAdapter.cpp\<close>), with \<open>Hybrid_Effects\<close> and \<open>Hybrid_Properties\<close>.
  \<^item> \<open>Queue_Manager\<close>, \<open>Message_Validator\<close>, \<open>Mailbox_Handler\<close>, \<open>Configurations\<close>, \<open>Main_Program\<close>: the sources of
    these names in \<open>MainMQ\<close>; \<open>Mailbox_Safety\<close> and \<open>Daemon\<close> put them together over an adapter that fulfils the
    contract, \<open>Daemon_Properties\<close> and \<open>SQLite_Properties\<close> over two of the adapters.
    \<open>Configuration_Properties\<close> is about the settings.
  \<^item> \<open>Client_Request\<close>, \<open>Publisher_Client\<close>, \<open>Consumer_Client\<close>, \<open>Client_Properties\<close>: the two programs under
    \<open>Samples\<close>.
  \<^item> \<open>Argument_Parser\<close>, \<open>Generator\<close>, \<open>Converter\<close>, \<open>Combiner\<close>, \<open>File_Stream\<close> (\<open>File.cpp\<close>), \<open>Compressor\<close>, \<open>Folder\<close> with
    \<open>Folder_Archive\<close>, \<open>Log_Writer\<close> and \<open>Log_Thread\<close> (\<open>Logger.cpp\<close>, \<open>Log.cpp\<close>): \<open>CommonLibrary/Utilities\<close>.
  \<^item> \<open>Job\<close>, \<open>Job_Pool\<close>, \<open>Thread_Worker\<close>, \<open>Thread_Pool\<close>, \<open>Thread_Pool_Properties\<close>: \<open>CommonLibrary/ThreadPool\<close>.

  \<^bold>\<open>How code is translated.\<close> A method is a function from the state of its object to its result and the state
  afterwards; the state of an object that works on files or tables extends the state of the system it works
  on. Early returns, error results and exceptions are values. Every method that takes the mutex of its object
  is one step; calls of several threads are sequences of such steps (\<open>fs_run\<close>, \<open>daemon_run\<close>), and
  where the order inside a call matters the steps are smaller (\<open>pool_step\<close>, \<open>log_step\<close>). Integers of 32 and 64 bits
  wrap in \<open>i32\<close>, \<open>i64\<close> or are words. Behaviour that C++ leaves undefined is a value of its own.

  \<^bold>\<open>What the lemmas show.\<close>
  \<^item> Contract and refinement: \<open>message_store\<close> states that no operation but an acknowledgement makes the store
    forget a message or change its content. \<open>FileSystem_View\<close> abstracts a directory tree to a place and a body
    for each message, and \<open>FileSystem_Lifecycle\<close> shows which edges of the life cycle each operation may take,
    on every branch and for every fault. \<open>SQLite_Tables\<close> follows transactions with a rule per combinator, so
    that each operation commits its whole effect or nothing. The interpretations \<open>fs\<close> and \<open>sq\<close> discharge the
    contract; \<open>Daemon\<close> proves from it that a published message stays stored until it is acknowledged.
  \<^item> Single operations: acknowledgement, lease, sweeps, dead letters, policies and metrics of each adapter, when
    nothing fails and when something fails; a lease request on files that nothing disturbs delivers exactly when
    a message is ready for the consumer (\<open>FileSystem_Delivery\<close>); the defects of the code are stated as theorems too (the
    acknowledgement of the SQL adapter, the payloads of the hybrid adapter, the wrap-around of the linear
    backoff, the decoder of base64, the restart of a thread pool, the options of the consumer).
  \<^item> Checking: the validator accepts exactly the payloads its rules describe; loaded and validated settings are
    in their ranges whatever the file says.
  \<^item> Round trips: requests of the publisher, policies, arguments, base64, packed sequences, lines of a file,
    compressed blocks, and the archive of a directory.
  \<^item> Thread pool and logger: \<open>conserved\<close> and \<open>stop_inv\<close> are invariants of every interleaving, by rule induction on
    \<open>pool_run\<close>; \<open>log_inv\<close> is one of \<open>log_run\<close>, and \<open>hanging\<close> is a set of states that no step but a spurious wake-up
    leaves.
  \<^item> Termination: loops over data are structural; the placeholder loop of the hybrid adapter and the waiting
    loop of a client are \<open>partial_function\<close>s whose result None is a loop that does not end, with theorems that
    say when they end. Two functions have a bound as an argument: \<open>divide_all\<close> the number of parts, and the
    searches of \<open>Folder\<close> the depth of the directories, for which \<open>deepest\<close> is enough (\<open>get_files_calm\<close>).

  \<^bold>\<open>Parameters.\<close> \<open>json_lib\<close>: the JSON library. \<open>sql_engine\<close>, \<open>sql_reader\<close> and \<open>sqlite_api\<close>: the SQL library (failures, order of
  rows, meaning of a statement whose text was broken by a quote in a value). \<open>validator_env\<close>: regular
  expressions and the text of a double. The fields of \<open>world\<close>: clock, identifiers and faults, so that theorems
  quantify over all of them. The content of memory outside an array (\<open>Job\<close>). \<open>lz4\<close>:
  the streaming interface of the LZ4 library, with \<open>lossless\<close> as what it promises. What other processes do while a
  client sleeps (\<open>Client_Request\<close>).

  \<^bold>\<open>Not modelled.\<close> The threads of the daemon beyond the order of their calls, signals, and the waiting of the
  sweeps. The conversions of wide strings, which are single calls of a library. \<open>FolderWatcher.cpp\<close>, a layer over a
  library that is not in the repository. The test programs.
\<close>

end
